(* ===== verification/Prelude.thy ===== *)
theory Prelude imports Main "HOL-Library.Sublist" begin

text \<open>
  What every component shares: the units of time of the model, the sequencing of fallible
  steps (\<open>and_then\<close>, the \<open>?\<close> operator of the sources), the lemma collections of the
  development and generic lemmas on lists that several components use.
\<close>

named_theorems inv_intros \<open>operations that keep a component's invariant\<close>
named_theorems get_simps \<open>what a lookup returns after an operation\<close>

text \<open>
  Instants are nanoseconds since the epoch, durations are nanoseconds. \<open>SEC\<close> is one second.
\<close>

type_synonym time = int
type_synonym duration = nat

abbreviation SEC :: nat where "SEC \<equiv> 1000000000"

text \<open>
  A fallible step followed by another one: an error is returned at once.
\<close>

definition and_then :: "('e + 'a) \<Rightarrow> ('a \<Rightarrow> 'e + 'b) \<Rightarrow> 'e + 'b" where
  "and_then m f = (case m of Inl e \<Rightarrow> Inl e | Inr x \<Rightarrow> f x)"

lemma and_then_simps [simp]:
  "and_then (Inl e) f = Inl e"
  "and_then (Inr x) f = f x"
  by (simp_all add: and_then_def)

lemma and_then_Inr_iff:
  "and_then m f = Inr y \<longleftrightarrow> (\<exists>x. m = Inr x \<and> f x = Inr y)"
  by (cases m) auto

lemma and_then_Inl_iff:
  "and_then m f = Inl e \<longleftrightarrow> m = Inl e \<or> (\<exists>x. m = Inr x \<and> f x = Inl e)"
  by (cases m) auto

lemma and_then_assoc: "and_then (and_then m f) g = and_then m (\<lambda>x. and_then (f x) g)"
  by (cases m) simp_all

fun map_err :: "('e \<Rightarrow> 'f) \<Rightarrow> 'e + 'a \<Rightarrow> 'f + 'a" where
  "map_err f (Inl e) = Inl (f e)"
| "map_err f (Inr x) = Inr x"

lemma map_err_Inr_iff [simp]: "map_err f m = Inr x \<longleftrightarrow> m = Inr x"
  by (cases m) auto

lemma map_err_Inl_iff: "map_err f m = Inl e' \<longleftrightarrow> (\<exists>e. m = Inl e \<and> e' = f e)"
  by (cases m) auto

text \<open>
  A fallible step on a state, followed by another one. The state of a failed step is the one
  it left behind: nothing is rolled back.
\<close>

definition seq_op ::
    "('s \<Rightarrow> ('e + 'a) \<times> 's) \<Rightarrow> ('a \<Rightarrow> 's \<Rightarrow> ('e + 'b) \<times> 's) \<Rightarrow> 's \<Rightarrow> ('e + 'b) \<times> 's" where
  "seq_op m f s = (case m s of (Inl e, s') \<Rightarrow> (Inl e, s') | (Inr x, s') \<Rightarrow> f x s')"

definition lift_res :: "'e + 'a \<Rightarrow> 's \<Rightarrow> ('e + 'a) \<times> 's" where
  "lift_res r s = (r, s)"

lemma seq_op_simps [simp]:
  "m s = (Inl e, s') \<Longrightarrow> seq_op m f s = (Inl e, s')"
  "m s = (Inr x, s') \<Longrightarrow> seq_op m f s = f x s'"
  by (simp_all add: seq_op_def)

lemma seq_op_lift [simp]:
  "seq_op (lift_res (Inl e)) f s = (Inl e, s)"
  "seq_op (lift_res (Inr x)) f s = f x s"
  by (simp_all add: seq_op_def lift_res_def)

lemma seq_op_Inr_iff:
  "seq_op m f s = (Inr y, s2) \<longleftrightarrow> (\<exists>x s1. m s = (Inr x, s1) \<and> f x s1 = (Inr y, s2))"
  by (auto simp: seq_op_def split: prod.splits sum.splits)

lemma seq_op_Inl_iff:
  "seq_op m f s = (Inl e, s2) \<longleftrightarrow>
     m s = (Inl e, s2) \<or> (\<exists>x s1. m s = (Inr x, s1) \<and> f x s1 = (Inl e, s2))"
  by (auto simp: seq_op_def split: prod.splits sum.splits)

text \<open>\<open>Iterator::find_map\<close>: the first result there is.\<close>

fun find_map :: "('a \<Rightarrow> 'b option) \<Rightarrow> 'a list \<Rightarrow> 'b option" where
  "find_map f [] = None"
| "find_map f (x # xs) = (case f x of Some y \<Rightarrow> Some y | None \<Rightarrow> find_map f xs)"

text \<open>
  Keeping the first occurrence of every element: the de-duplication the pollers and the
  candidate lists perform with a set of the elements met so far.
\<close>

fun dedup_from :: "'a set \<Rightarrow> 'a list \<Rightarrow> 'a list" where
  "dedup_from S [] = []"
| "dedup_from S (x # xs) =
     (if x \<in> S then dedup_from S xs else x # dedup_from (insert x S) xs)"

lemma set_dedup_from [simp]: "set (dedup_from S xs) = set xs - S"
  by (induction S xs rule: dedup_from.induct) auto

lemma distinct_dedup_from [simp]: "distinct (dedup_from S xs)"
  by (induction S xs rule: dedup_from.induct) auto

lemma dedup_from_append:
  "dedup_from S (xs @ ys) = dedup_from S xs @ dedup_from (S \<union> set xs) ys"
proof (induction S xs rule: dedup_from.induct)
  case (2 S x xs)
  then show ?case by (cases "x \<in> S") (auto simp: insert_absorb Un_assoc Un_insert_left)
qed simp

lemma dedup_from_id: "distinct xs \<Longrightarrow> set xs \<inter> S = {} \<Longrightarrow> dedup_from S xs = xs"
  by (induction S xs rule: dedup_from.induct) auto

lemma dedup_from_subset: "set xs \<subseteq> S \<Longrightarrow> dedup_from S xs = []"
  by (induction S xs rule: dedup_from.induct) auto

lemma length_dedup_from_le: "length (dedup_from S xs) \<le> length xs"
  by (induction S xs rule: dedup_from.induct) (auto intro: le_SucI)

text \<open>Cutting a list at the first element of a kind.\<close>

lemma takeWhile_append_stop:
  "\<exists>x\<in>set xs. \<not> P x \<Longrightarrow> takeWhile P (xs @ ys) = takeWhile P xs"
  by (induction xs) auto

lemma takeWhile_append_all:
  "\<forall>x\<in>set xs. P x \<Longrightarrow> takeWhile P (xs @ ys) = xs @ takeWhile P ys"
  by (induction xs) auto

lemma dropWhile_length_Cons [termination_simp]:
  "length (dropWhile P xs) < Suc (length xs)"
  using length_dropWhile_le [of P xs] by simp

lemma split_first:
  "c \<in> set xs \<Longrightarrow>
     xs = takeWhile (\<lambda>x. x \<noteq> c) xs @ c # tl (dropWhile (\<lambda>x. x \<noteq> c) xs)"
  by (induction xs) auto

lemma dropWhile_rev_idem: "dropWhile P (rev (dropWhile P (rev (dropWhile P xs)))) =
    rev (dropWhile P (rev (dropWhile P xs)))"
proof (cases "dropWhile P xs = []")
  case False
  then have hd: "\<not> P (hd (dropWhile P xs))" by (rule hd_dropWhile)
  define ys where "ys = dropWhile P xs"
  have ne: "ys \<noteq> []" "\<not> P (hd ys)" using False hd by (simp_all add: ys_def)
  have last: "last (rev ys) = hd ys" using ne by (simp add: last_rev)
  have "\<exists>z. z \<in> set (rev ys) \<and> \<not> P z" using ne by (metis hd_in_set set_rev)
  then have nonnil: "dropWhile P (rev ys) \<noteq> []" by (metis dropWhile_eq_Nil_conv)
  have "hd (rev (dropWhile P (rev ys))) = last (dropWhile P (rev ys))"
    using nonnil by (simp add: hd_rev)
  also have "\<dots> = hd ys" using nonnil last by (metis last_appendR takeWhile_dropWhile_id)
  finally have "\<not> P (hd (rev (dropWhile P (rev ys))))" using ne by simp
  then show ?thesis
    using nonnil unfolding ys_def [symmetric] by (metis dropWhile_eq_self_iff)
next
  case True
  then show ?thesis by (simp only: rev.simps dropWhile.simps)
qed

end
