(* ===== verification/RustStr.thy ===== *)
theory RustStr imports Prelude "HOL-Library.Char_ord" "HOL-Library.List_Lexorder" begin

text \<open>
  The string operations of the standard library that the sources call. A \<open>String\<close> is its
  UTF-8 bytes, one \<open>char\<close> per byte; an operation that works on characters splits the bytes
  into characters first (\<open>chars\<close>).
\<close>

subsection \<open>Bytes and characters\<close>

definition byte :: "char \<Rightarrow> nat" where
  "byte c = of_char c"

definition is_cont :: "char \<Rightarrow> bool" where
  "is_cont c \<longleftrightarrow> 128 \<le> byte c \<and> byte c < 192"

text \<open>
  A character is a byte and the continuation bytes that follow it. On valid UTF-8 these are
  the scalar values; on any byte string the characters still join up to the string.
\<close>

fun chars :: "string \<Rightarrow> string list" where
  "chars [] = []"
| "chars (b # bs) = (b # takeWhile is_cont bs) # chars (dropWhile is_cont bs)"

lemma concat_chars [simp]: "concat (chars s) = s"
  by (induction s rule: chars.induct) simp_all

lemma chars_eq_Nil_iff [simp]: "chars s = [] \<longleftrightarrow> s = []"
  by (cases s) simp_all

text \<open>
  \<open>std::str::from_utf8\<close>: the well-formed byte sequences of the Unicode standard
  (no overlong forms, no surrogates, nothing above U+10FFFF).
\<close>

fun utf8_valid :: "string \<Rightarrow> bool" where
  "utf8_valid [] = True"
| "utf8_valid (a # s) =
    (if byte a < 128 then utf8_valid s
     else if 194 \<le> byte a \<and> byte a < 224 then
       (case s of b # s' \<Rightarrow> is_cont b \<and> utf8_valid s' | _ \<Rightarrow> False)
     else if 224 \<le> byte a \<and> byte a < 240 then
       (case s of b # c # s' \<Rightarrow>
          is_cont b \<and> is_cont c \<and> (byte a = 224 \<longrightarrow> 160 \<le> byte b) \<and>
          (byte a = 237 \<longrightarrow> byte b < 160) \<and> utf8_valid s' | _ \<Rightarrow> False)
     else if 240 \<le> byte a \<and> byte a < 245 then
       (case s of b # c # d # s' \<Rightarrow>
          is_cont b \<and> is_cont c \<and> is_cont d \<and> (byte a = 240 \<longrightarrow> 144 \<le> byte b) \<and>
          (byte a = 244 \<longrightarrow> byte b < 144) \<and> utf8_valid s' | _ \<Rightarrow> False)
     else False)"

declare utf8_valid.simps(2) [simp del]

definition is_ascii :: "string \<Rightarrow> bool" where
  "is_ascii s \<longleftrightarrow> list_all (\<lambda>c. byte c < 128) s"

lemma is_ascii_simps [simp]:
  "is_ascii []"
  "is_ascii (c # s) \<longleftrightarrow> byte c < 128 \<and> is_ascii s"
  "is_ascii (s @ t) \<longleftrightarrow> is_ascii s \<and> is_ascii t"
  by (auto simp: is_ascii_def)

lemma is_ascii_utf8_valid: "is_ascii s \<Longrightarrow> utf8_valid s"
  by (induction s) (simp_all add: utf8_valid.simps(2))

lemma chars_ascii: "is_ascii s \<Longrightarrow> chars s = map (\<lambda>c. [c]) s"
proof (induction s rule: chars.induct)
  case (2 b bs)
  have "takeWhile is_cont bs = []" "dropWhile is_cont bs = bs"
    using "2.prems" by (cases bs; simp add: is_cont_def)+
  with 2 show ?case by simp
qed simp

subsection \<open>White space\<close>

text \<open>\<open>char::is_whitespace\<close>, on the UTF-8 bytes of one character.\<close>

fun is_ws :: "string \<Rightarrow> bool" where
  "is_ws [a] \<longleftrightarrow> 9 \<le> byte a \<and> byte a \<le> 13 \<or> byte a = 32"
| "is_ws [a, b] \<longleftrightarrow> byte a = 0xC2 \<and> (byte b = 0x85 \<or> byte b = 0xA0)"
| "is_ws [a, b, c] \<longleftrightarrow>
     byte a = 0xE1 \<and> byte b = 0x9A \<and> byte c = 0x80
   \<or> byte a = 0xE2 \<and> byte b = 0x80 \<and>
       (0x80 \<le> byte c \<and> byte c \<le> 0x8A \<or> byte c = 0xA8 \<or> byte c = 0xA9 \<or> byte c = 0xAF)
   \<or> byte a = 0xE2 \<and> byte b = 0x81 \<and> byte c = 0x9F
   \<or> byte a = 0xE3 \<and> byte b = 0x80 \<and> byte c = 0x80"
| "is_ws _ \<longleftrightarrow> False"

definition trim :: "string \<Rightarrow> string" where
  "trim s = concat (rev (dropWhile is_ws (rev (dropWhile is_ws (chars s)))))"

definition blank :: "string \<Rightarrow> bool" where
  "blank s \<longleftrightarrow> list_all is_ws (chars s)"

lemma concat_eq_Nil_chars: "\<forall>x\<in>set xs. x \<noteq> [] \<Longrightarrow> concat xs = [] \<Longrightarrow> xs = []"
  by (cases xs) auto

lemma chars_nonempty: "x \<in> set (chars s) \<Longrightarrow> x \<noteq> []"
  by (induction s rule: chars.induct) auto

text \<open>\<open>s.trim().is_empty()\<close> holds exactly of the strings that are all white space.\<close>

lemma trim_eq_Nil_iff: "trim s = [] \<longleftrightarrow> blank s"
proof
  assume e: "trim s = []"
  have "set (rev (dropWhile is_ws (rev (dropWhile is_ws (chars s))))) \<subseteq> set (chars s)"
    by (auto dest!: set_dropWhileD)
  then have "\<forall>x\<in>set (rev (dropWhile is_ws (rev (dropWhile is_ws (chars s))))). x \<noteq> []"
    using chars_nonempty by blast
  with e have "dropWhile is_ws (rev (dropWhile is_ws (chars s))) = []"
    unfolding trim_def by (metis concat_eq_Nil_chars rev_is_Nil_conv)
  then have "\<forall>x\<in>set (dropWhile is_ws (chars s)). is_ws x" by simp
  then have "\<forall>x\<in>set (chars s). is_ws x"
    by (metis hd_dropWhile dropWhile_eq_Nil_conv hd_in_set)
  then show "blank s" by (simp add: blank_def list_all_iff)
next
  assume "blank s"
  then have "dropWhile is_ws (chars s) = []" by (simp add: blank_def list_all_iff)
  then show "trim s = []" by (simp add: trim_def del: dropWhile_eq_Nil_conv)
qed

lemma blank_Nil [simp]: "blank []"
  by (simp add: blank_def)

lemma trim_Nil [simp]: "trim [] = []"
  by (simp add: trim_def)

text \<open>A string of ASCII characters that neither starts nor ends with a blank is kept.\<close>

lemma trim_ascii_id:
  assumes "is_ascii s" "s \<noteq> []" "\<not> is_ws [hd s]" "\<not> is_ws [last s]"
  shows "trim s = s"
proof -
  have "dropWhile is_ws (map (\<lambda>c. [c]) s) = map (\<lambda>c. [c]) s"
    using assms by (cases s) auto
  moreover have "dropWhile is_ws (rev (map (\<lambda>c. [c]) s)) = rev (map (\<lambda>c. [c]) s)"
    using assms by (cases s rule: rev_cases) auto
  ultimately show ?thesis
    using assms(1) by (simp add: trim_def chars_ascii concat_map_singleton)
qed

text \<open>\<open>join\<close>: the pieces with a separator between them.\<close>

definition join_with :: "string \<Rightarrow> string list \<Rightarrow> string" where
  "join_with sep ws = (case ws of [] \<Rightarrow> [] | w # ws' \<Rightarrow> w @ concat (map ((@) sep) ws'))"

text \<open>\<open>split_whitespace\<close>: the maximal runs of characters that are not white space.\<close>

fun words_of :: "string list \<Rightarrow> string \<Rightarrow> string list" where
  "words_of [] acc = (if acc = [] then [] else [acc])"
| "words_of (c # cs) acc =
     (if is_ws c then (if acc = [] then words_of cs [] else acc # words_of cs [])
      else words_of cs (acc @ c))"

definition split_whitespace :: "string \<Rightarrow> string list" where
  "split_whitespace s = words_of (chars s) []"

subsection \<open>ASCII case, prefixes and separators\<close>

definition ascii_lower :: "char \<Rightarrow> char" where
  "ascii_lower c = (if 65 \<le> byte c \<and> byte c \<le> 90 then char_of (byte c + 32) else c)"

definition to_ascii_lowercase :: "string \<Rightarrow> string" where
  "to_ascii_lowercase s = map ascii_lower s"

definition eq_ignore_ascii_case :: "string \<Rightarrow> string \<Rightarrow> bool" where
  "eq_ignore_ascii_case s t \<longleftrightarrow> to_ascii_lowercase s = to_ascii_lowercase t"

definition starts_with :: "string \<Rightarrow> string \<Rightarrow> bool" where
  "starts_with s p \<longleftrightarrow> take (length p) s = p"

definition strip_prefix :: "string \<Rightarrow> string \<Rightarrow> string option" where
  "strip_prefix p s = (if starts_with s p then Some (drop (length p) s) else None)"

definition strip_suffix :: "string \<Rightarrow> string \<Rightarrow> string option" where
  "strip_suffix p s =
     (if length p \<le> length s \<and> drop (length s - length p) s = p
      then Some (take (length s - length p) s) else None)"

lemma starts_with_iff: "starts_with s p \<longleftrightarrow> (\<exists>t. s = p @ t)"
  unfolding starts_with_def by (metis append_eq_conv_conj append_take_drop_id)

lemma strip_prefix_Some_iff: "strip_prefix p s = Some t \<longleftrightarrow> s = p @ t"
  by (auto simp: strip_prefix_def starts_with_iff)

lemma strip_prefix_append [simp]: "strip_prefix p (p @ t) = Some t"
  by (simp add: strip_prefix_Some_iff)

text \<open>Splitting at an ASCII character: \<open>split_once\<close> and \<open>split\<close>.\<close>

definition split_once :: "char \<Rightarrow> string \<Rightarrow> (string \<times> string) option" where
  "split_once c s =
     (if c \<in> set s then Some (takeWhile (\<lambda>x. x \<noteq> c) s, tl (dropWhile (\<lambda>x. x \<noteq> c) s))
      else None)"

fun split_with :: "(char \<Rightarrow> bool) \<Rightarrow> string \<Rightarrow> string list" where
  "split_with p [] = [[]]"
| "split_with p (x # xs) =
     (if p x then [] # split_with p xs
      else (case split_with p xs of [] \<Rightarrow> [[x]] | w # ws \<Rightarrow> (x # w) # ws))"

definition split_on :: "char \<Rightarrow> string \<Rightarrow> string list" where
  "split_on c = split_with (\<lambda>x. x = c)"

lemma split_once_Some_iff:
  "split_once c s = Some (a, b) \<longleftrightarrow> s = a @ c # b \<and> c \<notin> set a"
proof
  assume "split_once c s = Some (a, b)"
  then show "s = a @ c # b \<and> c \<notin> set a"
    by (auto simp: split_once_def split: if_splits intro: split_first dest: set_takeWhileD)
next
  assume "s = a @ c # b \<and> c \<notin> set a"
  then show "split_once c s = Some (a, b)"
    by (auto simp: split_once_def takeWhile_append dropWhile_append)
qed

lemma split_once_None_iff: "split_once c s = None \<longleftrightarrow> c \<notin> set s"
  by (simp add: split_once_def)

lemma split_with_ne [simp]: "split_with p s \<noteq> []"
  by (induction s) (auto split: list.splits)

lemma split_with_none: "\<forall>x\<in>set s. \<not> p x \<Longrightarrow> split_with p s = [s]"
  by (induction s) auto

lemma split_with_append_sep:
  "\<forall>x\<in>set s. \<not> p x \<Longrightarrow> p c \<Longrightarrow> split_with p (s @ c # t) = s # split_with p t"
  by (induction s) auto

text \<open>
  \<open>str::lines\<close>: the pieces between line feeds, each without one trailing carriage return;
  what follows the last line feed counts only when it is not empty.
\<close>

definition LF :: char where "LF = CHR 0x0A"
definition CR :: char where "CR = CHR 0x0D"

definition strip_cr :: "string \<Rightarrow> string" where
  "strip_cr l = (if l \<noteq> [] \<and> last l = CR then butlast l else l)"

definition str_lines :: "string \<Rightarrow> string list" where
  "str_lines s =
     (let ps = split_on LF s in
      map strip_cr (butlast ps) @ (if last ps = [] then [] else [last ps]))"

subsection \<open>Decimal numbers\<close>

definition is_digit :: "char \<Rightarrow> bool" where
  "is_digit c \<longleftrightarrow> 48 \<le> byte c \<and> byte c \<le> 57"

definition digit_val :: "char \<Rightarrow> nat" where
  "digit_val c = byte c - 48"

definition digits_val :: "string \<Rightarrow> nat" where
  "digits_val s = foldl (\<lambda>n c. 10 * n + digit_val c) 0 s"

text \<open>
  \<open>parse::<uN>\<close>: an optional plus sign, at least one digit, digits only, and no value
  above the type's maximum.
\<close>

definition parse_uint :: "nat \<Rightarrow> string \<Rightarrow> nat option" where
  "parse_uint mx s =
     (let ds = (case s of [] \<Rightarrow> [] | c # r \<Rightarrow> if c = CHR ''+'' then r else s) in
      if ds \<noteq> [] \<and> list_all is_digit ds \<and> digits_val ds \<le> mx
      then Some (digits_val ds) else None)"

abbreviation U64_MAX :: nat where "U64_MAX \<equiv> 18446744073709551615"

fun show_nat :: "nat \<Rightarrow> string" where
  "show_nat n =
     (if n < 10 then [char_of (48 + n)] else show_nat (n div 10) @ [char_of (48 + n mod 10)])"

declare show_nat.simps [simp del]

definition show_int :: "int \<Rightarrow> string" where
  "show_int i = (if i < 0 then CHR ''-'' # show_nat (nat (- i)) else show_nat (nat i))"

lemma byte_char_of: "n < 256 \<Longrightarrow> byte (char_of n) = n"
  by (simp add: byte_def)

lemma byte_inject: "byte c = byte d \<longleftrightarrow> c = d"
  by (simp add: byte_def)

lemma byte_lt: "byte c < 256"
  by (simp add: byte_def)

lemma show_nat_ne [simp]: "show_nat n \<noteq> []"
  by (subst show_nat.simps) simp

lemma show_nat_digits: "c \<in> set (show_nat n) \<Longrightarrow> is_digit c"
proof (induction n rule: show_nat.induct)
  case (1 n)
  show ?case
  proof (cases "n < 10")
    case True
    then show ?thesis using 1 by (subst (asm) (2) show_nat.simps) (simp add: is_digit_def byte_char_of)
  next
    case False
    then have "c \<in> set (show_nat (n div 10)) \<or> c = char_of (48 + n mod 10)"
      using "1.prems" by (subst (asm) show_nat.simps) auto
    with 1(1) False show ?thesis
      by (auto simp: is_digit_def byte_char_of)
  qed
qed

lemma digits_val_snoc: "digits_val (s @ [c]) = 10 * digits_val s + digit_val c"
  by (simp add: digits_val_def)

lemma digits_val_show_nat [simp]: "digits_val (show_nat n) = n"
proof (induction n rule: show_nat.induct)
  case (1 n)
  then show ?case
    by (subst show_nat.simps)
      (auto simp: digits_val_snoc digit_val_def byte_char_of digits_val_def [of "[_]"])
qed

lemma show_nat_inj: "show_nat m = show_nat n \<Longrightarrow> m = n"
  by (metis digits_val_show_nat)

text \<open>Printing a number and reading it back.\<close>

lemma parse_uint_show_nat: "n \<le> mx \<Longrightarrow> parse_uint mx (show_nat n) = Some n"
proof -
  assume n: "n \<le> mx"
  have "hd (show_nat n) \<noteq> CHR ''+''"
    using show_nat_digits [of "hd (show_nat n)" n] by (auto simp: is_digit_def byte_def)
  then have "(case show_nat n of [] \<Rightarrow> [] | c # r \<Rightarrow> if c = CHR ''+'' then r else show_nat n)
      = show_nat n"
    by (cases "show_nat n") auto
  with n show ?thesis
    by (simp add: parse_uint_def list_all_iff show_nat_digits)
qed

lemma parse_uint_le: "parse_uint mx s = Some n \<Longrightarrow> n \<le> mx"
  by (auto simp: parse_uint_def Let_def split: if_splits)

subsection \<open>Visible characters\<close>

text \<open>The printable ASCII characters without the blank.\<close>

definition visible :: "char \<Rightarrow> bool" where
  "visible c \<longleftrightarrow> 33 \<le> byte c \<and> byte c \<le> 126"

lemma visible_not_ws: "visible c \<Longrightarrow> \<not> is_ws [c]"
  by (simp add: visible_def)

lemma visible_show_nat: "list_all visible (show_nat n)"
proof -
  have "visible c" if "is_digit c" for c using that by (simp add: visible_def is_digit_def)
  then show ?thesis using show_nat_digits unfolding list_all_iff by blast
qed

lemma visible_ascii: "list_all visible s \<Longrightarrow> is_ascii s"
  by (auto simp: list_all_iff is_ascii_def visible_def)

lemma trim_blank: "is_ascii s \<Longrightarrow> trim (CHR '' '' # s) = trim s"
proof -
  assume s: "is_ascii s"
  then have "chars (CHR '' '' # s) = [CHR '' ''] # map (\<lambda>c. [c]) s"
    by (subst chars_ascii) (simp_all add: byte_def)
  moreover have "is_ws [CHR '' '']" by (simp add: byte_def)
  ultimately show ?thesis using s by (simp add: trim_def chars_ascii del: chars.simps is_ws.simps)
qed

text \<open>ASCII text between visible characters is its own trimmed form.\<close>

lemma trim_id: "is_ascii s \<Longrightarrow> s \<noteq> [] \<Longrightarrow> visible (hd s) \<Longrightarrow> visible (last s) \<Longrightarrow> trim s = s"
  by (rule trim_ascii_id) (use visible_not_ws in blast)+

lemma trim_visible: "list_all visible s \<Longrightarrow> trim s = s"
  by (cases "s = []") (auto intro!: trim_id visible_ascii simp: list.pred_set [of visible])

end
