(* ===== verification/BTree.thy ===== *)
theory BTree imports RustStr begin

text \<open>
  The ordered containers of the standard library. A \<open>BTreeMap\<close> is the list of its
  entries in key order, a \<open>BTreeSet\<close> the list of its elements in order, so that iteration
  (\<open>iter\<close>, \<open>keys\<close>, \<open>values\<close>) is the list itself and two containers with the same
  content are equal. The interface a component relies on is the locale \<open>ordered_map\<close>
  (\<open>ordered_set\<close>); its laws are proved for the lists below.
\<close>

type_synonym ('k, 'v) bmap = "('k \<times> 'v) list"
type_synonym 'k bset = "'k list"

subsection \<open>The interfaces\<close>

locale ordered_map =
  fixes empty :: 'm
    and get :: "'m \<Rightarrow> 'k \<Rightarrow> 'v option"
    and ins :: "'k \<Rightarrow> 'v \<Rightarrow> 'm \<Rightarrow> 'm"
    and del :: "'k \<Rightarrow> 'm \<Rightarrow> 'm"
    and inv :: "'m \<Rightarrow> bool"
  assumes get_empty: "get empty k = None"
    and get_ins: "get (ins k v m) k' = (if k' = k then Some v else get m k')"
    and get_del: "get (del k m) k' = (if k' = k then None else get m k')"
    and inv_empty: "inv empty"
    and inv_ins: "inv m \<Longrightarrow> inv (ins k v m)"
    and inv_del: "inv m \<Longrightarrow> inv (del k m)"
    and ext: "inv m \<Longrightarrow> inv m' \<Longrightarrow> (\<And>k. get m k = get m' k) \<Longrightarrow> m = m'"
begin

lemma ins_overwrites: "inv m \<Longrightarrow> ins k w (ins k v m) = ins k w m"
  by (rule ext) (auto simp: get_ins inv_ins)

lemma ins_commute: "inv m \<Longrightarrow> k \<noteq> k' \<Longrightarrow> ins k v (ins k' v' m) = ins k' v' (ins k v m)"
  by (rule ext) (auto simp: get_ins inv_ins)

lemma del_ins: "inv m \<Longrightarrow> del k (ins k v m) = del k m"
  by (rule ext) (auto simp: get_ins get_del inv_ins inv_del)

lemma del_commute: "inv m \<Longrightarrow> del k (del k' m) = del k' (del k m)"
  by (rule ext) (auto simp: get_del inv_del)

lemma del_absent: "inv m \<Longrightarrow> get m k = None \<Longrightarrow> del k m = m"
  by (rule ext) (auto simp: get_del inv_del)

lemma ins_present: "inv m \<Longrightarrow> get m k = Some v \<Longrightarrow> ins k v m = m"
  by (rule ext) (auto simp: get_ins inv_ins)

text \<open>Collecting a list of entries: the last entry of a key is the one that stays.\<close>

lemma inv_fold_ins: "inv m \<Longrightarrow> inv (fold (\<lambda>(k, v). ins k v) kvs m)"
  by (induction kvs arbitrary: m) (auto simp: inv_ins)

lemma get_fold_ins:
  "get (fold (\<lambda>(k, v). ins k v) kvs m) k =
     (case map_of (rev kvs) k of Some v \<Rightarrow> Some v | None \<Rightarrow> get m k)"
  by (induction kvs arbitrary: m)
    (auto simp: get_ins map_add_def split: option.splits prod.splits)

end

locale ordered_set =
  fixes none :: 's
    and mem :: "'s \<Rightarrow> 'k \<Rightarrow> bool"
    and add :: "'k \<Rightarrow> 's \<Rightarrow> 's"
    and sub :: "'k \<Rightarrow> 's \<Rightarrow> 's"
    and wf :: "'s \<Rightarrow> bool"
  assumes mem_none: "\<not> mem none x"
    and mem_add: "mem (add x s) y \<longleftrightarrow> y = x \<or> mem s y"
    and mem_sub: "mem (sub x s) y \<longleftrightarrow> y \<noteq> x \<and> mem s y"
    and wf_none: "wf none"
    and wf_add: "wf s \<Longrightarrow> wf (add x s)"
    and wf_sub: "wf s \<Longrightarrow> wf (sub x s)"
    and ext: "wf s \<Longrightarrow> wf t \<Longrightarrow> (\<And>x. mem s x = mem t x) \<Longrightarrow> s = t"
begin

lemma add_idem: "wf s \<Longrightarrow> mem s x \<Longrightarrow> add x s = s"
  by (rule ext) (auto simp: mem_add wf_add)

lemma add_commute: "wf s \<Longrightarrow> add x (add y s) = add y (add x s)"
  by (rule ext) (auto simp: mem_add wf_add)

lemma sub_absent: "wf s \<Longrightarrow> \<not> mem s x \<Longrightarrow> sub x s = s"
  by (rule ext) (auto simp: mem_sub wf_sub)

lemma sub_add: "wf s \<Longrightarrow> \<not> mem s x \<Longrightarrow> sub x (add x s) = s"
  by (rule ext) (auto simp: mem_sub mem_add wf_sub wf_add)

lemma mem_fold_add: "mem (fold add xs s) y \<longleftrightarrow> y \<in> set xs \<or> mem s y"
  by (induction xs arbitrary: s) (auto simp: mem_add)

lemma wf_fold_add: "wf s \<Longrightarrow> wf (fold add xs s)"
  by (induction xs arbitrary: s) (auto simp: wf_add)

end

subsection \<open>BTreeMap as a sorted association list\<close>

abbreviation (input) bm_get :: "('k, 'v) bmap \<Rightarrow> 'k \<Rightarrow> 'v option" where
  "bm_get m k \<equiv> map_of m k"

fun bm_insert :: "'k::linorder \<Rightarrow> 'v \<Rightarrow> ('k, 'v) bmap \<Rightarrow> ('k, 'v) bmap" where
  "bm_insert k v [] = [(k, v)]"
| "bm_insert k v ((k', v') # m) =
     (if k < k' then (k, v) # (k', v') # m
      else if k = k' then (k, v) # m
      else (k', v') # bm_insert k v m)"

definition bm_remove :: "'k \<Rightarrow> ('k, 'v) bmap \<Rightarrow> ('k, 'v) bmap" where
  "bm_remove k m = filter (\<lambda>e. fst e \<noteq> k) m"

definition bm_retain :: "('k \<Rightarrow> 'v \<Rightarrow> bool) \<Rightarrow> ('k, 'v) bmap \<Rightarrow> ('k, 'v) bmap" where
  "bm_retain P m = filter (\<lambda>(k, v). P k v) m"

definition bm_contains :: "'k \<Rightarrow> ('k, 'v) bmap \<Rightarrow> bool" where
  "bm_contains k m \<longleftrightarrow> k \<in> set (map fst m)"

definition bm_inv :: "('k::linorder, 'v) bmap \<Rightarrow> bool" where
  "bm_inv m \<longleftrightarrow> sorted_wrt (<) (map fst m)"

lemma bm_inv_simps [simp]:
  "bm_inv []"
  "bm_inv ((k, v) # m) \<longleftrightarrow> (\<forall>e\<in>set m. k < fst e) \<and> bm_inv m"
  by (auto simp: bm_inv_def)

lemma bm_inv_distinct: "bm_inv m \<Longrightarrow> distinct (map fst m)"
  unfolding bm_inv_def by (simp add: strict_sorted_iff)

lemma bm_get_insert [get_simps]:
  "bm_get (bm_insert k v m) k' = (if k' = k then Some v else bm_get m k')"
  by (induction k v m rule: bm_insert.induct) auto

lemma bm_get_remove [get_simps]:
  "bm_get (bm_remove k m) k' = (if k' = k then None else bm_get m k')"
  by (induction m) (auto simp: bm_remove_def)

lemma bm_get_retain [get_simps]:
  "bm_inv m \<Longrightarrow> bm_get (bm_retain P m) k =
     (case bm_get m k of Some v \<Rightarrow> if P k v then Some v else None | None \<Rightarrow> None)"
proof (induction m)
  case (Cons e m)
  obtain k0 v0 where e: "e = (k0, v0)" by (cases e)
  have "bm_get (bm_retain P m) k0 = None"
    using Cons.prems e by (auto simp: map_of_eq_None_iff bm_retain_def)
  with Cons e show ?case by (auto simp: bm_retain_def split: option.splits)
qed (simp add: bm_retain_def)

lemma fst_set_bm_insert: "fst ` set (bm_insert k v m) = insert k (fst ` set m)"
  by (induction k v m rule: bm_insert.induct) auto

lemma bm_inv_insert [inv_intros]: "bm_inv m \<Longrightarrow> bm_inv (bm_insert k v m)"
proof (induction k v m rule: bm_insert.induct)
  case (2 k v k' v' m)
  have "\<forall>e\<in>set (bm_insert k v m). k' < fst e" if "\<not> k < k'" "k \<noteq> k'"
  proof
    fix e assume "e \<in> set (bm_insert k v m)"
    then have "fst e \<in> insert k (fst ` set m)" by (metis fst_set_bm_insert image_eqI)
    with 2 that show "k' < fst e" by auto
  qed
  with 2 show ?case by auto
qed simp

lemma bm_inv_filter: "bm_inv m \<Longrightarrow> bm_inv (filter P m)"
  by (induction m) auto

lemma bm_inv_remove [inv_intros]: "bm_inv m \<Longrightarrow> bm_inv (bm_remove k m)"
  by (simp add: bm_remove_def bm_inv_filter)

lemma bm_inv_retain [inv_intros]: "bm_inv m \<Longrightarrow> bm_inv (bm_retain P m)"
  by (simp add: bm_retain_def bm_inv_filter)

lemma bm_contains_iff: "bm_contains k m \<longleftrightarrow> bm_get m k \<noteq> None"
  by (simp add: bm_contains_def map_of_eq_None_iff)

lemma bm_ext:
  assumes "bm_inv m" "bm_inv m'" "\<And>k. bm_get m k = bm_get m' k"
  shows "m = m'"
proof -
  have "map_of m = map_of m'" using assms(3) by blast
  then have "set m = set m'"
    using map_of_inject_set [of m m'] assms(1,2) by (simp add: bm_inv_distinct)
  moreover have "map fst m = map fst m'"
    using calculation assms(1,2) unfolding bm_inv_def
    by (metis list.set_map strict_sorted_equal)
  ultimately show ?thesis
    using assms(1) by (metis bm_inv_distinct map_fst_zip map_of_eqI map_of_zip_map
        inj_onD distinct_map map_inj_on sup.idem)
qed

interpretation bm: ordered_map "[] :: ('k::linorder, 'v) bmap" bm_get bm_insert bm_remove bm_inv
  by unfold_locales (auto simp: get_simps inv_intros intro: bm_ext)

lemma bm_retain_retain:
  "bm_retain P (bm_retain Q m) = bm_retain (\<lambda>k v. Q k v \<and> P k v) m"
  by (induction m) (auto simp: bm_retain_def)

lemma bm_retain_id: "(\<And>k v. (k, v) \<in> set m \<Longrightarrow> P k v) \<Longrightarrow> bm_retain P m = m"
  by (induction m) (auto simp: bm_retain_def)

subsection \<open>BTreeSet as a sorted list\<close>

abbreviation (input) bs_member :: "'k bset \<Rightarrow> 'k \<Rightarrow> bool" where
  "bs_member s x \<equiv> x \<in> set s"

fun bs_insert :: "'k::linorder \<Rightarrow> 'k bset \<Rightarrow> 'k bset" where
  "bs_insert x [] = [x]"
| "bs_insert x (y # s) =
     (if x < y then x # y # s else if x = y then y # s else y # bs_insert x s)"

definition bs_remove :: "'k \<Rightarrow> 'k bset \<Rightarrow> 'k bset" where
  "bs_remove x s = filter (\<lambda>y. y \<noteq> x) s"

definition bs_inv :: "'k::linorder bset \<Rightarrow> bool" where
  "bs_inv s \<longleftrightarrow> sorted_wrt (<) s"

lemma bs_inv_simps [simp]:
  "bs_inv []"
  "bs_inv (x # s) \<longleftrightarrow> (\<forall>y\<in>set s. x < y) \<and> bs_inv s"
  by (auto simp: bs_inv_def)

lemma set_bs_insert [simp]: "set (bs_insert x s) = insert x (set s)"
  by (induction x s rule: bs_insert.induct) auto

lemma set_bs_remove [simp]: "set (bs_remove x s) = set s - {x}"
  by (auto simp: bs_remove_def)

lemma bs_inv_insert [inv_intros]: "bs_inv s \<Longrightarrow> bs_inv (bs_insert x s)"
  by (induction x s rule: bs_insert.induct) auto

lemma bs_inv_remove [inv_intros]: "bs_inv s \<Longrightarrow> bs_inv (bs_remove x s)"
  unfolding bs_remove_def by (induction s) auto

lemma bs_inv_distinct: "bs_inv s \<Longrightarrow> distinct s"
  unfolding bs_inv_def by (simp add: strict_sorted_iff)

lemma bs_length: "bs_inv s \<Longrightarrow> length s = card (set s)"
  by (metis bs_inv_distinct distinct_card)

lemma bs_ext: "bs_inv s \<Longrightarrow> bs_inv t \<Longrightarrow> set s = set t \<Longrightarrow> s = t"
  unfolding bs_inv_def by (metis strict_sorted_equal)

interpretation bs: ordered_set "[] :: ('k::linorder) bset" bs_member bs_insert bs_remove bs_inv
  by unfold_locales (auto simp: inv_intros intro: bs_ext)

end
