(* ===== verification/ErrorModel.thy ===== *)
theory ErrorModel imports BTree begin

text \<open>
  The error values of the crate (\<open>src/error.rs\<close>) and the JSON values they are read from.
  What the HTTP, JSON, URL and date crates decide is a parameter: the reason phrase of a
  status, the parser of HTTP dates, the text of a foreign error.
\<close>

subsection \<open>JSON values, as serde_json represents them\<close>

datatype json =
    JNull
  | JBool bool
  | JNum int
  | JReal string
  | JStr string
  | JArr "json list"
  | JObj "(string \<times> json) list"

fun as_str :: "json \<Rightarrow> string option" where
  "as_str (JStr s) = Some s"
| "as_str _ = None"

fun as_array :: "json \<Rightarrow> json list option" where
  "as_array (JArr vs) = Some vs"
| "as_array _ = None"

fun json_get :: "string \<Rightarrow> json \<Rightarrow> json option" where
  "json_get k (JObj kvs) = map_of kvs k"
| "json_get _ _ = None"

definition parse_index :: "string \<Rightarrow> nat option" where
  "parse_index s =
     (if starts_with s ''+'' \<or> (starts_with s ''0'' \<and> length s \<noteq> 1) then None
      else parse_uint U64_MAX s)"

fun pointer :: "string list \<Rightarrow> json \<Rightarrow> json option" where
  "pointer [] v = Some v"
| "pointer (t # ts) (JObj kvs) =
     (case map_of kvs t of None \<Rightarrow> None | Some v \<Rightarrow> pointer ts v)"
| "pointer (t # ts) (JArr vs) =
     (case parse_index t of
        None \<Rightarrow> None
      | Some i \<Rightarrow> if i < length vs then pointer ts (vs ! i) else None)"
| "pointer _ _ = None"

definition str_at :: "string list \<Rightarrow> json \<Rightarrow> string option" where
  "str_at p v = Option.bind (pointer p v) as_str"

definition str_field :: "string \<Rightarrow> json \<Rightarrow> string option" where
  "str_field k v = Option.bind (json_get k v) as_str"

definition or_else :: "'a option \<Rightarrow> 'a option \<Rightarrow> 'a option" where
  "or_else a b = (case a of Some x \<Rightarrow> Some x | None \<Rightarrow> b)"

lemma or_else_simps [simp]: "or_else (Some x) b = Some x" "or_else None b = b"
  by (simp_all add: or_else_def)

subsection \<open>Errors\<close>

record api_error_detail =
  d_description :: "string option"
  d_code :: "string option"
  d_reason :: "string option"

record api_error =
  ae_status :: nat
  ae_reason :: string
  ae_message :: "string option"
  ae_tracking_id :: "string option"
  ae_retry_after :: "duration option"
  ae_details :: "api_error_detail list"
  ae_body :: "json option"

text \<open>The part of \<open>reqwest::Error\<close> the sources look at, with its text.\<close>

record http_error =
  he_is_builder :: bool
  he_is_connect :: bool
  he_text :: string

datatype io_kind = NotFound | AlreadyExists | OtherKind

datatype error =
    Http http_error
  | UrlErr string
  | JsonErr string
  | Io io_kind string
  | Api api_error
  | RoomPoll string error
  | MissingToken
  | AuthorizationPending
  | MissingAccessToken
  | InvalidWebhookSignature
  | Other string

type_synonym 'a res = "error + 'a"

definition api_error_display :: "api_error \<Rightarrow> string" where
  "api_error_display e =
     show_nat (ae_status e) @ '' '' @ ae_reason e @
     (case ae_message e of Some m \<Rightarrow> '': '' @ m | None \<Rightarrow> []) @
     (case ae_tracking_id e of Some t \<Rightarrow> '' (trackingId: '' @ t @ '')'' | None \<Rightarrow> [])"

fun error_display :: "error \<Rightarrow> string" where
  "error_display (Http e) = ''http client error: '' @ he_text e"
| "error_display (UrlErr t) = ''url parse error: '' @ t"
| "error_display (JsonErr t) = ''json error: '' @ t"
| "error_display (Io k t) = ''io error: '' @ t"
| "error_display (Api e) = ''webex api error: '' @ api_error_display e"
| "error_display (RoomPoll r e) = ''room '' @ r @ '' poll failed: '' @ error_display e"
| "error_display MissingToken = ''no usable access token is available''"
| "error_display AuthorizationPending = ''oauth flow is still pending''"
| "error_display MissingAccessToken = ''oauth response did not include an access token''"
| "error_display InvalidWebhookSignature = ''invalid webhook signature''"
| "error_display (Other t) = t"

subsection \<open>Response headers\<close>

text \<open>
  A header map holds lower-case names; a lookup ignores the case of the name it is given.
  \<open>to_str\<close> succeeds on visible ASCII and tabs.
\<close>

type_synonym headers = "(string \<times> string) list"

definition hdr_get :: "string \<Rightarrow> headers \<Rightarrow> string option" where
  "hdr_get n hs = map_of hs (to_ascii_lowercase n)"

definition hdr_to_str :: "string \<Rightarrow> string option" where
  "hdr_to_str v = (if list_all (\<lambda>c. 32 \<le> byte c \<and> byte c < 127 \<or> byte c = 9) v then Some v else None)"

definition tracking_id_from_headers :: "headers \<Rightarrow> string option" where
  "tracking_id_from_headers hs =
     Option.bind (or_else (hdr_get ''trackingid'' hs) (hdr_get ''trackingId'' hs)) hdr_to_str"

definition parse_retry_after ::
    "(string \<Rightarrow> time option) \<Rightarrow> time \<Rightarrow> headers \<Rightarrow> duration option" where
  "parse_retry_after http_date now hs =
     (case Option.bind (hdr_get ''retry-after'' hs) hdr_to_str of
        None \<Rightarrow> None
      | Some raw \<Rightarrow>
         (let v = trim raw in
          case parse_uint U64_MAX v of
            Some secs \<Rightarrow> Some (secs * SEC)
          | None \<Rightarrow>
             (case http_date v of
                None \<Rightarrow> None
              | Some deadline \<Rightarrow>
                 if now \<le> deadline then Some (nat (deadline - now)) else Some 0)))"

subsection \<open>Reading an error body\<close>

definition extract_message :: "json \<Rightarrow> string option" where
  "extract_message v =
     or_else (str_field ''message'' v)
       (or_else (str_at [''error'', ''message'', ''0'', ''description''] v)
                (str_at [''error'', ''message''] v))"

definition extract_detail :: "json \<Rightarrow> api_error_detail" where
  "extract_detail e =
     \<lparr>d_description = str_field ''description'' e, d_code = str_field ''code'' e,
      d_reason = str_field ''reason'' e\<rparr>"

definition extract_details :: "json \<Rightarrow> api_error_detail list" where
  "extract_details v =
     (case Option.bind (json_get ''errors'' v) as_array of
        Some es \<Rightarrow> map extract_detail es
      | None \<Rightarrow> [])"

text \<open>What the HTTP and date crates contribute to an error: reason phrases and dates.\<close>

record http_env =
  canonical_reason :: "nat \<Rightarrow> string option"
  http_date :: "string \<Rightarrow> time option"
  parse_json :: "string \<Rightarrow> json option"

definition reason_for :: "http_env \<Rightarrow> nat \<Rightarrow> string" where
  "reason_for env st = (case canonical_reason env st of Some r \<Rightarrow> r | None \<Rightarrow> ''Unknown Status'')"

definition from_status_body ::
    "http_env \<Rightarrow> time \<Rightarrow> nat \<Rightarrow> headers \<Rightarrow> json option \<Rightarrow> api_error" where
  "from_status_body env now st hs body =
     \<lparr>ae_status = st,
      ae_reason = reason_for env st,
      ae_message = Option.bind body extract_message,
      ae_tracking_id = or_else (tracking_id_from_headers hs)
        (Option.bind body (str_field ''trackingId'')),
      ae_retry_after = parse_retry_after (http_date env) now hs,
      ae_details = (case body of Some v \<Rightarrow> extract_details v | None \<Rightarrow> []),
      ae_body = body\<rparr>"

text \<open>
  A response as the client sees it: the status, the headers and the body text, which is
  \<open>None\<close> when reading the body failed (\<open>unwrap_or_default\<close> then makes it empty).
\<close>

record response =
  rs_status :: nat
  rs_headers :: headers
  rs_text :: "string option"

definition is_success :: "nat \<Rightarrow> bool" where
  "is_success st \<longleftrightarrow> 200 \<le> st \<and> st < 300"

definition body_text :: "response \<Rightarrow> string" where
  "body_text r = (case rs_text r of Some t \<Rightarrow> t | None \<Rightarrow> [])"

definition from_response :: "http_env \<Rightarrow> time \<Rightarrow> response \<Rightarrow> api_error" where
  "from_response env now r =
     from_status_body env now (rs_status r) (rs_headers r) (parse_json env (body_text r))"

definition pending_from_response :: "http_env \<Rightarrow> time \<Rightarrow> response \<Rightarrow> api_error" where
  "pending_from_response env now r =
     \<lparr>ae_status = rs_status r,
      ae_reason = reason_for env (rs_status r),
      ae_message = Some ''authorization is still pending'',
      ae_tracking_id = tracking_id_from_headers (rs_headers r),
      ae_retry_after = parse_retry_after (http_date env) now (rs_headers r),
      ae_details = [],
      ae_body = None\<rparr>"

definition is_status :: "nat \<Rightarrow> api_error \<Rightarrow> bool" where
  "is_status status e \<longleftrightarrow> ae_status e = status"

lemma from_response_status [simp]: "ae_status (from_response env now r) = rs_status r"
  by (simp add: from_response_def from_status_body_def)

lemma response_is_status:
  "is_status status (from_response env now r) \<longleftrightarrow> rs_status r = status"
  "is_status status (pending_from_response env now r) \<longleftrightarrow> rs_status r = status"
  by (simp_all add: is_status_def) (simp add: pending_from_response_def)

lemma pending_from_response_status [simp]:
  "ae_status (pending_from_response env now r) = rs_status r"
  by (simp add: pending_from_response_def)

text \<open>
  A \<open>Retry-After\<close> that is a number of seconds is taken as it stands, whatever its
  surrounding blanks.
\<close>

lemma digits_not_ws: "is_digit c \<Longrightarrow> \<not> is_ws [c]"
  unfolding is_digit_def by simp

lemma show_nat_ascii [simp]: "is_ascii (show_nat n)"
  unfolding is_ascii_def list_all_iff using show_nat_digits by (fastforce simp: is_digit_def)

lemma trim_show_nat [simp]: "trim (show_nat n) = show_nat n"
proof (rule trim_ascii_id)
  show "\<not> is_ws [hd (show_nat n)]" "\<not> is_ws [last (show_nat n)]"
    using show_nat_digits [of _ n] by (simp_all add: digits_not_ws del: is_ws.simps)
qed simp_all

lemma hdr_to_str_show_nat [simp]: "hdr_to_str (show_nat n) = Some (show_nat n)"
  unfolding hdr_to_str_def list_all_iff using show_nat_digits by (fastforce simp: is_digit_def)

lemma parse_retry_after_seconds:
  assumes "hdr_get ''retry-after'' hs = Some (show_nat n)" "n \<le> U64_MAX"
  shows "parse_retry_after pd now hs = Some (n * SEC)"
  using assms by (simp add: parse_retry_after_def parse_uint_show_nat)

text \<open>An HTTP date in the past asks for no delay; one in the future for the time to it.\<close>

lemma parse_retry_after_date:
  assumes "hdr_get ''retry-after'' hs = Some v" "hdr_to_str v = Some v"
    and "parse_uint U64_MAX (trim v) = None"
  shows "parse_retry_after pd now hs = map_option (\<lambda>d. nat (d - now)) (pd (trim v))"
  using assms by (auto simp: parse_retry_after_def split: option.splits)

end
