(* ===== verification/StateLog.thy ===== *)
theory StateLog imports ErrorModel begin

text \<open>
  The append-only state log of \<open>src/state.rs\<close>: its records, the snapshot rebuilt by
  replaying them (\<open>StateSnapshot::apply_record\<close>), and what a replay means message by
  message. \<open>log_view\<close> is the abstract specification: it reads the events of one message
  and ignores the clock; the snapshot at an instant is that view with the leases that have
  not expired.
\<close>

subsection \<open>Records and snapshots\<close>

record room_checkpoint =
  rc_room_id :: string
  rc_seen_message_ids :: "string list"
  rc_initialize_empty :: bool

record attempt_lease =
  al_message_id :: string
  al_attempt_id :: string
  al_expires_at :: time

datatype state_event =
    ProcessedMessage string time
  | AttemptLeased string string time
  | AttemptReleased string string time
  | RoomCheckpointEvent room_checkpoint time

record state_record =
  sr_version :: nat
  sr_event :: state_event

record state_snapshot =
  processed_message_ids :: "string bset"
  attempt_leases :: "(string, attempt_lease) bmap"
  room_checkpoints :: "(string, room_checkpoint) bmap"

definition STATE_RECORD_VERSION :: nat where
  "STATE_RECORD_VERSION = 1"

definition new_record :: "state_event \<Rightarrow> state_record" where
  "new_record ev = \<lparr>sr_version = STATE_RECORD_VERSION, sr_event = ev\<rparr>"

definition empty_snapshot :: state_snapshot where
  "empty_snapshot = \<lparr>processed_message_ids = [], attempt_leases = [], room_checkpoints = []\<rparr>"

definition snap_inv :: "state_snapshot \<Rightarrow> bool" where
  "snap_inv s \<longleftrightarrow> bs_inv (processed_message_ids s) \<and> bm_inv (attempt_leases s) \<and>
     bm_inv (room_checkpoints s)"

definition contains_processed_message :: "state_snapshot \<Rightarrow> string \<Rightarrow> bool" where
  "contains_processed_message s m \<longleftrightarrow> bs_member (processed_message_ids s) m"

definition active_attempt_lease :: "state_snapshot \<Rightarrow> string \<Rightarrow> attempt_lease option" where
  "active_attempt_lease s m = bm_get (attempt_leases s) m"

definition room_checkpoint_of :: "state_snapshot \<Rightarrow> string \<Rightarrow> room_checkpoint option" where
  "room_checkpoint_of s r = bm_get (room_checkpoints s) r"

definition snapshot_room_checkpoints :: "state_snapshot \<Rightarrow> room_checkpoint list" where
  "snapshot_room_checkpoints s = map snd (room_checkpoints s)"

definition ensure_message_id :: "string \<Rightarrow> unit res" where
  "ensure_message_id m = (if trim m = [] then Inl (Other ''message id is empty'') else Inr ())"

definition ensure_attempt_id :: "string \<Rightarrow> unit res" where
  "ensure_attempt_id a = (if trim a = [] then Inl (Other ''attempt id is empty'') else Inr ())"

definition remaining_lease :: "time \<Rightarrow> time \<Rightarrow> duration option" where
  "remaining_lease expires_at now =
     (let d = expires_at - now in if d < 0 then None else if d = 0 then None else Some (nat d))"

definition prune_expired_attempts :: "time \<Rightarrow> state_snapshot \<Rightarrow> state_snapshot" where
  "prune_expired_attempts now s =
     s\<lparr>attempt_leases :=
         bm_retain (\<lambda>_ a. remaining_lease (al_expires_at a) now \<noteq> None) (attempt_leases s)\<rparr>"

subsection \<open>Applying one record\<close>

fun apply_event :: "time \<Rightarrow> state_snapshot \<Rightarrow> state_event \<Rightarrow> state_snapshot res" where
  "apply_event now s (ProcessedMessage m _) =
     and_then (ensure_message_id m) (\<lambda>_. Inr
       (s\<lparr>processed_message_ids := bs_insert m (processed_message_ids s),
          attempt_leases := bm_remove m (attempt_leases s)\<rparr>))"
| "apply_event now s (AttemptLeased m a e) =
     and_then (ensure_message_id m) (\<lambda>_. and_then (ensure_attempt_id a) (\<lambda>_. Inr
       (if bs_member (processed_message_ids s) m then
          s\<lparr>attempt_leases := bm_remove m (attempt_leases s)\<rparr>
        else if now < e then
          s\<lparr>attempt_leases := bm_insert m
              \<lparr>al_message_id = m, al_attempt_id = a, al_expires_at = e\<rparr> (attempt_leases s)\<rparr>
        else
          s\<lparr>attempt_leases := bm_remove m (attempt_leases s)\<rparr>)))"
| "apply_event now s (AttemptReleased m a _) =
     and_then (ensure_message_id m) (\<lambda>_. and_then (ensure_attempt_id a) (\<lambda>_. Inr
       (if (case bm_get (attempt_leases s) m of Some l \<Rightarrow> al_attempt_id l = a | None \<Rightarrow> False)
        then s\<lparr>attempt_leases := bm_remove m (attempt_leases s)\<rparr>
        else s)))"
| "apply_event now s (RoomCheckpointEvent c _) =
     (if trim (rc_room_id c) = [] then Inl (Other ''room checkpoint id is empty'')
      else Inr (s\<lparr>room_checkpoints := bm_insert (rc_room_id c) c (room_checkpoints s)\<rparr>))"

definition apply_record :: "time \<Rightarrow> state_snapshot \<Rightarrow> state_record \<Rightarrow> state_snapshot res" where
  "apply_record now s r =
     (if sr_version r \<noteq> STATE_RECORD_VERSION then
        Inl (Other (''unsupported state record version '' @ show_nat (sr_version r) @
             ''; expected '' @ show_nat STATE_RECORD_VERSION))
      else and_then (apply_event now s (sr_event r))
             (\<lambda>s'. Inr (prune_expired_attempts now s')))"

fun replay :: "time \<Rightarrow> state_snapshot \<Rightarrow> state_record list \<Rightarrow> state_snapshot res" where
  "replay now s [] = Inr s"
| "replay now s (r # rs) = and_then (apply_record now s r) (\<lambda>s'. replay now s' rs)"

lemma replay_append:
  "replay now s (rs @ rs') = and_then (replay now s rs) (\<lambda>s'. replay now s' rs')"
  by (induction rs arbitrary: s) (simp_all add: and_then_assoc)

text \<open>Whether a record is accepted depends on the record alone.\<close>

fun event_ok :: "state_event \<Rightarrow> bool" where
  "event_ok (ProcessedMessage m _) \<longleftrightarrow> trim m \<noteq> []"
| "event_ok (AttemptLeased m a _) \<longleftrightarrow> trim m \<noteq> [] \<and> trim a \<noteq> []"
| "event_ok (AttemptReleased m a _) \<longleftrightarrow> trim m \<noteq> [] \<and> trim a \<noteq> []"
| "event_ok (RoomCheckpointEvent c _) \<longleftrightarrow> trim (rc_room_id c) \<noteq> []"

definition record_ok :: "state_record \<Rightarrow> bool" where
  "record_ok r \<longleftrightarrow> sr_version r = STATE_RECORD_VERSION \<and> event_ok (sr_event r)"

lemma record_ok_new [simp]: "record_ok (new_record ev) \<longleftrightarrow> event_ok ev"
  by (simp add: record_ok_def new_record_def)

lemma sr_event_new [simp]: "sr_event (new_record ev) = ev"
  by (simp add: new_record_def)

lemma apply_event_Inr_iff: "(\<exists>s'. apply_event now s ev = Inr s') \<longleftrightarrow> event_ok ev"
  by (cases ev) (auto simp: ensure_message_id_def ensure_attempt_id_def and_then_def)

lemma apply_record_Inr_iff: "(\<exists>s'. apply_record now s r = Inr s') \<longleftrightarrow> record_ok r"
  using apply_event_Inr_iff [of now s "sr_event r"]
  by (auto simp: apply_record_def record_ok_def and_then_Inr_iff)

lemma replay_Inr_iff: "(\<exists>s'. replay now s rs = Inr s') \<longleftrightarrow> list_all record_ok rs"
proof (induction rs arbitrary: s)
  case (Cons r rs)
  show ?case
  proof (cases "record_ok r")
    case True
    then obtain s1 where "apply_record now s r = Inr s1" using apply_record_Inr_iff by blast
    with True Cons show ?thesis by simp
  next
    case False
    then have "\<nexists>s'. apply_record now s r = Inr s'" using apply_record_Inr_iff by blast
    with False show ?thesis by (auto simp: and_then_Inr_iff)
  qed
qed simp

subsection \<open>The invariant\<close>

lemma snap_inv_empty [simp]: "snap_inv empty_snapshot"
  by (simp add: snap_inv_def empty_snapshot_def)

lemma snap_inv_prune: "snap_inv s \<Longrightarrow> snap_inv (prune_expired_attempts now s)"
  by (simp add: snap_inv_def prune_expired_attempts_def inv_intros)

lemma snap_inv_apply_event: "apply_event now s ev = Inr s' \<Longrightarrow> snap_inv s \<Longrightarrow> snap_inv s'"
  by (cases ev) (auto simp: snap_inv_def and_then_Inr_iff inv_intros split: if_splits)

lemma snap_inv_apply_record: "apply_record now s r = Inr s' \<Longrightarrow> snap_inv s \<Longrightarrow> snap_inv s'"
  by (auto simp: apply_record_def and_then_Inr_iff split: if_splits
      intro: snap_inv_prune snap_inv_apply_event)

lemma snap_inv_replay: "replay now s rs = Inr s' \<Longrightarrow> snap_inv s \<Longrightarrow> snap_inv s'"
  by (induction rs arbitrary: s) (auto simp: and_then_Inr_iff dest: snap_inv_apply_record)

subsection \<open>The abstract specification: one message at a time\<close>

datatype mview = Free | Leased string time | Done

fun view_step :: "string \<Rightarrow> mview \<Rightarrow> state_event \<Rightarrow> mview" where
  "view_step m v (ProcessedMessage m' _) = (if m' = m then Done else v)"
| "view_step m v (AttemptLeased m' a e) =
     (if m' = m \<and> v \<noteq> Done then Leased a e else v)"
| "view_step m v (AttemptReleased m' a _) =
     (if m' = m then (case v of Leased b e \<Rightarrow> if b = a then Free else v | _ \<Rightarrow> v) else v)"
| "view_step m v (RoomCheckpointEvent _ _) = v"

definition log_view :: "string \<Rightarrow> state_record list \<Rightarrow> mview" where
  "log_view m rs = foldl (view_step m) Free (map sr_event rs)"

fun room_step :: "string \<Rightarrow> room_checkpoint option \<Rightarrow> state_event \<Rightarrow> room_checkpoint option" where
  "room_step r c (RoomCheckpointEvent c' _) = (if rc_room_id c' = r then Some c' else c)"
| "room_step r c _ = c"

definition log_room :: "string \<Rightarrow> state_record list \<Rightarrow> room_checkpoint option" where
  "log_room r rs = foldl (room_step r) None (map sr_event rs)"

definition lease_at :: "time \<Rightarrow> string \<Rightarrow> mview \<Rightarrow> attempt_lease option" where
  "lease_at now m v =
     (case v of
        Leased a e \<Rightarrow>
          if now < e then Some \<lparr>al_message_id = m, al_attempt_id = a, al_expires_at = e\<rparr> else None
      | _ \<Rightarrow> None)"

text \<open>A snapshot that shows exactly the given views at the instant \<open>now\<close>.\<close>

definition shows_view ::
    "time \<Rightarrow> (string \<Rightarrow> mview) \<Rightarrow> (string \<Rightarrow> room_checkpoint option) \<Rightarrow> state_snapshot \<Rightarrow> bool" where
  "shows_view now V R s \<longleftrightarrow>
     snap_inv s \<and>
     (\<forall>m. contains_processed_message s m \<longleftrightarrow> V m = Done) \<and>
     (\<forall>m. active_attempt_lease s m = lease_at now m (V m)) \<and>
     (\<forall>r. room_checkpoint_of s r = R r)"

lemmas snapshot_defs = contains_processed_message_def active_attempt_lease_def
  room_checkpoint_of_def shows_view_def lease_at_def

lemma shows_view_empty: "shows_view now (\<lambda>_. Free) (\<lambda>_. None) empty_snapshot"
  by (simp add: snapshot_defs) (simp add: empty_snapshot_def)

lemma remaining_lease_None_iff: "remaining_lease e now = None \<longleftrightarrow> e \<le> now"
  by (auto simp: remaining_lease_def Let_def)

lemma remaining_lease_Some_iff: "remaining_lease e now = Some d \<longleftrightarrow> now < e \<and> d = nat (e - now)"
  by (auto simp: remaining_lease_def Let_def)

text \<open>Pruning at a later instant moves a snapshot to that instant.\<close>

lemma shows_view_prune:
  assumes "shows_view now V R s" "now \<le> now'"
  shows "shows_view now' V R (prune_expired_attempts now' s)"
  using assms snap_inv_prune [of s now']
  by (auto simp: snapshot_defs prune_expired_attempts_def snap_inv_def get_simps
      remaining_lease_None_iff split: mview.splits option.splits if_splits)

lemma shows_view_ext: "shows_view now V R s \<Longrightarrow> shows_view now V R s' \<Longrightarrow> s = s'"
  unfolding snapshot_defs snap_inv_def
  by (intro state_snapshot.equality bs_ext bm_ext) auto

lemma shows_view_event:
  assumes "shows_view now V R s" "apply_event now s ev = Inr s'"
  shows "shows_view now (\<lambda>m. view_step m (V m) ev) (\<lambda>r. room_step r (R r) ev) s'"
proof -
  have inv: "snap_inv s'" using assms snap_inv_apply_event by (auto simp: shows_view_def)
  show ?thesis
  proof (cases ev)
    case (ProcessedMessage m t)
    with assms inv show ?thesis
      by (auto simp: snapshot_defs and_then_Inr_iff get_simps)
  next
    case (AttemptLeased m a e)
    with assms inv show ?thesis
      by (auto simp: snapshot_defs and_then_Inr_iff get_simps split: if_splits)
  next
    case (AttemptReleased m a t)
    have L: "\<And>x. bm_get (attempt_leases s) x = lease_at now x (V x)"
      using assms(1) by (simp add: shows_view_def active_attempt_lease_def)
    from assms AttemptReleased
    have s': "s' = (if (case lease_at now m (V m) of Some l \<Rightarrow> al_attempt_id l = a | None \<Rightarrow> False)
        then s\<lparr>attempt_leases := bm_remove m (attempt_leases s)\<rparr> else s)"
      by (auto simp: and_then_Inr_iff L split: if_splits)
    have lease: "active_attempt_lease s' x = lease_at now x (view_step x (V x) ev)" for x
    proof (cases "x = m")
      case True
      show ?thesis
        unfolding True s' active_attempt_lease_def
        by (auto simp: L get_simps AttemptReleased lease_at_def split: mview.splits option.splits)
    next
      case False
      then show ?thesis
        unfolding s' active_attempt_lease_def by (simp add: L get_simps AttemptReleased)
    qed
    have fin: "view_step x v ev = Done \<longleftrightarrow> v = Done" for x v
      by (cases v) (simp_all add: AttemptReleased)
    have same: "processed_message_ids s' = processed_message_ids s"
      "room_checkpoints s' = room_checkpoints s" by (simp_all add: s')
    show ?thesis
      using assms(1) inv unfolding shows_view_def
      by (simp add: lease fin same contains_processed_message_def room_checkpoint_of_def)
        (simp add: AttemptReleased)
  next
    case (RoomCheckpointEvent c t)
    with assms inv show ?thesis
      by (auto simp: snapshot_defs get_simps split: if_splits)
  qed
qed

lemma shows_view_record:
  assumes "shows_view now V R s" "apply_record now s r = Inr s'"
  shows "shows_view now (\<lambda>m. view_step m (V m) (sr_event r))
           (\<lambda>q. room_step q (R q) (sr_event r)) s'"
  using assms shows_view_event shows_view_prune [OF _ order_refl]
  by (fastforce simp: apply_record_def and_then_Inr_iff split: if_splits)

lemma shows_view_replay:
  assumes "replay now s rs = Inr s'" "shows_view now V R s"
  shows "shows_view now (\<lambda>m. foldl (view_step m) (V m) (map sr_event rs))
           (\<lambda>q. foldl (room_step q) (R q) (map sr_event rs)) s'"
  using assms
proof (induction rs arbitrary: s V R)
  case (Cons r rs)
  then obtain s1 where s1: "apply_record now s r = Inr s1" "replay now s1 rs = Inr s'"
    by (auto simp: and_then_Inr_iff)
  from Cons.IH [OF s1(2) shows_view_record [OF Cons.prems(2) s1(1)]] show ?case by simp
qed simp

lemma shows_view_log:
  "replay now empty_snapshot rs = Inr s \<Longrightarrow> shows_view now (\<lambda>m. log_view m rs) (\<lambda>q. log_room q rs) s"
  using shows_view_replay [OF _ shows_view_empty] by (simp add: log_view_def log_room_def)

text \<open>A processed message stays processed whatever is appended.\<close>

lemma view_step_Done: "foldl (view_step m) Done evs = Done"
proof (induction evs)
  case (Cons ev evs)
  then show ?case by (cases ev) auto
qed simp

lemma log_view_Done_append: "log_view m rs = Done \<Longrightarrow> log_view m (rs @ rs') = Done"
  by (simp add: log_view_def view_step_Done)

lemma log_view_snoc: "log_view m (rs @ [r]) = view_step m (log_view m rs) (sr_event r)"
  by (simp add: log_view_def)

text \<open>
  Replaying at a later instant equals replaying at the earlier one and pruning: a lease
  that has expired never comes back and hides nothing.
\<close>

lemma replay_later:
  assumes "now \<le> now'" "replay now empty_snapshot rs = Inr s"
  shows "replay now' empty_snapshot rs = Inr (prune_expired_attempts now' s)"
proof -
  from assms(2) have "list_all record_ok rs" using replay_Inr_iff by blast
  then obtain s' where s': "replay now' empty_snapshot rs = Inr s'"
    using replay_Inr_iff by blast
  have "s' = prune_expired_attempts now' s"
    using shows_view_log [OF s'] shows_view_prune [OF shows_view_log [OF assms(2)] assms(1)]
    by (rule shows_view_ext)
  with s' show ?thesis by simp
qed

lemma replay_prune_same:
  assumes "replay now empty_snapshot rs = Inr s"
  shows "prune_expired_attempts now s = s"
  using replay_later [OF order_refl assms] assms by simp

end
