(* ===== verification/LogFile.thy ===== *)
theory LogFile imports StateLog begin

text \<open>
  The state log as bytes on disk (\<open>src/state.rs\<close>): reading it line by line
  (\<open>parse_snapshot_bytes\<close>), cutting a torn last line off (\<open>repair_incomplete_tail\<close>) and
  appending a record (\<open>append_state_record\<close>). The JSON codec of one record is a parameter
  (\<open>codec\<close>); what the store relies on is \<open>codec_ok\<close>, stated record by record.
  \<open>holds\<close> is the specification of the parser: the records a whole file stands for.
\<close>

record codec =
  cd_de :: "string \<Rightarrow> string + state_record"
  cd_ser :: "state_record \<Rightarrow> string"
  cd_utf8_error :: "string \<Rightarrow> string"

definition line_of :: "string \<Rightarrow> string" where
  "line_of bs = takeWhile (\<lambda>c. c \<noteq> LF) bs"

definition rest_of :: "string \<Rightarrow> string" where
  "rest_of bs = tl (dropWhile (\<lambda>c. c \<noteq> LF) bs)"

definition consumed :: "string \<Rightarrow> nat" where
  "consumed bs = length (line_of bs) + (if LF \<in> set bs then 1 else 0)"

lemma rest_of_length:
  assumes "bs \<noteq> []"
  shows "length (rest_of bs) < length bs"
proof -
  have "length (dropWhile (\<lambda>c. c \<noteq> LF) bs) \<le> length bs" by (rule length_dropWhile_le)
  moreover have "0 < length bs" using assms by simp
  ultimately show ?thesis unfolding rest_of_def length_tl by linarith
qed

subsection \<open>parse_snapshot_bytes\<close>

definition line_error :: "string \<Rightarrow> nat \<Rightarrow> string \<Rightarrow> error" where
  "line_error path ln e =
     Other (''invalid state JSONL record at '' @ path @ '':'' @ show_nat ln @ '': '' @ e)"

function parse_lines ::
    "codec \<Rightarrow> string \<Rightarrow> time \<Rightarrow> bool \<Rightarrow> string \<Rightarrow> nat \<Rightarrow> nat \<Rightarrow> state_snapshot
      \<Rightarrow> (state_snapshot \<times> nat) res" where
  "parse_lines cd path now allow_torn_tail bs off ln snap =
     (if bs = [] then Inr (prune_expired_attempts now snap, off)
      else
        let has_newline = (LF \<in> set bs) in
        if \<not> utf8_valid (line_of bs) then
          (if allow_torn_tail \<and> \<not> has_newline then Inr (snap, off)
           else Inl (line_error path ln (cd_utf8_error cd (line_of bs))))
        else let line = trim (line_of bs) in
          if line = [] then
            parse_lines cd path now allow_torn_tail (rest_of bs) (off + consumed bs) (Suc ln) snap
          else case cd_de cd line of
            Inl e \<Rightarrow>
              (if allow_torn_tail \<and> \<not> has_newline then Inr (snap, off)
               else Inl (line_error path ln e))
          | Inr r \<Rightarrow>
              (case apply_record now snap r of
                 Inl err \<Rightarrow> Inl (line_error path ln (error_display err))
               | Inr snap' \<Rightarrow>
                   parse_lines cd path now allow_torn_tail (rest_of bs) (off + consumed bs)
                     (Suc ln) snap'))"
  by pat_completeness auto
termination
  by (relation "measure (\<lambda>(_, _, _, _, bs, _). length bs)") (auto simp: rest_of_length)

declare parse_lines.simps [simp del]

definition parse_snapshot_bytes ::
    "codec \<Rightarrow> string \<Rightarrow> string \<Rightarrow> time \<Rightarrow> bool \<Rightarrow> (state_snapshot \<times> nat) res" where
  "parse_snapshot_bytes cd path bs now allow_torn_tail =
     parse_lines cd path now allow_torn_tail bs 0 1 empty_snapshot"

subsection \<open>Complete lines and the tail\<close>

definition join_lines :: "string list \<Rightarrow> string" where
  "join_lines ls = concat (map (\<lambda>l. l @ [LF]) ls)"

lemma join_lines_simps [simp]:
  "join_lines [] = []"
  "join_lines (l # ls) = l @ LF # join_lines ls"
  "join_lines (ls @ ls') = join_lines ls @ join_lines ls'"
  by (simp_all add: join_lines_def)

definition no_LF :: "string \<Rightarrow> bool" where
  "no_LF l \<longleftrightarrow> LF \<notin> set l"

lemma no_LF_simps [simp]:
  "no_LF []"
  "no_LF (c # l) \<longleftrightarrow> c \<noteq> LF \<and> no_LF l"
  "no_LF (l @ l') \<longleftrightarrow> no_LF l \<and> no_LF l'"
  by (auto simp: no_LF_def)

lemma no_LF_take: "no_LF l \<Longrightarrow> no_LF (take n l)"
  by (auto simp: no_LF_def dest: in_set_takeD)

text \<open>Every byte string is a list of complete lines and an unfinished one.\<close>

lemma split_lines: "\<exists>ls tail. bs = join_lines ls @ tail \<and> list_all no_LF ls \<and> no_LF tail"
proof (induction bs)
  case Nil
  show ?case by (rule exI [of _ "[]"]) simp
next
  case (Cons c bs)
  then obtain ls tail where *: "bs = join_lines ls @ tail" "list_all no_LF ls" "no_LF tail"
    by blast
  show ?case
  proof (cases "c = LF")
    case True
    with * show ?thesis by (intro exI [of _ "[] # ls"] exI [of _ tail]) simp
  next
    case False
    show ?thesis
    proof (cases ls)
      case Nil
      with * False show ?thesis by (intro exI [of _ "[]"] exI [of _ "c # tail"]) simp
    next
      case (Cons l ls')
      with * False show ?thesis by (intro exI [of _ "(c # l) # ls'"] exI [of _ tail]) simp
    qed
  qed
qed

lemma line_of_LF [simp]: "no_LF l \<Longrightarrow> line_of (l @ LF # bs) = l"
  by (auto simp: line_of_def no_LF_def takeWhile_append)

lemma rest_of_LF [simp]: "no_LF l \<Longrightarrow> rest_of (l @ LF # bs) = bs"
  by (auto simp: rest_of_def no_LF_def dropWhile_append)

lemma line_of_tail [simp]: "no_LF l \<Longrightarrow> line_of l = l"
  unfolding line_of_def by (induction l) simp_all

lemma rest_of_tail [simp]: "no_LF l \<Longrightarrow> rest_of l = []"
  unfolding rest_of_def by (induction l) simp_all

lemma consumed_LF [simp]: "no_LF l \<Longrightarrow> consumed (l @ LF # bs) = Suc (length l)"
  by (simp add: consumed_def)

lemma consumed_tail [simp]: "no_LF l \<Longrightarrow> consumed l = length l"
  by (simp add: consumed_def) (simp add: no_LF_def)

text \<open>The record a line stands for: none for a blank line, \<open>None\<close> when it cannot be read.\<close>

definition line_records :: "codec \<Rightarrow> string \<Rightarrow> state_record list option" where
  "line_records cd l =
     (if \<not> utf8_valid l then None
      else if trim l = [] then Some []
      else case cd_de cd (trim l) of Inl _ \<Rightarrow> None | Inr r \<Rightarrow> Some [r])"

fun lines_records :: "codec \<Rightarrow> string list \<Rightarrow> state_record list option" where
  "lines_records cd [] = Some []"
| "lines_records cd (l # ls) =
     (case line_records cd l of
        None \<Rightarrow> None
      | Some r \<Rightarrow> map_option (\<lambda>rs. r @ rs) (lines_records cd ls))"

definition holds :: "codec \<Rightarrow> string \<Rightarrow> state_record list \<Rightarrow> bool" where
  "holds cd bs rs \<longleftrightarrow>
     (\<exists>ls tail. bs = join_lines ls @ tail \<and> list_all no_LF ls \<and> no_LF tail \<and>
        lines_records cd (ls @ [tail]) = Some rs)"

lemma line_records_Nil [simp]: "line_records cd [] = Some []"
  by (simp add: line_records_def)

lemma lines_records_append:
  "lines_records cd (ls @ ls') =
     (case lines_records cd ls of
        None \<Rightarrow> None
      | Some rs \<Rightarrow> map_option (\<lambda>rs'. rs @ rs') (lines_records cd ls'))"
proof (induction ls)
  case Nil
  show ?case by (cases "lines_records cd ls'") simp_all
next
  case (Cons l ls)
  then show ?case
    by (cases "line_records cd l"; cases "lines_records cd ls"; cases "lines_records cd ls'") simp_all
qed

lemma parse_lines_line:
  assumes "no_LF l"
  shows "parse_lines cd path now tt (l @ LF # bs) off ln s =
    (case line_records cd l of
       None \<Rightarrow> Inl (line_error path ln
          (if utf8_valid l then projl (cd_de cd (trim l)) else cd_utf8_error cd l))
     | Some rs \<Rightarrow>
        (case replay now s rs of
           Inl err \<Rightarrow> Inl (line_error path ln (error_display err))
         | Inr s' \<Rightarrow> parse_lines cd path now tt bs (off + Suc (length l)) (Suc ln) s'))"
  using assms
  by (subst parse_lines.simps)
    (auto simp: Let_def line_records_def and_then_def split: sum.splits)

lemma parse_lines_tail:
  assumes "no_LF l"
  shows "parse_lines cd path now tt l off ln s =
    (case line_records cd l of
       None \<Rightarrow> if tt then Inr (s, off) else Inl (line_error path ln
          (if utf8_valid l then projl (cd_de cd (trim l)) else cd_utf8_error cd l))
     | Some rs \<Rightarrow>
        (case replay now s rs of
           Inl err \<Rightarrow> Inl (line_error path ln (error_display err))
         | Inr s' \<Rightarrow> Inr (prune_expired_attempts now s', off + length l)))"
  using assms
  by (subst parse_lines.simps)
    (auto simp: Let_def line_records_def and_then_def parse_lines.simps [of _ _ _ _ "[]"]
      no_LF_def split: sum.splits)

lemma parse_lines_lines:
  assumes "list_all no_LF ls" "lines_records cd ls = Some rs" "replay now s rs = Inr s'"
  shows "parse_lines cd path now tt (join_lines ls @ bs) off ln s =
    parse_lines cd path now tt bs (off + length (join_lines ls)) (ln + length ls) s'"
  using assms
proof (induction ls arbitrary: rs off ln s)
  case (Cons l ls)
  from Cons.prems(2) obtain r1 r2 where r: "line_records cd l = Some r1"
    "lines_records cd ls = Some r2" "rs = r1 @ r2"
    by (auto split: option.splits)
  with Cons.prems(3) obtain s1 where s1: "replay now s r1 = Inr s1" "replay now s1 r2 = Inr s'"
    by (auto simp: replay_append and_then_Inr_iff)
  show ?case
    using Cons.prems(1) Cons.IH [OF _ r(2) s1(2), of "off + Suc (length l)" "Suc ln"] r(1) s1(1)
    by (simp add: parse_lines_line add.assoc)
qed simp

text \<open>
  Reading is defined by the lines: a line before the tail that cannot be read, or whose
  record is refused, is an error of the whole file.
\<close>

lemma parse_lines_Inr_lines:
  assumes "list_all no_LF ls" "parse_lines cd path now tt (join_lines ls @ bs) off ln s = Inr x"
  shows "\<exists>rs s'. lines_records cd ls = Some rs \<and> replay now s rs = Inr s'"
  using assms
proof (induction ls arbitrary: off ln s)
  case (Cons l ls)
  from Cons.prems obtain r1 s1 where r1: "line_records cd l = Some r1" "replay now s r1 = Inr s1"
    "parse_lines cd path now tt (join_lines ls @ bs) (off + Suc (length l)) (Suc ln) s1 = Inr x"
    by (auto simp: parse_lines_line split: option.splits sum.splits)
  from Cons.IH [OF _ r1(3)] Cons.prems(1) obtain r2 s2 where
    "lines_records cd ls = Some r2" "replay now s1 r2 = Inr s2" by auto
  with r1 show ?case by (simp add: replay_append)
qed simp

text \<open>A file that holds the records \<open>rs\<close> is read as their replay.\<close>

lemma parse_holds:
  assumes "holds cd bs rs" "replay now empty_snapshot rs = Inr s"
  shows "parse_snapshot_bytes cd path bs now tt = Inr (s, length bs)"
proof -
  from assms(1) obtain ls tail where f: "bs = join_lines ls @ tail" "list_all no_LF ls"
    "no_LF tail" "lines_records cd (ls @ [tail]) = Some rs" by (auto simp: holds_def)
  then obtain r1 r2 where r: "lines_records cd ls = Some r1" "line_records cd tail = Some r2"
    "rs = r1 @ r2" by (auto simp: lines_records_append split: option.splits)
  with assms(2) obtain s1 where s1: "replay now empty_snapshot r1 = Inr s1"
    "replay now s1 r2 = Inr s" by (auto simp: replay_append and_then_Inr_iff)
  show ?thesis
    unfolding parse_snapshot_bytes_def f(1) parse_lines_lines [OF f(2) r(1) s1(1)]
    using f(3) r(2) s1(2) replay_prune_same [OF assms(2)] by (simp add: parse_lines_tail)
qed

text \<open>
  Whatever the parser accepts is a prefix that holds records, followed by at most one torn
  line; without leave for a torn tail it is the whole file.
\<close>

lemma parse_sound:
  assumes "parse_snapshot_bytes cd path bs now tt = Inr (s, n)"
  shows "\<exists>rs. n \<le> length bs \<and> holds cd (take n bs) rs \<and> replay now empty_snapshot rs = Inr s \<and>
    (n < length bs \<longrightarrow> tt \<and> line_records cd (drop n bs) = None \<and> no_LF (drop n bs) \<and>
       (\<exists>ls. take n bs = join_lines ls \<and> list_all no_LF ls))"
proof -
  obtain ls tail where f: "bs = join_lines ls @ tail" "list_all no_LF ls" "no_LF tail"
    using split_lines by blast
  from assms f obtain r1 s1 where r1: "lines_records cd ls = Some r1"
    "replay now empty_snapshot r1 = Inr s1"
    using parse_lines_Inr_lines unfolding parse_snapshot_bytes_def by blast
  have p: "parse_lines cd path now tt tail (length (join_lines ls)) (1 + length ls) s1 = Inr (s, n)"
    using assms unfolding parse_snapshot_bytes_def f(1) parse_lines_lines [OF f(2) r1] by simp
  show ?thesis
  proof (cases "line_records cd tail")
    case None
    then have t: "tt" "s = s1" "n = length (join_lines ls)"
      using p f(3) by (auto simp: parse_lines_tail split: if_splits)
    have "holds cd (join_lines ls) r1"
      unfolding holds_def using f(2) r1(1)
      by (intro exI [of _ ls] exI [of _ "[]"]) (simp add: lines_records_append)
    moreover have "tail \<noteq> []" using None by auto
    ultimately show ?thesis using t f r1 None by auto
  next
    case (Some r2)
    then obtain s2 where s2: "replay now s1 r2 = Inr s2" "s = prune_expired_attempts now s2"
      "n = length bs"
      using p f by (auto simp: parse_lines_tail split: sum.splits)
    have rep: "replay now empty_snapshot (r1 @ r2) = Inr s2"
      using r1(2) s2(1) by (simp add: replay_append)
    have "lines_records cd (ls @ [tail]) = Some (r1 @ r2)"
      using r1(1) Some by (simp add: lines_records_append)
    then have "holds cd bs (r1 @ r2)" using f by (auto simp: holds_def)
    with rep s2 replay_prune_same [OF rep] show ?thesis by auto
  qed
qed

subsection \<open>Files, faults and the operations on them\<close>

text \<open>
  The state file is its bytes, or \<open>None\<close> when there is none. The faults an operation meets
  are given with it: an error of the read that precedes the repair, of the second read that
  loads the snapshot, of the truncation (with whether the file was
  shortened before it), or of the write: \<open>None\<close> when the file could not be opened, otherwise
  the number of bytes that reached it.
\<close>

record io_faults =
  io_read :: "error option"
  io_reload :: "error option"
  io_trunc :: "(bool \<times> error) option"
  io_write :: "(nat option \<times> error) option"

definition no_faults :: io_faults where
  "no_faults = \<lparr>io_read = None, io_reload = None, io_trunc = None, io_write = None\<rparr>"

type_synonym state_file = "string option"

definition snapshot_load_at ::
    "codec \<Rightarrow> string \<Rightarrow> time \<Rightarrow> io_faults \<Rightarrow> state_file \<Rightarrow> state_snapshot res" where
  "snapshot_load_at cd path now io file =
     (case io_reload io of
        Some e \<Rightarrow> Inl e
      | None \<Rightarrow>
         (case file of
            None \<Rightarrow> Inr empty_snapshot
          | Some bs \<Rightarrow>
             and_then (parse_snapshot_bytes cd path bs now True) (\<lambda>(s, _). Inr s)))"

definition repair_incomplete_tail ::
    "codec \<Rightarrow> string \<Rightarrow> time \<Rightarrow> io_faults \<Rightarrow> state_file \<Rightarrow> unit res \<times> state_file" where
  "repair_incomplete_tail cd path now io file =
     (case io_read io of
        Some e \<Rightarrow> (Inl e, file)
      | None \<Rightarrow>
         (case file of
            None \<Rightarrow> (Inr (), file)
          | Some bs \<Rightarrow>
             (case parse_snapshot_bytes cd path bs now True of
                Inl e \<Rightarrow> (Inl e, file)
              | Inr (_, valid_len) \<Rightarrow>
                  if valid_len < length bs then
                    (case io_trunc io of
                       None \<Rightarrow> (Inr (), Some (take valid_len bs))
                     | Some (shortened, e) \<Rightarrow>
                         (Inl e, if shortened then Some (take valid_len bs) else file))
                  else (Inr (), file))))"

definition append_bytes :: "codec \<Rightarrow> string \<Rightarrow> state_record \<Rightarrow> string" where
  "append_bytes cd bs r =
     (if bs \<noteq> [] \<and> last bs \<noteq> LF then [LF] else []) @ cd_ser cd r @ [LF]"

definition append_state_record ::
    "codec \<Rightarrow> io_faults \<Rightarrow> state_file \<Rightarrow> state_record \<Rightarrow> unit res \<times> state_file" where
  "append_state_record cd io file r =
     (let bs = (case file of None \<Rightarrow> [] | Some b \<Rightarrow> b); new = append_bytes cd bs r in
      case io_write io of
        None \<Rightarrow> (Inr (), Some (bs @ new))
      | Some (None, e) \<Rightarrow> (Inl e, file)
      | Some (Some k, e) \<Rightarrow> (Inl e, Some (bs @ take k new)))"

subsection \<open>Reading back what was appended\<close>

definition codec_ok :: "codec \<Rightarrow> state_record \<Rightarrow> bool" where
  "codec_ok cd r \<longleftrightarrow>
     cd_de cd (trim (cd_ser cd r)) = Inr r \<and> utf8_valid (cd_ser cd r) \<and>
     trim (cd_ser cd r) \<noteq> [] \<and> no_LF (cd_ser cd r)"

text \<open>
  \<open>codec_ok\<close>: serde's compact text of the record is one line of UTF-8 that reads back as the
  record. \<open>torn_ok\<close>: no proper prefix of it is a record (the text of an object ends with its
  closing brace).
\<close>

definition torn_ok :: "codec \<Rightarrow> state_record \<Rightarrow> bool" where
  "torn_ok cd r \<longleftrightarrow>
     list_all (\<lambda>k. let p = take k (cd_ser cd r) in
        utf8_valid p \<and> trim p \<noteq> [] \<longrightarrow> isl (cd_de cd (trim p)))
       [0..<length (cd_ser cd r)]"

text \<open>What the documentation of serde_json promises of the text of a state record.\<close>

definition codec_good :: "codec \<Rightarrow> bool" where
  "codec_good cd \<longleftrightarrow> (\<forall>r. codec_ok cd r \<and> torn_ok cd r)"

lemma codec_ok_line: "codec_ok cd r \<Longrightarrow> line_records cd (cd_ser cd r) = Some [r]"
  by (simp add: codec_ok_def line_records_def)

lemma torn_line:
  assumes "torn_ok cd r" "k < length (cd_ser cd r)"
  shows "line_records cd (take k (cd_ser cd r)) \<in> {None, Some []}"
  using assms by (auto simp: torn_ok_def line_records_def list_all_iff Let_def split: sum.splits)

lemma seal_lines:
  assumes "bs = join_lines ls @ tail" "list_all no_LF ls" "no_LF tail"
  shows "\<exists>ls'. bs @ (if bs \<noteq> [] \<and> last bs \<noteq> LF then [LF] else []) = join_lines ls' \<and>
    list_all no_LF ls' \<and> lines_records cd ls' = lines_records cd (ls @ [tail])"
proof (cases "tail = []")
  case True
  have "bs = [] \<or> last bs = LF"
    using assms True by (cases ls rule: rev_cases) auto
  then show ?thesis
    using assms True by (intro exI [of _ ls])
      (auto simp: lines_records_append split: option.splits)
next
  case False
  then have "last bs \<noteq> LF"
    using assms by (auto simp: no_LF_def) (metis last_in_set)
  then show ?thesis
    using assms False by (intro exI [of _ "ls @ [tail]"]) auto
qed

text \<open>The whole record was written: the file holds one record more.\<close>

lemma holds_append:
  assumes "holds cd bs rs" "codec_ok cd r"
  shows "holds cd (bs @ append_bytes cd bs r) (rs @ [r])"
proof -
  from assms(1) obtain ls tail where f: "bs = join_lines ls @ tail" "list_all no_LF ls"
    "no_LF tail" "lines_records cd (ls @ [tail]) = Some rs" by (auto simp: holds_def)
  from seal_lines [OF f(1-3)] obtain ls' where
    ls': "bs @ (if bs \<noteq> [] \<and> last bs \<noteq> LF then [LF] else []) = join_lines ls'"
    "list_all no_LF ls'" "lines_records cd ls' = Some rs" using f(4) by metis
  have "bs @ append_bytes cd bs r = join_lines (ls' @ [cd_ser cd r]) @ []"
    unfolding append_bytes_def using ls'(1) by (simp flip: append_assoc)
  moreover have "lines_records cd ((ls' @ [cd_ser cd r]) @ [[]]) = Some (rs @ [r])"
    using ls'(3) codec_ok_line [OF assms(2)] by (simp add: lines_records_append)
  ultimately show ?thesis
    using ls'(2) assms(2) unfolding holds_def codec_ok_def
    by (intro exI [of _ "ls' @ [cd_ser cd r]"] exI [of _ "[]"]) simp
qed

text \<open>
  What a file stands for after the repair of its last line: the records of its complete
  lines, and that of the last line when it can be read.
\<close>

definition recovers :: "codec \<Rightarrow> string \<Rightarrow> state_record list \<Rightarrow> bool" where
  "recovers cd bs rs \<longleftrightarrow>
     (\<exists>ls tail rs1. bs = join_lines ls @ tail \<and> list_all no_LF ls \<and> no_LF tail \<and>
        lines_records cd ls = Some rs1 \<and>
        rs = (case line_records cd tail of None \<Rightarrow> rs1 | Some r2 \<Rightarrow> rs1 @ r2))"

lemma holds_recovers: "holds cd bs rs \<Longrightarrow> recovers cd bs rs"
  unfolding holds_def recovers_def
  by (fastforce simp: lines_records_append split: option.splits)

lemma holds_lines: "list_all no_LF ls \<Longrightarrow> lines_records cd ls = Some rs \<Longrightarrow> holds cd (join_lines ls) rs"
  unfolding holds_def by (intro exI [of _ ls] exI [of _ "[]"]) (simp add: lines_records_append)

lemma recovers_parse:
  assumes "recovers cd bs rs" "replay now empty_snapshot rs = Inr s"
  shows "\<exists>n \<le> length bs. parse_snapshot_bytes cd path bs now True = Inr (s, n) \<and>
    holds cd (take n bs) rs"
proof -
  from assms(1) obtain ls tail rs1 where f: "bs = join_lines ls @ tail" "list_all no_LF ls"
    "no_LF tail" "lines_records cd ls = Some rs1"
    "rs = (case line_records cd tail of None \<Rightarrow> rs1 | Some r2 \<Rightarrow> rs1 @ r2)"
    by (auto simp: recovers_def)
  show ?thesis
  proof (cases "line_records cd tail")
    case None
    then have s: "replay now empty_snapshot rs1 = Inr s" "rs = rs1" using assms(2) f(5) by simp_all
    have "parse_snapshot_bytes cd path bs now True = Inr (s, length (join_lines ls))"
      unfolding parse_snapshot_bytes_def f(1) parse_lines_lines [OF f(2,4) s(1)]
      using None f(3) by (simp add: parse_lines_tail)
    moreover have "holds cd (join_lines ls) rs" using f s by (simp add: holds_lines)
    ultimately show ?thesis
      using f(1) by (intro exI [of _ "length (join_lines ls)"]) simp
  next
    case (Some r2)
    then have "holds cd bs rs" using f unfolding holds_def
      by (intro exI [of _ ls] exI [of _ tail]) (simp add: lines_records_append)
    with parse_holds [OF this assms(2)] show ?thesis by (intro exI [of _ "length bs"]) simp
  qed
qed

text \<open>
  The write stopped after \<open>k\<close> bytes. Up to the repair of the last line, the file then holds
  the records it held, or those and the new one; never anything else.
\<close>

lemma torn_append:
  assumes "holds cd bs rs" "codec_ok cd r" "torn_ok cd r"
  shows "recovers cd (bs @ take k (append_bytes cd bs r)) rs \<or>
    recovers cd (bs @ take k (append_bytes cd bs r)) (rs @ [r])"
proof -
  let ?sep = "if bs \<noteq> [] \<and> last bs \<noteq> LF then [LF] else []"
  let ?f = "bs @ take k (append_bytes cd bs r)"
  from assms(1) obtain ls tail where f: "bs = join_lines ls @ tail" "list_all no_LF ls"
    "no_LF tail" "lines_records cd (ls @ [tail]) = Some rs" by (auto simp: holds_def)
  from seal_lines [OF f(1-3)] obtain ls' where ls': "bs @ ?sep = join_lines ls'"
    "list_all no_LF ls'" "lines_records cd ls' = Some rs" using f(4) by metis
  have "k < m \<or> (k = m + (k - m) \<and> k - m < n) \<or> k = m + n \<or> m + n < k" for m n :: nat
    by arith
  from this [of "length ?sep" "length (cd_ser cd r)"]
  consider (none) "k < length ?sep" | (torn) j where "k = length ?sep + j" "j < length (cd_ser cd r)"
    | (json) "k = length ?sep + length (cd_ser cd r)"
    | (full) "length ?sep + length (cd_ser cd r) < k"
    by blast
  then show ?thesis
  proof cases
    case none
    then have "?f = bs" by (auto simp: append_bytes_def split: if_splits)
    then have "recovers cd ?f rs" using holds_recovers [OF assms(1)] by (simp only:)
    then show ?thesis ..
  next
    case torn
    let ?t = "take j (cd_ser cd r)"
    have "?f = join_lines ls' @ ?t" using torn by (simp add: append_bytes_def flip: ls'(1))
    moreover have "no_LF ?t" using assms(2) by (simp add: codec_ok_def no_LF_take)
    moreover have "rs = (case line_records cd ?t of None \<Rightarrow> rs | Some r2 \<Rightarrow> rs @ r2)"
      using torn_line [OF assms(3) torn(2)] by auto
    ultimately show ?thesis using ls' unfolding recovers_def by blast
  next
    case json
    have "?f = join_lines ls' @ cd_ser cd r" using json by (simp add: append_bytes_def flip: ls'(1))
    moreover have "no_LF (cd_ser cd r)" using assms(2) by (simp add: codec_ok_def)
    moreover have "rs @ [r] = (case line_records cd (cd_ser cd r) of None \<Rightarrow> rs | Some r2 \<Rightarrow> rs @ r2)"
      by (simp add: codec_ok_line [OF assms(2)])
    ultimately show ?thesis using ls' unfolding recovers_def by blast
  next
    case full
    then have "take k (append_bytes cd bs r) = append_bytes cd bs r" by (simp add: append_bytes_def)
    then show ?thesis using holds_append [OF assms(1,2)] holds_recovers by metis
  qed
qed

end
