(* ===== verification/StateStore.thy ===== *)
theory StateStore imports LogFile "HOL-Library.Word" begin

text \<open>
  \<open>JsonlStateStore\<close> of \<open>src/state.rs\<close>: a handle keeps a snapshot, every operation first
  repairs and re-reads the file, decides on the fresh snapshot and appends one record. The
  model runs an operation on a context: the handle's snapshot, the file, and the process-wide
  counter of attempt ids. It is the part of the operation that runs under the path lock
  (theory \<open>PathLock\<close>).
\<close>

subsection \<open>Environment and context\<close>

record store_env =
  se_codec :: codec
  se_path :: string
  se_pid :: nat
  se_dt_max :: time

text \<open>\<open>chrono::Duration\<close> holds at most \<open>i64::MAX\<close> milliseconds.\<close>

definition TD_MAX :: int where
  "TD_MAX = 9223372036854775807 * 1000000"

record store_ctx =
  cx_snapshot :: state_snapshot
  cx_file :: state_file
  cx_next_attempt :: "64 word"

type_synonym 'a store_op = "store_ctx \<Rightarrow> 'a res \<times> store_ctx"

datatype attempt_start =
    Started attempt_lease
  | AlreadyProcessed
  | StillLeased duration

subsection \<open>Attempt leases\<close>

definition lease_expires_at :: "store_env \<Rightarrow> time \<Rightarrow> duration \<Rightarrow> time res" where
  "lease_expires_at env now lease =
     (let l = int (if lease = 0 then SEC else lease) in
      if TD_MAX < l then Inl (Other ''attempt lease duration is too large'')
      else if se_dt_max env < now + l then Inl (Other ''attempt lease expiry overflowed'')
      else Inr (now + l))"

definition attempt_id_of :: "time \<Rightarrow> nat \<Rightarrow> 64 word \<Rightarrow> string" where
  "attempt_id_of now pid n =
     show_int (now div 1000) @ ''-'' @ show_nat pid @ ''-'' @ show_nat (unat n)"

definition new_attempt_lease ::
    "store_env \<Rightarrow> string \<Rightarrow> time \<Rightarrow> duration \<Rightarrow> attempt_lease store_op" where
  "new_attempt_lease env mid now lease =
     seq_op (lift_res (ensure_message_id mid)) (\<lambda>_ c.
       let n = cx_next_attempt c; c' = c\<lparr>cx_next_attempt := n + 1\<rparr> in
       (and_then (lease_expires_at env now lease) (\<lambda>e. Inr
          \<lparr>al_message_id = mid, al_attempt_id = attempt_id_of now (se_pid env) n,
           al_expires_at = e\<rparr>), c'))"

subsection \<open>Reading and appending under the lock\<close>

definition load_at :: "store_env \<Rightarrow> io_faults \<Rightarrow> time \<Rightarrow> state_file \<Rightarrow> state_snapshot res \<times> state_file" where
  "load_at env io now file =
     (case repair_incomplete_tail (se_codec env) (se_path env) now io file of
        (Inl e, file') \<Rightarrow> (Inl e, file')
      | (Inr _, file') \<Rightarrow>
          (snapshot_load_at (se_codec env) (se_path env) now io file', file'))"

definition refresh_at_unlocked :: "store_env \<Rightarrow> io_faults \<Rightarrow> time \<Rightarrow> unit store_op" where
  "refresh_at_unlocked env io now c =
     (case repair_incomplete_tail (se_codec env) (se_path env) now io (cx_file c) of
        (Inl e, file') \<Rightarrow> (Inl e, c\<lparr>cx_file := file'\<rparr>)
      | (Inr _, file') \<Rightarrow>
          (case snapshot_load_at (se_codec env) (se_path env) now io file' of
             Inl e \<Rightarrow> (Inl e, c\<lparr>cx_file := file'\<rparr>)
           | Inr s \<Rightarrow> (Inr (), c\<lparr>cx_file := file', cx_snapshot := s\<rparr>)))"

definition append_after_current_snapshot_unlocked ::
    "store_env \<Rightarrow> io_faults \<Rightarrow> time \<Rightarrow> state_record \<Rightarrow> unit store_op" where
  "append_after_current_snapshot_unlocked env io now r c =
     (case apply_record now (cx_snapshot c) r of
        Inl e \<Rightarrow> (Inl e, c)
      | Inr next_snapshot \<Rightarrow>
         (case append_state_record (se_codec env) io (cx_file c) r of
            (Inl e, file') \<Rightarrow> (Inl e, c\<lparr>cx_file := file'\<rparr>)
          | (Inr _, file') \<Rightarrow> (Inr (), c\<lparr>cx_file := file', cx_snapshot := next_snapshot\<rparr>)))"

definition ensure_attempt_owner :: "attempt_lease \<Rightarrow> time \<Rightarrow> unit store_op" where
  "ensure_attempt_owner attempt now =
     seq_op (lift_res (ensure_message_id (al_message_id attempt))) (\<lambda>_ c.
       (if (case active_attempt_lease (cx_snapshot c) (al_message_id attempt) of
              Some active \<Rightarrow> al_attempt_id active = al_attempt_id attempt \<and>
                remaining_lease (al_expires_at active) now \<noteq> None
            | None \<Rightarrow> False)
        then Inr ()
        else Inl (Other (''attempt lease '' @ al_attempt_id attempt @
               '' is not active for message '' @ al_message_id attempt)), c))"

subsection \<open>The operations\<close>

definition begin_attempt_at ::
    "store_env \<Rightarrow> io_faults \<Rightarrow> string \<Rightarrow> duration \<Rightarrow> time \<Rightarrow> attempt_start store_op" where
  "begin_attempt_at env io mid lease now =
     seq_op (lift_res (ensure_message_id mid)) (\<lambda>_.
     seq_op (refresh_at_unlocked env io now) (\<lambda>_ c.
       if contains_processed_message (cx_snapshot c) mid then (Inr AlreadyProcessed, c)
       else (case Option.bind (active_attempt_lease (cx_snapshot c) mid)
                    (\<lambda>active. remaining_lease (al_expires_at active) now) of
          Some remaining \<Rightarrow> (Inr (StillLeased remaining), c)
        | None \<Rightarrow>
            seq_op (new_attempt_lease env mid now lease) (\<lambda>attempt.
            seq_op (append_after_current_snapshot_unlocked env io now
                (new_record (AttemptLeased (al_message_id attempt) (al_attempt_id attempt)
                  (al_expires_at attempt)))) (\<lambda>_ c.
            (Inr (Started attempt), c))) c)))"

definition release_attempt_at ::
    "store_env \<Rightarrow> io_faults \<Rightarrow> attempt_lease \<Rightarrow> time \<Rightarrow> unit store_op" where
  "release_attempt_at env io attempt now =
     seq_op (refresh_at_unlocked env io now) (\<lambda>_.
     seq_op (ensure_attempt_owner attempt now) (\<lambda>_.
       append_after_current_snapshot_unlocked env io now
         (new_record (AttemptReleased (al_message_id attempt) (al_attempt_id attempt) now))))"

definition defer_attempt_at ::
    "store_env \<Rightarrow> io_faults \<Rightarrow> attempt_lease \<Rightarrow> duration \<Rightarrow> time \<Rightarrow> unit store_op" where
  "defer_attempt_at env io attempt lease now =
     seq_op (refresh_at_unlocked env io now) (\<lambda>_.
     seq_op (ensure_attempt_owner attempt now) (\<lambda>_.
     seq_op (lift_res (lease_expires_at env now lease)) (\<lambda>expires_at.
       append_after_current_snapshot_unlocked env io now
         (new_record (AttemptLeased (al_message_id attempt) (al_attempt_id attempt) expires_at)))))"

definition mark_processed_at ::
    "store_env \<Rightarrow> io_faults \<Rightarrow> attempt_lease \<Rightarrow> time \<Rightarrow> unit store_op" where
  "mark_processed_at env io attempt now =
     seq_op (refresh_at_unlocked env io now) (\<lambda>_ c.
       if contains_processed_message (cx_snapshot c) (al_message_id attempt) then (Inr (), c)
       else seq_op (ensure_attempt_owner attempt now) (\<lambda>_.
         append_after_current_snapshot_unlocked env io now
           (new_record (ProcessedMessage (al_message_id attempt) now))) c)"

definition save_room_checkpoint_at ::
    "store_env \<Rightarrow> io_faults \<Rightarrow> room_checkpoint \<Rightarrow> time \<Rightarrow> unit store_op" where
  "save_room_checkpoint_at env io checkpoint now =
     seq_op (refresh_at_unlocked env io now) (\<lambda>_.
       append_after_current_snapshot_unlocked env io now
         (new_record (RoomCheckpointEvent checkpoint now)))"

text \<open>The loop of \<open>save_room_checkpoints\<close> stops at the first failed append.\<close>

fun append_checkpoints ::
    "store_env \<Rightarrow> time \<Rightarrow> (room_checkpoint \<times> io_faults) list \<Rightarrow> unit store_op" where
  "append_checkpoints env now [] = lift_res (Inr ())"
| "append_checkpoints env now ((checkpoint, io) # cs) =
     seq_op (append_after_current_snapshot_unlocked env io now
        (new_record (RoomCheckpointEvent checkpoint now)))
       (\<lambda>_. append_checkpoints env now cs)"

definition save_room_checkpoints ::
    "store_env \<Rightarrow> io_faults \<Rightarrow> (room_checkpoint \<times> io_faults) list \<Rightarrow> time \<Rightarrow> unit store_op" where
  "save_room_checkpoints env io cs now =
     seq_op (refresh_at_unlocked env io now) (\<lambda>_. append_checkpoints env now cs)"

subsection \<open>What a file stands for\<close>

definition log_is :: "store_env \<Rightarrow> state_file \<Rightarrow> state_record list \<Rightarrow> bool" where
  "log_is env file rs \<longleftrightarrow>
     (case file of None \<Rightarrow> rs = [] | Some bs \<Rightarrow> recovers (se_codec env) bs rs) \<and>
     list_all record_ok rs"

definition sealed :: "store_env \<Rightarrow> state_file \<Rightarrow> state_record list \<Rightarrow> bool" where
  "sealed env file rs \<longleftrightarrow>
     (case file of None \<Rightarrow> rs = [] | Some bs \<Rightarrow> holds (se_codec env) bs rs) \<and>
     list_all record_ok rs"

lemma sealed_log_is: "sealed env file rs \<Longrightarrow> log_is env file rs"
  by (auto simp: sealed_def log_is_def holds_recovers split: option.splits)

definition snapshot_of :: "time \<Rightarrow> state_record list \<Rightarrow> state_snapshot" where
  "snapshot_of now rs = projr (replay now empty_snapshot rs)"

lemma replay_snapshot_of:
  "list_all record_ok rs \<Longrightarrow> replay now empty_snapshot rs = Inr (snapshot_of now rs)"
  unfolding snapshot_of_def using replay_Inr_iff by (metis sum.sel(2))

lemma log_is_ok: "log_is env file rs \<Longrightarrow> list_all record_ok rs"
  by (simp add: log_is_def)

lemma sealed_load:
  assumes "sealed env file rs" "io_reload io = None"
  shows "snapshot_load_at (se_codec env) path now io file = Inr (snapshot_of now rs)"
proof -
  have "replay now empty_snapshot rs = Inr (snapshot_of now rs)"
    using assms(1) by (simp add: sealed_def replay_snapshot_of)
  then show ?thesis
    using assms parse_holds by (auto simp: sealed_def snapshot_load_at_def split: option.splits)
qed

text \<open>
  The repair keeps what the file stands for, whatever fails; when it succeeds no torn line
  is left.
\<close>

lemma repair_log:
  assumes "log_is env file rs"
    and "repair_incomplete_tail (se_codec env) path now io file = (res, file')"
  shows "log_is env file' rs \<and> (res = Inr () \<longrightarrow> sealed env file' rs)
    \<and> (io_read io = None \<and> io_trunc io = None \<longrightarrow> res = Inr ())"
proof (cases "file")
  case None
  with assms show ?thesis
    by (auto simp: repair_incomplete_tail_def log_is_def sealed_def split: option.splits)
next
  case (Some bs)
  have ok: "list_all record_ok rs" and r: "recovers (se_codec env) bs rs"
    using assms(1) Some by (simp_all add: log_is_def)
  obtain n where n: "n \<le> length bs" "holds (se_codec env) (take n bs) rs"
    "parse_snapshot_bytes (se_codec env) path bs now True = Inr (snapshot_of now rs, n)"
    using recovers_parse [OF r replay_snapshot_of [OF ok]] by blast
  show ?thesis
    using assms Some n ok r
    by (auto simp: repair_incomplete_tail_def log_is_def sealed_def holds_recovers
        split: option.splits if_splits)
qed

lemma refresh_log:
  assumes "log_is env (cx_file c) rs" "refresh_at_unlocked env io now c = (res, c')"
  shows "log_is env (cx_file c') rs \<and> cx_next_attempt c' = cx_next_attempt c \<and>
    (res = Inr () \<longrightarrow> sealed env (cx_file c') rs \<and> cx_snapshot c' = snapshot_of now rs) \<and>
    (res \<noteq> Inr () \<longrightarrow> cx_snapshot c' = cx_snapshot c)"
proof -
  obtain res0 file' where r: "repair_incomplete_tail (se_codec env) (se_path env) now io (cx_file c)
      = (res0, file')" by fastforce
  note log = repair_log [OF assms(1) r]
  show ?thesis
    using assms(2) r log sealed_load [of env file' rs io "se_path env" now]
    by (cases "io_reload io")
      (auto simp: refresh_at_unlocked_def snapshot_load_at_def split: sum.splits)
qed

lemma refresh_ok:
  assumes "log_is env (cx_file c) rs" "io_read io = None" "io_reload io = None" "io_trunc io = None"
  shows "\<exists>file'. refresh_at_unlocked env io now c =
    (Inr (), c\<lparr>cx_file := file', cx_snapshot := snapshot_of now rs\<rparr>) \<and> sealed env file' rs"
proof -
  obtain res0 file' where r: "repair_incomplete_tail (se_codec env) (se_path env) now io (cx_file c)
      = (res0, file')" by fastforce
  from repair_log [OF assms(1) r] assms(2,4) have "res0 = Inr ()" "sealed env file' rs" by simp_all
  then show ?thesis
    using r sealed_load [of env file' rs io "se_path env" now] assms(3)
    by (intro exI [of _ file']) (simp add: refresh_at_unlocked_def)
qed

lemma snapshot_of_snoc:
  assumes "list_all record_ok rs" "record_ok r"
  shows "apply_record now (snapshot_of now rs) r = Inr (snapshot_of now (rs @ [r]))"
proof -
  have "replay now empty_snapshot (rs @ [r]) = Inr (snapshot_of now (rs @ [r]))"
    using assms by (simp add: replay_snapshot_of)
  then show ?thesis
    using replay_snapshot_of [OF assms(1)] by (auto simp: replay_append and_then_Inr_iff)
qed

text \<open>Appending to a sealed file: one record more, or, when the write fails, maybe one more.\<close>

lemma append_log:
  assumes "sealed env (cx_file c) rs" "cx_snapshot c = snapshot_of now rs" "record_ok r"
    and "codec_good (se_codec env)"
    and "append_after_current_snapshot_unlocked env io now r c = (res, c')"
  shows "cx_next_attempt c' = cx_next_attempt c \<and>
    (if res = Inr () then sealed env (cx_file c') (rs @ [r]) \<and>
        cx_snapshot c' = snapshot_of now (rs @ [r])
     else (log_is env (cx_file c') rs \<or> log_is env (cx_file c') (rs @ [r])) \<and>
        cx_snapshot c' = cx_snapshot c \<and> io_write io \<noteq> None)"
proof -
  let ?bs = "case cx_file c of None \<Rightarrow> [] | Some b \<Rightarrow> b"
  have ok: "list_all record_ok rs" "list_all record_ok (rs @ [r])"
    using assms(1,3) by (simp_all add: sealed_def)
  have bs: "holds (se_codec env) ?bs rs"
    using assms(1) by (auto simp: sealed_def split: option.splits)
      (auto simp: holds_def intro!: exI [of _ "[]"])
  have fits: "codec_ok (se_codec env) r" "torn_ok (se_codec env) r"
    using assms(4) by (simp_all add: codec_good_def)
  note snap = snapshot_of_snoc [OF ok(1) assms(3), of now]
  have torn: "log_is env (Some (?bs @ take k (append_bytes (se_codec env) ?bs r))) rs \<or>
    log_is env (Some (?bs @ take k (append_bytes (se_codec env) ?bs r))) (rs @ [r])" for k
    using torn_append [OF bs fits, of k] ok by (simp add: log_is_def)
  show ?thesis
  proof (cases "io_write io")
    case None
    then show ?thesis
      using assms(5) snap assms(2) ok holds_append [OF bs fits(1)]
      by (auto simp: append_after_current_snapshot_unlocked_def append_state_record_def Let_def
          sealed_def)
  next
    case (Some f)
    obtain k e where f: "f = (k, e)" by fastforce
    show ?thesis
    proof (cases k)
      case None
      then show ?thesis
        using assms(5) snap assms(2) Some f sealed_log_is [OF assms(1)]
        by (auto simp: append_after_current_snapshot_unlocked_def append_state_record_def Let_def)
    next
      case (Some j)
      then have "res = Inl e" "c' = c\<lparr>cx_file := Some (?bs @ take j (append_bytes (se_codec env) ?bs r))\<rparr>"
        using assms(5) snap assms(2) \<open>io_write io = Some f\<close> f
        by (simp_all add: append_after_current_snapshot_unlocked_def append_state_record_def Let_def)
      then show ?thesis using torn [of j] \<open>io_write io = Some f\<close> by simp
    qed
  qed
qed

lemma append_ok:
  assumes "sealed env (cx_file c) rs" "cx_snapshot c = snapshot_of now rs" "record_ok r"
    and "codec_good (se_codec env)" "io_write io = None"
  shows "\<exists>file'. append_after_current_snapshot_unlocked env io now r c =
      (Inr (), c\<lparr>cx_file := file', cx_snapshot := snapshot_of now (rs @ [r])\<rparr>) \<and>
    sealed env file' (rs @ [r])"
proof -
  obtain res c' where a: "append_after_current_snapshot_unlocked env io now r c = (res, c')"
    by fastforce
  note log = append_log [OF assms(1-4) a]
  have "res = Inr ()" using log assms(5) by (simp split: if_splits)
  with a log show ?thesis
    by (auto simp: append_after_current_snapshot_unlocked_def append_state_record_def Let_def
        assms(5) split: sum.splits)
qed

text \<open>What the fresh snapshot says of a message is what the log says of it.\<close>

lemma snapshot_of_views:
  assumes "list_all record_ok rs"
  shows "contains_processed_message (snapshot_of now rs) m \<longleftrightarrow> log_view m rs = Done"
    and "active_attempt_lease (snapshot_of now rs) m = lease_at now m (log_view m rs)"
    and "room_checkpoint_of (snapshot_of now rs) q = log_room q rs"
    and "snap_inv (snapshot_of now rs)"
  using shows_view_log [OF replay_snapshot_of [OF assms, of now]]
  by (simp_all add: shows_view_def)

end
