(* ===== verification/PlainCodec.thy ===== *)
theory PlainCodec imports LogFile "HOL-Library.Countable" begin

text \<open>
  A concrete line format for state records, in the place of serde_json: one number between
  braces. It satisfies what the store asks of a codec (\<open>codec_good\<close>), so the laws the
  properties of the state store assume are consistent, and the properties can be applied to
  concrete files.
\<close>

definition nat_of_string :: "string \<Rightarrow> nat" where
  "nat_of_string s = list_encode (map byte s)"

definition string_of_nat :: "nat \<Rightarrow> string" where
  "string_of_nat n = map char_of (list_decode n)"

lemma string_of_nat_of_string [simp]: "string_of_nat (nat_of_string s) = s"
  by (simp add: string_of_nat_def nat_of_string_def byte_def comp_def)

definition nat_of_checkpoint :: "room_checkpoint \<Rightarrow> nat" where
  "nat_of_checkpoint c =
     list_encode [nat_of_string (rc_room_id c),
       list_encode (map nat_of_string (rc_seen_message_ids c)),
       if rc_initialize_empty c then 1 else 0]"

definition checkpoint_of_nat :: "nat \<Rightarrow> room_checkpoint" where
  "checkpoint_of_nat n = (let ns = list_decode n in
     \<lparr>rc_room_id = string_of_nat (ns ! 0),
      rc_seen_message_ids = map string_of_nat (list_decode (ns ! 1)),
      rc_initialize_empty = (ns ! 2 = 1)\<rparr>)"

lemma checkpoint_of_nat_of_checkpoint [simp]: "checkpoint_of_nat (nat_of_checkpoint c) = c"
  by (simp add: checkpoint_of_nat_def nat_of_checkpoint_def comp_def)

fun nats_of_event :: "state_event \<Rightarrow> nat list" where
  "nats_of_event (ProcessedMessage m t) = [0, nat_of_string m, 0, int_encode t]"
| "nats_of_event (AttemptLeased m a t) = [1, nat_of_string m, nat_of_string a, int_encode t]"
| "nats_of_event (AttemptReleased m a t) = [2, nat_of_string m, nat_of_string a, int_encode t]"
| "nats_of_event (RoomCheckpointEvent c t) = [3, nat_of_checkpoint c, 0, int_encode t]"

definition event_of_nats :: "nat list \<Rightarrow> state_event" where
  "event_of_nats ns =
     (if ns ! 0 = 0 then ProcessedMessage (string_of_nat (ns ! 1)) (int_decode (ns ! 3))
      else if ns ! 0 = 1 then
        AttemptLeased (string_of_nat (ns ! 1)) (string_of_nat (ns ! 2)) (int_decode (ns ! 3))
      else if ns ! 0 = 2 then
        AttemptReleased (string_of_nat (ns ! 1)) (string_of_nat (ns ! 2)) (int_decode (ns ! 3))
      else RoomCheckpointEvent (checkpoint_of_nat (ns ! 1)) (int_decode (ns ! 3)))"

lemma event_of_nats_of_event [simp]: "event_of_nats (nats_of_event ev) = ev"
  by (cases ev) (simp_all add: event_of_nats_def)

definition plain_ser :: "state_record \<Rightarrow> string" where
  "plain_ser r =
     CHR 0x7B # show_nat (list_encode (sr_version r # nats_of_event (sr_event r))) @ [CHR 0x7D]"

definition plain_de :: "string \<Rightarrow> string + state_record" where
  "plain_de s =
     (if 2 \<le> length s \<and> hd s = CHR 0x7B \<and> last s = CHR 0x7D then
        let ns = list_decode (digits_val (butlast (tl s))) in
        Inr \<lparr>sr_version = hd ns, sr_event = event_of_nats (tl ns)\<rparr>
      else Inl ''not a record'')"

definition plain_codec :: codec where
  "plain_codec = \<lparr>cd_de = plain_de, cd_ser = plain_ser, cd_utf8_error = (\<lambda>_. ''not utf-8'')\<rparr>"

lemma plain_round [simp]: "plain_de (plain_ser r) = Inr r"
  by (simp add: plain_de_def plain_ser_def butlast_append)

lemma digit_byte: "c \<in> set (show_nat n) \<Longrightarrow> 48 \<le> byte c \<and> byte c \<le> 57"
  using show_nat_digits by (auto simp: is_digit_def)

lemma is_ascii_show_nat [simp]: "is_ascii (show_nat n)"
  by (auto simp: is_ascii_def list_all_iff dest!: digit_byte)

lemma plain_ser_ascii: "is_ascii (plain_ser r)"
  by (simp add: plain_ser_def byte_def)

lemma no_LF_show_nat: "LF \<notin> set (show_nat n)"
  by (auto dest!: digit_byte) (simp add: byte_def LF_def)

lemma plain_prefix:
  assumes "k < length (plain_ser r)" "0 < k"
  shows "take k (plain_ser r) = CHR 0x7B #
    take (k - 1) (show_nat (list_encode (sr_version r # nats_of_event (sr_event r))))"
  using assms by (cases k) (simp_all add: plain_ser_def)

lemma plain_torn:
  assumes "k < length (plain_ser r)"
  shows "isl (plain_de (trim (take k (plain_ser r))))"
proof (cases "k = 0")
  case True
  then show ?thesis by (simp add: plain_de_def)
next
  case False
  let ?p = "take k (plain_ser r)"
  let ?ds = "take (k - 1) (show_nat (list_encode (sr_version r # nats_of_event (sr_event r))))"
  have p: "?p = CHR 0x7B # ?ds" using plain_prefix [OF assms] False by simp
  have ds: "c \<in> set ?ds \<Longrightarrow> 48 \<le> byte c \<and> byte c \<le> 57" for c
    by (auto dest!: in_set_takeD digit_byte)
  have "last ?p = CHR 0x7B \<or> last ?p \<in> set ?ds" unfolding p by simp
  then have last: "last ?p \<noteq> CHR 0x7D" "\<not> is_ws [last ?p]"
    using ds [of "last ?p"] by (auto simp: byte_def)
  have "is_ascii ?p"
    using plain_ser_ascii [of r] by (auto simp: is_ascii_def list_all_iff dest: in_set_takeD)
  then have "trim ?p = ?p"
    by (rule trim_ascii_id) (use last(2) in \<open>simp_all add: p byte_def\<close>)
  then show ?thesis using last(1) by (simp add: plain_de_def)
qed

lemma plain_codec_good: "codec_good plain_codec"
proof -
  have trim: "trim (plain_ser r) = plain_ser r" for r
    by (rule trim_ascii_id) (simp_all add: plain_ser_ascii plain_ser_def byte_def)
  have "codec_ok plain_codec r" for r
    by (simp add: codec_ok_def plain_codec_def trim is_ascii_utf8_valid plain_ser_ascii)
      (simp add: plain_ser_def no_LF_def no_LF_show_nat, simp add: LF_def)
  moreover have "torn_ok plain_codec r" for r
    by (auto simp: torn_ok_def plain_codec_def list_all_iff plain_torn)
  ultimately show ?thesis by (simp add: codec_good_def)
qed

end
