(* ===== verification/StoreSpec.thy ===== *)
theory StoreSpec imports StateStore PlainCodec begin

text \<open>
  The contract of \<open>JsonlStateStore\<close>: what each operation answers and which records it
  adds, as a function of the view the log gives of one message (\<open>log_view\<close>); and the proof
  that the operations of \<open>StateStore\<close> implement it, with or without faults of the file
  system. \<open>sim\<close> relates a run of an operation to its specification.
\<close>

subsection \<open>The specification\<close>

type_synonym 'a verdict = "'a res \<times> state_record list \<times> 64 word"

fun owner_ok :: "time \<Rightarrow> string \<Rightarrow> mview \<Rightarrow> bool" where
  "owner_ok now a (Leased b e) \<longleftrightarrow> b = a \<and> now < e"
| "owner_ok now a _ \<longleftrightarrow> False"

definition not_owner :: "attempt_lease \<Rightarrow> error" where
  "not_owner l = Other (''attempt lease '' @ al_attempt_id l @
     '' is not active for message '' @ al_message_id l)"

definition spec_start :: "store_env \<Rightarrow> time \<Rightarrow> string \<Rightarrow> duration \<Rightarrow> 64 word \<Rightarrow> attempt_start verdict" where
  "spec_start env now mid lease n =
     (case lease_expires_at env now lease of
        Inl e \<Rightarrow> (Inl e, [], n + 1)
      | Inr e \<Rightarrow> let a = attempt_id_of now (se_pid env) n in
          (Inr (Started \<lparr>al_message_id = mid, al_attempt_id = a, al_expires_at = e\<rparr>),
           [new_record (AttemptLeased mid a e)], n + 1))"

definition spec_begin :: "store_env \<Rightarrow> time \<Rightarrow> string \<Rightarrow> duration \<Rightarrow> 64 word \<Rightarrow> mview \<Rightarrow> attempt_start verdict" where
  "spec_begin env now mid lease n v =
     (if trim mid = [] then (Inl (Other ''message id is empty''), [], n)
      else case v of
        Done \<Rightarrow> (Inr AlreadyProcessed, [], n)
      | Leased _ e \<Rightarrow> if now < e then (Inr (StillLeased (nat (e - now))), [], n)
                     else spec_start env now mid lease n
      | Free \<Rightarrow> spec_start env now mid lease n)"

definition spec_owned :: "time \<Rightarrow> attempt_lease \<Rightarrow> 64 word \<Rightarrow> mview \<Rightarrow> state_event res \<Rightarrow> unit verdict" where
  "spec_owned now l n v ev =
     (if trim (al_message_id l) = [] then (Inl (Other ''message id is empty''), [], n)
      else if \<not> owner_ok now (al_attempt_id l) v then (Inl (not_owner l), [], n)
      else case ev of Inl e \<Rightarrow> (Inl e, [], n) | Inr ev \<Rightarrow> (Inr (), [new_record ev], n))"

definition spec_release :: "time \<Rightarrow> attempt_lease \<Rightarrow> 64 word \<Rightarrow> mview \<Rightarrow> unit verdict" where
  "spec_release now l n v =
     spec_owned now l n v (Inr (AttemptReleased (al_message_id l) (al_attempt_id l) now))"

definition spec_defer :: "store_env \<Rightarrow> time \<Rightarrow> attempt_lease \<Rightarrow> duration \<Rightarrow> 64 word \<Rightarrow> mview \<Rightarrow> unit verdict" where
  "spec_defer env now l lease n v =
     spec_owned now l n v (and_then (lease_expires_at env now lease)
       (\<lambda>e. Inr (AttemptLeased (al_message_id l) (al_attempt_id l) e)))"

definition spec_mark :: "time \<Rightarrow> attempt_lease \<Rightarrow> 64 word \<Rightarrow> mview \<Rightarrow> unit verdict" where
  "spec_mark now l n v =
     (if v = Done then (Inr (), [], n)
      else spec_owned now l n v (Inr (ProcessedMessage (al_message_id l) now)))"

definition spec_save_room :: "time \<Rightarrow> room_checkpoint \<Rightarrow> 64 word \<Rightarrow> unit verdict" where
  "spec_save_room now c n =
     (if trim (rc_room_id c) = [] then (Inl (Other ''room checkpoint id is empty''), [], n)
      else (Inr (), [new_record (RoomCheckpointEvent c now)], n))"

subsection \<open>Implementing a verdict\<close>

definition faulty :: "io_faults \<Rightarrow> bool" where
  "faulty io \<longleftrightarrow> io_read io \<noteq> None \<or> io_reload io \<noteq> None \<or> io_trunc io \<noteq> None \<or> io_write io \<noteq> None"

text \<open>
  The run gave the verdict and its records are in the file; or the file system failed, the
  operation returned an error, and the file stands for the old log or for the new one.
\<close>

definition sim :: "store_env \<Rightarrow> io_faults \<Rightarrow> time \<Rightarrow> state_record list \<Rightarrow> 64 word \<Rightarrow>
    'a verdict \<Rightarrow> 'a res \<times> store_ctx \<Rightarrow> bool" where
  "sim env io now rs n vd run \<longleftrightarrow>
     (case (vd, run) of ((r, new, n'), (res, c')) \<Rightarrow>
        (res = r \<and> log_is env (cx_file c') (rs @ new) \<and> cx_next_attempt c' = n' \<and>
         (\<not> isl r \<longrightarrow> sealed env (cx_file c') (rs @ new) \<and> cx_snapshot c' = snapshot_of now (rs @ new)))
      \<or> (faulty io \<and> isl res \<and> (log_is env (cx_file c') rs \<or> log_is env (cx_file c') (rs @ new)) \<and>
         (cx_next_attempt c' = n \<or> cx_next_attempt c' = n')))"

lemma sim_fst: "sim env no_faults now rs n (r, new, n') run \<Longrightarrow> fst run = r"
  by (auto simp: sim_def faulty_def no_faults_def)

text \<open>A context as the refresh leaves it.\<close>

definition fresh :: "store_env \<Rightarrow> time \<Rightarrow> state_record list \<Rightarrow> store_ctx \<Rightarrow> bool" where
  "fresh env now rs c \<longleftrightarrow> sealed env (cx_file c) rs \<and> cx_snapshot c = snapshot_of now rs"

lemma fresh_ok: "fresh env now rs c \<Longrightarrow> list_all record_ok rs"
  by (simp add: fresh_def sealed_def)

lemma fresh_views:
  assumes "fresh env now rs c"
  shows "contains_processed_message (cx_snapshot c) m \<longleftrightarrow> log_view m rs = Done"
    and "active_attempt_lease (cx_snapshot c) m = lease_at now m (log_view m rs)"
  using assms snapshot_of_views [OF fresh_ok [OF assms]] by (simp_all add: fresh_def)

lemma sim_answer:
  assumes "fresh env now rs c" "cx_next_attempt c = n'"
  shows "sim env io now rs n (r, [], n') (r, c)"
  using assms sealed_log_is by (auto simp: sim_def fresh_def)

lemma sim_refresh:
  assumes "log_is env (cx_file c) rs"
    and "\<And>c1. fresh env now rs c1 \<Longrightarrow> cx_next_attempt c1 = cx_next_attempt c \<Longrightarrow>
      sim env io now rs (cx_next_attempt c) vd (k () c1)"
  shows "sim env io now rs (cx_next_attempt c) vd (seq_op (refresh_at_unlocked env io now) k c)"
proof -
  obtain res c1 where r: "refresh_at_unlocked env io now c = (res, c1)" by fastforce
  obtain v new n' where vd: "vd = (v, new, n')" by (cases vd)
  note log = refresh_log [OF assms(1) r]
  show ?thesis
  proof (cases res)
    case (Inl e)
    have "faulty io"
    proof (rule ccontr)
      assume "\<not> faulty io"
      then have "io_read io = None" "io_reload io = None" "io_trunc io = None"
        by (simp_all add: faulty_def del: not_None_eq)
      with refresh_ok [OF assms(1), of io now] r Inl show False by auto
    qed
    with Inl r log show ?thesis by (auto simp: sim_def vd)
  next
    case (Inr u)
    then have "fresh env now rs c1" using log by (simp add: fresh_def)
    with assms(2) log Inr r show ?thesis by simp
  qed
qed

lemma sim_append:
  assumes "fresh env now rs c" "cx_next_attempt c = n'" "record_ok r" "codec_good (se_codec env)"
  shows "sim env io now rs n (Inr x, [r], n')
    (seq_op (append_after_current_snapshot_unlocked env io now r) (\<lambda>_ c. (Inr x, c)) c)"
proof -
  obtain res c1 where a: "append_after_current_snapshot_unlocked env io now r c = (res, c1)"
    by fastforce
  note log = append_log [OF _ _ assms(3,4) a, of rs]
  show ?thesis
  proof (cases res)
    case (Inl e)
    with log assms a show ?thesis by (auto simp: sim_def fresh_def faulty_def)
  next
    case (Inr u)
    with log assms a sealed_log_is show ?thesis by (auto simp: sim_def fresh_def)
  qed
qed

lemma seq_op_id [simp]: "seq_op m (\<lambda>_ c. (Inr (), c)) = (m :: unit store_op)"
  by (rule ext) (auto simp: seq_op_def split: prod.splits sum.splits)

lemmas sim_append_unit = sim_append [where x = "()", unfolded seq_op_id]

subsection \<open>The operations implement their specifications\<close>

lemma lease_at_bind:
  "Option.bind (lease_at now m v) (\<lambda>l. remaining_lease (al_expires_at l) now) =
     (case v of Leased _ e \<Rightarrow> if now < e then Some (nat (e - now)) else None | _ \<Rightarrow> None)"
  by (auto simp: lease_at_def remaining_lease_Some_iff remaining_lease_None_iff split: mview.splits)

lemma trim_ascii_ne: "is_ascii s \<Longrightarrow> c \<in> set s \<Longrightarrow> \<not> is_ws [c] \<Longrightarrow> trim s \<noteq> []"
  by (auto simp: trim_eq_Nil_iff blank_def chars_ascii list_all_iff)

lemma is_ascii_show_int [simp]: "is_ascii (show_int i)"
  by (simp add: show_int_def byte_def)

lemma attempt_id_not_blank: "trim (attempt_id_of now pid n) \<noteq> []"
  by (rule trim_ascii_ne [of _ "CHR ''-''"]) (simp_all add: attempt_id_of_def byte_def)

lemma view_not_blank:
  assumes "list_all record_ok rs" "log_view m rs = Leased a e"
  shows "trim a \<noteq> []"
  using assms
proof (induction rs arbitrary: a e rule: rev_induct)
  case (snoc r rs)
  then show ?case
    by (cases "sr_event r"; cases "log_view m rs")
      (auto simp: log_view_snoc record_ok_def split: if_splits)
qed (simp add: log_view_def)

lemma fresh_owner:
  assumes "fresh env now rs c"
  shows "ensure_attempt_owner l now c =
    (if trim (al_message_id l) = [] then (Inl (Other ''message id is empty''), c)
     else if \<not> owner_ok now (al_attempt_id l) (log_view (al_message_id l) rs)
     then (Inl (not_owner l), c)
     else (Inr (), c))"
  using fresh_views [OF assms, of "al_message_id l"]
  by (cases "log_view (al_message_id l) rs")
    (auto simp: ensure_attempt_owner_def ensure_message_id_def lease_at_def not_owner_def
      remaining_lease_None_iff)

lemma sim_new_lease:
  assumes "fresh env now rs c" "cx_next_attempt c = n" "trim mid \<noteq> []" "codec_good (se_codec env)"
  shows "sim env io now rs n (spec_start env now mid lease n)
    (seq_op (new_attempt_lease env mid now lease) (\<lambda>attempt.
      seq_op (append_after_current_snapshot_unlocked env io now
        (new_record (AttemptLeased (al_message_id attempt) (al_attempt_id attempt)
          (al_expires_at attempt)))) (\<lambda>_ c. (Inr (Started attempt), c))) c)"
proof (cases "lease_expires_at env now lease")
  case (Inl e)
  have "sim env io now rs n (Inl e, [], n + 1) (Inl e, c\<lparr>cx_next_attempt := n + 1\<rparr>)"
    by (rule sim_answer) (use assms in \<open>simp_all add: fresh_def\<close>)
  with Inl assms show ?thesis
    by (simp add: spec_start_def new_attempt_lease_def ensure_message_id_def Let_def seq_op_def lift_res_def)
next
  case (Inr e)
  have "fresh env now rs (c\<lparr>cx_next_attempt := n + 1\<rparr>)" using assms(1) by (simp add: fresh_def)
  from sim_append [OF this _ _ assms(4), of "n + 1"]
  have app: "record_ok r \<Longrightarrow> sim env io now rs n (Inr x, [r], n + 1)
    (seq_op (append_after_current_snapshot_unlocked env io now r) (\<lambda>_ c. (Inr x, c))
      (c\<lparr>cx_next_attempt := n + 1\<rparr>))" for r and x :: attempt_start
    by simp
  show ?thesis
    using Inr assms attempt_id_not_blank
    by (simp add: spec_start_def new_attempt_lease_def ensure_message_id_def Let_def
        seq_op_def [of "seq_op _ _"] seq_op_def [of "\<lambda>c. (_, _)"] lift_res_def app)
qed

text \<open>
  The five operations, whatever the handle's own snapshot is: they answer what the log says.
\<close>

lemma begin_attempt_sim:
  assumes "log_is env (cx_file c) rs" "codec_good (se_codec env)"
  shows "sim env io now rs (cx_next_attempt c)
    (spec_begin env now mid lease (cx_next_attempt c) (log_view mid rs))
    (begin_attempt_at env io mid lease now c)"
proof (cases "trim mid = []")
  case True
  then show ?thesis
    using assms(1) by (simp add: spec_begin_def begin_attempt_at_def ensure_message_id_def sim_def)
next
  case False
  then show ?thesis
    unfolding begin_attempt_at_def
    by (simp add: ensure_message_id_def)
      (rule sim_refresh [OF assms(1)], auto simp: spec_begin_def fresh_views lease_at_bind
        sim_answer sim_new_lease assms(2) split: mview.splits)
qed

lemma release_attempt_sim:
  assumes "log_is env (cx_file c) rs" "codec_good (se_codec env)"
  shows "sim env io now rs (cx_next_attempt c)
    (spec_release now l (cx_next_attempt c) (log_view (al_message_id l) rs))
    (release_attempt_at env io l now c)"
  unfolding release_attempt_at_def
proof (rule sim_refresh [OF assms(1)])
  fix c1 assume f: "fresh env now rs c1" "cx_next_attempt c1 = cx_next_attempt c"
  have "owner_ok now (al_attempt_id l) (log_view (al_message_id l) rs) \<Longrightarrow> trim (al_attempt_id l) \<noteq> []"
    using view_not_blank [OF fresh_ok [OF f(1)], of "al_message_id l"]
    by (cases "log_view (al_message_id l) rs") auto
  then show "sim env io now rs (cx_next_attempt c)
      (spec_release now l (cx_next_attempt c) (log_view (al_message_id l) rs))
      (seq_op (ensure_attempt_owner l now) (\<lambda>_. append_after_current_snapshot_unlocked env io now
         (new_record (AttemptReleased (al_message_id l) (al_attempt_id l) now))) c1)"
    by (simp add: spec_release_def spec_owned_def seq_op_def fresh_owner [OF f(1)] f
        sim_answer sim_append_unit assms(2))
qed

lemma defer_attempt_sim:
  assumes "log_is env (cx_file c) rs" "codec_good (se_codec env)"
  shows "sim env io now rs (cx_next_attempt c)
    (spec_defer env now l lease (cx_next_attempt c) (log_view (al_message_id l) rs))
    (defer_attempt_at env io l lease now c)"
  unfolding defer_attempt_at_def
proof (rule sim_refresh [OF assms(1)])
  fix c1 assume f: "fresh env now rs c1" "cx_next_attempt c1 = cx_next_attempt c"
  have "owner_ok now (al_attempt_id l) (log_view (al_message_id l) rs) \<Longrightarrow> trim (al_attempt_id l) \<noteq> []"
    using view_not_blank [OF fresh_ok [OF f(1)], of "al_message_id l"]
    by (cases "log_view (al_message_id l) rs") auto
  then show "sim env io now rs (cx_next_attempt c)
      (spec_defer env now l lease (cx_next_attempt c) (log_view (al_message_id l) rs))
      (seq_op (ensure_attempt_owner l now) (\<lambda>_.
        seq_op (lift_res (lease_expires_at env now lease)) (\<lambda>expires_at.
          append_after_current_snapshot_unlocked env io now
            (new_record (AttemptLeased (al_message_id l) (al_attempt_id l) expires_at)))) c1)"
    by (cases "lease_expires_at env now lease")
      (simp_all add: spec_defer_def spec_owned_def seq_op_def fresh_owner [OF f(1)] f lift_res_def
        sim_answer sim_append_unit assms(2))
qed

lemma mark_processed_sim:
  assumes "log_is env (cx_file c) rs" "codec_good (se_codec env)"
  shows "sim env io now rs (cx_next_attempt c)
    (spec_mark now l (cx_next_attempt c) (log_view (al_message_id l) rs))
    (mark_processed_at env io l now c)"
  unfolding mark_processed_at_def
proof (rule sim_refresh [OF assms(1)])
  fix c1 assume f: "fresh env now rs c1" "cx_next_attempt c1 = cx_next_attempt c"
  show "sim env io now rs (cx_next_attempt c)
      (spec_mark now l (cx_next_attempt c) (log_view (al_message_id l) rs))
      (if contains_processed_message (cx_snapshot c1) (al_message_id l) then (Inr (), c1)
       else seq_op (ensure_attempt_owner l now) (\<lambda>_.
         append_after_current_snapshot_unlocked env io now
           (new_record (ProcessedMessage (al_message_id l) now))) c1)"
    by (simp add: spec_mark_def spec_owned_def seq_op_def fresh_owner [OF f(1)] fresh_views [OF f(1)] f
        sim_answer sim_append_unit assms(2))
qed

lemma save_room_checkpoint_sim:
  assumes "log_is env (cx_file c) rs" "codec_good (se_codec env)"
  shows "sim env io now rs (cx_next_attempt c) (spec_save_room now q (cx_next_attempt c))
    (save_room_checkpoint_at env io q now c)"
  unfolding save_room_checkpoint_at_def
proof (rule sim_refresh [OF assms(1)])
  fix c1 assume f: "fresh env now rs c1" "cx_next_attempt c1 = cx_next_attempt c"
  show "sim env io now rs (cx_next_attempt c) (spec_save_room now q (cx_next_attempt c))
      (append_after_current_snapshot_unlocked env io now (new_record (RoomCheckpointEvent q now)) c1)"
  proof (cases "trim (rc_room_id q) = []")
    case True
    then have "append_after_current_snapshot_unlocked env io now
        (new_record (RoomCheckpointEvent q now)) c1 = (Inl (Other ''room checkpoint id is empty''), c1)"
      by (simp add: append_after_current_snapshot_unlocked_def apply_record_def new_record_def)
    with True show ?thesis by (simp add: spec_save_room_def sim_answer f)
  next
    case False
    then show ?thesis by (simp add: spec_save_room_def sim_append_unit f assms(2))
  qed
qed

end
