(* ===== verification/LeaseGuard.thy ===== *)
theory LeaseGuard imports Prelude begin

text \<open>
  The contract under which a caller may reply to a message: a store that hands out leases.
  Both \<open>JsonlStateStore\<close> of the library and \<open>ProcessedMessageStore\<close> of the account bot
  promise it; the client's conclusion, that no second lease for the same message is handed out
  while the first one is running, is proved here once. An event is \<open>quiet\<close> for a lease when it
  comes before the lease expires and is not its owner giving it back.
\<close>

locale lease_guard =
  fixes step :: "'s \<Rightarrow> 'ev \<Rightarrow> 's"
    and starts :: "'s \<Rightarrow> 'ev \<Rightarrow> 'l \<Rightarrow> bool"
    and held :: "'s \<Rightarrow> 'l \<Rightarrow> bool"
    and quiet :: "'l \<Rightarrow> 'ev \<Rightarrow> bool"
    and same :: "'l \<Rightarrow> 'l \<Rightarrow> bool"
    and inv :: "'s \<Rightarrow> bool"
  assumes inv_step: "inv s \<Longrightarrow> inv (step s ev)"
    and starts_held: "inv s \<Longrightarrow> starts s ev l \<Longrightarrow> held (step s ev) l"
    and held_step: "inv s \<Longrightarrow> held s l \<Longrightarrow> quiet l ev \<Longrightarrow> held (step s ev) l"
    and held_excludes: "inv s \<Longrightarrow> held s l \<Longrightarrow> quiet l ev \<Longrightarrow> starts s ev l' \<Longrightarrow> \<not> same l l'"
begin

lemma inv_run: "inv s \<Longrightarrow> inv (foldl step s evs)"
  by (induction evs arbitrary: s) (simp_all add: inv_step)

lemma held_run:
  "inv s \<Longrightarrow> held s l \<Longrightarrow> list_all (quiet l) evs \<Longrightarrow> held (foldl step s evs) l"
  by (induction evs arbitrary: s) (simp_all add: inv_step held_step)

text \<open>After a start, no event of a quiet run starts the same message again.\<close>

lemma exclusive:
  assumes "inv s" "starts s ev l" "list_all (quiet l) evs" "quiet l ev'"
    and "starts (foldl step (step s ev) evs) ev' l'"
  shows "\<not> same l l'"
proof (rule held_excludes [OF _ _ assms(4,5)])
  show "inv (foldl step (step s ev) evs)" using assms(1) by (simp add: inv_run inv_step)
  show "held (foldl step (step s ev) evs) l"
    using assms(1-3) by (simp add: held_run inv_step starts_held)
qed

end

end
