(* ===== verification/StoreRuns.thy ===== *)
theory StoreRuns imports StoreSpec LeaseGuard begin

text \<open>
  Many handles on one state file: each keeps its own snapshot, they share the file and the
  counter of attempt ids, and each call meets its own clock and its own faults. A call runs
  under the path lock from its first read to its last write, so a history is a list of calls
  (theory \<open>PathLock\<close> shows that no two holders overlap).
\<close>

subsection \<open>Calls\<close>

datatype command =
    Open
  | Begin string duration
  | Release attempt_lease
  | Defer attempt_lease duration
  | Mark attempt_lease
  | SaveRoom room_checkpoint

datatype reply = Fine | Begun attempt_start

record call =
  ca_handle :: nat
  ca_now :: time
  ca_io :: io_faults
  ca_cmd :: command

record system =
  sy_snapshots :: "nat \<Rightarrow> state_snapshot"
  sy_file :: state_file
  sy_next :: "64 word"

definition reply_with :: "('a \<Rightarrow> reply) \<Rightarrow> 'a res \<times> store_ctx \<Rightarrow> reply res \<times> store_ctx" where
  "reply_with f run = (case run of (r, c) \<Rightarrow> (case r of Inl e \<Rightarrow> Inl e | Inr x \<Rightarrow> Inr (f x), c))"

definition open_store :: "store_env \<Rightarrow> io_faults \<Rightarrow> time \<Rightarrow> unit store_op" where
  "open_store env io now c =
     (case load_at env io now (cx_file c) of
        (Inl e, file') \<Rightarrow> (Inl e, c\<lparr>cx_file := file'\<rparr>)
      | (Inr s, file') \<Rightarrow> (Inr (), c\<lparr>cx_file := file', cx_snapshot := s\<rparr>))"

fun run_command :: "store_env \<Rightarrow> io_faults \<Rightarrow> time \<Rightarrow> command \<Rightarrow> reply store_op" where
  "run_command env io now Open c = reply_with (\<lambda>_. Fine) (open_store env io now c)"
| "run_command env io now (Begin m d) c = reply_with Begun (begin_attempt_at env io m d now c)"
| "run_command env io now (Release l) c = reply_with (\<lambda>_. Fine) (release_attempt_at env io l now c)"
| "run_command env io now (Defer l d) c = reply_with (\<lambda>_. Fine) (defer_attempt_at env io l d now c)"
| "run_command env io now (Mark l) c = reply_with (\<lambda>_. Fine) (mark_processed_at env io l now c)"
| "run_command env io now (SaveRoom q) c =
     reply_with (\<lambda>_. Fine) (save_room_checkpoint_at env io q now c)"

definition handle_ctx :: "system \<Rightarrow> nat \<Rightarrow> store_ctx" where
  "handle_ctx s h = \<lparr>cx_snapshot = sy_snapshots s h, cx_file = sy_file s, cx_next_attempt = sy_next s\<rparr>"

definition do_call :: "store_env \<Rightarrow> system \<Rightarrow> call \<Rightarrow> reply res \<times> system" where
  "do_call env s k =
     (case run_command env (ca_io k) (ca_now k) (ca_cmd k) (handle_ctx s (ca_handle k)) of (r, c) \<Rightarrow>
        (r, \<lparr>sy_snapshots = (sy_snapshots s)(ca_handle k := cx_snapshot c),
             sy_file = cx_file c, sy_next = cx_next_attempt c\<rparr>))"

abbreviation sys_step :: "store_env \<Rightarrow> system \<Rightarrow> call \<Rightarrow> system" where
  "sys_step env s k \<equiv> snd (do_call env s k)"

abbreviation reply_of :: "store_env \<Rightarrow> system \<Rightarrow> call \<Rightarrow> reply res" where
  "reply_of env s k \<equiv> fst (do_call env s k)"

abbreviation run_calls :: "store_env \<Rightarrow> system \<Rightarrow> call list \<Rightarrow> system" where
  "run_calls env s ks \<equiv> foldl (sys_step env) s ks"

subsection \<open>The verdict on a call\<close>

definition as_reply :: "('a \<Rightarrow> reply) \<Rightarrow> 'a verdict \<Rightarrow> reply verdict" where
  "as_reply f v = (case v of (r, new, n) \<Rightarrow> (case r of Inl e \<Rightarrow> Inl e | Inr x \<Rightarrow> Inr (f x), new, n))"

fun verdict :: "store_env \<Rightarrow> time \<Rightarrow> command \<Rightarrow> 64 word \<Rightarrow> state_record list \<Rightarrow> reply verdict" where
  "verdict env now Open n rs = (Inr Fine, [], n)"
| "verdict env now (Begin m d) n rs = as_reply Begun (spec_begin env now m d n (log_view m rs))"
| "verdict env now (Release l) n rs =
     as_reply (\<lambda>_. Fine) (spec_release now l n (log_view (al_message_id l) rs))"
| "verdict env now (Defer l d) n rs =
     as_reply (\<lambda>_. Fine) (spec_defer env now l d n (log_view (al_message_id l) rs))"
| "verdict env now (Mark l) n rs =
     as_reply (\<lambda>_. Fine) (spec_mark now l n (log_view (al_message_id l) rs))"
| "verdict env now (SaveRoom q) n rs = as_reply (\<lambda>_. Fine) (spec_save_room now q n)"

lemma sim_as_reply:
  assumes "sim env io now rs n v run"
  shows "sim env io now rs n (as_reply f v) (reply_with f run)"
proof -
  obtain r new n' res c' where v: "v = (r, new, n')" "run = (res, c')" by (cases v; cases run)
  with assms show ?thesis
    by (cases r; cases res) (auto simp: sim_def as_reply_def reply_with_def)
qed

lemma open_store_refresh: "open_store env io now = refresh_at_unlocked env io now"
  by (rule ext)
    (auto simp: open_store_def load_at_def refresh_at_unlocked_def split: prod.splits sum.splits)

lemma open_store_sim:
  assumes "log_is env (cx_file c) rs"
  shows "sim env io now rs (cx_next_attempt c) (Inr (), [], cx_next_attempt c) (open_store env io now c)"
  using sim_refresh [OF assms, where k = "\<lambda>_ c. (Inr (), c)" and vd = "(Inr (), [], cx_next_attempt c)"
      and io = io and now = now]
  by (simp add: open_store_refresh sim_answer)

lemma command_sim:
  assumes "log_is env (cx_file c) rs" "codec_good (se_codec env)"
  shows "sim env io now rs (cx_next_attempt c) (verdict env now cmd (cx_next_attempt c) rs)
    (run_command env io now cmd c)"
proof (cases cmd)
  case Open
  then show ?thesis
    using sim_as_reply [OF open_store_sim [OF assms(1)], of io now "\<lambda>_. Fine"]
    by (simp add: as_reply_def)
next
  case (Begin m d)
  then show ?thesis using sim_as_reply [OF begin_attempt_sim [OF assms]] by simp
next
  case (Release l)
  then show ?thesis using sim_as_reply [OF release_attempt_sim [OF assms]] by simp
next
  case (Defer l d)
  then show ?thesis using sim_as_reply [OF defer_attempt_sim [OF assms]] by simp
next
  case (Mark l)
  then show ?thesis using sim_as_reply [OF mark_processed_sim [OF assms]] by simp
next
  case (SaveRoom q)
  then show ?thesis using sim_as_reply [OF save_room_checkpoint_sim [OF assms]] by simp
qed

text \<open>What one call does to the log: nothing, or the records of its verdict.\<close>

definition sys_log :: "store_env \<Rightarrow> system \<Rightarrow> state_record list \<Rightarrow> bool" where
  "sys_log env s rs \<longleftrightarrow> log_is env (sy_file s) rs"

lemma call_log:
  assumes "sys_log env s rs" "codec_good (se_codec env)"
    and "verdict env (ca_now k) (ca_cmd k) (sy_next s) rs = (r, new, n')"
  shows "(reply_of env s k = r \<and> sys_log env (sys_step env s k) (rs @ new) \<and> sy_next (sys_step env s k) = n')
    \<or> (faulty (ca_io k) \<and> isl (reply_of env s k) \<and>
       (sys_log env (sys_step env s k) rs \<or> sys_log env (sys_step env s k) (rs @ new)) \<and>
       (sy_next (sys_step env s k) = sy_next s \<or> sy_next (sys_step env s k) = n'))"
  using command_sim [of env "handle_ctx s (ca_handle k)" rs "ca_io k" "ca_now k" "ca_cmd k"] assms
  by (auto simp: do_call_def sys_log_def sim_def handle_ctx_def split: prod.splits)

lemma call_log_cases:
  assumes "sys_log env s rs" "codec_good (se_codec env)"
    and "verdict env (ca_now k) (ca_cmd k) (sy_next s) rs = (r, new, n')"
  obtains "sys_log env (sys_step env s k) rs" | "sys_log env (sys_step env s k) (rs @ new)"
  using call_log [OF assms] by blast

subsection \<open>Verdicts on a message\<close>

fun presents :: "command \<Rightarrow> string option" where
  "presents (Release l) = Some (al_attempt_id l)"
| "presents (Defer l _) = Some (al_attempt_id l)"
| "presents (Mark l) = Some (al_attempt_id l)"
| "presents _ = None"

lemmas verdict_defs = as_reply_def spec_begin_def spec_start_def spec_release_def spec_defer_def
  spec_mark_def spec_owned_def spec_save_room_def Let_def

lemma verdict_started:
  assumes "verdict env now cmd n rs = (Inr (Begun (Started l)), new, n')"
  shows "\<exists>m d. cmd = Begin m d \<and> al_message_id l = m \<and> n' = n + 1 \<and>
    al_attempt_id l = attempt_id_of now (se_pid env) n \<and>
    lease_expires_at env now d = Inr (al_expires_at l) \<and>
    new = [new_record (AttemptLeased m (al_attempt_id l) (al_expires_at l))] \<and>
    log_view m rs \<noteq> Done"
  using assms
  by (cases cmd) (auto simp: verdict_defs split: if_splits mview.splits sum.splits)

lemma verdict_started_view:
  assumes "verdict env now cmd n rs = (Inr (Begun (Started l)), new, n')"
  shows "log_view (al_message_id l) (rs @ new) = Leased (al_attempt_id l) (al_expires_at l)"
  using verdict_started [OF assms] by (auto simp: log_view_snoc)

lemma verdict_marked:
  assumes "verdict env now (Mark l) n rs = (Inr x, new, n')"
  shows "log_view (al_message_id l) (rs @ new) = Done"
  using assms by (auto simp: verdict_defs log_view_snoc split: if_splits sum.splits)

lemma verdict_done:
  assumes "log_view m rs = Done" "verdict env now (Begin m d) n rs = (Inr r, new, n')"
  shows "r = Begun AlreadyProcessed"
  using assms by (auto simp: verdict_defs split: if_splits)

lemma verdict_keeps_lease:
  assumes "log_view m rs = Leased a e" "now < e" "presents cmd \<noteq> Some a"
    and "verdict env now cmd n rs = (r, new, n')"
  shows "log_view m (rs @ new) = Leased a e"
  using assms
  by (cases cmd)
    (auto simp: verdict_defs log_view_snoc and_then_Inr_iff split: if_splits mview.splits sum.splits)

lemma verdict_no_second_start:
  assumes "log_view m rs = Leased a e" "now < e"
    and "verdict env now cmd n rs = (Inr (Begun (Started l)), new, n')"
  shows "al_message_id l \<noteq> m"
  using assms by (cases cmd) (auto simp: verdict_defs split: if_splits mview.splits sum.splits)

lemma verdict_counter: "verdict env now cmd n rs = (r, new, n') \<Longrightarrow> n' = n \<or> n' = n + 1"
  by (cases cmd) (auto simp: verdict_defs split: if_splits mview.splits sum.splits)

subsection \<open>The store hands out leases\<close>

definition started :: "store_env \<Rightarrow> system \<Rightarrow> call \<Rightarrow> attempt_lease \<Rightarrow> bool" where
  "started env s k l \<longleftrightarrow> reply_of env s k = Inr (Begun (Started l))"

definition lease_running :: "store_env \<Rightarrow> system \<Rightarrow> attempt_lease \<Rightarrow> bool" where
  "lease_running env s l \<longleftrightarrow> (\<exists>rs. sys_log env s rs \<and>
     log_view (al_message_id l) rs = Leased (al_attempt_id l) (al_expires_at l))"

definition quiet_call :: "attempt_lease \<Rightarrow> call \<Rightarrow> bool" where
  "quiet_call l k \<longleftrightarrow> ca_now k < al_expires_at l \<and> presents (ca_cmd k) \<noteq> Some (al_attempt_id l)"

definition store_inv :: "store_env \<Rightarrow> system \<Rightarrow> bool" where
  "store_inv env s \<longleftrightarrow> codec_good (se_codec env) \<and> (\<exists>rs. sys_log env s rs)"

interpretation jsonl: lease_guard "sys_step env" "started env" "lease_running env" quiet_call
    "\<lambda>l l'. al_message_id l = al_message_id l'" "store_inv env" for env
proof
  fix s and k :: call
  assume "store_inv env s"
  then obtain rs where rs: "sys_log env s rs" and cd: "codec_good (se_codec env)"
    by (auto simp: store_inv_def)
  obtain r new n' where v: "verdict env (ca_now k) (ca_cmd k) (sy_next s) rs = (r, new, n')"
    by (metis prod_cases3)
  note log = call_log [OF rs cd v]
  from log cd show "store_inv env (sys_step env s k)" by (auto simp: store_inv_def)
  fix l assume "started env s k l"
  then have "reply_of env s k = Inr (Begun (Started l))" by (simp add: started_def)
  with log v verdict_started_view show "lease_running env (sys_step env s k) l"
    by (fastforce simp: lease_running_def)
next
  fix s and k :: call and l
  assume "store_inv env s" "lease_running env s l" and q: "quiet_call l k"
  then obtain rs where rs: "sys_log env s rs" and cd: "codec_good (se_codec env)"
    and view: "log_view (al_message_id l) rs = Leased (al_attempt_id l) (al_expires_at l)"
    by (auto simp: store_inv_def lease_running_def)
  obtain r new n' where v: "verdict env (ca_now k) (ca_cmd k) (sy_next s) rs = (r, new, n')"
    by (metis prod_cases3)
  note log = call_log [OF rs cd v]
  have "log_view (al_message_id l) (rs @ new) = Leased (al_attempt_id l) (al_expires_at l)"
    using verdict_keeps_lease [OF view _ _ v] q by (simp add: quiet_call_def)
  with log view show "lease_running env (sys_step env s k) l" by (auto simp: lease_running_def)
  fix l' assume "started env s k l'"
  then have "r = Inr (Begun (Started l'))" using log by (auto simp: started_def)
  with v have v': "verdict env (ca_now k) (ca_cmd k) (sy_next s) rs = (Inr (Begun (Started l')), new, n')"
    by simp
  show "al_message_id l \<noteq> al_message_id l'"
    using verdict_no_second_start [OF view _ v'] q by (simp add: quiet_call_def)
qed

text \<open>A finished message stays finished.\<close>

definition finished :: "store_env \<Rightarrow> system \<Rightarrow> string \<Rightarrow> bool" where
  "finished env s m \<longleftrightarrow> codec_good (se_codec env) \<and> (\<exists>rs. sys_log env s rs \<and> log_view m rs = Done)"

lemma finished_step: "finished env s m \<Longrightarrow> finished env (sys_step env s k) m"
proof -
  assume "finished env s m"
  then obtain rs where rs: "sys_log env s rs" "log_view m rs = Done" and cd: "codec_good (se_codec env)"
    by (auto simp: finished_def)
  obtain r new n' where v: "verdict env (ca_now k) (ca_cmd k) (sy_next s) rs = (r, new, n')"
    by (metis prod_cases3)
  show ?thesis
    using call_log [OF rs(1) cd v] rs(2) cd log_view_Done_append
    by (auto simp: finished_def)
qed

lemma finished_run: "finished env s m \<Longrightarrow> finished env (run_calls env s ks) m"
  by (induction ks arbitrary: s) (simp_all add: finished_step)

lemma finished_begin:
  assumes "finished env s m" "ca_cmd k = Begin m d" "reply_of env s k = Inr r"
  shows "r = Begun AlreadyProcessed"
proof -
  obtain rs where rs: "sys_log env s rs" "log_view m rs = Done" and cd: "codec_good (se_codec env)"
    using assms(1) by (auto simp: finished_def)
  obtain r0 new n' where v: "verdict env (ca_now k) (ca_cmd k) (sy_next s) rs = (r0, new, n')"
    by (metis prod_cases3)
  from call_log [OF rs(1) cd v] assms(3) have "r0 = Inr r" by auto
  with v assms(2) verdict_done [OF rs(2)] show ?thesis by auto
qed

lemma marked_finished:
  assumes "store_inv env s" "ca_cmd k = Mark l" "reply_of env s k = Inr r"
  shows "finished env (sys_step env s k) (al_message_id l)"
proof -
  obtain rs where rs: "sys_log env s rs" and cd: "codec_good (se_codec env)"
    using assms(1) by (auto simp: store_inv_def)
  obtain r0 new n' where v: "verdict env (ca_now k) (ca_cmd k) (sy_next s) rs = (r0, new, n')"
    by (metis prod_cases3)
  from call_log [OF rs cd v] assms(3) have "r0 = Inr r"
    "sys_log env (sys_step env s k) (rs @ new)" by auto
  with v assms(2) verdict_marked [of env "ca_now k" l "sy_next s" rs r new n'] cd show ?thesis
    by (auto simp: finished_def)
qed

subsection \<open>Attempt ids\<close>

lemma attempt_id_inj:
  assumes "attempt_id_of now pid n = attempt_id_of now' pid' n'"
  shows "n = n'"
proof -
  have sep: "CHR ''-'' \<notin> set (show_nat k)" for k
    using show_nat_digits [of "CHR ''-''" k] by (auto simp: is_digit_def byte_def)
  let ?x = "rev (show_nat (unat n)) @ CHR ''-'' # rev (show_int (now div 1000) @ ''-'' @ show_nat pid)"
  let ?y = "rev (show_nat (unat n')) @ CHR ''-'' # rev (show_int (now' div 1000) @ ''-'' @ show_nat pid')"
  have "?x = ?y" using arg_cong [OF assms, of rev] by (simp add: attempt_id_of_def)
  moreover have "split_once (CHR ''-'') ?x = Some (rev (show_nat (unat n)),
      rev (show_int (now div 1000) @ ''-'' @ show_nat pid))"
    using sep by (subst split_once_Some_iff) simp
  moreover have "split_once (CHR ''-'') ?y = Some (rev (show_nat (unat n')),
      rev (show_int (now' div 1000) @ ''-'' @ show_nat pid'))"
    using sep by (subst split_once_Some_iff) simp
  ultimately have "rev (show_nat (unat n)) = rev (show_nat (unat n'))" by simp
  then show ?thesis by (simp add: show_nat_inj word_unat_eq_iff)
qed

text \<open>The leases a history hands out, in order.\<close>

fun leases_of :: "store_env \<Rightarrow> system \<Rightarrow> call list \<Rightarrow> attempt_lease list" where
  "leases_of env s [] = []"
| "leases_of env s (k # ks) =
     (case reply_of env s k of Inr (Begun (Started l)) \<Rightarrow> [l] | _ \<Rightarrow> []) @
     leases_of env (sys_step env s k) ks"

text \<open>The \<open>i\<close>th lease carries the counter's value at its call: the values strictly increase.\<close>

lemma leases_of_counters:
  assumes "store_inv env s"
  shows "\<exists>js. sorted_wrt (<) js \<and> (\<forall>j\<in>set js. j < length ks) \<and>
    list_all2 (\<lambda>l j. \<exists>t. al_attempt_id l = attempt_id_of t (se_pid env) (sy_next s + of_nat j))
      (leases_of env s ks) js"
  using assms
proof (induction ks arbitrary: s)
  case (Cons k ks)
  obtain rs where rs: "sys_log env s rs" and cd: "codec_good (se_codec env)"
    using Cons.prems by (auto simp: store_inv_def)
  obtain r new n' where v: "verdict env (ca_now k) (ca_cmd k) (sy_next s) rs = (r, new, n')"
    by (metis prod_cases3)
  note log = call_log [OF rs cd v]
  define d :: nat where "d = (if sy_next (sys_step env s k) = sy_next s then 0 else 1)"
  have d: "sy_next (sys_step env s k) = sy_next s + of_nat d" "d \<le> 1"
    using log verdict_counter [OF v] by (auto simp: d_def)
  have inv: "store_inv env (sys_step env s k)" using jsonl.inv_step [OF Cons.prems] .
  from Cons.IH [OF inv] obtain js where js: "sorted_wrt (<) js" "\<forall>j\<in>set js. j < length ks"
    "list_all2 (\<lambda>l j. \<exists>t. al_attempt_id l =
        attempt_id_of t (se_pid env) (sy_next (sys_step env s k) + of_nat j))
      (leases_of env (sys_step env s k) ks) js" by blast
  let ?js = "map (\<lambda>j. d + j) js"
  have shifted: "sorted_wrt (<) ?js" "\<forall>j\<in>set ?js. j < length (k # ks)"
    "list_all2 (\<lambda>l j. \<exists>t. al_attempt_id l = attempt_id_of t (se_pid env) (sy_next s + of_nat j))
      (leases_of env (sys_step env s k) ks) ?js"
    using js d by (auto simp: sorted_wrt_map list_all2_map2 add.assoc)
  show ?case
  proof (cases "\<exists>l. reply_of env s k = Inr (Begun (Started l))")
    case True
    then obtain l where l: "reply_of env s k = Inr (Begun (Started l))" by blast
    then have "r = Inr (Begun (Started l))" "sy_next (sys_step env s k) = n'" using log by auto
    with verdict_started [of env "ca_now k" "ca_cmd k" "sy_next s" rs l new n'] v
    have id: "al_attempt_id l = attempt_id_of (ca_now k) (se_pid env) (sy_next s)" "d = 1"
      by (auto simp: d_def)
    show ?thesis
      using shifted l id by (intro exI [of _ "0 # ?js"]) auto
  next
    case False
    then have "leases_of env s (k # ks) = leases_of env (sys_step env s k) ks"
      by (auto split: sum.splits reply.splits attempt_start.splits)
    with shifted show ?thesis by (intro exI [of _ ?js]) simp
  qed
qed simp

end
