(* ===== verification/StoreProps.thy ===== *)
theory StoreProps imports StoreRuns begin

text \<open>
  The properties of the state log and of \<open>JsonlStateStore\<close>, each with a concrete instance.
\<close>

subsection \<open>Concrete environments for the witnesses\<close>

definition demo_env :: store_env where
  "demo_env = \<lparr>se_codec = plain_codec, se_path = ''s'', se_pid = 7, se_dt_max = 10 ^ 21\<rparr>"

definition demo_sys :: system where
  "demo_sys = \<lparr>sy_snapshots = (\<lambda>_. empty_snapshot), sy_file = None, sy_next = 1\<rparr>"

definition demo_begin :: "nat \<Rightarrow> time \<Rightarrow> call" where
  "demo_begin h t = \<lparr>ca_handle = h, ca_now = t, ca_io = no_faults, ca_cmd = Begin ''m'' 5\<rparr>"

definition demo_lease :: attempt_lease where
  "demo_lease = \<lparr>al_message_id = ''m'', al_attempt_id = attempt_id_of 0 7 1, al_expires_at = 5\<rparr>"

definition demo_mark :: call where
  "demo_mark = \<lparr>ca_handle = 0, ca_now = 1, ca_io = no_faults, ca_cmd = Mark demo_lease\<rparr>"

lemma demo_good: "codec_good (se_codec demo_env)"
  by (simp add: demo_env_def plain_codec_good)

lemma demo_log: "sys_log demo_env demo_sys []"
  by (simp add: sys_log_def log_is_def demo_sys_def)

lemma demo_ctx_log: "log_is demo_env (cx_file (handle_ctx demo_sys h)) []"
  using demo_log by (simp add: handle_ctx_def sys_log_def)

lemma demo_inv: "store_inv demo_env demo_sys"
  using demo_log demo_good by (auto simp: store_inv_def)

lemma trim_m [simp]: "trim ''m'' = ''m''"
  by (rule trim_ascii_id) (simp_all add: byte_def)

lemma reply_no_faults:
  assumes "sys_log env s rs" "codec_good (se_codec env)" "\<not> faulty (ca_io k)"
  shows "reply_of env s k = fst (verdict env (ca_now k) (ca_cmd k) (sy_next s) rs)"
    and "sys_log env (sys_step env s k)
      (rs @ fst (snd (verdict env (ca_now k) (ca_cmd k) (sy_next s) rs)))"
proof -
  obtain r new n' where v: "verdict env (ca_now k) (ca_cmd k) (sy_next s) rs = (r, new, n')"
    by (metis prod_cases3)
  show "reply_of env s k = fst (verdict env (ca_now k) (ca_cmd k) (sy_next s) rs)"
    "sys_log env (sys_step env s k)
      (rs @ fst (snd (verdict env (ca_now k) (ca_cmd k) (sy_next s) rs)))"
    using call_log [OF assms(1,2) v] assms(3) v by simp_all
qed

lemma no_faults_ok [simp]: "\<not> faulty no_faults"
  by (simp add: faulty_def no_faults_def)

lemma demo_expiry: "lease_expires_at demo_env 0 5 = Inr 5"
  by (simp add: lease_expires_at_def demo_env_def TD_MAX_def)

lemma demo_verdict:
  "verdict demo_env 0 (Begin ''m'' 5) 1 [] = (Inr (Begun (Started demo_lease)),
     [new_record (AttemptLeased ''m'' (attempt_id_of 0 7 1) 5)], 2)"
  by (simp add: verdict_defs log_view_def demo_expiry demo_lease_def) (simp add: demo_env_def)

lemma demo_started: "started demo_env demo_sys (demo_begin 0 0) demo_lease"
  using reply_no_faults(1) [OF demo_log demo_good, of "demo_begin 0 0"] demo_verdict
  by (simp add: started_def demo_begin_def demo_sys_def)

lemma demo_started_log:
  "sys_log demo_env (sys_step demo_env demo_sys (demo_begin 0 0))
     [new_record (AttemptLeased ''m'' (attempt_id_of 0 7 1) 5)]"
  using reply_no_faults(2) [OF demo_log demo_good, of "demo_begin 0 0"] demo_verdict
  by (simp add: demo_begin_def demo_sys_def)

lemma demo_marked:
  "reply_of demo_env (sys_step demo_env demo_sys (demo_begin 0 0)) demo_mark = Inr Fine"
  using reply_no_faults(1) [OF demo_started_log demo_good, of demo_mark]
  by (simp add: demo_mark_def verdict_defs log_view_def demo_lease_def new_record_def)

subsection \<open>The log on disk\<close>

text \<open>
  Appending a record to a file that holds the records \<open>rs\<close> and reading the file again
  gives the replay of \<open>rs\<close> and the new record, whether or not the last line of the file ended
  in a line feed; the whole file is valid.
\<close>

theorem append_then_parse:
  assumes "holds cd bs rs" "codec_good cd" "list_all record_ok (rs @ [r])"
  shows "\<exists>bs'. append_state_record cd no_faults (Some bs) r = (Inr (), Some bs') \<and>
    parse_snapshot_bytes cd path bs' now allow_torn_tail =
      Inr (snapshot_of now (rs @ [r]), length bs')"
  using parse_holds [OF holds_append [OF assms(1)] replay_snapshot_of [OF assms(3)]] assms(2)
  by (simp add: append_state_record_def no_faults_def codec_good_def)

lemma append_then_parse_witness:
  "\<exists>bs'. append_state_record plain_codec no_faults (Some [])
      (new_record (ProcessedMessage ''m'' 3)) = (Inr (), Some bs') \<and>
    parse_snapshot_bytes plain_codec ''s'' bs' 4 False =
      Inr (snapshot_of 4 ([] @ [new_record (ProcessedMessage ''m'' 3)]), length bs')"
  by (rule append_then_parse) (auto simp: plain_codec_good intro: holds_lines [of "[]", simplified])

text \<open>
  C4. A write that stops after any number of bytes, followed by the repair of the next
  operation: the file then holds the records it held before, or those and the new one.
\<close>

theorem crash_keeps_the_log:
  assumes "holds cd bs rs" "codec_good cd" "list_all record_ok (rs @ [r])"
    and "append_state_record cd (no_faults\<lparr>io_write := Some (Some k, e)\<rparr>) (Some bs) r = (res, Some torn)"
  shows "\<exists>bs'. repair_incomplete_tail cd path now no_faults (Some torn) = (Inr (), Some bs') \<and>
    (holds cd bs' rs \<or> holds cd bs' (rs @ [r]))"
proof -
  have torn: "torn = bs @ take k (append_bytes cd bs r)"
    using assms(4) by (simp add: append_state_record_def no_faults_def Let_def)
  have "codec_ok cd r" "torn_ok cd r" using assms(2) by (simp_all add: codec_good_def)
  then obtain q where q: "recovers cd torn q" "q = rs \<or> q = rs @ [r]"
    using torn_append [OF assms(1)] torn by blast
  have "list_all record_ok q" using q(2) assms(3) by auto
  from recovers_parse [OF q(1) replay_snapshot_of [OF this]] obtain n where
    "n \<le> length torn" "holds cd (take n torn) q"
    "parse_snapshot_bytes cd path torn now True = Inr (snapshot_of now q, n)" by blast
  then show ?thesis
    using q(2) by (auto simp: repair_incomplete_tail_def no_faults_def)
qed

lemma crash_keeps_the_log_witness:
  "\<exists>torn bs'. append_state_record plain_codec (no_faults\<lparr>io_write := Some (Some 3, Other ''full'')\<rparr>)
      (Some []) (new_record (ProcessedMessage ''m'' 3)) = (Inl (Other ''full''), Some torn) \<and>
    repair_incomplete_tail plain_codec ''s'' 4 no_faults (Some torn) = (Inr (), Some bs') \<and>
    (holds plain_codec bs' [] \<or> holds plain_codec bs' ([] @ [new_record (ProcessedMessage ''m'' 3)]))"
proof -
  let ?r = "new_record (ProcessedMessage ''m'' 3)"
  obtain torn where t: "append_state_record plain_codec
      (no_faults\<lparr>io_write := Some (Some 3, Other ''full'')\<rparr>) (Some []) ?r = (Inl (Other ''full''), Some torn)"
    by (simp add: append_state_record_def no_faults_def Let_def)
  with crash_keeps_the_log [OF _ plain_codec_good _ t, of "[]" "''s''" 4] show ?thesis
    by (auto intro: holds_lines [of "[]", simplified])
qed

text \<open>
  What the parser accepts: when reading succeeds, the accepted prefix holds records whose
  replay is the snapshot, the snapshot is well formed, and what follows the prefix is one last
  line without a line feed that is not a record; without leave for a torn tail it is the
  whole file.
\<close>

theorem parse_snapshot_sound:
  assumes "parse_snapshot_bytes cd path bs now allow_torn_tail = Inr (s, n)"
  shows "snap_inv s \<and> (\<exists>rs. holds cd (take n bs) rs \<and> replay now empty_snapshot rs = Inr s) \<and>
    n \<le> length bs \<and> (n < length bs \<longrightarrow> allow_torn_tail \<and> no_LF (drop n bs) \<and>
      line_records cd (drop n bs) = None)"
proof -
  from parse_sound [OF assms] obtain rs where rs: "n \<le> length bs" "holds cd (take n bs) rs"
    "replay now empty_snapshot rs = Inr s"
    "n < length bs \<longrightarrow> allow_torn_tail \<and> line_records cd (drop n bs) = None \<and> no_LF (drop n bs)"
    by blast
  with snap_inv_replay [OF rs(3)] show ?thesis by auto
qed

lemma parse_snapshot_sound_witness:
  "parse_snapshot_bytes plain_codec ''s'' ''{'' 4 True = Inr (empty_snapshot, 0) \<and>
   snap_inv empty_snapshot \<and> no_LF (drop 0 ''{'')"
proof -
  have "trim ''{'' = ''{''" by (rule trim_ascii_id) (simp_all add: byte_def)
  then have "parse_snapshot_bytes plain_codec ''s'' ''{'' 4 True = Inr (empty_snapshot, 0)"
    using parse_lines_tail [of "''{''" plain_codec "''s''" 4 True 0 1 empty_snapshot]
    by (simp add: parse_snapshot_bytes_def line_records_def plain_codec_def plain_de_def
        utf8_valid.simps byte_def LF_def)
  from this parse_snapshot_sound [OF this] show ?thesis by simp
qed

text \<open>
  Reading the log at a later instant gives the earlier snapshot without the leases that
  have expired meanwhile: an expired lease hides nothing and never comes back.
\<close>

theorem later_load_prunes:
  assumes "holds cd bs rs" "list_all record_ok rs" "now \<le> now'"
  shows "\<exists>s. snapshot_load_at cd path now no_faults (Some bs) = Inr s \<and>
    snapshot_load_at cd path now' no_faults (Some bs) = Inr (prune_expired_attempts now' s)"
  using parse_holds [OF assms(1)] replay_snapshot_of [OF assms(2), of now]
    replay_later [OF assms(3) replay_snapshot_of [OF assms(2), of now]]
  by (simp add: snapshot_load_at_def no_faults_def)

lemma later_load_prunes_witness:
  "\<exists>s. snapshot_load_at plain_codec ''s'' 2 no_faults (Some [LF]) = Inr s \<and>
    snapshot_load_at plain_codec ''s'' 9 no_faults (Some [LF]) = Inr (prune_expired_attempts 9 s)"
  by (rule later_load_prunes [of _ _ "[]"]) (auto intro: holds_lines [of "[[]]", simplified])

subsection \<open>One operation\<close>

text \<open>
  What \<open>begin_attempt\<close> answers, whatever snapshot the handle had: the message is
  processed when the log says so; a lease that still runs is reported with the time it has
  left; otherwise a new attempt starts, its lease is in the file before the call returns, and
  nothing else was written.
\<close>

theorem begin_attempt_answers:
  assumes "log_is env (cx_file c) rs" "codec_good (se_codec env)"
    and "trim mid \<noteq> []" "lease_expires_at env now lease = Inr e"
  shows "\<exists>c'. (let aid = attempt_id_of now (se_pid env) (cx_next_attempt c);
        started = (Inr (Started \<lparr>al_message_id = mid, al_attempt_id = aid, al_expires_at = e\<rparr>), c');
        rs' = rs @ [new_record (AttemptLeased mid aid e)] in
      case log_view mid rs of
        Done \<Rightarrow> begin_attempt_at env no_faults mid lease now c = (Inr AlreadyProcessed, c') \<and>
          log_is env (cx_file c') rs
      | Leased a t \<Rightarrow>
          if now < t then
            begin_attempt_at env no_faults mid lease now c = (Inr (StillLeased (nat (t - now))), c') \<and>
            log_is env (cx_file c') rs
          else begin_attempt_at env no_faults mid lease now c = started \<and> log_is env (cx_file c') rs'
      | Free \<Rightarrow> begin_attempt_at env no_faults mid lease now c = started \<and> log_is env (cx_file c') rs')"
proof -
  obtain res c' where run: "begin_attempt_at env no_faults mid lease now c = (res, c')" by fastforce
  show ?thesis
    using begin_attempt_sim [OF assms(1,2), of no_faults now mid lease] run assms(3,4)
    by (intro exI [of _ c'])
      (auto simp: sim_def spec_begin_def spec_start_def Let_def split: mview.splits)
qed

lemma begin_attempt_answers_witness:
  "\<exists>c'. begin_attempt_at demo_env no_faults ''m'' 5 0 (handle_ctx demo_sys 0) =
     (Inr (Started demo_lease), c')"
  using begin_attempt_answers [OF demo_ctx_log demo_good, of "''m''" 0 5 5]
  by (simp add: log_view_def demo_expiry Let_def) (auto simp: demo_env_def demo_sys_def demo_lease_def handle_ctx_def)

text \<open>
  C5. Any call of any handle, with any faults of the file system: it returns the verdict of the
  specification and the file stands for the log extended by the verdict's records, or the
  file system failed, an error is returned, and the file stands for the log as it was or for
  the extended one.
\<close>

theorem store_call_refines:
  assumes "log_is env (sy_file s) rs" "codec_good (se_codec env)"
    and "verdict env (ca_now k) (ca_cmd k) (sy_next s) rs = (r, new, n')"
    and "do_call env s k = (res, s')"
  shows "(res = r \<and> log_is env (sy_file s') (rs @ new)) \<or>
    (faulty (ca_io k) \<and> isl res \<and>
      (log_is env (sy_file s') rs \<or> log_is env (sy_file s') (rs @ new)))"
  using call_log [OF _ assms(2,3)] assms(1,4) by (auto simp: sys_log_def)

lemma store_call_refines_witness:
  "log_is demo_env (sy_file (sys_step demo_env demo_sys (demo_begin 0 0)))
     [new_record (AttemptLeased ''m'' (attempt_id_of 0 7 1) 5)]"
  using store_call_refines [OF demo_log [unfolded sys_log_def] demo_good, of "demo_begin 0 0"
      "Inr (Begun (Started demo_lease))" "[new_record (AttemptLeased ''m'' (attempt_id_of 0 7 1) 5)]" 2]
    demo_verdict
  by (cases "do_call demo_env demo_sys (demo_begin 0 0)") (auto simp: demo_begin_def demo_sys_def)

text \<open>
  C9. Only the owner of a running lease changes the message: releasing, deferring or marking
  with an attempt that is not the active one, or whose lease has expired, is refused and the
  log is unchanged (unless the message is already processed, when marking it succeeds).
\<close>

theorem not_owner_refused:
  assumes "log_is env (cx_file c) rs" "codec_good (se_codec env)"
    and "trim (al_message_id l) \<noteq> []"
    and "\<not> owner_ok now (al_attempt_id l) (log_view (al_message_id l) rs)"
  shows "\<exists>c1 c2 c3.
    release_attempt_at env no_faults l now c = (Inl (not_owner l), c1) \<and> log_is env (cx_file c1) rs \<and>
    defer_attempt_at env no_faults l lease now c = (Inl (not_owner l), c2) \<and> log_is env (cx_file c2) rs \<and>
    mark_processed_at env no_faults l now c =
      (if log_view (al_message_id l) rs = Done then Inr () else Inl (not_owner l), c3) \<and>
    log_is env (cx_file c3) rs"
proof -
  obtain r1 c1 r2 c2 r3 c3 where runs:
    "release_attempt_at env no_faults l now c = (r1, c1)"
    "defer_attempt_at env no_faults l lease now c = (r2, c2)"
    "mark_processed_at env no_faults l now c = (r3, c3)" by (meson surj_pair)
  show ?thesis
    using release_attempt_sim [OF assms(1,2), of no_faults now l]
      defer_attempt_sim [OF assms(1,2), of no_faults now l lease]
      mark_processed_sim [OF assms(1,2), of no_faults now l] runs assms(3,4)
    by (intro exI [of _ c1] exI [of _ c2] exI [of _ c3])
      (simp add: sim_def spec_release_def spec_defer_def spec_mark_def spec_owned_def split: if_splits)
qed

lemma not_owner_refused_witness:
  "\<exists>c1. release_attempt_at demo_env no_faults demo_lease 9 (handle_ctx demo_sys 0) =
     (Inl (not_owner demo_lease), c1)"
  using not_owner_refused [OF demo_ctx_log demo_good, of demo_lease 9]
  by (auto simp: demo_lease_def log_view_def)

text \<open>
  C11. After a successful call the handle's snapshot is exactly what opening the file again at
  the same instant gives.
\<close>

theorem snapshot_is_reload:
  assumes "store_inv env s" "do_call env s k = (Inr r, s')"
  shows "load_at env no_faults (ca_now k) (sy_file s') =
    (Inr (sy_snapshots s' (ca_handle k)), sy_file s')"
proof -
  obtain rs where rs: "sys_log env s rs" and cd: "codec_good (se_codec env)"
    using assms(1) by (auto simp: store_inv_def)
  obtain r0 new n' where v: "verdict env (ca_now k) (ca_cmd k) (sy_next s) rs = (r0, new, n')"
    by (metis prod_cases3)
  obtain c where c: "run_command env (ca_io k) (ca_now k) (ca_cmd k) (handle_ctx s (ca_handle k)) = (Inr r, c)"
    "s' = \<lparr>sy_snapshots = (sy_snapshots s)(ca_handle k := cx_snapshot c),
             sy_file = cx_file c, sy_next = cx_next_attempt c\<rparr>"
    using assms(2) by (auto simp: do_call_def split: prod.splits)
  have f: "sealed env (cx_file c) (rs @ new)" "cx_snapshot c = snapshot_of (ca_now k) (rs @ new)"
    using command_sim [of env "handle_ctx s (ca_handle k)" rs "ca_io k" "ca_now k" "ca_cmd k"] rs cd v c
    by (auto simp: sys_log_def handle_ctx_def sim_def)
  have "parse_snapshot_bytes (se_codec env) (se_path env) bs (ca_now k) True =
      Inr (snapshot_of (ca_now k) (rs @ new), length bs)" if "cx_file c = Some bs" for bs
    using f(1) that parse_holds replay_snapshot_of by (auto simp: sealed_def)
  moreover have "rs @ new = []" if "cx_file c = None" using f(1) that by (simp add: sealed_def)
  moreover have "snapshot_of (ca_now k) [] = empty_snapshot" by (simp add: snapshot_of_def)
  ultimately show ?thesis
    using f(2) c(2)
    by (cases "cx_file c")
      (auto simp: load_at_def repair_incomplete_tail_def snapshot_load_at_def no_faults_def)
qed

lemma snapshot_is_reload_witness:
  "let s' = sys_step demo_env demo_sys (demo_begin 0 0) in
   load_at demo_env no_faults 0 (sy_file s') = (Inr (sy_snapshots s' 0), sy_file s')"
  using snapshot_is_reload [OF demo_inv, of "demo_begin 0 0" "Begun (Started demo_lease)"] demo_started
  by (cases "do_call demo_env demo_sys (demo_begin 0 0)") (auto simp: started_def demo_begin_def)

subsection \<open>Histories of several handles\<close>

text \<open>
  The log only grows: after any history of calls by any handles, with any clocks and any
  faults of the file system, the file stands for the old log followed by more records.
\<close>

theorem log_only_grows:
  assumes "sys_log env s rs" "codec_good (se_codec env)"
  shows "\<exists>more. sys_log env (run_calls env s ks) (rs @ more)"
  using assms(1)
proof (induction ks arbitrary: s rs)
  case Nil
  then show ?case by (intro exI [of _ "[]"]) simp
next
  case (Cons k ks)
  obtain r new n' where v: "verdict env (ca_now k) (ca_cmd k) (sy_next s) rs = (r, new, n')"
    by (metis prod_cases3)
  from call_log_cases [OF Cons.prems assms(2) v] obtain m1 where
    "sys_log env (sys_step env s k) (rs @ m1)" by (metis append_Nil2)
  from Cons.IH [OF this] show ?case by auto
qed

lemma log_only_grows_witness:
  "\<exists>more. sys_log demo_env (run_calls demo_env demo_sys [demo_begin 0 0, demo_begin 1 3, demo_mark]) ([] @ more)"
  by (rule log_only_grows [OF demo_log demo_good])

text \<open>
  C3. A processed message is never started again: once a call to \<open>mark_processed\<close> has
  returned without an error, every later \<open>begin_attempt\<close> for the message, by any handle and
  after any history, with any clocks and faults, answers that it is processed (or an error).
\<close>

theorem processed_stays_processed:
  assumes "store_inv env s" "ca_cmd k = Mark l" "reply_of env s k = Inr r"
    and "ca_cmd k' = Begin (al_message_id l) d"
    and "reply_of env (run_calls env (sys_step env s k) ks) k' = Inr r'"
  shows "r' = Begun AlreadyProcessed"
  using finished_begin [OF finished_run [OF marked_finished [OF assms(1-3)]] assms(4,5)] .

lemma processed_stays_processed_witness:
  "let s1 = sys_step demo_env demo_sys (demo_begin 0 0) in
   reply_of demo_env (run_calls demo_env (sys_step demo_env s1 demo_mark) []) (demo_begin 1 9)
     = Inr (Begun AlreadyProcessed)"
proof -
  let ?s1 = "sys_step demo_env demo_sys (demo_begin 0 0)"
  let ?s2 = "sys_step demo_env ?s1 demo_mark"
  have inv: "store_inv demo_env ?s1" by (rule jsonl.inv_step [OF demo_inv])
  have log: "sys_log demo_env ?s2 ([new_record (AttemptLeased ''m'' (attempt_id_of 0 7 1) 5)] @
      [new_record (ProcessedMessage ''m'' 1)])"
    using reply_no_faults(2) [OF demo_started_log demo_good, of demo_mark]
    by (simp add: demo_mark_def verdict_defs log_view_def demo_lease_def new_record_def)
  have "\<exists>r. reply_of demo_env ?s2 (demo_begin 1 9) = Inr r"
    using reply_no_faults(1) [OF log demo_good, of "demo_begin 1 9"]
    by (simp add: demo_begin_def verdict_defs log_view_def new_record_def)
  then show ?thesis
    using processed_stays_processed [OF inv _ demo_marked, of demo_lease "demo_begin 1 9" 5 "[]"]
    by (auto simp: demo_mark_def demo_begin_def demo_lease_def)
qed

text \<open>
  C1. A message has one owner at a time: after \<open>begin_attempt\<close> has started an attempt, no
  call starts the same message again while the clocks are before the lease's expiry and no
  call presents the lease (to release, defer or finish it), whatever other calls run and fail
  in between.
\<close>

theorem one_owner_at_a_time:
  assumes "store_inv env s" "reply_of env s k = Inr (Begun (Started l))"
    and "\<forall>q\<in>set (ks @ [k']). ca_now q < al_expires_at l \<and> presents (ca_cmd q) \<noteq> Some (al_attempt_id l)"
    and "reply_of env (run_calls env (sys_step env s k) ks) k' = Inr (Begun (Started l'))"
  shows "al_message_id l' \<noteq> al_message_id l"
proof -
  have "list_all (quiet_call l) ks" "quiet_call l k'"
    using assms(3) by (auto simp: list_all_iff quiet_call_def)
  from jsonl.exclusive [OF assms(1) _ this, of k l'] assms(2,4) show ?thesis
    by (auto simp: started_def)
qed

lemma one_owner_at_a_time_witness:
  "reply_of demo_env (run_calls demo_env (sys_step demo_env demo_sys (demo_begin 0 0)) [demo_begin 1 2])
     (demo_begin 1 4) \<noteq> Inr (Begun (Started demo_lease))"
  using one_owner_at_a_time [OF demo_inv, of "demo_begin 0 0" demo_lease "[demo_begin 1 2]" "demo_begin 1 4"
      demo_lease] demo_started
  by (auto simp: started_def demo_begin_def demo_lease_def)

text \<open>
  Attempt ids are never reused: the leases handed out by one process in a history of at
  most 2^64 calls have different attempt ids, though the counter is a 64-bit word and the
  clock may stand still or go back.
\<close>

theorem attempt_ids_distinct:
  assumes "store_inv env s" "length ks \<le> 2 ^ 64"
  shows "distinct (map al_attempt_id (leases_of env s ks))"
proof -
  from leases_of_counters [OF assms(1), of ks] obtain js where js: "sorted_wrt (<) js"
    "\<forall>j\<in>set js. j < length ks"
    "list_all2 (\<lambda>l j. \<exists>t. al_attempt_id l = attempt_id_of t (se_pid env) (sy_next s + of_nat j))
      (leases_of env s ks) js" by blast
  have inj: "j = j'" if "j \<in> set js" "j' \<in> set js" "(of_nat j :: 64 word) = of_nat j'" for j j'
  proof -
    have "j < 2 ^ 64" "j' < 2 ^ 64" using that js(2) assms(2) by fastforce+
    then show ?thesis
      using that(3) by (simp add: word_of_nat_eq_iff take_bit_nat_eq_self)
  qed
  show ?thesis
    unfolding distinct_conv_nth
  proof (intro allI impI)
    fix i i' assume i: "i < length (map al_attempt_id (leases_of env s ks))"
      "i' < length (map al_attempt_id (leases_of env s ks))" "i \<noteq> i'"
    have len: "length (leases_of env s ks) = length js" using js(3) by (rule list_all2_lengthD)
    have "js ! i \<noteq> js ! i'"
      using js(1) i len strict_sorted_imp_sorted by (metis length_map nth_eq_iff_index_eq strict_sorted_iff)
    then have "(of_nat (js ! i) :: 64 word) \<noteq> of_nat (js ! i')" using inj i len by (metis length_map nth_mem)
    then have "sy_next s + of_nat (js ! i) \<noteq> sy_next s + of_nat (js ! i')" by simp
    then show "map al_attempt_id (leases_of env s ks) ! i \<noteq> map al_attempt_id (leases_of env s ks) ! i'"
      using list_all2_nthD [OF js(3), of i] list_all2_nthD [OF js(3), of i'] i attempt_id_inj
      by (metis length_map nth_map)
  qed
qed

lemma attempt_ids_distinct_witness:
  "distinct (map al_attempt_id (leases_of demo_env demo_sys [demo_begin 0 0, demo_begin 0 7]))"
  by (rule attempt_ids_distinct [OF demo_inv]) simp

end
