(* ===== verification/PathLock.thy ===== *)
theory PathLock imports ErrorModel "HOL-Library.Product_Lexorder" begin

text \<open>
  The lock every operation of \<open>JsonlStateStore\<close> takes (\<open>StatePathLock\<close> in
  \<open>src/state.rs\<close>): a process-wide set of keys, acquired all at once or not at all. The keys of
  a path are a fixed process key, the resolved path and the identity of the file. Threads are
  a transition system: \<open>lock_step\<close> is one pass through the mutex.
\<close>

subsection \<open>Paths\<close>

datatype component = RootDir | CurDir | ParentDir | Normal string

type_synonym path = "component list"

fun comp_rank :: "component \<Rightarrow> nat \<times> string" where
  "comp_rank RootDir = (0, [])"
| "comp_rank CurDir = (1, [])"
| "comp_rank ParentDir = (2, [])"
| "comp_rank (Normal n) = (3, n)"

definition is_absolute :: "path \<Rightarrow> bool" where
  "is_absolute p \<longleftrightarrow> (case p of RootDir # _ \<Rightarrow> True | _ \<Rightarrow> False)"

definition path_join :: "path \<Rightarrow> path \<Rightarrow> path" where
  "path_join p q = (if is_absolute q then q else p @ q)"

definition path_parent :: "path \<Rightarrow> path option" where
  "path_parent p = (if p = [] \<or> last p = RootDir then None else Some (butlast p))"

definition file_name :: "path \<Rightarrow> component option" where
  "file_name p = (if p = [] then None else case last p of Normal n \<Rightarrow> Some (Normal n) | _ \<Rightarrow> None)"

definition path_pop :: "path \<Rightarrow> path" where
  "path_pop p = (case path_parent p of Some q \<Rightarrow> q | None \<Rightarrow> p)"

fun push_component :: "path \<Rightarrow> component \<Rightarrow> path" where
  "push_component p CurDir = p"
| "push_component p ParentDir = path_pop p"
| "push_component p RootDir = [RootDir]"
| "push_component p (Normal n) = p @ [Normal n]"

definition normalize_lexical_path :: "path \<Rightarrow> path" where
  "normalize_lexical_path p = foldl push_component [] p"

subsection \<open>The file system, as far as the keys depend on it\<close>

record fs_view =
  fs_current_dir :: "path res"
  fs_exists :: "path \<Rightarrow> bool"
  fs_canonicalize :: "path \<Rightarrow> path res"
  fs_is_symlink :: "path \<Rightarrow> bool"
  fs_read_link :: "path \<Rightarrow> path res"
  fs_file_id :: "path \<Rightarrow> (nat \<times> nat) option res"

definition link_target :: "path \<Rightarrow> path \<Rightarrow> path" where
  "link_target p target =
     (if is_absolute target then target
      else path_join (case path_parent p of
             Some q \<Rightarrow> if q \<noteq> [] then q else [CurDir]
           | None \<Rightarrow> [CurDir]) target)"

function stable_state_path_inner :: "fs_view \<Rightarrow> path \<Rightarrow> nat \<Rightarrow> path res" where
  "stable_state_path_inner fs p depth =
     (if 40 < depth then Inl (Other ''state path has too many symbolic links'')
      else if fs_exists fs p then fs_canonicalize fs p
      else if fs_is_symlink fs p then
        (case fs_read_link fs p of
           Inl e \<Rightarrow> Inl e
         | Inr target \<Rightarrow> stable_state_path_inner fs (link_target p target) (Suc depth))
      else (case (path_parent p, file_name p) of
           (Some parent, Some name) \<Rightarrow>
             if fs_exists fs parent then
               and_then (fs_canonicalize fs parent) (\<lambda>q. Inr (path_join q [name]))
             else Inr (normalize_lexical_path p)
         | _ \<Rightarrow> Inr (normalize_lexical_path p)))"
  by pat_completeness auto
termination
  by (relation "measure (\<lambda>(_, _, depth). 41 - depth)") auto

declare stable_state_path_inner.simps [simp del]

definition stable_state_path :: "fs_view \<Rightarrow> path \<Rightarrow> path res" where
  "stable_state_path fs p =
     (if is_absolute p then stable_state_path_inner fs p 0
      else and_then (fs_current_dir fs) (\<lambda>d. stable_state_path_inner fs (path_join d p) 0))"

subsection \<open>Lock keys\<close>

datatype state_lock_key = ProcessKey | PathKey path | FileIdKey nat nat

fun key_rank :: "state_lock_key \<Rightarrow> nat \<times> (nat \<times> string) list \<times> nat \<times> nat" where
  "key_rank ProcessKey = (0, [], 0, 0)"
| "key_rank (PathKey p) = (1, map comp_rank p, 0, 0)"
| "key_rank (FileIdKey dev ino) = (2, [], dev, ino)"

lemma comp_rank_inj: "comp_rank c = comp_rank d \<Longrightarrow> c = d"
  by (cases c; cases d) auto

lemma key_rank_inj: "key_rank k = key_rank l \<Longrightarrow> k = l"
  by (cases k; cases l) (auto simp: inj_on_def dest: map_injective comp_rank_inj
      intro: map_injective [of comp_rank] injI)

instantiation state_lock_key :: linorder
begin

definition less_eq_state_lock_key :: "state_lock_key \<Rightarrow> state_lock_key \<Rightarrow> bool" where
  "less_eq_state_lock_key k l \<longleftrightarrow> key_rank k \<le> key_rank l"

definition less_state_lock_key :: "state_lock_key \<Rightarrow> state_lock_key \<Rightarrow> bool" where
  "less_state_lock_key k l \<longleftrightarrow> key_rank k < key_rank l"

instance
  by standard (auto simp: less_eq_state_lock_key_def less_state_lock_key_def dest: key_rank_inj)

end

definition state_lock_keys :: "fs_view \<Rightarrow> path \<Rightarrow> state_lock_key list res" where
  "state_lock_keys fs p =
     and_then (stable_state_path fs p) (\<lambda>q.
     and_then (fs_file_id fs p) (\<lambda>meta.
       Inr (remdups_adj (sort ([ProcessKey, PathKey q] @
         (case meta of Some (dev, ino) \<Rightarrow> [FileIdKey dev ino] | None \<Rightarrow> []))))))"

lemma distinct_remdups_adj_sorted: "sorted xs \<Longrightarrow> distinct (remdups_adj xs)"
  by (induction xs rule: remdups_adj.induct) auto

lemma state_lock_keys_set:
  assumes "state_lock_keys fs p = Inr ks"
  shows "ProcessKey \<in> set ks" and "distinct ks" and "sorted ks"
    and "\<exists>q. stable_state_path fs p = Inr q \<and> PathKey q \<in> set ks"
proof -
  from assms obtain q xs where q: "stable_state_path fs p = Inr q"
    "ks = remdups_adj (sort ([ProcessKey, PathKey q] @ xs))"
    unfolding state_lock_keys_def and_then_Inr_iff by blast
  show "sorted ks" unfolding q(2) by (rule sorted_remdups_adj) (rule sorted_sort)
  show "distinct ks" unfolding q(2) by (rule distinct_remdups_adj_sorted) (rule sorted_sort)
  have set: "set ks = set ([ProcessKey, PathKey q] @ xs)"
    unfolding q(2) by (simp only: remdups_adj_set set_sort)
  then show "ProcessKey \<in> set ks" by simp
  from set have "PathKey q \<in> set ks" by simp
  with q(1) show "\<exists>q. stable_state_path fs p = Inr q \<and> PathKey q \<in> set ks" by blast
qed

subsection \<open>Acquiring and releasing\<close>

record lock_state =
  lk_locked :: "state_lock_key set"
  lk_holders :: "nat \<Rightarrow> state_lock_key list option"

definition lock_init :: lock_state where
  "lock_init = \<lparr>lk_locked = {}, lk_holders = (\<lambda>_. None)\<rparr>"

text \<open>One pass of the loop of \<open>acquire\<close> through the mutex: \<open>None\<close> means sleep and try again.\<close>

definition try_acquire :: "state_lock_key list \<Rightarrow> state_lock_key set \<Rightarrow> state_lock_key set option" where
  "try_acquire keys locked =
     (if list_all (\<lambda>k. k \<notin> locked) keys then Some (fold insert keys locked) else None)"

definition drop_lock :: "state_lock_key list \<Rightarrow> state_lock_key set \<Rightarrow> state_lock_key set" where
  "drop_lock keys locked = fold (\<lambda>k s. s - {k}) keys locked"

inductive lock_step :: "lock_state \<Rightarrow> lock_state \<Rightarrow> bool" where
  acquire: "lk_holders s t = None \<Longrightarrow> state_lock_keys fs p = Inr keys \<Longrightarrow>
     try_acquire keys (lk_locked s) = Some locked \<Longrightarrow>
     lock_step s \<lparr>lk_locked = locked, lk_holders = (lk_holders s)(t \<mapsto> keys)\<rparr>"
| wait: "lk_holders s t = None \<Longrightarrow> state_lock_keys fs p = Inr keys \<Longrightarrow>
     try_acquire keys (lk_locked s) = None \<Longrightarrow> lock_step s s"
| release: "lk_holders s t = Some keys \<Longrightarrow>
     lock_step s \<lparr>lk_locked = drop_lock keys (lk_locked s), lk_holders = (lk_holders s)(t := None)\<rparr>"

inductive_cases lock_stepE: "lock_step s s'"

inductive lock_reachable :: "lock_state \<Rightarrow> bool" where
  init: "lock_reachable lock_init"
| step: "lock_reachable s \<Longrightarrow> lock_step s s' \<Longrightarrow> lock_reachable s'"

definition lock_inv :: "lock_state \<Rightarrow> bool" where
  "lock_inv s \<longleftrightarrow>
     lk_locked s = {k. \<exists>t ks. lk_holders s t = Some ks \<and> k \<in> set ks} \<and>
     (\<forall>t ks. lk_holders s t = Some ks \<longrightarrow> ProcessKey \<in> set ks) \<and>
     (\<forall>t t' ks ks'. lk_holders s t = Some ks \<longrightarrow> lk_holders s t' = Some ks' \<longrightarrow> t \<noteq> t' \<longrightarrow>
        set ks \<inter> set ks' = {})"

lemma fold_insert_set: "fold insert ks S = set ks \<union> S"
  by (induction ks arbitrary: S) auto

lemma drop_lock_set: "drop_lock ks S = S - set ks"
  unfolding drop_lock_def by (induction ks arbitrary: S) auto

lemma try_acquire_Some: "try_acquire ks S = Some S' \<longleftrightarrow> set ks \<inter> S = {} \<and> S' = set ks \<union> S"
  by (auto simp: try_acquire_def fold_insert_set list_all_iff)

text \<open>The keys held by anybody, after the holder of one thread changes.\<close>

definition held_keys :: "(nat \<Rightarrow> state_lock_key list option) \<Rightarrow> state_lock_key set" where
  "held_keys H = {k. \<exists>t ks. H t = Some ks \<and> k \<in> set ks}"

lemma held_keys_acquire: "H t = None \<Longrightarrow> held_keys (H(t \<mapsto> keys)) = set keys \<union> held_keys H"
  unfolding held_keys_def by (auto split: if_splits) (metis option.distinct(1))

lemma held_keys_release:
  assumes "H t = Some keys" "\<And>t' ks. H t' = Some ks \<Longrightarrow> t' \<noteq> t \<Longrightarrow> set keys \<inter> set ks = {}"
  shows "held_keys (H(t := None)) = held_keys H - set keys"
proof
  show "held_keys (H(t := None)) \<subseteq> held_keys H - set keys"
    using assms(2) unfolding held_keys_def by (fastforce split: if_splits)
  show "held_keys H - set keys \<subseteq> held_keys (H(t := None))"
  proof
    fix k assume "k \<in> held_keys H - set keys"
    then obtain t' ks where "H t' = Some ks" "k \<in> set ks" "k \<notin> set keys"
      unfolding held_keys_def by blast
    then have "(H(t := None)) t' = Some ks" using assms(1) by auto
    then show "k \<in> held_keys (H(t := None))" using \<open>k \<in> set ks\<close> unfolding held_keys_def by blast
  qed
qed

definition disjoint_holders :: "(nat \<Rightarrow> state_lock_key list option) \<Rightarrow> bool" where
  "disjoint_holders H \<longleftrightarrow> (\<forall>t t' ks ks'. H t = Some ks \<longrightarrow> H t' = Some ks' \<longrightarrow> t \<noteq> t' \<longrightarrow>
     set ks \<inter> set ks' = {})"

lemma disjoint_holders_acquire:
  assumes "disjoint_holders H" "set keys \<inter> held_keys H = {}"
  shows "disjoint_holders (H(t \<mapsto> keys))"
  unfolding disjoint_holders_def
proof (intro allI impI)
  fix t1 t2 ks1 ks2
  assume h: "(H(t \<mapsto> keys)) t1 = Some ks1" "(H(t \<mapsto> keys)) t2 = Some ks2" "t1 \<noteq> t2"
  have old: "set keys \<inter> set ks = {}" if "H t' = Some ks" for t' ks
    using assms(2) that unfolding held_keys_def by blast
  show "set ks1 \<inter> set ks2 = {}"
  proof (cases "t1 = t \<or> t2 = t")
    case True
    then show ?thesis using h old by (auto split: if_splits)
  next
    case False
    then show ?thesis using h assms(1) unfolding disjoint_holders_def by (metis fun_upd_apply)
  qed
qed

lemma disjoint_holders_release: "disjoint_holders H \<Longrightarrow> disjoint_holders (H(t := None))"
  unfolding disjoint_holders_def by simp

lemma lock_inv_alt:
  "lock_inv s \<longleftrightarrow> lk_locked s = held_keys (lk_holders s) \<and>
     (\<forall>t ks. lk_holders s t = Some ks \<longrightarrow> ProcessKey \<in> set ks) \<and> disjoint_holders (lk_holders s)"
  by (simp only: lock_inv_def held_keys_def disjoint_holders_def)

lemma lock_inv_step:
  assumes "lock_step s s'" "lock_inv s"
  shows "lock_inv s'"
  using assms(1)
proof (cases rule: lock_step.cases)
  case (acquire t fs p keys locked)
  have "ProcessKey \<in> set keys" using acquire(3) by (rule state_lock_keys_set(1))
  then show ?thesis
    using acquire(1,2,4) assms(2) disjoint_holders_acquire
    by (simp add: lock_inv_alt try_acquire_Some held_keys_acquire)
next
  case (wait t fs p keys)
  with assms(2) show ?thesis by simp
next
  case (release t keys)
  have "set keys \<inter> set ks = {}" if "lk_holders s t' = Some ks" "t' \<noteq> t" for t' ks
    using release(2) assms(2) that unfolding lock_inv_alt disjoint_holders_def by blast
  then show ?thesis
    using release assms(2) held_keys_release disjoint_holders_release
    by (simp add: lock_inv_alt drop_lock_set)
qed

lemma lock_reachable_inv: "lock_reachable s \<Longrightarrow> lock_inv s"
proof (induction rule: lock_reachable.induct)
  case init
  show ?case by (simp add: lock_inv_def lock_init_def)
next
  case (step s s')
  then show ?case using lock_inv_step by blast
qed

subsection \<open>Properties\<close>

lemma other_holders:
  assumes "lock_reachable s" "lk_holders s t = Some ks" "t' \<noteq> t"
  shows "lk_holders s t' = None"
proof (rule ccontr)
  assume "lk_holders s t' \<noteq> None"
  then obtain ks' where "lk_holders s t' = Some ks'" by blast
  with lock_reachable_inv [OF assms(1)] assms(2,3)
  have "ProcessKey \<in> set ks \<inter> set ks'" "set ks \<inter> set ks' = {}"
    unfolding lock_inv_def by blast+
  then show False by simp
qed

lemma holder_keys:
  assumes "lock_reachable s" "lk_holders s t = Some ks"
  shows "held_keys (lk_holders s) = set ks \<and> lk_locked s = set ks"
proof -
  have "lk_holders s t' = Some ks' \<longleftrightarrow> t' = t \<and> ks' = ks" for t' ks'
    using other_holders [OF assms, of t'] assms(2) by (cases "t' = t") auto
  then have "held_keys (lk_holders s) = set ks" unfolding held_keys_def by simp
  with lock_reachable_inv [OF assms(1)] show ?thesis by (simp add: lock_inv_alt)
qed

text \<open>
  C6. Mutual exclusion: in every reachable state at most one thread holds the lock, for any
  paths, and the set behind the mutex is exactly the keys of that holder.
\<close>

theorem state_lock_exclusive:
  assumes "lock_reachable s" "lk_holders s t = Some ks"
  shows "lk_locked s = set ks \<and> (\<forall>t'. t' \<noteq> t \<longrightarrow> lk_holders s t' = None)"
  using holder_keys [OF assms] other_holders [OF assms] by blast

definition demo_fs :: fs_view where
  "demo_fs = \<lparr>fs_current_dir = Inr [RootDir], fs_exists = (\<lambda>p. p = [RootDir]),
     fs_canonicalize = Inr, fs_is_symlink = (\<lambda>p. p = [RootDir, Normal ''l'']),
     fs_read_link = (\<lambda>_. Inr [Normal ''s'']), fs_file_id = (\<lambda>_. Inr None)\<rparr>"

lemma demo_fs_keys:
  "state_lock_keys demo_fs [Normal ''l''] = Inr [ProcessKey, PathKey [RootDir, Normal ''s'']]"
  by (simp add: state_lock_keys_def stable_state_path_def is_absolute_def path_join_def demo_fs_def
      stable_state_path_inner.simps link_target_def path_parent_def file_name_def
      less_eq_state_lock_key_def)

lemma state_lock_exclusive_witness:
  "\<exists>s. lock_reachable s \<and> lk_holders s 0 = Some [ProcessKey, PathKey [RootDir, Normal ''s'']] \<and>
     lk_holders s 1 = None"
proof -
  let ?s = "\<lparr>lk_locked = {PathKey [RootDir, Normal ''s''], ProcessKey},
    lk_holders = (\<lambda>_. None)(0 \<mapsto> [ProcessKey, PathKey [RootDir, Normal ''s'']])\<rparr>"
  have "lock_step lock_init ?s"
    using lock_step.acquire [OF _ demo_fs_keys, of lock_init 0]
    by (simp add: lock_init_def try_acquire_def)
  then have r: "lock_reachable ?s" using lock_reachable.init lock_reachable.step by blast
  from state_lock_exclusive [OF r, of 0] have "lk_holders ?s 1 = None" by simp
  with r show ?thesis by (intro exI [of _ ?s]) simp
qed

text \<open>
  C33. No deadlock: a thread waits only while another thread holds the lock, and when that
  holder drops it, the mutex's set is empty again and the next pass of any thread succeeds.
\<close>

theorem state_lock_progress:
  assumes "lock_reachable s" "lk_holders s t = None" "state_lock_keys fs p = Inr keys"
  shows "(try_acquire keys (lk_locked s) = None) = (\<exists>t' ks. t' \<noteq> t \<and> lk_holders s t' = Some ks) \<and>
    (\<forall>t' ks. lk_holders s t' = Some ks \<longrightarrow> drop_lock ks (lk_locked s) = {} \<and>
      try_acquire keys (drop_lock ks (lk_locked s)) = Some (set keys))"
proof (intro conjI allI impI iffI)
  have inv: "lock_inv s" using assms(1) by (rule lock_reachable_inv)
  have pk: "ProcessKey \<in> set keys" using assms(3) by (rule state_lock_keys_set(1))
  have free: "try_acquire keys {} = Some (set keys)" by (simp add: try_acquire_Some)
  {
    assume n: "try_acquire keys (lk_locked s) = None"
    show "\<exists>t' ks. t' \<noteq> t \<and> lk_holders s t' = Some ks"
    proof (rule ccontr)
      assume a: "\<not> ?thesis"
      have "lk_holders s t' = None" for t' using a assms(2) by (cases "t' = t") auto
      then have "held_keys (lk_holders s) = {}" unfolding held_keys_def by simp
      with inv n free show False by (simp add: lock_inv_alt)
    qed
  next
    assume "\<exists>t' ks. t' \<noteq> t \<and> lk_holders s t' = Some ks"
    then have "ProcessKey \<in> lk_locked s" using inv unfolding lock_inv_def by blast
    with pk show "try_acquire keys (lk_locked s) = None"
      by (auto simp: try_acquire_def list_all_iff)
  next
    fix t' ks assume "lk_holders s t' = Some ks"
    then have "lk_locked s = set ks" using holder_keys [OF assms(1)] by blast
    then show "drop_lock ks (lk_locked s) = {}"
      "try_acquire keys (drop_lock ks (lk_locked s)) = Some (set keys)"
      using free by (simp_all add: drop_lock_set)
  }
qed

lemma state_lock_progress_witness:
  "try_acquire [ProcessKey, PathKey [RootDir, Normal ''s'']] (lk_locked lock_init) \<noteq> None"
  using state_lock_progress [OF lock_reachable.init _ demo_fs_keys, of 0] by (simp add: lock_init_def)

end
