(* ===== verification/SeenIds.thy ===== *)
theory SeenIds imports Prelude begin

text \<open>
  \<open>SeenMessageIds\<close> of \<open>src/realtime.rs\<close>: the bounded memory of the message ids a poller has
  delivered, newest first. The set answers \<open>contains\<close>, the order decides what is forgotten.
\<close>

record seen_ids =
  sn_ids :: "string set"
  sn_order :: "string list"

definition seen_default :: seen_ids where
  "seen_default = \<lparr>sn_ids = {}, sn_order = []\<rparr>"

definition seen_contains :: "seen_ids \<Rightarrow> string \<Rightarrow> bool" where
  "seen_contains s i \<longleftrightarrow> i \<in> sn_ids s"

text \<open>
  \<open>truncate\<close>: the oldest id goes first. The loop also ends when the order runs out.
\<close>

function truncate_loop :: "nat \<Rightarrow> seen_ids \<Rightarrow> seen_ids" where
  "truncate_loop mx s =
     (if card (sn_ids s) \<le> mx \<or> sn_order s = [] then s
      else truncate_loop mx
        \<lparr>sn_ids = sn_ids s - {last (sn_order s)}, sn_order = butlast (sn_order s)\<rparr>)"
  by pat_completeness auto
termination
  by (relation "measure (\<lambda>(_, s). length (sn_order s))") auto

declare truncate_loop.simps [simp del]

definition seen_truncate :: "nat \<Rightarrow> seen_ids \<Rightarrow> seen_ids" where
  "seen_truncate max_ids s = truncate_loop (max max_ids 1) s"

definition remember_one :: "nat \<Rightarrow> string \<Rightarrow> seen_ids \<Rightarrow> seen_ids" where
  "remember_one max_ids i s =
     seen_truncate max_ids
       (if i \<in> sn_ids s then s
        else \<lparr>sn_ids = insert i (sn_ids s), sn_order = i # sn_order s\<rparr>)"

definition remember_newest_first :: "string list \<Rightarrow> nat \<Rightarrow> seen_ids \<Rightarrow> seen_ids" where
  "remember_newest_first ids max_ids s = fold (remember_one (max max_ids 1)) (rev ids) s"

subsection \<open>The invariant\<close>

definition seen_inv :: "seen_ids \<Rightarrow> bool" where
  "seen_inv s \<longleftrightarrow> distinct (sn_order s) \<and> sn_ids s = set (sn_order s)"

lemma seen_inv_default [simp]: "seen_inv seen_default"
  by (simp add: seen_inv_def seen_default_def)

lemma seen_inv_card: "seen_inv s \<Longrightarrow> card (sn_ids s) = length (sn_order s)"
  by (simp add: seen_inv_def distinct_card)

text \<open>Under the invariant the loop cuts the order to the bound.\<close>

definition seen_of :: "string list \<Rightarrow> seen_ids" where
  "seen_of xs = \<lparr>sn_ids = set xs, sn_order = xs\<rparr>"

lemma seen_of_sel [simp]: "sn_ids (seen_of xs) = set xs" "sn_order (seen_of xs) = xs"
  by (simp_all add: seen_of_def)

lemma seen_inv_iff: "seen_inv s \<longleftrightarrow> (\<exists>xs. distinct xs \<and> s = seen_of xs)"
  by (cases s) (auto simp: seen_inv_def seen_of_def)

lemma seen_inv_of: "distinct xs \<Longrightarrow> seen_inv (seen_of xs)"
  by (simp add: seen_inv_def seen_of_def)

lemma truncate_loop_of: "distinct xs \<Longrightarrow> truncate_loop mx (seen_of xs) = seen_of (take mx xs)"
proof (induction "length xs" arbitrary: xs)
  case 0
  then show ?case by (subst truncate_loop.simps) (simp add: seen_of_def)
next
  case (Suc n)
  then obtain ys y where xs: "xs = ys @ [y]" by (metis length_Suc_conv_rev)
  with Suc.prems have "distinct ys" "set xs - {y} = set ys" "length ys = n" "card (set xs) = length xs"
    using Suc.hyps(2) by (auto simp: distinct_card)
  with Suc.hyps(1) [of ys] xs show ?case
    by (subst truncate_loop.simps) (auto simp: seen_of_def)
qed

lemma seen_truncate_of: "distinct xs \<Longrightarrow> seen_truncate mx (seen_of xs) = seen_of (take (max mx 1) xs)"
  by (simp add: seen_truncate_def truncate_loop_of)

lemma remember_one_of:
  assumes "distinct xs"
  shows "remember_one mx i (seen_of xs) =
    seen_of (take (max mx 1) (if i \<in> set xs then xs else i # xs))"
proof -
  have "(if i \<in> sn_ids (seen_of xs) then seen_of xs
      else \<lparr>sn_ids = insert i (sn_ids (seen_of xs)), sn_order = i # sn_order (seen_of xs)\<rparr>) =
    seen_of (if i \<in> set xs then xs else i # xs)"
    by (simp add: seen_of_def)
  then show ?thesis
    using seen_truncate_of [of "if i \<in> set xs then xs else i # xs" mx] assms
    by (simp only: remember_one_def) simp
qed

lemma distinct_if_cons: "distinct xs \<Longrightarrow> distinct (if i \<in> set xs then xs else i # xs)"
  by simp

lemma seen_inv_remember:
  assumes "seen_inv s"
  shows "seen_inv (remember_newest_first ids mx s)"
proof -
  have step: "seen_inv (remember_one m i s)" if s: "seen_inv s" for m i s
  proof -
    obtain xs where xs: "distinct xs" "s = seen_of xs" using s unfolding seen_inv_iff by blast
    show ?thesis
      unfolding xs(2) remember_one_of [OF xs(1)]
      by (rule seen_inv_of) (rule distinct_take, rule distinct_if_cons, rule xs(1))
  qed
  have "seen_inv (fold (remember_one m) is s)" if "seen_inv s" for m "is" s
    using that by (induction "is" arbitrary: s) (simp_all add: step)
  then show ?thesis using assms by (simp add: remember_newest_first_def)
qed

text \<open>Remembering new ids: they go in front, in their order, and the oldest are cut.\<close>

lemma fold_remember_of:
  assumes "distinct is" "distinct xs" "set is \<inter> set xs = {}" "1 \<le> mx"
  shows "fold (remember_one mx) is (seen_of xs) = seen_of (take mx (rev is @ xs)) \<or> is = []"
  using assms
proof (induction "is" arbitrary: xs)
  case (Cons i "is")
  have one: "remember_one mx i (seen_of xs) = seen_of (take mx (i # xs))"
    using Cons.prems remember_one_of [of xs mx i] by (simp add: max_def)
  show ?case
  proof (cases "is = []")
    case True
    with one show ?thesis by simp
  next
    case False
    have "distinct (take mx (i # xs))" using Cons.prems by (metis IntI distinct.simps(2) distinct_take empty_iff list.set_intros(1))
    moreover have "set is \<inter> set (take mx (i # xs)) = {}"
      using Cons.prems set_take_subset [of mx "i # xs"] by auto
    ultimately have "fold (remember_one mx) is (seen_of (take mx (i # xs))) =
        seen_of (take mx (rev is @ take mx (i # xs)))"
      using Cons.IH Cons.prems False by auto
    also have "take mx (rev is @ take mx (i # xs)) = take mx (rev is @ i # xs)"
      by (simp add: take_append min_def)
    finally show ?thesis using one by simp
  qed
qed simp

lemma remember_new:
  assumes "distinct ids" "distinct xs" "set ids \<inter> set xs = {}" "ids \<noteq> []"
  shows "remember_newest_first ids mx (seen_of xs) = seen_of (take (max mx 1) (ids @ xs))"
  using fold_remember_of [of "rev ids" xs "max mx 1"] assms
  by (simp add: remember_newest_first_def)

lemma remember_none [simp]: "remember_newest_first [] mx s = s"
  by (simp add: remember_newest_first_def)

lemma remember_bounded:
  assumes "seen_inv s" "ids \<noteq> [] \<or> length (sn_order s) \<le> max mx 1"
  shows "length (sn_order (remember_newest_first ids mx s)) \<le> max mx 1"
proof -
  have one: "length (sn_order (remember_one (max mx 1) i t)) \<le> max mx 1" if t: "seen_inv t" for i t
  proof -
    from t obtain xs where "distinct xs" "t = seen_of xs" by (auto simp: seen_inv_iff)
    then show ?thesis by (simp add: remember_one_of)
  qed
  show ?thesis
  proof (cases ids)
    case Nil
    then show ?thesis using assms(2) by simp
  next
    case (Cons i "is")
    have "remember_newest_first ids mx s = remember_one (max mx 1) i (remember_newest_first is mx s)"
      by (simp add: remember_newest_first_def Cons)
    then show ?thesis using one seen_inv_remember [OF assms(1)] by simp
  qed
qed

text \<open>Seeding an empty memory with a bounded list of different ids gives exactly that list.\<close>

lemma remember_seed:
  assumes "distinct xs" "length xs \<le> max mx 1"
  shows "remember_newest_first xs mx seen_default = seen_of xs"
proof (cases "xs = []")
  case True
  then show ?thesis by (simp add: seen_of_def seen_default_def)
next
  case False
  have "seen_default = seen_of []" by (simp add: seen_of_def seen_default_def)
  with remember_new [OF assms(1) _ _ False, of "[]" mx] assms(2) show ?thesis by simp
qed

end
