(* ===== verification/Types.thy ===== *)
theory Types imports ErrorModel begin

text \<open>
  The resources of the REST API and the parameters of its requests (\<open>src/types.rs\<close>). A field
  the service may leave out is an option; \<open>Default::default()\<close> is the record with every
  option \<open>None\<close> and every list empty.
\<close>

record person =
  pe_id :: "string option"
  pe_emails :: "string list"
  pe_display_name :: "string option"
  pe_nick_name :: "string option"
  pe_first_name :: "string option"
  pe_last_name :: "string option"
  pe_avatar :: "string option"
  pe_org_id :: "string option"
  pe_department :: "string option"
  pe_title :: "string option"
  pe_timezone :: "string option"
  pe_status :: "string option"
  pe_roles :: "string list"
  pe_licenses :: "string list"
  pe_created :: "time option"
  pe_last_modified :: "time option"
  pe_last_activity :: "time option"

record room =
  ro_id :: "string option"
  ro_title :: "string option"
  ro_room_type :: "string option"
  ro_is_locked :: "bool option"
  ro_team_id :: "string option"
  ro_last_activity :: "time option"
  ro_creator_id :: "string option"
  ro_created :: "time option"
  ro_owner_id :: "string option"
  ro_classification_id :: "string option"
  ro_is_announcement_only :: "bool option"
  ro_is_read_only :: "bool option"
  ro_is_public :: "bool option"
  ro_made_public :: "time option"
  ro_description :: "string option"

record message =
  me_id :: "string option"
  me_parent_id :: "string option"
  me_room_id :: "string option"
  me_room_type :: "string option"
  me_to_person_id :: "string option"
  me_to_person_email :: "string option"
  me_text :: "string option"
  me_markdown :: "string option"
  me_html :: "string option"
  me_files :: "string list"
  me_attachments :: "json list"
  me_person_id :: "string option"
  me_person_email :: "string option"
  me_mentioned_people :: "string list"
  me_mentioned_groups :: "string list"
  me_created :: "time option"
  me_updated :: "time option"
  me_is_voice_clip :: "bool option"

record list_messages =
  lm_room_id :: string
  lm_parent_id :: "string option"
  lm_mentioned_people :: "string option"
  lm_before :: "time option"
  lm_before_message :: "string option"
  lm_max :: "nat option"

definition list_messages_room :: "string \<Rightarrow> list_messages" where
  "list_messages_room room_id = \<lparr>lm_room_id = room_id, lm_parent_id = None,
     lm_mentioned_people = None, lm_before = None, lm_before_message = None, lm_max = None\<rparr>"

record create_message =
  cm_room_id :: "string option"
  cm_parent_id :: "string option"
  cm_to_person_id :: "string option"
  cm_to_person_email :: "string option"
  cm_text :: "string option"
  cm_markdown :: "string option"
  cm_files :: "string list"
  cm_attachments :: "json list"

definition create_message_default :: create_message where
  "create_message_default = \<lparr>cm_room_id = None, cm_parent_id = None, cm_to_person_id = None,
     cm_to_person_email = None, cm_text = None, cm_markdown = None, cm_files = [], cm_attachments = []\<rparr>"

definition create_message_text :: "string \<Rightarrow> string \<Rightarrow> create_message" where
  "create_message_text room_id t = create_message_default\<lparr>cm_room_id := Some room_id, cm_text := Some t\<rparr>"

definition create_message_markdown :: "string \<Rightarrow> string \<Rightarrow> create_message" where
  "create_message_markdown room_id t =
     create_message_default\<lparr>cm_room_id := Some room_id, cm_markdown := Some t\<rparr>"

definition create_message_reply_text :: "string \<Rightarrow> string \<Rightarrow> string \<Rightarrow> create_message" where
  "create_message_reply_text room_id parent_id t =
     create_message_default\<lparr>cm_room_id := Some room_id, cm_parent_id := Some parent_id, cm_text := Some t\<rparr>"

definition direct_text_to_email :: "string \<Rightarrow> string \<Rightarrow> create_message" where
  "direct_text_to_email email t =
     create_message_default\<lparr>cm_to_person_email := Some email, cm_text := Some t\<rparr>"

record list_rooms =
  lr_team_id :: "string option"
  lr_room_type :: "string option"
  lr_org_public_spaces :: "bool option"
  lr_from :: "time option"
  lr_to :: "time option"
  lr_sort_by :: "string option"
  lr_max :: "nat option"

definition list_rooms_default :: list_rooms where
  "list_rooms_default = \<lparr>lr_team_id = None, lr_room_type = None, lr_org_public_spaces = None,
     lr_from = None, lr_to = None, lr_sort_by = None, lr_max = None\<rparr>"

text \<open>One page of a listing: its items and the address of the next page.\<close>

record 'a page =
  pg_items :: "'a list"
  pg_next :: "string option"

end
