(* ===== verification/Poller.thy ===== *)
theory Poller imports SeenIds Types StateLog begin

text \<open>
  The room message poller of \<open>src/realtime.rs\<close>. One pass asks the service for pages, newest
  message first, until it meets a message it knows, runs out of pages, or has used its budget
  of pages; in the last case what it collected stays pending and the next pass continues at
  the address of the next page. The service is a parameter: \<open>source\<close> answers the \<open>n\<close>th
  request of a pass.
\<close>

subsection \<open>Configuration and state\<close>

record polling_config =
  pc_interval :: duration
  pc_page_size :: nat
  pc_max_pages_per_poll :: nat
  pc_emit_existing_on_first_poll :: bool
  pc_max_seen_ids :: nat
  pc_max_pending_messages :: nat

definition polling_config_default :: polling_config where
  "polling_config_default = \<lparr>pc_interval = 15 * SEC, pc_page_size = 50, pc_max_pages_per_poll = 5,
     pc_emit_existing_on_first_poll = False, pc_max_seen_ids = 10000, pc_max_pending_messages = 10000\<rparr>"

definition checkpoint_new :: "string \<Rightarrow> string list \<Rightarrow> room_checkpoint" where
  "checkpoint_new r ids = \<lparr>rc_room_id = r, rc_seen_message_ids = ids, rc_initialize_empty = False\<rparr>"

definition checkpoint_known_empty :: "string \<Rightarrow> room_checkpoint" where
  "checkpoint_known_empty r = \<lparr>rc_room_id = r, rc_seen_message_ids = [], rc_initialize_empty = True\<rparr>"

record poller =
  po_room_id :: string
  po_config :: polling_config
  po_seen :: seen_ids
  po_backlog_next :: "string option"
  po_pending_fresh :: "message list"
  po_pending_seen_ids :: "string list"
  po_initialized :: bool
  po_seed_seen_message_ids :: "string list option"

record poll_update =
  pu_messages :: "message list"
  pu_seen_ids :: "string list"
  pu_pending_fresh :: "message list"
  pu_pending_seen_ids :: "string list"
  pu_backlog_next :: "string option"
  pu_initialized :: bool
  pu_commit_seen :: bool

type_synonym poll_error = "error \<times> poll_update option"

definition poller_new :: "string \<Rightarrow> poller" where
  "poller_new r = \<lparr>po_room_id = r, po_config = polling_config_default, po_seen = seen_default,
     po_backlog_next = None, po_pending_fresh = [], po_pending_seen_ids = [],
     po_initialized = False, po_seed_seen_message_ids = None\<rparr>"

definition reseed_seen_message_ids :: "string list \<Rightarrow> poller \<Rightarrow> poller" where
  "reseed_seen_message_ids ids p =
     p\<lparr>po_seen := remember_newest_first ids (pc_max_seen_ids (po_config p)) seen_default\<rparr>"

definition set_config :: "polling_config \<Rightarrow> poller \<Rightarrow> poller" where
  "set_config cfg p =
     (let p = p\<lparr>po_config := cfg\<rparr> in
      case po_seed_seen_message_ids p of
        Some ids \<Rightarrow> reseed_seen_message_ids ids p
      | None \<Rightarrow> p\<lparr>po_seen := seen_truncate (pc_max_seen_ids cfg) (po_seen p)\<rparr>)"

definition replace_checkpoint :: "string list \<Rightarrow> bool \<Rightarrow> poller \<Rightarrow> poller" where
  "replace_checkpoint seen_ids initialize_empty p =
     (let p = p\<lparr>po_seen := seen_default, po_backlog_next := None, po_pending_fresh := [],
            po_pending_seen_ids := [], po_initialized := False, po_seed_seen_message_ids := None\<rparr> in
      if seen_ids = [] then
        (if initialize_empty then p\<lparr>po_initialized := True\<rparr> else p)
      else
        (reseed_seen_message_ids seen_ids (p\<lparr>po_seed_seen_message_ids := Some seen_ids\<rparr>))
          \<lparr>po_initialized := True\<rparr>)"

definition with_seen_message_ids :: "string list \<Rightarrow> poller \<Rightarrow> poller" where
  "with_seen_message_ids ids p =
     (if ids = [] then p
      else (reseed_seen_message_ids ids (p\<lparr>po_seed_seen_message_ids := Some ids\<rparr>))
             \<lparr>po_initialized := True\<rparr>)"

definition with_empty_seen_boundary :: "poller \<Rightarrow> poller" where
  "with_empty_seen_boundary p = p\<lparr>po_initialized := True\<rparr>"

definition has_pending_backlog :: "poller \<Rightarrow> bool" where
  "has_pending_backlog p \<longleftrightarrow>
     po_backlog_next p \<noteq> None \<or> po_pending_fresh p \<noteq> [] \<or> po_pending_seen_ids p \<noteq> []"

subsection \<open>One page\<close>

fun collect_items ::
    "seen_ids \<Rightarrow> message list \<Rightarrow> bool \<Rightarrow> bool \<Rightarrow> string set \<Rightarrow> message list \<Rightarrow> string list \<Rightarrow> bool
      \<Rightarrow> (message list \<times> string list \<times> bool) \<times> string set" where
  "collect_items seen [] ini emit local fresh new_ids known = ((fresh, new_ids, known), local)"
| "collect_items seen (m # ms) ini emit local fresh new_ids known =
     (case me_id m of
        None \<Rightarrow> collect_items seen ms ini emit local fresh new_ids known
      | Some i \<Rightarrow>
          if seen_contains seen i then
            (if ini then ((fresh, new_ids, True), local)
             else collect_items seen ms ini emit local fresh new_ids True)
          else if i \<in> local then collect_items seen ms ini emit local fresh new_ids known
          else collect_items seen ms ini emit (insert i local)
                 (if ini \<or> emit then fresh @ [m] else fresh) (new_ids @ [i]) known)"

definition collect_page_messages ::
    "seen_ids \<Rightarrow> message list \<Rightarrow> bool \<Rightarrow> bool \<Rightarrow> string set
      \<Rightarrow> (message list \<times> string list \<times> bool) \<times> string set" where
  "collect_page_messages seen items ini emit local = collect_items seen items ini emit local [] [] False"

definition preserve_pending_on_page_error :: "bool \<Rightarrow> bool \<Rightarrow> bool" where
  "preserve_pending_on_page_error ini emit \<longleftrightarrow> ini \<or> emit"

definition ensure_pending_within_limit :: "nat \<Rightarrow> nat \<Rightarrow> nat \<Rightarrow> unit res" where
  "ensure_pending_within_limit pending_messages pending_ids max_pending =
     (let limit = max max_pending 1 in
      if limit < pending_messages \<or> limit < pending_ids then
        Inl (Other (''message poller backlog exceeded max_pending_messages='' @ show_nat limit @
          ''; increase PollingConfig::max_pending_messages or poll more frequently''))
      else Inr ())"

subsection \<open>One pass\<close>

datatype request = ListReq list_messages | NextReq string

type_synonym source = "nat \<Rightarrow> request \<Rightarrow> message page res"

definition commit_update :: "message list \<Rightarrow> string list \<Rightarrow> poll_update" where
  "commit_update fresh ids = \<lparr>pu_messages = rev fresh, pu_seen_ids = ids, pu_pending_fresh = [],
     pu_pending_seen_ids = [], pu_backlog_next = None, pu_initialized = True, pu_commit_seen = True\<rparr>"

definition pending_update :: "message list \<Rightarrow> string list \<Rightarrow> string \<Rightarrow> poll_update" where
  "pending_update fresh ids nxt = \<lparr>pu_messages = [], pu_seen_ids = [], pu_pending_fresh = fresh,
     pu_pending_seen_ids = ids, pu_backlog_next = Some nxt, pu_initialized = True, pu_commit_seen = False\<rparr>"

text \<open>The loop over pages; \<open>k\<close> is the number of pages the pass may still use.\<close>

fun poll_pages ::
    "source \<Rightarrow> poller \<Rightarrow> nat \<Rightarrow> nat \<Rightarrow> message page \<Rightarrow> message list \<Rightarrow> string list \<Rightarrow> string set
      \<Rightarrow> poll_error + poll_update" where
  "poll_pages src p 0 n page fresh new_ids local = Inr (commit_update fresh new_ids)"
| "poll_pages src p (Suc k) n page fresh new_ids local =
     (case collect_page_messages (po_seen p) (pg_items page) (po_initialized p)
             (pc_emit_existing_on_first_poll (po_config p)) local of
        ((page_fresh, page_ids, known), local') \<Rightarrow>
          let fresh = fresh @ page_fresh; new_ids = new_ids @ page_ids in
          (case ensure_pending_within_limit (length fresh) (length new_ids)
                  (pc_max_pending_messages (po_config p)) of
             Inl e \<Rightarrow> Inl (e, None)
           | Inr _ \<Rightarrow>
               if known \<and> po_initialized p then Inr (commit_update fresh new_ids)
               else (case pg_next page of
                 None \<Rightarrow> Inr (commit_update fresh new_ids)
               | Some nxt \<Rightarrow>
                   if k = 0 then
                     (if po_initialized p \<or> pc_emit_existing_on_first_poll (po_config p)
                      then Inr (pending_update fresh new_ids nxt)
                      else Inr (commit_update fresh new_ids))
                   else (case src (Suc n) (NextReq nxt) of
                       Inr page' \<Rightarrow> poll_pages src p k (Suc n) page' fresh new_ids local'
                     | Inl e \<Rightarrow>
                         Inl (e, if preserve_pending_on_page_error (po_initialized p)
                                    (pc_emit_existing_on_first_poll (po_config p))
                                 then Some (pending_update fresh new_ids nxt) else None)))))"

definition first_request :: "poller \<Rightarrow> time option \<Rightarrow> request" where
  "first_request p before =
     (case po_backlog_next p of
        Some nxt \<Rightarrow> NextReq nxt
      | None \<Rightarrow> ListReq ((list_messages_room (po_room_id p))
          \<lparr>lm_max := Some (pc_page_size (po_config p)), lm_before := before\<rparr>))"

definition poll_once_transaction_before ::
    "source \<Rightarrow> poller \<Rightarrow> time option \<Rightarrow> poll_error + poll_update" where
  "poll_once_transaction_before src p before =
     (if po_backlog_next p = None \<and> po_pending_fresh p \<noteq> [] then
        Inr (commit_update (po_pending_fresh p) (po_pending_seen_ids p))
      else (case src 0 (first_request p before) of
        Inl e \<Rightarrow> Inl (e, None)
      | Inr page \<Rightarrow>
          poll_pages src p (max (pc_max_pages_per_poll (po_config p)) 1) 0 page
            (po_pending_fresh p) (po_pending_seen_ids p) (set (po_pending_seen_ids p))))"

definition checkpoint_from_seen :: "string \<Rightarrow> seen_ids \<Rightarrow> room_checkpoint" where
  "checkpoint_from_seen r s =
     (if sn_order s = [] then checkpoint_known_empty r else checkpoint_new r (sn_order s))"

definition checkpoint_after_update :: "poller \<Rightarrow> string \<Rightarrow> poll_update \<Rightarrow> room_checkpoint option" where
  "checkpoint_after_update p r u =
     (if \<not> pu_commit_seen u then None
      else Some (checkpoint_from_seen r
        (remember_newest_first (pu_seen_ids u) (pc_max_seen_ids (po_config p)) (po_seen p))))"

definition current_checkpoint :: "poller \<Rightarrow> string \<Rightarrow> room_checkpoint option" where
  "current_checkpoint p r = (if po_initialized p then Some (checkpoint_from_seen r (po_seen p)) else None)"

definition apply_update :: "poll_update \<Rightarrow> poller \<Rightarrow> poller" where
  "apply_update u p =
     p\<lparr>po_seed_seen_message_ids := None,
       po_seen := (if pu_commit_seen u
         then remember_newest_first (pu_seen_ids u) (pc_max_seen_ids (po_config p)) (po_seen p)
         else po_seen p),
       po_pending_fresh := pu_pending_fresh u,
       po_pending_seen_ids := pu_pending_seen_ids u,
       po_backlog_next := pu_backlog_next u,
       po_initialized := pu_initialized u\<rparr>"

definition poller_poll_once :: "source \<Rightarrow> poller \<Rightarrow> message list res \<times> poller" where
  "poller_poll_once src p =
     (case poll_once_transaction_before src p None of
        Inr u \<Rightarrow> (Inr (pu_messages u), apply_update u p)
      | Inl (e, Some u) \<Rightarrow> (Inl e, apply_update u p)
      | Inl (e, None) \<Rightarrow> (Inl e, p))"

end
