(* ===== verification/CatchUp.thy ===== *)
theory CatchUp imports Poller begin

text \<open>
  What the poller delivers. The reference is \<open>new_msgs\<close>: the messages of a feed that come
  before the first known one, each id once. A pass that runs out of pages, or meets an error
  of the service, stops in the middle of the feed (\<open>at_page\<close>) and loses nothing: whenever a
  pass delivers, it delivers the reference of the whole feed, oldest message first.
\<close>

subsection \<open>The reference\<close>

fun new_msgs :: "string set \<Rightarrow> message list \<Rightarrow> message list" where
  "new_msgs L [] = []"
| "new_msgs L (m # ms) =
     (case me_id m of
        None \<Rightarrow> new_msgs L ms
      | Some i \<Rightarrow> if i \<in> L then new_msgs L ms else m # new_msgs (insert i L) ms)"

definition unseen :: "seen_ids \<Rightarrow> message \<Rightarrow> bool" where
  "unseen seen m \<longleftrightarrow> (case me_id m of None \<Rightarrow> True | Some i \<Rightarrow> \<not> seen_contains seen i)"

definition ids_of :: "message list \<Rightarrow> string list" where
  "ids_of ms = List.map_filter me_id ms"

lemma ids_of_simps [simp]:
  "ids_of [] = []"
  "ids_of (m # ms) = (case me_id m of None \<Rightarrow> ids_of ms | Some i \<Rightarrow> i # ids_of ms)"
  "ids_of (xs @ ys) = ids_of xs @ ids_of ys"
  by (simp_all add: ids_of_def map_filter_def split: option.splits)

lemma ids_of_rev: "ids_of (rev ms) = rev (ids_of ms)"
  by (induction ms) (auto split: option.splits)

lemma new_msgs_append: "new_msgs L (xs @ ys) = new_msgs L xs @ new_msgs (L \<union> set (ids_of xs)) ys"
  by (induction L xs rule: new_msgs.induct) (auto split: option.splits simp: insert_absorb)

lemma set_ids_new_msgs: "set (ids_of (new_msgs L xs)) = set (ids_of xs) - L"
  by (induction L xs rule: new_msgs.induct) (auto split: option.splits)

lemma distinct_new_msgs: "distinct (ids_of (new_msgs L xs))"
  by (induction L xs rule: new_msgs.induct) (auto split: option.splits simp: set_ids_new_msgs)

lemma new_msgs_ids_known: "m \<in> set (new_msgs L xs) \<Longrightarrow> me_id m \<noteq> None"
  by (induction L xs rule: new_msgs.induct) (auto split: option.splits if_splits)

lemma length_ids_new_msgs: "length (ids_of (new_msgs L xs)) = length (new_msgs L xs)"
  by (induction L xs rule: new_msgs.induct) (auto split: option.splits)

lemma new_msgs_subseq: "subseq (new_msgs L xs) xs"
  by (induction L xs rule: new_msgs.induct) (auto split: option.splits)

lemma new_msgs_takeWhile_prefix:
  "\<exists>zs. new_msgs L xs = new_msgs L (takeWhile P xs) @ zs"
  by (metis new_msgs_append takeWhile_dropWhile_id)

subsection \<open>One page\<close>

text \<open>A poller that has its baseline stops at the first known message.\<close>

lemma collect_items_initialized:
  "collect_items seen ms True emit L fresh ids known =
    (let F = new_msgs L (takeWhile (unseen seen) ms) in
     ((fresh @ F, ids @ ids_of F, known \<or> \<not> list_all (unseen seen) ms), L \<union> set (ids_of F)))"
proof (induction seen ms True emit L fresh ids known rule: collect_items.induct)
  case (2 seen m ms emit L fresh ids known)
  then show ?case
    by (cases "me_id m") (auto simp: unseen_def Let_def insert_absorb split: option.splits)
qed simp

text \<open>The first pass of a poller without a baseline reads on past known messages.\<close>

lemma collect_items_baseline:
  "collect_items seen ms False emit L fresh ids known =
    (let F = new_msgs L (filter (unseen seen) ms) in
     ((fresh @ (if emit then F else []), ids @ ids_of F, known \<or> \<not> list_all (unseen seen) ms),
      L \<union> set (ids_of F)))"
proof (induction seen ms False emit L fresh ids known rule: collect_items.induct)
  case (2 seen m ms emit L fresh ids known)
  then show ?case
    by (cases "me_id m") (auto simp: unseen_def Let_def insert_absorb split: option.splits)
qed simp

lemma collect_page_initialized:
  "collect_page_messages seen ms True emit L =
    (let F = new_msgs L (takeWhile (unseen seen) ms) in
     ((F, ids_of F, \<not> list_all (unseen seen) ms), L \<union> set (ids_of F)))"
  by (simp add: collect_page_messages_def collect_items_initialized)

subsection \<open>A feed of pages\<close>

definition feed_items :: "message page list \<Rightarrow> message list" where
  "feed_items ps = concat (map pg_items ps)"

lemma feed_items_append [simp]: "feed_items (ps @ qs) = feed_items ps @ feed_items qs"
  by (simp add: feed_items_def)

text \<open>Different addresses, and none after the last page.\<close>

definition feed_ok :: "'a page list \<Rightarrow> bool" where
  "feed_ok ps \<longleftrightarrow> ps \<noteq> [] \<and> distinct (map pg_next ps) \<and> pg_next (last ps) = None"

text \<open>A service that answers from the feed, or with an error.\<close>

definition honest :: "message page list \<Rightarrow> source \<Rightarrow> bool" where
  "honest ps src \<longleftrightarrow> (\<forall>n req page. src n req = Inr page \<longrightarrow>
     (case req of
        ListReq _ \<Rightarrow> page = hd ps
      | NextReq u \<Rightarrow> \<exists>i. Suc i < length ps \<and> pg_next (ps ! i) = Some u \<and> page = ps ! Suc i))"

text \<open>No error on any request the feed gives rise to.\<close>

definition quiet_source :: "message page list \<Rightarrow> source \<Rightarrow> bool" where
  "quiet_source ps src \<longleftrightarrow> (\<forall>n l. \<not> isl (src n (ListReq l))) \<and>
     (\<forall>n i u. Suc i < length ps \<longrightarrow> pg_next (ps ! i) = Some u \<longrightarrow> \<not> isl (src n (NextReq u)))"

lemma feed_ok_next:
  assumes "feed_ok ps" "i < length ps"
  shows "pg_next (ps ! i) = None \<longleftrightarrow> Suc i = length ps"
proof -
  have last: "last ps = ps ! (length ps - 1)" "pg_next (last ps) = None" "distinct (map pg_next ps)"
    using assms(1) by (auto simp: feed_ok_def last_conv_nth)
  have "pg_next (ps ! i) = pg_next (ps ! (length ps - 1)) \<longleftrightarrow> i = length ps - 1"
    using last(3) assms(2) nth_eq_iff_index_eq [of "map pg_next ps" i "length ps - 1"] by simp
  then show ?thesis using last assms(2) by auto
qed

lemma honest_next:
  assumes "feed_ok ps" "honest ps src" "i < length ps" "pg_next (ps ! i) = Some u"
    and "src n (NextReq u) = Inr page"
  shows "Suc i < length ps \<and> page = ps ! Suc i"
proof -
  from assms(2,5) obtain j where j: "Suc j < length ps" "pg_next (ps ! j) = Some u" "page = ps ! Suc j"
    unfolding honest_def by fastforce
  have "distinct (map pg_next ps)" using assms(1) by (simp add: feed_ok_def)
  then have "i = j"
    using j assms(3,4) nth_eq_iff_index_eq [of "map pg_next ps" i j] by simp
  with j show ?thesis by simp
qed

text \<open>The messages of the whole feed that a poller with memory \<open>seen\<close> has to deliver.\<close>

definition due :: "seen_ids \<Rightarrow> message page list \<Rightarrow> message list" where
  "due seen ps = new_msgs {} (takeWhile (unseen seen) (feed_items ps))"

text \<open>A poller in the middle of a feed: the first \<open>j\<close> pages are collected.\<close>

definition at_page :: "poller \<Rightarrow> message page list \<Rightarrow> nat \<Rightarrow> bool" where
  "at_page p ps j \<longleftrightarrow>
     po_initialized p \<and> j < length ps \<and>
     po_backlog_next p = (if j = 0 then None else pg_next (ps ! (j - 1))) \<and>
     po_pending_fresh p = new_msgs {} (feed_items (take j ps)) \<and>
     po_pending_seen_ids p = ids_of (po_pending_fresh p) \<and>
     list_all (unseen (po_seen p)) (feed_items (take j ps)) \<and>
     (j = 0 \<longrightarrow> po_pending_fresh p = [])"

lemma feed_split: "j \<le> length ps \<Longrightarrow> feed_items ps = feed_items (take j ps) @ feed_items (drop j ps)"
  by (metis append_take_drop_id feed_items_append)

lemma due_at:
  assumes "i < length ps" "list_all (unseen seen) (feed_items (take i ps))"
  shows "due seen ps = new_msgs {} (feed_items (take i ps)) @
      new_msgs (set (ids_of (new_msgs {} (feed_items (take i ps)))))
        (takeWhile (unseen seen) (pg_items (ps ! i) @ feed_items (drop (Suc i) ps)))"
proof -
  have items: "feed_items ps = feed_items (take i ps) @ pg_items (ps ! i) @ feed_items (drop (Suc i) ps)"
    using feed_split [of i ps] assms(1) by (simp add: Cons_nth_drop_Suc [symmetric] feed_items_def)
  have "takeWhile (unseen seen) (feed_items ps) = feed_items (take i ps) @
      takeWhile (unseen seen) (pg_items (ps ! i) @ feed_items (drop (Suc i) ps))"
    unfolding items by (rule takeWhile_append_all) (use assms(2) in \<open>simp add: list_all_iff\<close>)
  then show ?thesis by (simp add: due_def new_msgs_append set_ids_new_msgs)
qed

lemma due_prefix:
  assumes "i < length ps" "list_all (unseen seen) (feed_items (take i ps))"
  shows "length (new_msgs {} (feed_items (take i ps)) @
      new_msgs (set (ids_of (new_msgs {} (feed_items (take i ps)))))
        (takeWhile (unseen seen) (pg_items (ps ! i)))) \<le> length (due seen ps)"
proof -
  have "\<exists>zs. takeWhile (unseen seen) (pg_items (ps ! i) @ feed_items (drop (Suc i) ps)) =
      takeWhile (unseen seen) (pg_items (ps ! i)) @ zs"
  proof (cases "\<exists>x\<in>set (pg_items (ps ! i)). \<not> unseen seen x")
    case True
    then show ?thesis by (simp add: takeWhile_append_stop)
  next
    case False
    then have all: "\<forall>x\<in>set (pg_items (ps ! i)). unseen seen x" by simp
    then have "takeWhile (unseen seen) (pg_items (ps ! i)) = pg_items (ps ! i)"
      by (simp add: takeWhile_eq_all_conv)
    then show ?thesis unfolding takeWhile_append_all [OF all] by (simp only:) blast
  qed
  then show ?thesis unfolding due_at [OF assms] by (auto simp: new_msgs_append)
qed

subsection \<open>A pass\<close>

definition within_limit :: "poller \<Rightarrow> message page list \<Rightarrow> bool" where
  "within_limit p ps \<longleftrightarrow>
     length (due (po_seen p) ps) \<le> max (pc_max_pending_messages (po_config p)) 1"

text \<open>How a pass that starts at page \<open>i\<close> with \<open>k\<close> pages to use can end.\<close>

definition pass_end :: "poller \<Rightarrow> message page list \<Rightarrow> nat \<Rightarrow> nat \<Rightarrow> bool \<Rightarrow> poll_error + poll_update \<Rightarrow> bool" where
  "pass_end p ps i k quiet r \<longleftrightarrow>
     r = Inr (commit_update (due (po_seen p) ps) (ids_of (due (po_seen p) ps))) \<or>
     (\<exists>j u. i < j \<and> j < length ps \<and> pg_next (ps ! (j - 1)) = Some u \<and>
        list_all (unseen (po_seen p)) (feed_items (take j ps)) \<and>
        (let G = new_msgs {} (feed_items (take j ps)); up = pending_update G (ids_of G) u in
         (r = Inr up \<and> j = i + k) \<or> (\<exists>e. r = Inl (e, Some up) \<and> \<not> quiet)))"

lemma page_step:
  assumes "i < length ps" "list_all (unseen seen) (feed_items (take i ps))"
    and "F = new_msgs {} (feed_items (take i ps))" "L = set (ids_of F)"
    and "G = F @ new_msgs L (takeWhile (unseen seen) (pg_items (ps ! i)))"
  shows "length G \<le> length (due seen ps)"
    and "L \<union> set (ids_of (new_msgs L (takeWhile (unseen seen) (pg_items (ps ! i))))) = set (ids_of G)"
    and "\<not> list_all (unseen seen) (pg_items (ps ! i)) \<Longrightarrow> due seen ps = G"
    and "list_all (unseen seen) (pg_items (ps ! i)) \<Longrightarrow>
      G = new_msgs {} (feed_items (take (Suc i) ps)) \<and>
      list_all (unseen seen) (feed_items (take (Suc i) ps)) \<and>
      (Suc i = length ps \<longrightarrow> due seen ps = G)"
proof -
  show "length G \<le> length (due seen ps)" using due_prefix [OF assms(1,2)] assms(3-5) by simp
  show "L \<union> set (ids_of (new_msgs L (takeWhile (unseen seen) (pg_items (ps ! i))))) = set (ids_of G)"
    by (simp add: assms(4,5))
  show "due seen ps = G" if "\<not> list_all (unseen seen) (pg_items (ps ! i))"
    using that due_at [OF assms(1,2)] assms(3-5)
    by (simp add: takeWhile_append_stop list_all_iff)
  assume all: "list_all (unseen seen) (pg_items (ps ! i))"
  have tw: "takeWhile (unseen seen) (pg_items (ps ! i)) = pg_items (ps ! i)"
    using all by (simp add: takeWhile_eq_all_conv list_all_iff)
  have take: "feed_items (take (Suc i) ps) = feed_items (take i ps) @ pg_items (ps ! i)"
    using assms(1) by (simp add: take_Suc_conv_app_nth feed_items_def)
  have "G = new_msgs {} (feed_items (take (Suc i) ps))"
    by (simp add: take new_msgs_append assms(3-5) tw set_ids_new_msgs)
  moreover have "due seen ps = G" if "Suc i = length ps"
    using due_at [OF assms(1,2)] that assms(3-5) tw by (simp add: feed_items_def)
  ultimately show "G = new_msgs {} (feed_items (take (Suc i) ps)) \<and>
      list_all (unseen seen) (feed_items (take (Suc i) ps)) \<and> (Suc i = length ps \<longrightarrow> due seen ps = G)"
    using take all assms(2) by simp
qed

lemma poll_pages_page:
  assumes "po_initialized p" "length G \<le> max (pc_max_pending_messages (po_config p)) 1"
    and "G = F @ new_msgs L (takeWhile (unseen (po_seen p)) (pg_items page))"
    and "L \<union> set (ids_of (new_msgs L (takeWhile (unseen (po_seen p)) (pg_items page)))) = M"
    and "length (ids_of F) = length F"
  shows "poll_pages src p (Suc k) n page F (ids_of F) L =
    (if \<not> list_all (unseen (po_seen p)) (pg_items page) then Inr (commit_update G (ids_of G))
     else case pg_next page of
       None \<Rightarrow> Inr (commit_update G (ids_of G))
     | Some nxt \<Rightarrow>
         if k = 0 then Inr (pending_update G (ids_of G) nxt)
         else (case src (Suc n) (NextReq nxt) of
             Inr page' \<Rightarrow> poll_pages src p k (Suc n) page' G (ids_of G) M
           | Inl e \<Rightarrow> Inl (e, Some (pending_update G (ids_of G) nxt))))"
proof -
  have "length (ids_of G) = length G" using assms(3,5) by (simp add: length_ids_new_msgs)
  then have "ensure_pending_within_limit (length G) (length (ids_of G))
      (pc_max_pending_messages (po_config p)) = Inr ()"
    using assms(2) by (auto simp: ensure_pending_within_limit_def max_def split: if_splits)
  then show ?thesis
    using assms(1,4) unfolding poll_pages.simps collect_page_initialized assms(3)
    by (simp add: collect_page_initialized Let_def preserve_pending_on_page_error_def
        split: option.splits sum.splits)
qed

lemma pass_end_later:
  "pass_end p ps (Suc i) k quiet r \<Longrightarrow> pass_end p ps i (Suc k) quiet r"
  unfolding pass_end_def by (metis Suc_lessD add_Suc_shift)

lemma poll_pages_feed:
  assumes "feed_ok ps" "honest ps src" "po_initialized p" "within_limit p ps"
    and "i < length ps" "list_all (unseen (po_seen p)) (feed_items (take i ps))"
    and "F = new_msgs {} (feed_items (take i ps))" "L = set (ids_of F)"
    and "quiet \<longrightarrow> quiet_source ps src"
  shows "pass_end p ps i (Suc k) quiet (poll_pages src p (Suc k) n (ps ! i) F (ids_of F) L)"
  using assms(5-8)
proof (induction k arbitrary: i n F L rule: less_induct)
  case (less k i n F L)
  define G where "G = F @ new_msgs L (takeWhile (unseen (po_seen p)) (pg_items (ps ! i)))"
  note step = page_step [OF less.prems G_def]
  have lenF: "length (ids_of F) = length F" by (simp add: less.prems(3) length_ids_new_msgs)
  have lim: "length G \<le> max (pc_max_pending_messages (po_config p)) 1"
    using step(1) assms(4) by (simp add: within_limit_def)
  note page = poll_pages_page [OF assms(3) lim G_def step(2) lenF, of src k n]
  show ?case
  proof (cases "list_all (unseen (po_seen p)) (pg_items (ps ! i)) \<and> Suc i < length ps")
    case False
    have "pg_next (ps ! i) = None" if "list_all (unseen (po_seen p)) (pg_items (ps ! i))"
      using that False feed_ok_next [OF assms(1) less.prems(1)] less.prems(1) by simp
    moreover have "due (po_seen p) ps = G"
      using step(3,4) False less.prems(1) by (metis Suc_lessI)
    ultimately show ?thesis unfolding page pass_end_def by simp
  next
    case True
    then obtain u where u: "pg_next (ps ! i) = Some u"
      using feed_ok_next [OF assms(1) less.prems(1)] by auto
    have G: "G = new_msgs {} (feed_items (take (Suc i) ps))"
      "list_all (unseen (po_seen p)) (feed_items (take (Suc i) ps))" using step(4) True by blast+
    have here: "pass_end p ps i (Suc k) quiet (Inl (e, Some (pending_update G (ids_of G) u)))" if "\<not> quiet" for e
      using True G u that unfolding pass_end_def by (metis diff_Suc_1 lessI)
    have stop: "pass_end p ps i (Suc k) quiet (Inr (pending_update G (ids_of G) u))" if "k = 0"
      using True G u that unfolding pass_end_def
      by (intro disjI2 exI [of _ "Suc i"] exI [of _ u]) (simp add: Let_def)
    show ?thesis
    proof (cases k)
      case 0
      then show ?thesis using page True u stop by simp
    next
      case (Suc k')
      show ?thesis
      proof (cases "src (Suc n) (NextReq u)")
        case (Inl e)
        then have "\<not> quiet_source ps src" using True u unfolding quiet_source_def by (metis isl_def)
        then have "\<not> quiet" using assms(9) by blast
        with here show ?thesis using page True u Suc Inl by simp
      next
        case (Inr page')
        then have p': "page' = ps ! Suc i" using honest_next [OF assms(1,2) less.prems(1) u] by blast
        have "pass_end p ps (Suc i) (Suc k') quiet
            (poll_pages src p (Suc k') (Suc n) (ps ! Suc i) G (ids_of G) (set (ids_of G)))"
          using less.IH [of k' "Suc i" G "set (ids_of G)" "Suc n"] Suc True G by simp
        then show ?thesis using page True u Suc Inr p' pass_end_later by simp
      qed
    qed
  qed
qed

end
