(* ===== verification/PollerRuns.thy ===== *)
theory PollerRuns imports CatchUp begin

text \<open>
  Passes one after the other: a catch-up that takes several ticks, with errors of the service
  in between, and the invariant every pass keeps whatever the service answers.
\<close>

subsection \<open>A tick in the middle of a feed\<close>

definition delivered :: "poller \<Rightarrow> message page list \<Rightarrow> message list res \<times> poller \<Rightarrow> bool" where
  "delivered p ps run \<longleftrightarrow> fst run = Inr (rev (due (po_seen p) ps)) \<and>
     \<not> has_pending_backlog (snd run) \<and> po_initialized (snd run) \<and>
     po_seen (snd run) = remember_newest_first (ids_of (due (po_seen p) ps))
       (pc_max_seen_ids (po_config p)) (po_seen p)"

definition same_task :: "poller \<Rightarrow> poller \<Rightarrow> bool" where
  "same_task p q \<longleftrightarrow> po_seen q = po_seen p \<and> po_config q = po_config p \<and> po_room_id q = po_room_id p"

lemma at_page_pending:
  assumes "po_initialized p" "j < length ps" "0 < j" "pg_next (ps ! (j - 1)) = Some u"
    and "list_all (unseen (po_seen p)) (feed_items (take j ps))"
    and "G = new_msgs {} (feed_items (take j ps))"
  shows "at_page (apply_update (pending_update G (ids_of G) u) p) ps j"
    and "same_task p (apply_update (pending_update G (ids_of G) u) p)"
  using assms by (simp_all add: at_page_def apply_update_def pending_update_def same_task_def)

lemma delivered_commit:
  assumes "D = due (po_seen p) ps"
  shows "delivered p ps (Inr (rev D), apply_update (commit_update D (ids_of D)) p)"
  using assms by (simp add: delivered_def apply_update_def commit_update_def has_pending_backlog_def)

lemma first_answer:
  assumes "feed_ok ps" "honest ps src" "at_page p ps j" "src 0 (first_request p before) = Inr page"
  shows "page = ps ! j"
proof (cases j)
  case 0
  then have "page = hd ps" using assms(2-4) unfolding honest_def at_page_def first_request_def by fastforce
  with 0 assms(1) show ?thesis by (simp add: feed_ok_def hd_conv_nth)
next
  case (Suc i)
  have j: "j < length ps" "po_backlog_next p = pg_next (ps ! i)" using assms(3) Suc by (simp_all add: at_page_def)
  obtain u where u: "pg_next (ps ! i) = Some u" using feed_ok_next [OF assms(1), of i] j Suc by fastforce
  then have "src 0 (NextReq u) = Inr page" using assms(4) j(2) by (simp add: first_request_def)
  with honest_next [OF assms(1,2) _ u] j Suc show ?thesis by auto
qed

lemma at_page_backlog:
  assumes "feed_ok ps" "at_page p ps j"
  shows "has_pending_backlog p \<longleftrightarrow> 0 < j"
proof (cases j)
  case 0
  with assms(2) show ?thesis by (auto simp: at_page_def has_pending_backlog_def)
next
  case (Suc i)
  then have "pg_next (ps ! i) \<noteq> None"
    using feed_ok_next [OF assms(1), of i] assms(2) by (simp add: at_page_def)
  with assms(2) Suc show ?thesis by (simp add: at_page_def has_pending_backlog_def)
qed

lemma tick:
  assumes "feed_ok ps" "honest ps src" "within_limit p ps" "at_page p ps j"
  shows "delivered p ps (poller_poll_once src p) \<or>
    (\<exists>q j'. (poller_poll_once src p = (Inr [], q) \<and> j' = j + max (pc_max_pages_per_poll (po_config p)) 1 \<or>
        (\<exists>e. poller_poll_once src p = (Inl e, q)) \<and> \<not> quiet_source ps src \<and> j \<le> j') \<and>
      same_task p q \<and> at_page q ps j')"
proof -
  note at = assms(4) [unfolded at_page_def]
  have none: "pg_next (ps ! (j - 1)) \<noteq> None" if "0 < j"
  proof -
    have "j - 1 < length ps" "Suc (j - 1) \<noteq> length ps" using at that by auto
    then show ?thesis using feed_ok_next [OF assms(1)] by blast
  qed
  have "\<not> (po_backlog_next p = None \<and> po_pending_fresh p \<noteq> [])"
    using at none by (cases "j = 0") (simp_all add: feed_items_def)
  from if_not_P [OF this]
  have "poll_once_transaction_before src p None = (case src 0 (first_request p None) of
      Inl e \<Rightarrow> Inl (e, None)
    | Inr page \<Rightarrow> poll_pages src p (max (pc_max_pages_per_poll (po_config p)) 1) 0 page
        (po_pending_fresh p) (po_pending_seen_ids p) (set (po_pending_seen_ids p)))"
    unfolding poll_once_transaction_before_def .
  then have run: "poller_poll_once src p = (case src 0 (first_request p None) of
      Inl e \<Rightarrow> (Inl e, p)
    | Inr page \<Rightarrow> (case poll_pages src p (max (pc_max_pages_per_poll (po_config p)) 1) 0 page
          (po_pending_fresh p) (po_pending_seen_ids p) (set (po_pending_seen_ids p)) of
        Inr u \<Rightarrow> (Inr (pu_messages u), apply_update u p)
      | Inl (e, Some u) \<Rightarrow> (Inl e, apply_update u p)
      | Inl (e, None) \<Rightarrow> (Inl e, p)))"
    by (simp add: poller_poll_once_def split: sum.splits)
  show ?thesis
  proof (cases "src 0 (first_request p None)")
    case (Inl e)
    have "\<not> quiet_source ps src"
    proof (cases j)
      case 0
      then have "\<exists>l. first_request p None = ListReq l" using at by (simp add: first_request_def)
      with Inl show ?thesis unfolding quiet_source_def by (metis isl_def)
    next
      case (Suc i)
      then obtain u where u: "pg_next (ps ! i) = Some u" using none by auto
      then have "first_request p None = NextReq u" using at Suc by (simp add: first_request_def)
      with Inl u Suc at show ?thesis unfolding quiet_source_def by (metis isl_def)
    qed
    moreover have "poller_poll_once src p = (Inl e, p)" using run Inl by simp
    ultimately show ?thesis using assms(4) unfolding same_task_def by blast
  next
    case (Inr page)
    have page: "page = ps ! j" by (rule first_answer [OF assms(1,2,4) Inr])
    obtain k where k: "max (pc_max_pages_per_poll (po_config p)) 1 = Suc k"
      by (metis max.cobounded2 not0_implies_Suc not_one_le_zero)
    define r where "r = poll_pages src p (Suc k) 0 (ps ! j) (po_pending_fresh p)
        (po_pending_seen_ids p) (set (po_pending_seen_ids p))"
    have "pass_end p ps j (Suc k) (quiet_source ps src) r"
      unfolding r_def using poll_pages_feed [OF assms(1,2) _ assms(3), of j "po_pending_fresh p"
          "set (po_pending_seen_ids p)" "quiet_source ps src" k 0] at
      by simp
    then consider (commit) "r = Inr (commit_update (due (po_seen p) ps) (ids_of (due (po_seen p) ps)))"
      | (more) j' u G where "j < j'" "j' < length ps" "pg_next (ps ! (j' - 1)) = Some u"
          "list_all (unseen (po_seen p)) (feed_items (take j' ps))" "G = new_msgs {} (feed_items (take j' ps))"
          "r = Inr (pending_update G (ids_of G) u)" "j' = j + Suc k"
      | (stop) j' u G e where "j < j'" "j' < length ps" "pg_next (ps ! (j' - 1)) = Some u"
          "list_all (unseen (po_seen p)) (feed_items (take j' ps))" "G = new_msgs {} (feed_items (take j' ps))"
          "r = Inl (e, Some (pending_update G (ids_of G) u))" "\<not> quiet_source ps src"
      unfolding pass_end_def Let_def by blast
    then show ?thesis
    proof cases
      case commit
      then have "poller_poll_once src p = (Inr (rev (due (po_seen p) ps)),
          apply_update (commit_update (due (po_seen p) ps) (ids_of (due (po_seen p) ps))) p)"
        using run Inr page k r_def by (simp add: commit_update_def)
      then show ?thesis using delivered_commit by metis
    next
      case more
      then have "poller_poll_once src p = (Inr [], apply_update (pending_update G (ids_of G) u) p)"
        using run Inr page k r_def by (simp add: pending_update_def)
      moreover have "0 < j'" using more(1) by simp
      ultimately show ?thesis
        using at_page_pending [OF _ more(2) _ more(3,4,5)] at more(7) k by metis
    next
      case stop
      then have "poller_poll_once src p = (Inl e, apply_update (pending_update G (ids_of G) u) p)"
        using run Inr page k r_def by simp
      moreover have "0 < j'" using stop(1) by simp
      ultimately show ?thesis
        using at_page_pending [OF _ stop(2) _ stop(3,4,5)] at stop(1,7) by (metis less_imp_le)
    qed
  qed
qed

subsection \<open>Until something is delivered\<close>

text \<open>Tick after tick, one source per tick, until a pass leaves no backlog.\<close>

fun first_delivery :: "source list \<Rightarrow> poller \<Rightarrow> (message list \<times> poller) option" where
  "first_delivery [] p = None"
| "first_delivery (src # srcs) p =
     (case poller_poll_once src p of
        (Inr ms, q) \<Rightarrow> if has_pending_backlog q then first_delivery srcs q else Some (ms, q)
      | (Inl e, q) \<Rightarrow> first_delivery srcs q)"

lemma first_delivery_feed:
  assumes "feed_ok ps" "list_all (honest ps) srcs" "within_limit p ps" "at_page p ps j"
  shows "(\<forall>ms q. first_delivery srcs p = Some (ms, q) \<longrightarrow> delivered p ps (Inr ms, q)) \<and>
    (length ps \<le> j + length (filter (quiet_source ps) srcs) * max (pc_max_pages_per_poll (po_config p)) 1 \<longrightarrow>
      first_delivery srcs p \<noteq> None)"
  using assms(2-4)
proof (induction srcs arbitrary: p j)
  case Nil
  then show ?case by (simp add: at_page_def)
next
  case (Cons src srcs)
  let ?n = "max (pc_max_pages_per_poll (po_config p)) 1"
  have h: "honest ps src" "list_all (honest ps) srcs" using Cons.prems(1) by simp_all
  have later: "(\<forall>ms q'. first_delivery srcs q = Some (ms, q') \<longrightarrow> delivered p ps (Inr ms, q')) \<and>
      (length ps \<le> j' + length (filter (quiet_source ps) srcs) * ?n \<longrightarrow> first_delivery srcs q \<noteq> None)"
    if "same_task p q" "at_page q ps j'" for q j'
    using Cons.IH [OF h(2), of q j'] that Cons.prems(2)
    by (simp add: same_task_def delivered_def within_limit_def)
  from tick [OF assms(1) h(1) Cons.prems(2,3)]
  consider (finish) "delivered p ps (poller_poll_once src p)"
    | (more) q j' where "poller_poll_once src p = (Inr [], q)" "j' = j + ?n" "same_task p q" "at_page q ps j'"
    | (stop) q j' e where "poller_poll_once src p = (Inl e, q)" "\<not> quiet_source ps src" "j \<le> j'"
        "same_task p q" "at_page q ps j'"
    by blast
  then show ?case
  proof cases
    case finish
    then show ?thesis
      by (cases "poller_poll_once src p") (auto simp: delivered_def)
  next
    case more
    have "0 < j'" unfolding more(2) by (simp add: max_def)
    then have "has_pending_backlog q" using at_page_backlog [OF assms(1) more(4)] by simp
    then have eq: "first_delivery (src # srcs) p = first_delivery srcs q" using more(1) by simp
    have le: "j + length (filter (quiet_source ps) (src # srcs)) * ?n \<le>
        j' + length (filter (quiet_source ps) srcs) * ?n" using more(2) by simp
    show ?thesis unfolding eq using later [OF more(3,4)] le_trans [OF _ le] by blast
  next
    case stop
    then have eq: "first_delivery (src # srcs) p = first_delivery srcs q" by simp
    have le: "j + length (filter (quiet_source ps) (src # srcs)) * ?n \<le>
        j' + length (filter (quiet_source ps) srcs) * ?n" using stop(2,3) by simp
    show ?thesis unfolding eq using later [OF stop(4,5)] le_trans [OF _ le] by blast
  qed
qed

subsection \<open>The invariant of a poller, whatever the service answers\<close>

definition poller_inv :: "poller \<Rightarrow> bool" where
  "poller_inv p \<longleftrightarrow>
     seen_inv (po_seen p) \<and>
     length (sn_order (po_seen p)) \<le> max (pc_max_seen_ids (po_config p)) 1 \<and>
     distinct (po_pending_seen_ids p) \<and>
     set (po_pending_seen_ids p) \<inter> sn_ids (po_seen p) = {} \<and>
     ids_of (po_pending_fresh p) = po_pending_seen_ids p \<and>
     length (po_pending_seen_ids p) = length (po_pending_fresh p) \<and>
     (has_pending_backlog p \<longrightarrow> po_initialized p \<and> po_seed_seen_message_ids p = None)"

text \<open>What every update of a pass satisfies.\<close>

definition update_ok :: "poller \<Rightarrow> poll_update \<Rightarrow> bool" where
  "update_ok p u \<longleftrightarrow>
     distinct (pu_seen_ids u) \<and> set (pu_seen_ids u) \<inter> sn_ids (po_seen p) = {} \<and>
     distinct (pu_pending_seen_ids u) \<and> set (pu_pending_seen_ids u) \<inter> sn_ids (po_seen p) = {} \<and>
     ids_of (pu_pending_fresh u) = pu_pending_seen_ids u \<and>
     length (pu_pending_seen_ids u) = length (pu_pending_fresh u) \<and>
     (pu_messages u \<noteq> [] \<longrightarrow> ids_of (pu_messages u) = rev (pu_seen_ids u) \<and>
        length (pu_messages u) = length (pu_seen_ids u)) \<and>
     pu_initialized u \<and>
     (if pu_commit_seen u then pu_backlog_next u = None \<and> pu_pending_fresh u = []
      else pu_messages u = [] \<and> pu_seen_ids u = [] \<and> pu_backlog_next u \<noteq> None)"

definition emits :: "poller \<Rightarrow> bool" where
  "emits p \<longleftrightarrow> po_initialized p \<or> pc_emit_existing_on_first_poll (po_config p)"

lemma length_ids_eq: "length (ids_of ms) = length ms \<longleftrightarrow> (\<forall>m\<in>set ms. me_id m \<noteq> None)"
proof (induction ms)
  case (Cons m ms)
  have "length (ids_of ms) \<le> length ms" by (induction ms) (auto split: option.splits)
  with Cons show ?case by (auto split: option.splits)
qed simp

text \<open>One page of any service: new ids are new, and the messages are theirs.\<close>

lemma collect_page_any:
  assumes "collect_page_messages seen ms ini emit L = ((fresh, ids, known), M)"
  shows "\<exists>F. ids = ids_of F \<and> length (ids_of F) = length F \<and> distinct ids \<and>
    set ids \<inter> L = {} \<and> set ids \<inter> sn_ids seen = {} \<and> M = L \<union> set ids \<and>
    fresh = (if ini \<or> emit then F else [])"
proof -
  define F where "F = new_msgs L (if ini then takeWhile (unseen seen) ms else filter (unseen seen) ms)"
  have none: "set (ids_of xs) \<inter> sn_ids seen = {}" if "\<forall>m\<in>set xs. unseen seen m" for xs
    using that by (induction xs) (auto simp: unseen_def seen_contains_def split: option.splits)
  have all: "\<forall>m\<in>set (if ini then takeWhile (unseen seen) ms else filter (unseen seen) ms). unseen seen m"
    by (auto dest: set_takeWhileD)
  have new: "set (ids_of F) \<inter> sn_ids seen = {}" "set (ids_of F) \<inter> L = {}"
    using none [OF all] unfolding F_def set_ids_new_msgs by blast+
  have "ids = ids_of F \<and> M = L \<union> set (ids_of F) \<and> fresh = (if ini \<or> emit then F else [])"
  proof (cases ini)
    case True
    then show ?thesis using assms by (auto simp: collect_page_initialized F_def Let_def)
  next
    case False
    then show ?thesis
      using assms by (auto simp: collect_page_messages_def collect_items_baseline F_def Let_def)
  qed
  with new show ?thesis
    by (intro exI [of _ F]) (simp add: F_def distinct_new_msgs length_ids_new_msgs)
qed

definition collected_ok :: "poller \<Rightarrow> message list \<Rightarrow> string list \<Rightarrow> bool" where
  "collected_ok p fresh ids \<longleftrightarrow> distinct ids \<and> set ids \<inter> sn_ids (po_seen p) = {} \<and>
     (if emits p then ids_of fresh = ids \<and> length ids = length fresh else fresh = [])"

lemma update_ok_commit: "collected_ok p fresh ids \<Longrightarrow> update_ok p (commit_update fresh ids)"
  by (auto simp: collected_ok_def update_ok_def commit_update_def ids_of_rev split: if_splits)

lemma update_ok_pending:
  "collected_ok p fresh ids \<Longrightarrow> emits p \<Longrightarrow> update_ok p (pending_update fresh ids nxt)"
  by (auto simp: collected_ok_def update_ok_def pending_update_def)

fun result_ok :: "poller \<Rightarrow> poll_error + poll_update \<Rightarrow> bool" where
  "result_ok p (Inr u) \<longleftrightarrow> update_ok p u \<and> (\<not> emits p \<longrightarrow> pu_messages u = [] \<and> pu_commit_seen u)"
| "result_ok p (Inl (e, Some u)) \<longleftrightarrow> update_ok p u \<and> \<not> pu_commit_seen u \<and> emits p"
| "result_ok p (Inl (e, None)) \<longleftrightarrow> True"

lemma result_ok_commit: "collected_ok p fresh ids \<Longrightarrow> result_ok p (Inr (commit_update fresh ids))"
  using update_ok_commit [of p fresh ids]
  by (auto simp: collected_ok_def commit_update_def)

lemma result_ok_pending:
  "collected_ok p fresh ids \<Longrightarrow> emits p \<Longrightarrow> result_ok p (Inr (pending_update fresh ids nxt))"
  "collected_ok p fresh ids \<Longrightarrow> emits p \<Longrightarrow> result_ok p (Inl (e, Some (pending_update fresh ids nxt)))"
  using update_ok_pending [of p fresh ids nxt] by (simp_all add: pending_update_def)

lemma poll_pages_ok:
  assumes "collected_ok p fresh ids" "L = set ids"
  shows "result_ok p (poll_pages src p k n page fresh ids L)"
  using assms
proof (induction k arbitrary: n page fresh ids L)
  case 0
  then show ?case by (simp only: poll_pages.simps result_ok_commit)
next
  case (Suc k n page fresh ids L)
  obtain pf pi known M where page: "collect_page_messages (po_seen p) (pg_items page) (po_initialized p)
      (pc_emit_existing_on_first_poll (po_config p)) L = ((pf, pi, known), M)" by (metis surj_pair)
  from collect_page_any [OF page] obtain F where F: "pi = ids_of F" "length (ids_of F) = length F"
    "distinct pi" "set pi \<inter> L = {}" "set pi \<inter> sn_ids (po_seen p) = {}" "M = L \<union> set pi"
    "pf = (if emits p then F else [])" unfolding emits_def by blast
  have ok: "collected_ok p (fresh @ pf) (ids @ pi)" and M: "M = set (ids @ pi)"
    using Suc.prems F by (auto simp: collected_ok_def split: if_splits)
  note ends = result_ok_commit [OF ok] result_ok_pending [OF ok]
  have more: "result_ok p (poll_pages src p k (Suc n) page' (fresh @ pf) (ids @ pi) M)" for page'
    by (rule Suc.IH [OF ok M])
  have em: "(po_initialized p \<or> pc_emit_existing_on_first_poll (po_config p)) = emits p"
    by (simp add: emits_def)
  show ?case
  proof (cases "ensure_pending_within_limit (length (fresh @ pf)) (length (ids @ pi))
      (pc_max_pending_messages (po_config p))")
    case (Inl e)
    then show ?thesis by (simp add: page Let_def)
  next
    case lim: (Inr u)
    show ?thesis
    proof (cases "pg_next page")
      case None
      with lim ends(1) show ?thesis by (simp add: page Let_def)
    next
      case (Some nxt)
      show ?thesis
        using lim Some ends more unfolding poll_pages.simps page Let_def preserve_pending_on_page_error_def em
        by (cases "src (Suc n) (NextReq nxt)") simp_all
    qed
  qed
qed

subsection \<open>Passes keep the invariant\<close>

lemma poller_inv_collected:
  assumes "poller_inv p"
  shows "collected_ok p (po_pending_fresh p) (po_pending_seen_ids p)"
proof (cases "emits p")
  case True
  with assms show ?thesis by (simp add: poller_inv_def collected_ok_def)
next
  case False
  then have "\<not> has_pending_backlog p" using assms by (auto simp: poller_inv_def emits_def)
  with False show ?thesis by (simp add: has_pending_backlog_def collected_ok_def)
qed

lemma transaction_ok:
  assumes "poller_inv p"
  shows "result_ok p (poll_once_transaction_before src p before)"
proof (cases "po_backlog_next p = None \<and> po_pending_fresh p \<noteq> []")
  case True
  then show ?thesis
    unfolding poll_once_transaction_before_def if_P [OF True]
    by (intro result_ok_commit poller_inv_collected assms)
next
  case False
  then show ?thesis
    using poll_pages_ok [OF poller_inv_collected [OF assms] refl]
    unfolding poll_once_transaction_before_def if_not_P [OF False]
    by (cases "src 0 (first_request p before)") simp_all
qed

lemma sn_ids_remember_subset:
  "sn_ids (remember_newest_first ids mx s) \<subseteq> set ids \<union> sn_ids s"
proof -
  have trunc: "sn_ids (truncate_loop m s) \<subseteq> sn_ids s" for m s
  proof (induction m s rule: truncate_loop.induct)
    case (1 m s)
    then show ?case by (subst truncate_loop.simps) auto
  qed
  have one: "sn_ids (remember_one m i s) \<subseteq> insert i (sn_ids s)" for m i s
    unfolding remember_one_def seen_truncate_def using trunc by (auto simp: insert_absorb dest!: subsetD [OF trunc])
  have "sn_ids (fold (remember_one m) is s) \<subseteq> set is \<union> sn_ids s" for m "is" s
  proof (induction "is" arbitrary: s)
    case (Cons i "is")
    show ?case using Cons.IH [of "remember_one m i s"] one [of m i s] by auto
  qed simp
  from this [of "max mx 1" "rev ids" s] show ?thesis by (simp add: remember_newest_first_def)
qed

lemma poller_inv_apply:
  assumes "poller_inv p" "update_ok p u"
  shows "poller_inv (apply_update u p)"
proof -
  have commit: "pu_pending_seen_ids u = []" "pu_backlog_next u = None" "pu_pending_fresh u = []" if "pu_commit_seen u"
    using assms(2) that by (auto simp: update_ok_def)
  have inv: "seen_inv (remember_newest_first ids m (po_seen p))" for ids m
    using seen_inv_remember assms(1) by (simp add: poller_inv_def)
  have bound: "length (sn_order (remember_newest_first ids (pc_max_seen_ids (po_config p)) (po_seen p)))
      \<le> max (pc_max_seen_ids (po_config p)) 1" for ids
    by (rule remember_bounded) (use assms(1) in \<open>simp_all add: poller_inv_def\<close>)
  show ?thesis
  proof (cases "pu_commit_seen u")
    case True
    with commit inv bound assms(2) show ?thesis
      by (simp add: poller_inv_def apply_update_def has_pending_backlog_def)
  next
    case False
    with assms show ?thesis by (simp add: poller_inv_def apply_update_def update_ok_def has_pending_backlog_def)
  qed
qed

lemma poller_inv_poll:
  assumes "poller_inv p"
  shows "poller_inv (snd (poller_poll_once src p))"
  using transaction_ok [OF assms, of src None] poller_inv_apply [OF assms] assms
  by (auto simp: poller_poll_once_def split: sum.splits option.splits prod.splits)

lemma poller_inv_new: "poller_inv (poller_new r)"
  by (simp add: poller_inv_def poller_new_def has_pending_backlog_def polling_config_default_def)
    (simp add: seen_default_def)

lemma poller_inv_reseed:
  assumes "\<not> has_pending_backlog p" "ids \<noteq> []"
  shows "poller_inv ((reseed_seen_message_ids ids p)\<lparr>po_initialized := b\<rparr>)"
  using assms seen_inv_remember [of seen_default] remember_bounded [of seen_default ids]
  by (simp add: poller_inv_def reseed_seen_message_ids_def has_pending_backlog_def)

lemma poller_inv_replace: "poller_inv (replace_checkpoint ids b p)"
proof (cases "ids = []")
  case True
  then show ?thesis
    by (simp add: replace_checkpoint_def poller_inv_def has_pending_backlog_def Let_def)
      (simp add: seen_default_def)
next
  case False
  then show ?thesis
    by (simp add: replace_checkpoint_def Let_def)
      (rule poller_inv_reseed, simp_all add: has_pending_backlog_def)
qed

lemma seen_truncate_inv:
  assumes "seen_inv s"
  shows "seen_inv (seen_truncate mx s)" "length (sn_order (seen_truncate mx s)) \<le> max mx 1"
    "sn_ids (seen_truncate mx s) \<subseteq> sn_ids s"
proof -
  obtain xs where xs: "distinct xs" "s = seen_of xs" using assms seen_inv_iff by blast
  show "seen_inv (seen_truncate mx s)" "length (sn_order (seen_truncate mx s)) \<le> max mx 1"
    "sn_ids (seen_truncate mx s) \<subseteq> sn_ids s"
    unfolding xs(2) seen_truncate_of [OF xs(1)]
    using xs(1) by (simp_all add: seen_inv_of set_take_subset)
qed

lemma poller_inv_set_config:
  assumes "poller_inv p" "po_seed_seen_message_ids p \<noteq> Some []"
  shows "poller_inv (set_config cfg p)"
proof (cases "po_seed_seen_message_ids p")
  case None
  with assms(1) seen_truncate_inv [of "po_seen p" "pc_max_seen_ids cfg"] show ?thesis
    by (auto simp: set_config_def poller_inv_def has_pending_backlog_def)
next
  case (Some ids)
  then have n: "\<not> has_pending_backlog p" using assms(1) by (auto simp: poller_inv_def)
  have "poller_inv ((reseed_seen_message_ids ids (p\<lparr>po_config := cfg\<rparr>))\<lparr>po_initialized := po_initialized p\<rparr>)"
    by (rule poller_inv_reseed) (use n assms(2) Some in \<open>auto simp: has_pending_backlog_def\<close>)
  moreover have "(reseed_seen_message_ids ids (p\<lparr>po_config := cfg\<rparr>))\<lparr>po_initialized := po_initialized p\<rparr>
      = set_config cfg p"
    by (simp add: set_config_def Some reseed_seen_message_ids_def)
  ultimately show ?thesis by simp
qed

subsection \<open>What is due after a delivery\<close>

lemma unseen_no_id: "me_id m = None \<Longrightarrow> unseen s m"
  by (simp add: unseen_def)

lemma first_due:
  assumes "due seen ps = d # ds"
  shows "\<exists>xs ys. feed_items ps = xs @ d # ys \<and> (\<forall>x\<in>set xs. me_id x = None) \<and> me_id d \<noteq> None"
proof -
  have "\<exists>xs ys. zs = xs @ d # ys \<and> (\<forall>x\<in>set xs. me_id x = None) \<and> me_id d \<noteq> None"
    if "new_msgs {} (takeWhile P zs) = d # ds" for zs P
    using that
  proof (induction zs)
    case (Cons z zs)
    show ?case
    proof (cases "me_id z")
      case None
      with Cons obtain xs ys where "zs = xs @ d # ys" "\<forall>x\<in>set xs. me_id x = None" "me_id d \<noteq> None"
        by (auto split: if_splits)
      with None show ?thesis by (intro exI [of _ "z # xs"] exI [of _ ys]) simp
    next
      case (Some i)
      with Cons.prems show ?thesis by (intro exI [of _ "[]"] exI [of _ zs]) (auto split: if_splits)
    qed
  qed simp
  from this [of "unseen seen" "feed_items ps"] assms show ?thesis by (simp add: due_def)
qed

lemma due_seen_disjoint: "set (ids_of (due seen ps)) \<inter> sn_ids seen = {}"
proof -
  have none: "set (ids_of xs) \<inter> sn_ids seen = {}" if "\<forall>m\<in>set xs. unseen seen m" for xs
    using that by (induction xs) (auto simp: unseen_def seen_contains_def split: option.splits)
  have "\<forall>m\<in>set (takeWhile (unseen seen) (feed_items ps)). unseen seen m" by (auto dest: set_takeWhileD)
  from none [OF this] show ?thesis unfolding due_def set_ids_new_msgs by blast
qed

lemma remember_due:
  assumes "seen_inv seen" "due seen ps \<noteq> []"
  shows "remember_newest_first (ids_of (due seen ps)) mx seen =
    seen_of (take (max mx 1) (ids_of (due seen ps) @ sn_order seen))"
proof -
  obtain xs where xs: "distinct xs" "seen = seen_of xs" using assms(1) seen_inv_iff by blast
  have "ids_of (due seen ps) \<noteq> []"
    using assms(2) length_ids_new_msgs [of "{}" "takeWhile (unseen seen) (feed_items ps)"]
    unfolding due_def by fastforce
  moreover have "set (ids_of (due seen ps)) \<inter> set xs = {}"
    using due_seen_disjoint [of seen ps] xs(2) by simp
  moreover have "distinct (ids_of (due seen ps))" unfolding due_def by (rule distinct_new_msgs)
  ultimately show ?thesis using remember_new [of "ids_of (due seen ps)" xs mx] xs by simp
qed

lemma newest_remembered:
  assumes "seen_inv seen" "due seen ps = d # ds" "me_id d = Some i"
  shows "seen_contains (remember_newest_first (ids_of (due seen ps)) mx seen) i"
proof -
  have "take (max mx 1) (i # xs) = i # take (max mx 1 - 1) xs" for xs
    by (metis One_nat_def diff_Suc_1 max.cobounded2 not0_implies_Suc not_one_le_zero take_Suc_Cons)
  then show ?thesis
    using remember_due [OF assms(1), of ps mx] assms(2,3) by (simp add: seen_contains_def)
qed

text \<open>
  New messages on top of a delivered feed: exactly they are due.
\<close>

lemma due_on_top:
  assumes "seen_inv seen" "due seen ps \<noteq> []"
    and "S = remember_newest_first (ids_of (due seen ps)) mx seen"
    and "feed_items qs = new @ feed_items ps" "list_all (unseen S) new"
  shows "due S qs = new_msgs {} new"
proof -
  obtain d ds where d: "due seen ps = d # ds" using assms(2) by (cases "due seen ps") auto
  from first_due [OF d] obtain xs ys where f: "feed_items ps = xs @ d # ys"
    "\<forall>x\<in>set xs. me_id x = None" "me_id d \<noteq> None" by blast
  then obtain i where i: "me_id d = Some i" by blast
  have "\<not> unseen S d"
    using newest_remembered [OF assms(1) d i, of mx] assms(3) i by (simp add: unseen_def)
  have all: "\<forall>m\<in>set (new @ xs). unseen S m"
    using assms(5) f(2) unseen_no_id by (auto simp: list_all_iff)
  have "takeWhile (unseen S) ((new @ xs) @ d # ys) = (new @ xs) @ takeWhile (unseen S) (d # ys)"
    by (rule takeWhile_append_all [OF all])
  then have "takeWhile (unseen S) (feed_items qs) = new @ xs"
    using \<open>\<not> unseen S d\<close> assms(4) f(1) by simp
  moreover have "new_msgs L xs = []" for L
    using f(2) by (induction xs) auto
  ultimately show ?thesis by (simp add: due_def new_msgs_append)
qed

end
