(* ===== verification/PollerProps.thy ===== *)
theory PollerProps imports PollerRuns begin

text \<open>The properties of the message poller and of its bounded memory, with concrete instances.\<close>

subsection \<open>A concrete feed\<close>

definition demo_msg :: "string \<Rightarrow> message" where
  "demo_msg i = \<lparr>me_id = Some i, me_parent_id = None, me_room_id = None, me_room_type = None,
     me_to_person_id = None, me_to_person_email = None, me_text = None, me_markdown = None,
     me_html = None, me_files = [], me_attachments = [], me_person_id = None, me_person_email = None,
     me_mentioned_people = [], me_mentioned_groups = [], me_created = None, me_updated = None,
     me_is_voice_clip = None\<rparr>"

lemma demo_msg_id [simp]: "me_id (demo_msg i) = Some i"
  by (simp add: demo_msg_def)

definition demo_feed :: "message page list" where
  "demo_feed = [\<lparr>pg_items = [demo_msg ''c'', demo_msg ''b''], pg_next = Some ''u''\<rparr>,
     \<lparr>pg_items = [demo_msg ''a'', demo_msg ''k''], pg_next = None\<rparr>]"

definition demo_source :: source where
  "demo_source n req = (case req of
     ListReq _ \<Rightarrow> Inr (hd demo_feed)
   | NextReq u \<Rightarrow> if u = ''u'' then Inr (demo_feed ! 1) else Inl (Other ''gone''))"

definition failing_source :: source where
  "failing_source n req = Inl (Other ''down'')"

definition demo_poller :: poller where
  "demo_poller = (with_seen_message_ids [''k''] (poller_new ''r''))
     \<lparr>po_config := polling_config_default\<lparr>pc_max_pages_per_poll := 1\<rparr>\<rparr>"

lemma demo_seen: "po_seen demo_poller = seen_of [''k'']"
  using remember_seed [of "[''k'']" 10000]
  by (simp add: demo_poller_def with_seen_message_ids_def reseed_seen_message_ids_def poller_new_def
      polling_config_default_def)

text \<open>A feed of one page.\<close>

definition single_page :: "message list \<Rightarrow> message page" where
  "single_page ms = \<lparr>pg_items = ms, pg_next = None\<rparr>"

definition single_source :: "message list \<Rightarrow> source" where
  "single_source ms n req = (case req of ListReq _ \<Rightarrow> Inr (single_page ms) | NextReq _ \<Rightarrow> Inl (Other ''gone''))"

lemma single_feed_ok: "feed_ok [single_page ms]"
  by (simp add: feed_ok_def single_page_def)

lemma single_honest: "honest [single_page ms] (single_source ms)"
  by (auto simp: honest_def single_source_def split: request.splits)

lemma single_poll:
  assumes "po_initialized p" "\<not> has_pending_backlog p"
    and "D = new_msgs {} (takeWhile (unseen (po_seen p)) ms)"
    and "length D \<le> max (pc_max_pending_messages (po_config p)) 1"
  shows "poller_poll_once (single_source ms) p = (Inr (rev D), apply_update (commit_update D (ids_of D)) p)"
proof -
  have D: "due (po_seen p) [single_page ms] = D"
    by (simp add: due_def feed_items_def single_page_def assms(3))
  obtain k where k: "max (pc_max_pages_per_poll (po_config p)) 1 = Suc k"
    by (metis max.cobounded2 not0_implies_Suc not_one_le_zero)
  have none: "po_backlog_next p = None" "po_pending_fresh p = []" "po_pending_seen_ids p = []"
    using assms(2) by (simp_all add: has_pending_backlog_def)
  have "pass_end p [single_page ms] 0 (Suc k) False (poll_pages (single_source ms) p (Suc k) 0
      ([single_page ms] ! 0) [] (ids_of []) {})"
    by (rule poll_pages_feed [OF single_feed_ok single_honest assms(1)])
      (use assms(4) in \<open>simp_all add: within_limit_def D feed_items_def\<close>)
  then have "poll_pages (single_source ms) p (max (pc_max_pages_per_poll (po_config p)) 1) 0
      (single_page ms) [] [] {} = Inr (commit_update D (ids_of D))"
    unfolding k by (auto simp: pass_end_def D simp del: poll_pages.simps)
  moreover have "single_source ms 0 (first_request p None) = Inr (single_page ms)"
    using none by (simp add: first_request_def single_source_def)
  ultimately show ?thesis
    using none by (simp add: poller_poll_once_def poll_once_transaction_before_def)
      (simp add: commit_update_def)
qed

lemma demo_feed_ok: "feed_ok demo_feed"
  by (simp add: feed_ok_def demo_feed_def)

lemma demo_feed_length: "length demo_feed = 2"
  by (simp add: demo_feed_def)

lemma demo_honest: "honest demo_feed demo_source" "honest demo_feed failing_source"
  by (auto simp: honest_def demo_source_def failing_source_def demo_feed_def split: request.splits if_splits
      intro!: exI [of _ 0])

lemma demo_at: "at_page demo_poller demo_feed 0"
  by (simp add: at_page_def demo_poller_def with_seen_message_ids_def reseed_seen_message_ids_def
      poller_new_def demo_feed_def feed_items_def)

lemma demo_due: "due (seen_of [''k'']) demo_feed = [demo_msg ''c'', demo_msg ''b'', demo_msg ''a'']"
  by (simp add: due_def demo_feed_def feed_items_def unseen_def seen_contains_def)

lemma demo_within: "within_limit demo_poller demo_feed"
  by (simp add: within_limit_def demo_seen demo_due) (simp add: demo_poller_def polling_config_default_def
      with_seen_message_ids_def reseed_seen_message_ids_def)

subsection \<open>The bounded memory\<close>

text \<open>
  What is remembered: remembering new ids puts them in front of the memory, newest first,
  and keeps exactly the newest ones up to the bound; the set used for look-ups and the order
  used for forgetting agree afterwards.
\<close>

theorem remember_keeps_newest:
  assumes "seen_inv s" "distinct ids" "set ids \<inter> sn_ids s = {}" "ids \<noteq> []"
  shows "sn_order (remember_newest_first ids mx s) = take (max mx 1) (ids @ sn_order s) \<and>
    seen_inv (remember_newest_first ids mx s)"
proof -
  obtain xs where xs: "distinct xs" "s = seen_of xs" using assms(1) seen_inv_iff by blast
  have "remember_newest_first ids mx s = seen_of (take (max mx 1) (ids @ xs))"
    using remember_new [OF assms(2) xs(1) _ assms(4), of mx] assms(3) xs(2) by simp
  then have "sn_order (remember_newest_first ids mx s) = take (max mx 1) (ids @ sn_order s)"
    using xs(2) by simp
  with seen_inv_remember [OF assms(1)] show ?thesis by blast
qed

lemma remember_keeps_newest_witness:
  "sn_order (remember_newest_first [''c'', ''b''] 3 (seen_of [''a'', ''z''])) = [''c'', ''b'', ''a'']"
  using remember_keeps_newest [of "seen_of [''a'', ''z'']" "[''c'', ''b'']" 3]
  by (simp add: seen_inv_of max_def)

subsection \<open>Catching up\<close>

text \<open>
  C2. A catch-up delivers everything exactly once and in order. The service holds a feed of
  pages, newest message first; the ticks get answers from it or errors, at most
  \<open>max_pages_per_poll\<close> pages each. Whenever a tick delivers, it delivers every message before
  the first known one, once each, oldest first; until then nothing is lost or delivered; and
  the delivery happens after at most as many fault-free ticks as the feed needs.
\<close>

theorem catch_up_delivers_all:
  assumes "feed_ok ps" "list_all (honest ps) srcs" "within_limit p ps"
    and "po_initialized p" "\<not> has_pending_backlog p"
  shows "(\<forall>ms q. first_delivery srcs p = Some (ms, q) \<longrightarrow>
      ms = rev (new_msgs {} (takeWhile (unseen (po_seen p)) (feed_items ps))) \<and>
      \<not> has_pending_backlog q) \<and>
    (length ps \<le> length (filter (quiet_source ps) srcs) * max (pc_max_pages_per_poll (po_config p)) 1 \<longrightarrow>
      first_delivery srcs p \<noteq> None)"
proof -
  have "at_page p ps 0"
    using assms(1,4,5) by (simp add: at_page_def has_pending_backlog_def feed_ok_def feed_items_def)
  from first_delivery_feed [OF assms(1-3) this] show ?thesis
    by (simp add: delivered_def due_def)
qed

lemma catch_up_delivers_all_witness:
  "\<exists>q. first_delivery [failing_source, demo_source, failing_source, demo_source] demo_poller =
     Some ([demo_msg ''a'', demo_msg ''b'', demo_msg ''c''], q)"
proof -
  let ?srcs = "[failing_source, demo_source, failing_source, demo_source]"
  have p: "\<not> has_pending_backlog demo_poller" "po_initialized demo_poller"
    using at_page_backlog [OF demo_feed_ok demo_at] demo_at by (simp_all add: at_page_def)
  have n: "pc_max_pages_per_poll (po_config demo_poller) = 1" by (simp add: demo_poller_def)
  have q: "quiet_source demo_feed demo_source"
    by (auto simp: quiet_source_def demo_source_def demo_feed_def less_Suc_eq)
  have h: "list_all (honest demo_feed) ?srcs" using demo_honest by simp
  have len: "length demo_feed \<le> length (filter (quiet_source demo_feed) ?srcs) *
      max (pc_max_pages_per_poll (po_config demo_poller)) 1"
    using q n by (simp add: demo_feed_length)
  note all = catch_up_delivers_all [OF demo_feed_ok h demo_within p(2,1)]
  from all len obtain ms q where d: "first_delivery ?srcs demo_poller = Some (ms, q)" by fast
  with all have "ms = rev (new_msgs {} (takeWhile (unseen (po_seen demo_poller)) (feed_items demo_feed)))"
    by blast
  then have "ms = [demo_msg ''a'', demo_msg ''b'', demo_msg ''c'']"
    using demo_due by (simp add: demo_seen due_def)
  with d show ?thesis by blast
qed

text \<open>
  No message is delivered twice, and none is skipped: after a delivery from one feed, a
  catch-up on the same feed with new messages on top delivers exactly the new messages, oldest
  first (in particular nothing when there are none), however small the memory is.
\<close>

theorem next_delivery_only_new:
  assumes "feed_ok ps" "honest ps src" "within_limit p ps" "po_initialized p" "\<not> has_pending_backlog p"
    and "seen_inv (po_seen p)"
    and "poller_poll_once src p = (Inr ms, q)" "\<not> has_pending_backlog q" "ms \<noteq> []"
    and "feed_ok qs" "feed_items qs = new @ feed_items ps" "list_all (unseen (po_seen q)) new"
    and "list_all (honest qs) srcs" "within_limit q qs" "first_delivery srcs q = Some (ms', q')"
  shows "ms' = rev (new_msgs {} new) \<and> set (ids_of ms) \<inter> set (ids_of ms') \<subseteq> set (ids_of new)"
proof -
  have at: "at_page p ps 0"
    using assms(1,4,5) by (simp add: at_page_def has_pending_backlog_def feed_ok_def feed_items_def)
  have d: "delivered p ps (Inr ms, q)"
    using tick [OF assms(1,2,3) at] assms(7,9) by auto
  then have due: "due (po_seen p) ps \<noteq> []" using assms(9) by (auto simp: delivered_def)
  have atq: "at_page q qs 0"
    using assms(8,10) d by (simp add: at_page_def has_pending_backlog_def feed_ok_def feed_items_def delivered_def)
  have seen: "po_seen q = remember_newest_first (ids_of (due (po_seen p) ps)) (pc_max_seen_ids (po_config p)) (po_seen p)"
    using d by (simp add: delivered_def)
  have "delivered q qs (Inr ms', q')"
    using first_delivery_feed [OF assms(10,13,14) atq] assms(15) by blast
  then have "ms' = rev (new_msgs {} new)"
    using due_on_top [OF assms(6) due seen assms(11,12)] by (simp add: delivered_def)
  then show ?thesis by (auto simp: ids_of_rev set_ids_new_msgs)
qed

lemma next_delivery_only_new_witness:
  "\<exists>q q'. poller_poll_once (single_source [demo_msg ''a'']) demo_poller = (Inr [demo_msg ''a''], q) \<and>
    first_delivery [single_source [demo_msg ''b'', demo_msg ''a'']] q = Some ([demo_msg ''b''], q')"
proof -
  let ?q = "apply_update (commit_update [demo_msg ''a''] [''a'']) demo_poller"
  let ?q' = "apply_update (commit_update [demo_msg ''b''] [''b'']) ?q"
  have p: "\<not> has_pending_backlog demo_poller" "po_initialized demo_poller"
    using at_page_backlog [OF demo_feed_ok demo_at] demo_at by (simp_all add: at_page_def)
  have cfg: "po_config demo_poller = polling_config_default\<lparr>pc_max_pages_per_poll := 1\<rparr>"
    by (simp add: demo_poller_def)
  have q: "po_seen ?q = seen_of [''a'', ''k'']" "po_config ?q = po_config demo_poller" "po_initialized ?q"
    "\<not> has_pending_backlog ?q"
    using remember_new [of "[''a'']" "[''k'']" 10000] cfg
    by (simp_all add: apply_update_def commit_update_def demo_seen polling_config_default_def
        has_pending_backlog_def)
  have r: "poller_poll_once (single_source [demo_msg ''a'']) demo_poller = (Inr [demo_msg ''a''], ?q)"
    using single_poll [OF p(2,1) refl, of "[demo_msg ''a'']"] cfg
    by (simp add: demo_seen unseen_def seen_contains_def polling_config_default_def)
  have r': "poller_poll_once (single_source [demo_msg ''b'', demo_msg ''a'']) ?q = (Inr [demo_msg ''b''], ?q')"
    using single_poll [OF q(3,4) refl, of "[demo_msg ''b'', demo_msg ''a'']"] cfg q(1,2)
    by (simp add: unseen_def seen_contains_def polling_config_default_def)
  have "\<not> has_pending_backlog ?q'"
    by (simp add: apply_update_def commit_update_def has_pending_backlog_def)
  with r' have f: "first_delivery [single_source [demo_msg ''b'', demo_msg ''a'']] ?q = Some ([demo_msg ''b''], ?q')"
    by simp
  have "within_limit demo_poller [single_page [demo_msg ''a'']]" "within_limit ?q [single_page [demo_msg ''b'', demo_msg ''a'']]"
    using cfg by (simp_all add: within_limit_def due_def feed_items_def single_page_def demo_seen q(1,2)
        unseen_def seen_contains_def polling_config_default_def)
  from next_delivery_only_new [OF single_feed_ok single_honest this(1) p(2,1) _ r q(4) _ single_feed_ok _ _ _ this(2) f,
      of "[demo_msg ''b'']"]
  have "[demo_msg ''b''] = rev (new_msgs {} [demo_msg ''b''])"
    by (simp add: demo_seen seen_inv_of feed_items_def single_page_def unseen_def seen_contains_def q(1) single_honest)
  with r f show ?thesis by blast
qed

subsection \<open>Any service\<close>

lemma result_cases:
  assumes "result_ok p r"
  obtains (ok) u where "r = Inr u" "update_ok p u" "\<not> emits p \<Longrightarrow> pu_messages u = [] \<and> pu_commit_seen u"
    | (kept) e u where "r = Inl (e, Some u)" "update_ok p u" "\<not> pu_commit_seen u" "emits p"
    | (err) e where "r = Inl (e, None)"
  using assms by (cases r; cases "snd (projl r)") (auto elim!: result_ok.elims)

text \<open>
  C10. Whatever the service answers, a pass keeps the poller well formed, and what it delivers
  are different messages, none of which the poller had delivered while it remembers them.
\<close>

theorem poll_once_safe:
  assumes "poller_inv p"
  shows "poller_inv (snd (poller_poll_once src p)) \<and>
    (case fst (poller_poll_once src p) of
       Inl e \<Rightarrow> po_seen (snd (poller_poll_once src p)) = po_seen p
     | Inr ms \<Rightarrow> distinct (ids_of ms) \<and> length (ids_of ms) = length ms \<and>
         set (ids_of ms) \<inter> sn_ids (po_seen p) = {})"
proof -
  note inv = poller_inv_poll [OF assms, of src]
  from transaction_ok [OF assms, of src None] show ?thesis
  proof (cases rule: result_cases)
    case (ok u)
    have "distinct (ids_of (pu_messages u)) \<and> length (ids_of (pu_messages u)) = length (pu_messages u) \<and>
        set (ids_of (pu_messages u)) \<inter> sn_ids (po_seen p) = {}"
      using ok(2) by (cases "pu_messages u = []") (auto simp: update_ok_def)
    with ok(1) inv show ?thesis by (simp add: poller_poll_once_def)
  next
    case (kept e u)
    with inv show ?thesis by (simp add: poller_poll_once_def apply_update_def)
  next
    case (err e)
    with inv show ?thesis by (simp add: poller_poll_once_def)
  qed
qed

lemma demo_poller_inv: "poller_inv demo_poller"
proof -
  have "poller_inv ((reseed_seen_message_ids [''k'']
      ((poller_new ''r'')\<lparr>po_config := polling_config_default\<lparr>pc_max_pages_per_poll := 1\<rparr>,
         po_seed_seen_message_ids := Some [''k'']\<rparr>))\<lparr>po_initialized := True\<rparr>)"
    by (rule poller_inv_reseed) (simp_all add: poller_new_def has_pending_backlog_def)
  then show ?thesis
    by (simp add: demo_poller_def with_seen_message_ids_def reseed_seen_message_ids_def poller_new_def
        polling_config_default_def)
qed

lemma poll_once_safe_witness: "poller_inv (snd (poller_poll_once demo_source demo_poller))"
  using poll_once_safe [OF demo_poller_inv] by blast

text \<open>
  The first pass of a poller without a baseline delivers nothing: it only learns which
  messages exist, and the poller is initialized and has no backlog afterwards; on an error of
  the service it stays exactly as it was.
\<close>

theorem baseline_pass_delivers_nothing:
  assumes "poller_inv p" "\<not> po_initialized p" "\<not> pc_emit_existing_on_first_poll (po_config p)"
  shows "(\<exists>q. poller_poll_once src p = (Inr [], q) \<and> po_initialized q \<and> \<not> has_pending_backlog q) \<or>
    (\<exists>e. poller_poll_once src p = (Inl e, p))"
proof -
  have em: "\<not> emits p" using assms(2,3) by (simp add: emits_def)
  from transaction_ok [OF assms(1), of src None] show ?thesis
  proof (cases rule: result_cases)
    case (ok u)
    then have "pu_messages u = []" "pu_commit_seen u" using em by blast+
    moreover from this ok(2) have "pu_backlog_next u = None" "pu_pending_fresh u = []"
      "pu_pending_seen_ids u = []" "pu_initialized u" by (auto simp: update_ok_def)
    ultimately show ?thesis
      using ok(1) by (simp add: poller_poll_once_def apply_update_def has_pending_backlog_def)
  next
    case (kept e u)
    with em show ?thesis by blast
  next
    case (err e)
    then show ?thesis by (simp add: poller_poll_once_def)
  qed
qed

lemma baseline_pass_delivers_nothing_witness:
  "(\<exists>q. poller_poll_once (single_source [demo_msg ''a'']) (poller_new ''r'') = (Inr [], q) \<and>
      po_initialized q \<and> \<not> has_pending_backlog q) \<or>
   (\<exists>e. poller_poll_once (single_source [demo_msg ''a'']) (poller_new ''r'') = (Inl e, poller_new ''r''))"
  by (rule baseline_pass_delivers_nothing [OF poller_inv_new])
    (simp_all add: poller_new_def polling_config_default_def)

fun bounded_result :: "nat \<Rightarrow> poll_error + poll_update \<Rightarrow> bool" where
  "bounded_result b (Inr u) \<longleftrightarrow> length (pu_pending_fresh u) \<le> b \<and> length (pu_pending_seen_ids u) \<le> b"
| "bounded_result b (Inl (e, Some u)) \<longleftrightarrow>
     length (pu_pending_fresh u) \<le> b \<and> length (pu_pending_seen_ids u) \<le> b"
| "bounded_result b (Inl (e, None)) \<longleftrightarrow> True"

lemma poll_pages_bounded:
  "bounded_result (max (pc_max_pending_messages (po_config p)) 1) (poll_pages src p k n page fresh ids L)"
proof (induction k arbitrary: n page fresh ids L)
  case 0
  show ?case by (simp add: commit_update_def)
next
  case (Suc k n page fresh ids L)
  let ?b = "max (pc_max_pending_messages (po_config p)) 1"
  obtain pf pi known M where page: "collect_page_messages (po_seen p) (pg_items page) (po_initialized p)
      (pc_emit_existing_on_first_poll (po_config p)) L = ((pf, pi, known), M)" by (metis surj_pair)
  have commit: "bounded_result ?b (Inr (commit_update xs ys))" for xs ys
    by (simp add: commit_update_def)
  show ?case
  proof (cases "ensure_pending_within_limit (length (fresh @ pf)) (length (ids @ pi))
      (pc_max_pending_messages (po_config p))")
    case (Inl e)
    then show ?thesis by (simp add: page Let_def)
  next
    case lim: (Inr u)
    then have "length (fresh @ pf) \<le> ?b" "length (ids @ pi) \<le> ?b"
      by (auto simp: ensure_pending_within_limit_def Let_def not_less split: if_splits)
    then have keep: "bounded_result ?b (Inr (pending_update (fresh @ pf) (ids @ pi) nxt))"
      "bounded_result ?b (Inl (e, Some (pending_update (fresh @ pf) (ids @ pi) nxt)))" for nxt e
      by (simp_all add: pending_update_def)
    show ?thesis
    proof (cases "pg_next page")
      case None
      with lim commit show ?thesis by (simp add: page Let_def)
    next
      case (Some nxt)
      show ?thesis
        using lim Some commit keep Suc.IH unfolding poll_pages.simps page Let_def
        by (cases "src (Suc n) (NextReq nxt)") simp_all
    qed
  qed
qed

text \<open>
  The backlog is bounded: a pass never leaves more pending messages, or ids, than
  \<open>max_pending_messages\<close> (at least one); when a pass would exceed the limit, or the first
  request fails, it returns an error and the poller is exactly as before.
\<close>

theorem backlog_bounded:
  assumes "poller_poll_once src p = (res, q)"
  shows "q = p \<and> isl res \<or>
    (length (po_pending_fresh q) \<le> max (pc_max_pending_messages (po_config p)) 1 \<and>
     length (po_pending_seen_ids q) \<le> max (pc_max_pending_messages (po_config p)) 1)"
proof -
  let ?b = "max (pc_max_pending_messages (po_config p)) 1"
  have "bounded_result ?b (poll_once_transaction_before src p None)"
    unfolding poll_once_transaction_before_def using poll_pages_bounded
    by (cases "src 0 (first_request p None)") (simp_all add: commit_update_def)
  with assms show ?thesis
    by (auto simp: poller_poll_once_def apply_update_def split: sum.splits option.splits prod.splits)
qed

lemma backlog_bounded_witness:
  "let q = snd (poller_poll_once demo_source demo_poller) in
   (q = demo_poller \<and> isl (fst (poller_poll_once demo_source demo_poller))) \<or>
   length (po_pending_fresh q) \<le> 10000"
  using backlog_bounded [of demo_source demo_poller "fst (poller_poll_once demo_source demo_poller)"
      "snd (poller_poll_once demo_source demo_poller)"]
  by (auto simp: Let_def demo_poller_def polling_config_default_def)

text \<open>The poller that is made from what another has seen, under the same configuration.\<close>

definition seeded_poller :: "polling_config \<Rightarrow> string \<Rightarrow> seen_ids \<Rightarrow> poller" where
  "seeded_poller cfg r s = \<lparr>po_room_id = r, po_config = cfg, po_seen = s, po_backlog_next = None, po_pending_fresh = [],
     po_pending_seen_ids = [], po_initialized = True,
     po_seed_seen_message_ids = (if sn_order s = [] then None else Some (sn_order s))\<rparr>"

lemma poller_from_checkpoint:
  assumes "seen_inv s" "length (sn_order s) \<le> max (pc_max_seen_ids cfg) 1" "c = checkpoint_from_seen r s"
  shows "(if rc_seen_message_ids c = [] \<and> rc_initialize_empty c
      then with_empty_seen_boundary (set_config cfg (poller_new r))
      else with_seen_message_ids (rc_seen_message_ids c) (set_config cfg (poller_new r))) = seeded_poller cfg r s"
proof -
  obtain xs where xs: "distinct xs" "s = seen_of xs" using assms(1) seen_inv_iff by blast
  have len: "length xs \<le> max (pc_max_seen_ids cfg) 1" using assms(2) xs(2) by simp
  show ?thesis
  proof (cases "xs = []")
    case True
    have "seen_truncate m seen_default = seen_of []" for m
      using seen_truncate_of [of "[]" m] by (simp add: seen_default_def seen_of_def)
    with True assms(3) xs show ?thesis
      by (simp add: checkpoint_from_seen_def checkpoint_known_empty_def seeded_poller_def
          with_empty_seen_boundary_def set_config_def poller_new_def)
  next
    case False
    with remember_seed [OF xs(1) len] assms(3) xs show ?thesis
      by (simp add: checkpoint_from_seen_def checkpoint_new_def Let_def seeded_poller_def
          with_seen_message_ids_def set_config_def poller_new_def reseed_seen_message_ids_def)
  qed
qed

text \<open>
  A restart from a checkpoint loses nothing: the checkpoint a pass hands out, given to a
  new poller with the same configuration, gives the memory of the poller that made it, and
  the new poller continues as that one would (it has a baseline and no backlog).
\<close>

theorem checkpoint_restores_poller:
  assumes "poller_inv p" "update_ok p u" "checkpoint_after_update p r u = Some c"
    and "restored = (if rc_seen_message_ids c = [] \<and> rc_initialize_empty c
       then with_empty_seen_boundary (set_config (po_config p) (poller_new r))
       else with_seen_message_ids (rc_seen_message_ids c) (set_config (po_config p) (poller_new r)))"
  shows "po_seen restored = po_seen (apply_update u p) \<and> po_config restored = po_config (apply_update u p) \<and>
    po_initialized restored \<and> po_initialized (apply_update u p) \<and>
    \<not> has_pending_backlog restored \<and> \<not> has_pending_backlog (apply_update u p)"
proof -
  define s where "s = po_seen (apply_update u p)"
  have inv: "poller_inv (apply_update u p)" by (rule poller_inv_apply [OF assms(1,2)])
  have com: "pu_commit_seen u" using assms(3) by (simp add: checkpoint_after_update_def split: if_splits)
  then have up: "\<not> has_pending_backlog (apply_update u p)" "po_initialized (apply_update u p)"
    using assms(2) by (auto simp: update_ok_def apply_update_def has_pending_backlog_def)
  have cfg: "po_config (apply_update u p) = po_config p" by (simp add: apply_update_def)
  have c: "c = checkpoint_from_seen r s"
    using assms(3) com by (simp add: checkpoint_after_update_def s_def apply_update_def)
  have seen: "seen_inv s" "length (sn_order s) \<le> max (pc_max_seen_ids (po_config p)) 1"
    using inv cfg unfolding poller_inv_def by (simp_all add: s_def)
  have "restored = seeded_poller (po_config p) r s"
    unfolding assms(4) by (rule poller_from_checkpoint [OF seen c])
  with up cfg show ?thesis by (simp add: seeded_poller_def s_def has_pending_backlog_def)
qed

lemma checkpoint_restores_poller_witness:
  "\<exists>c. checkpoint_after_update demo_poller ''r'' (commit_update [demo_msg ''a''] [''a'']) = Some c \<and>
    po_seen (if rc_seen_message_ids c = [] \<and> rc_initialize_empty c
       then with_empty_seen_boundary (set_config (po_config demo_poller) (poller_new ''r''))
       else with_seen_message_ids (rc_seen_message_ids c) (set_config (po_config demo_poller) (poller_new ''r'')))
    = po_seen (apply_update (commit_update [demo_msg ''a''] [''a'']) demo_poller)"
proof -
  have "update_ok demo_poller (commit_update [demo_msg ''a''] [''a''])"
    by (simp add: update_ok_def commit_update_def demo_seen)
  moreover obtain c where "checkpoint_after_update demo_poller ''r'' (commit_update [demo_msg ''a''] [''a'']) = Some c"
    by (simp add: checkpoint_after_update_def commit_update_def)
  ultimately show ?thesis
    using checkpoint_restores_poller [OF demo_poller_inv, of "commit_update [demo_msg ''a''] [''a'']" "''r''" c _, OF _ _ refl]
    by blast
qed

end
