(* ===== verification/MultiRoom.thy ===== *)
theory MultiRoom imports PollerRuns "HOL-Library.Option_ord" "HOL-Library.Product_Lexorder" begin

text \<open>
  The poller for all joined rooms of an account (\<open>src/realtime.rs\<close>): discovery of the rooms,
  the pollers of the rooms that are visible and of those that are not, and one catch-up pass
  over all visible rooms. The concurrent part is a parameter: \<open>completions\<close> lists the rooms in
  the order their polls end, with the answers each got or \<open>None\<close> when it timed out.
\<close>

subsection \<open>Configuration and state\<close>

record discovery_config =
  dc_page_size :: nat
  dc_max_rooms :: nat
  dc_room_type :: "string option"
  dc_team_id :: "string option"
  dc_sort_by :: "string option"

definition discovery_config_default :: discovery_config where
  "discovery_config_default = \<lparr>dc_page_size = 100, dc_max_rooms = 1000, dc_room_type = None,
     dc_team_id = None, dc_sort_by = None\<rparr>"

record multi_config =
  mc_discovery :: discovery_config
  mc_room_polling :: polling_config
  mc_room_refresh_interval :: duration
  mc_room_discovery_timeout :: "duration option"
  mc_room_poll_timeout :: "duration option"
  mc_max_concurrent_room_polls :: nat
  mc_max_inactive_rooms :: nat

definition multi_config_default :: multi_config where
  "multi_config_default = \<lparr>mc_discovery = discovery_config_default,
     mc_room_polling = polling_config_default, mc_room_refresh_interval = 300 * SEC,
     mc_room_discovery_timeout = Some (60 * SEC), mc_room_poll_timeout = Some (60 * SEC),
     mc_max_concurrent_room_polls = 16, mc_max_inactive_rooms = 1000\<rparr>"

record room_entry =
  en_room :: room
  en_poller :: poller

record room_message =
  rm_room_id :: string
  rm_room :: room
  rm_message :: message

record multi_room_poll =
  mr_events :: "room_message res list"
  mr_checkpoints :: "room_checkpoint list"

record multi_poller =
  mp_config :: multi_config
  mp_rooms :: "(string, room_entry) bmap"
  mp_inactive_rooms :: "(string, room_entry) bmap"
  mp_inactive_room_order :: "string list"
  mp_checkpoints :: "(string, string list \<times> bool) bmap"
  mp_rooms_initialized :: bool
  mp_last_room_discovery :: "time option"

definition multi_poller_new :: multi_poller where
  "multi_poller_new = \<lparr>mp_config = multi_config_default, mp_rooms = [], mp_inactive_rooms = [],
     mp_inactive_room_order = [], mp_checkpoints = [], mp_rooms_initialized = False,
     mp_last_room_discovery = None\<rparr>"

definition configure_entry :: "polling_config \<Rightarrow> room_entry \<Rightarrow> room_entry" where
  "configure_entry cfg e = e\<lparr>en_poller := set_config cfg (en_poller e)\<rparr>"

definition with_config :: "multi_config \<Rightarrow> multi_poller \<Rightarrow> multi_poller" where
  "with_config cfg m =
     (let changed = mc_discovery (mp_config m) \<noteq> mc_discovery cfg;
          conf = map (\<lambda>(k, e). (k, configure_entry (mc_room_polling cfg) e));
          m' = m\<lparr>mp_config := cfg, mp_rooms := conf (mp_rooms m),
                 mp_inactive_rooms := conf (mp_inactive_rooms m)\<rparr> in
      if changed then m'\<lparr>mp_rooms_initialized := False, mp_last_room_discovery := None\<rparr> else m')"

text \<open>Reseeding the rooms that have a checkpoint; each checkpoint is used at most once.\<close>

definition reseed_rooms ::
    "(string, string list \<times> bool) bmap \<Rightarrow> (string, room_entry) bmap \<Rightarrow> (string, room_entry) bmap" where
  "reseed_rooms cps rooms = map (\<lambda>(k, e). (k, case bm_get cps k of
       Some (ids, b) \<Rightarrow> e\<lparr>en_poller := replace_checkpoint ids b (en_poller e)\<rparr>
     | None \<Rightarrow> e)) rooms"

definition with_room_checkpoints :: "room_checkpoint list \<Rightarrow> multi_poller \<Rightarrow> multi_poller" where
  "with_room_checkpoints cs m =
     (let cps = fold (\<lambda>c. bm_insert (rc_room_id c) (rc_seen_message_ids c, rc_initialize_empty c)) cs [];
          cps1 = bm_retain (\<lambda>k _. \<not> bm_contains k (mp_rooms m)) cps;
          cps2 = bm_retain (\<lambda>k _. \<not> bm_contains k (mp_inactive_rooms m)) cps1 in
      m\<lparr>mp_rooms := reseed_rooms cps (mp_rooms m),
        mp_inactive_rooms := reseed_rooms cps1 (mp_inactive_rooms m),
        mp_checkpoints := cps2\<rparr>)"

definition room_ids :: "multi_poller \<Rightarrow> string list" where
  "room_ids m = map fst (mp_rooms m)"

subsection \<open>Discovery\<close>

datatype room_request = ListRoomsReq list_rooms | NextRoomsReq string

type_synonym room_source = "nat \<Rightarrow> room_request \<Rightarrow> room page res"

text \<open>The rooms in the order of their first appearance, each with its last record.\<close>

fun add_rooms :: "room list \<Rightarrow> room list \<times> (string, nat) bmap \<Rightarrow> room list \<times> (string, nat) bmap" where
  "add_rooms [] acc = acc"
| "add_rooms (r # rs) (rooms, idx) =
     (case ro_id r of
        Some i \<Rightarrow>
          (case bm_get idx i of
             Some k \<Rightarrow> add_rooms rs (rooms[k := r], idx)
           | None \<Rightarrow> add_rooms rs (rooms @ [r], bm_insert i (length rooms) idx))
      | None \<Rightarrow> add_rooms rs (rooms @ [r], idx))"

definition discovery_exceeded :: "nat \<Rightarrow> error" where
  "discovery_exceeded limit = Other (''joined-room discovery exceeded max_rooms='' @ show_nat limit @
     ''; narrow discovery or raise the limit'')"

text \<open>The loop over the pages; the service may list pages forever, then there is no result.\<close>

partial_function (option) discover_pages ::
    "room_source \<Rightarrow> nat \<Rightarrow> nat \<Rightarrow> room page \<Rightarrow> room list \<times> (string, nat) bmap \<Rightarrow> room list res option" where
  "discover_pages src limit n page acc =
     (let acc' = add_rooms (pg_items page) acc in
      if limit < length (fst acc') then Some (Inl (discovery_exceeded limit))
      else case pg_next page of
        None \<Rightarrow> Some (Inr (fst acc'))
      | Some nxt \<Rightarrow>
          (case src (Suc n) (NextRoomsReq nxt) of
             Inl e \<Rightarrow> Some (Inl e)
           | Inr page' \<Rightarrow> discover_pages src limit (Suc n) page' acc'))"

definition discover_joined_rooms :: "room_source \<Rightarrow> discovery_config \<Rightarrow> room list res option" where
  "discover_joined_rooms src cfg =
     (case src 0 (ListRoomsReq (list_rooms_default\<lparr>lr_team_id := dc_team_id cfg,
             lr_room_type := dc_room_type cfg, lr_sort_by := dc_sort_by cfg,
             lr_max := Some (dc_page_size cfg)\<rparr>)) of
        Inl e \<Rightarrow> Some (Inl e)
      | Inr page \<Rightarrow> discover_pages src (max (dc_max_rooms cfg) 1) 0 page ([], []))"

text \<open>The text of a duration in an error message (\<open>std::time::Duration\<close>'s \<open>Debug\<close>).\<close>

definition pad_zeros :: "nat \<Rightarrow> string \<Rightarrow> string" where
  "pad_zeros w s = replicate (w - length s) (CHR ''0'') @ s"

definition show_fraction :: "nat \<Rightarrow> nat \<Rightarrow> string" where
  "show_fraction w r =
     (if r = 0 then []
      else CHR ''.'' # rev (dropWhile (\<lambda>c. c = CHR ''0'') (rev (pad_zeros w (show_nat r)))))"

definition show_duration :: "duration \<Rightarrow> string" where
  "show_duration d =
     (if SEC \<le> d then show_nat (d div SEC) @ show_fraction 9 (d mod SEC) @ ''s''
      else if 1000000 \<le> d then show_nat (d div 1000000) @ show_fraction 6 (d mod 1000000) @ ''ms''
      else if 1000 \<le> d then
        show_nat (d div 1000) @ show_fraction 3 (d mod 1000) @ [CHR 0xC2, CHR 0xB5, CHR ''s'']
      else show_nat d @ ''ns'')"

definition effective_poll_interval :: "duration \<Rightarrow> duration" where
  "effective_poll_interval interval = max interval 1000000"

text \<open>\<open>None\<close>: the timer ended first.\<close>

definition discover_with_timeout ::
    "duration option \<Rightarrow> room list res option \<Rightarrow> room list res option" where
  "discover_with_timeout timeout outcome =
     (case timeout of
        None \<Rightarrow> outcome
      | Some t \<Rightarrow> Some (case outcome of
            Some r \<Rightarrow> r
          | None \<Rightarrow> Inl (Other (''joined-room discovery timed out after '' @
              show_duration (effective_poll_interval t)))))"

subsection \<open>Rooms that disappear\<close>

definition remember_inactive_room ::
    "string \<Rightarrow> room_entry \<Rightarrow> (string, room_entry) bmap \<times> string list
      \<Rightarrow> (string, room_entry) bmap \<times> string list" where
  "remember_inactive_room r e st =
     (case st of (inactive, order) \<Rightarrow>
        (bm_insert r e inactive, filter (\<lambda>x. x \<noteq> r) order @ [r]))"

definition removable :: "(string, room_entry) bmap \<Rightarrow> string \<Rightarrow> bool" where
  "removable inactive r =
     (case bm_get inactive r of Some e \<Rightarrow> \<not> has_pending_backlog (en_poller e) | None \<Rightarrow> False)"

definition removable_room :: "(string, room_entry) bmap \<Rightarrow> string list \<Rightarrow> string option" where
  "removable_room inactive order =
     or_else (find (removable inactive) order)
       (map_option fst (find (\<lambda>(k, e). \<not> has_pending_backlog (en_poller e)) inactive))"

lemma removable_room_in:
  "removable_room inactive order = Some r \<Longrightarrow> r \<in> fst ` set inactive"
  by (auto simp: removable_room_def removable_def or_else_def find_Some_iff image_iff
      split: option.splits dest!: map_of_SomeD)
    (metis nth_mem fst_conv)+

lemma length_bm_remove:
  "r \<in> fst ` set m \<Longrightarrow> length (bm_remove r m) < length m"
  unfolding bm_remove_def by (auto intro: length_filter_less)

definition save_checkpoint ::
    "string \<Rightarrow> room_entry \<Rightarrow> (string, string list \<times> bool) bmap \<Rightarrow> (string, string list \<times> bool) bmap" where
  "save_checkpoint r e cps =
     (case current_checkpoint (en_poller e) r of
        Some c \<Rightarrow> bm_insert r (rc_seen_message_ids c, rc_initialize_empty c) cps
      | None \<Rightarrow> cps)"

type_synonym inactive_state =
  "(string, room_entry) bmap \<times> string list \<times> (string, string list \<times> bool) bmap"

function prune_loop :: "nat \<Rightarrow> inactive_state \<Rightarrow> inactive_state" where
  "prune_loop limit (inactive, order, cps) =
     (if length inactive \<le> limit then (inactive, order, cps)
      else case removable_room inactive order of
        None \<Rightarrow> (inactive, order, cps)
      | Some r \<Rightarrow>
          prune_loop limit (bm_remove r inactive, filter (\<lambda>x. x \<noteq> r) order,
            case bm_get inactive r of Some e \<Rightarrow> save_checkpoint r e cps | None \<Rightarrow> cps))"
  by pat_completeness auto
termination
  by (relation "measure (\<lambda>(_, inactive, _). length inactive)")
    (auto intro: length_bm_remove removable_room_in)

declare prune_loop.simps [simp del]

definition prune_inactive_rooms :: "nat \<Rightarrow> inactive_state \<Rightarrow> inactive_state" where
  "prune_inactive_rooms max_inactive st =
     (case st of (inactive, order, cps) \<Rightarrow>
        prune_loop (max max_inactive 1)
          (inactive, filter (\<lambda>r. bm_contains r inactive) order, cps))"

subsection \<open>Refreshing the rooms\<close>

text \<open>The state of the loop over the discovered rooms.\<close>

record refresh_state =
  rf_next :: "(string, room_entry) bmap"
  rf_rooms :: "(string, room_entry) bmap"
  rf_inactive :: "(string, room_entry) bmap"
  rf_order :: "string list"
  rf_checkpoints :: "(string, string list \<times> bool) bmap"

definition new_room_poller :: "polling_config \<Rightarrow> string \<Rightarrow> (string list \<times> bool) option \<Rightarrow> poller" where
  "new_room_poller cfg r cp =
     (let p = set_config cfg (poller_new r) in
      case cp of
        None \<Rightarrow> p
      | Some (ids, b) \<Rightarrow>
          if ids = [] \<and> b then with_empty_seen_boundary p else with_seen_message_ids ids p)"

definition refresh_one :: "polling_config \<Rightarrow> room \<Rightarrow> refresh_state \<Rightarrow> refresh_state" where
  "refresh_one cfg room st =
     (case ro_id room of
        None \<Rightarrow> st
      | Some r \<Rightarrow>
        (case bm_get (rf_next st) r of
           Some e \<Rightarrow> st\<lparr>rf_next := bm_insert r (e\<lparr>en_room := room\<rparr>) (rf_next st)\<rparr>
         | None \<Rightarrow>
           (case bm_get (rf_rooms st) r of
              Some e \<Rightarrow> st\<lparr>rf_rooms := bm_remove r (rf_rooms st),
                  rf_next := bm_insert r (e\<lparr>en_room := room\<rparr>) (rf_next st)\<rparr>
            | None \<Rightarrow>
              (case bm_get (rf_inactive st) r of
                 Some e \<Rightarrow> st\<lparr>rf_inactive := bm_remove r (rf_inactive st),
                     rf_order := filter (\<lambda>x. x \<noteq> r) (rf_order st),
                     rf_next := bm_insert r (e\<lparr>en_room := room\<rparr>) (rf_next st)\<rparr>
               | None \<Rightarrow>
                   st\<lparr>rf_checkpoints := bm_remove r (rf_checkpoints st),
                      rf_next := bm_insert r \<lparr>en_room = room,
                        en_poller = new_room_poller cfg r (bm_get (rf_checkpoints st) r)\<rparr> (rf_next st)\<rparr>))))"

definition apply_discovery :: "room list \<Rightarrow> multi_poller \<Rightarrow> multi_poller" where
  "apply_discovery discovered m =
     (let st = fold (refresh_one (mc_room_polling (mp_config m))) discovered
           \<lparr>rf_next = [], rf_rooms = mp_rooms m, rf_inactive = mp_inactive_rooms m,
            rf_order = mp_inactive_room_order m, rf_checkpoints = mp_checkpoints m\<rparr>;
          gone = fold (\<lambda>(r, e). remember_inactive_room r e) (rf_rooms st) (rf_inactive st, rf_order st) in
      case prune_inactive_rooms (mc_max_inactive_rooms (mp_config m))
             (fst gone, snd gone, rf_checkpoints st) of
        (inactive, order, cps) \<Rightarrow>
          m\<lparr>mp_rooms := rf_next st, mp_inactive_rooms := inactive, mp_inactive_room_order := order,
            mp_checkpoints := cps, mp_rooms_initialized := True\<rparr>)"

definition refresh_rooms :: "time \<Rightarrow> room list res \<Rightarrow> multi_poller \<Rightarrow> room list res \<times> multi_poller" where
  "refresh_rooms now discovered m =
     (let m = m\<lparr>mp_last_room_discovery := Some now\<rparr> in
      case discovered of
        Inl e \<Rightarrow> (Inl e, m)
      | Inr rooms \<Rightarrow> (Inr rooms, apply_discovery rooms m))"

subsection \<open>One pass over all rooms\<close>

record room_batch =
  rb_messages :: "(nat \<times> room_message) list"
  rb_errors :: "error list"
  rb_updates :: "(string \<times> poll_update) list"
  rb_pending :: bool

definition index_messages :: "string \<Rightarrow> room \<Rightarrow> message list \<Rightarrow> (nat \<times> room_message) list" where
  "index_messages r room ms =
     map (\<lambda>(i, m). (i, \<lparr>rm_room_id = r, rm_room = room, rm_message = m\<rparr>)) (enumerate 0 ms)"

text \<open>One finished poll; \<open>None\<close> is a poll whose timer ended first.\<close>

definition add_completion ::
    "duration \<Rightarrow> string \<Rightarrow> room_entry \<Rightarrow> (poll_error + poll_update) option \<Rightarrow> room_batch \<Rightarrow> room_batch" where
  "add_completion timeout r entry outcome b =
     (let had = has_pending_backlog (en_poller entry) in
      case outcome of
        Some (Inr u) \<Rightarrow>
          b\<lparr>rb_pending := rb_pending b \<or> \<not> pu_commit_seen u,
            rb_messages := rb_messages b @ index_messages r (en_room entry) (pu_messages u),
            rb_updates := rb_updates b @ [(r, u)]\<rparr>
      | Some (Inl (e, Some u)) \<Rightarrow>
          b\<lparr>rb_pending := rb_pending b \<or> \<not> pu_commit_seen u,
            rb_updates := rb_updates b @ [(r, u)],
            rb_errors := rb_errors b @ [RoomPoll r e]\<rparr>
      | Some (Inl (e, None)) \<Rightarrow>
          b\<lparr>rb_pending := rb_pending b \<or> had, rb_errors := rb_errors b @ [RoomPoll r e]\<rparr>
      | None \<Rightarrow>
          b\<lparr>rb_pending := rb_pending b \<or> had,
            rb_errors := rb_errors b @ [RoomPoll r (Other (''room poll timed out after '' @
              show_duration (effective_poll_interval timeout)))]\<rparr>)"

type_synonym completions = "(string \<times> source option) list"

definition poll_room ::
    "time \<Rightarrow> source option \<Rightarrow> room_entry \<Rightarrow> (poll_error + poll_update) option" where
  "poll_room cutoff src entry =
     map_option (\<lambda>s. poll_once_transaction_before s (en_poller entry) (Some cutoff)) src"

definition empty_batch :: room_batch where
  "empty_batch = \<lparr>rb_messages = [], rb_errors = [], rb_updates = [], rb_pending = False\<rparr>"

definition poll_rooms_concurrently :: "time \<Rightarrow> completions \<Rightarrow> multi_poller \<Rightarrow> room_batch" where
  "poll_rooms_concurrently cutoff cs m =
     fold (\<lambda>(r, src) b. case bm_get (mp_rooms m) r of
         Some e \<Rightarrow> add_completion (case mc_room_poll_timeout (mp_config m) of Some t \<Rightarrow> t | None \<Rightarrow> 0)
             r e (poll_room cutoff src e) b
       | None \<Rightarrow> b) cs empty_batch"

text \<open>
  The order of the emitted messages: by creation time (messages without one first), room,
  position in the room's batch, id. Sorting is stable, as \<open>sort_by\<close> is.
\<close>

definition message_key :: "nat \<times> room_message \<Rightarrow> time option \<times> string \<times> nat \<times> string option" where
  "message_key im = (case im of (i, m) \<Rightarrow>
     (me_created (rm_message m), rm_room_id m, i, me_id (rm_message m)))"

text \<open>A batch that stays undelivered goes back into the backlog of its poller.\<close>

definition demote :: "bool \<Rightarrow> poll_update \<Rightarrow> poll_update" where
  "demote pending u =
     (if pending \<and> pu_commit_seen u \<and> pu_messages u \<noteq> [] then
        u\<lparr>pu_pending_fresh := rev (pu_messages u), pu_messages := [],
          pu_pending_seen_ids := pu_seen_ids u, pu_seen_ids := [], pu_commit_seen := False\<rparr>
      else u)"

definition apply_room_update ::
    "bool \<Rightarrow> string \<times> poll_update \<Rightarrow> (string, room_entry) bmap \<times> room_checkpoint list
      \<Rightarrow> (string, room_entry) bmap \<times> room_checkpoint list" where
  "apply_room_update pending ru st =
     (case ru of (r, u0) \<Rightarrow> case st of (rooms, cps) \<Rightarrow>
        let u = demote pending u0 in
        case bm_get rooms r of
          None \<Rightarrow> (rooms, cps)
        | Some e \<Rightarrow>
           (bm_insert r (e\<lparr>en_poller := apply_update u (en_poller e)\<rparr>) rooms,
            case checkpoint_after_update (en_poller e) r u of Some c \<Rightarrow> cps @ [c] | None \<Rightarrow> cps))"

definition finish_poll :: "error list \<Rightarrow> room_batch \<Rightarrow> multi_poller \<Rightarrow> multi_room_poll \<times> multi_poller" where
  "finish_poll errors b m =
     (let events = (if rb_pending b then []
            else map (\<lambda>im. Inr (snd im)) (sort_key message_key (rb_messages b)));
          st = fold (apply_room_update (rb_pending b)) (rb_updates b) (mp_rooms m, []) in
      (\<lparr>mr_events = events @ map Inl (errors @ rb_errors b),
        mr_checkpoints = sort_key rc_room_id (snd st)\<rparr>, m\<lparr>mp_rooms := fst st\<rparr>))"

definition room_refresh_due :: "time \<Rightarrow> multi_poller \<Rightarrow> bool" where
  "room_refresh_due now m =
     (case mp_last_room_discovery m of
        Some t \<Rightarrow> int (mc_room_refresh_interval (mp_config m)) \<le> now - t
      | None \<Rightarrow> False)"

text \<open>
  \<open>poll_once\<close>: \<open>discovered\<close> is what the discovery answers when it is asked; the completions
  depend on the rooms that are polled.
\<close>

definition multi_poll_once ::
    "time \<Rightarrow> time \<Rightarrow> room list res \<Rightarrow> (string list \<Rightarrow> completions) \<Rightarrow> multi_poller
      \<Rightarrow> multi_room_poll res \<times> multi_poller" where
  "multi_poll_once now cutoff discovered cs m =
     (if \<not> mp_rooms_initialized m then
        (case refresh_rooms now discovered m of
           (Inl e, m') \<Rightarrow> (Inl e, m')
         | (Inr _, m') \<Rightarrow>
             (case finish_poll [] (poll_rooms_concurrently cutoff (cs (room_ids m')) m') m' of
                (r, m'') \<Rightarrow> (Inr r, m'')))
      else
        (case (if room_refresh_due now m then
                 (case refresh_rooms now discovered m of
                    (Inl e, m') \<Rightarrow> ([e], m') | (Inr _, m') \<Rightarrow> ([], m'))
               else ([], m)) of
           (errors, m') \<Rightarrow>
             (case finish_poll errors (poll_rooms_concurrently cutoff (cs (room_ids m')) m') m' of
                (r, m'') \<Rightarrow> (Inr r, m''))))"

end
