(* ===== verification/MultiRoomInv.thy ===== *)
theory MultiRoomInv imports MultiRoom begin

text \<open>
  Which rooms a multi-room poller tracks after each operation. No room is tracked twice, the
  discovery decides which rooms are active, and a room that disappears is kept, or reduced to
  its checkpoint when it has no backlog.
\<close>

subsection \<open>Entries and the invariant\<close>

definition entry_ok :: "room_entry \<Rightarrow> bool" where
  "entry_ok e \<longleftrightarrow> poller_inv (en_poller e) \<and> po_seed_seen_message_ids (en_poller e) \<noteq> Some []"

definition rooms_ok :: "(string, room_entry) bmap \<Rightarrow> bool" where
  "rooms_ok m \<longleftrightarrow> bm_inv m \<and> (\<forall>r e. bm_get m r = Some e \<longrightarrow> entry_ok e)"

definition multi_inv :: "multi_poller \<Rightarrow> bool" where
  "multi_inv m \<longleftrightarrow>
     rooms_ok (mp_rooms m) \<and> rooms_ok (mp_inactive_rooms m) \<and> bm_inv (mp_checkpoints m) \<and>
     (\<forall>r. bm_get (mp_rooms m) r = None \<or> bm_get (mp_inactive_rooms m) r = None) \<and>
     distinct (mp_inactive_room_order m) \<and>
     (\<forall>r. r \<in> set (mp_inactive_room_order m) \<longleftrightarrow> bm_get (mp_inactive_rooms m) r \<noteq> None)"

lemma rooms_ok_empty [simp]: "rooms_ok []"
  by (simp add: rooms_ok_def)

lemma rooms_ok_insert: "rooms_ok m \<Longrightarrow> entry_ok e \<Longrightarrow> rooms_ok (bm_insert r e m)"
  by (auto simp: rooms_ok_def inv_intros get_simps)

lemma rooms_ok_remove: "rooms_ok m \<Longrightarrow> rooms_ok (bm_remove r m)"
  by (auto simp: rooms_ok_def inv_intros get_simps split: if_splits)

lemma entry_ok_room [simp]: "entry_ok (e\<lparr>en_room := room\<rparr>) = entry_ok e"
  by (simp add: entry_ok_def)

lemma entry_eta: "e\<lparr>en_room := d\<rparr> = \<lparr>en_room = d, en_poller = en_poller e\<rparr>"
  by (cases e) simp

lemma multi_inv_new: "multi_inv multi_poller_new"
  by (simp add: multi_inv_def multi_poller_new_def)

subsection \<open>New pollers\<close>

lemma set_config_new: "poller_inv (set_config cfg (poller_new r))"
  by (rule poller_inv_set_config [OF poller_inv_new]) (simp add: poller_new_def)

lemma set_config_new_state [simp]:
  "po_seed_seen_message_ids (set_config cfg (poller_new r)) = None"
  "\<not> has_pending_backlog (set_config cfg (poller_new r))"
  "po_config (set_config cfg (poller_new r)) = cfg"
  by (simp_all add: set_config_def poller_new_def has_pending_backlog_def)

lemma entry_ok_new_room:
  "entry_ok \<lparr>en_room = room, en_poller = new_room_poller cfg r cp\<rparr>"
proof -
  let ?p = "set_config cfg (poller_new r)"
  have pend: "\<not> has_pending_backlog (?p\<lparr>po_seed_seen_message_ids := x\<rparr>)" for x
    using set_config_new_state(2) [of cfg r] by (simp add: has_pending_backlog_def)
  have "poller_inv (with_seen_message_ids ids ?p)" if "ids \<noteq> []" for ids
    using poller_inv_reseed [OF pend [of "Some ids"] that, of True] that by (simp add: with_seen_message_ids_def)
  moreover have "poller_inv (with_empty_seen_boundary ?p)"
    using set_config_new [of cfg r] by (simp add: with_empty_seen_boundary_def poller_inv_def has_pending_backlog_def)
  ultimately show ?thesis
    using set_config_new [of cfg r]
    by (auto simp: entry_ok_def new_room_poller_def with_seen_message_ids_def with_empty_seen_boundary_def
        reseed_seen_message_ids_def Let_def split: option.splits)
qed

subsection \<open>The loop over the discovered rooms\<close>

definition room_keys :: "room list \<Rightarrow> string set" where
  "room_keys ds = {r. \<exists>d\<in>set ds. ro_id d = Some r}"

definition latest_room :: "room list \<Rightarrow> string \<Rightarrow> room" where
  "latest_room ds r = last (filter (\<lambda>d. ro_id d = Some r) ds)"

lemma room_keys_simps [simp]:
  "room_keys [] = {}"
  "room_keys (ds @ [d]) = (case ro_id d of Some r \<Rightarrow> insert r (room_keys ds) | None \<Rightarrow> room_keys ds)"
  by (auto simp: room_keys_def split: option.splits)

lemma latest_room_snoc:
  "latest_room (ds @ [d]) r = (if ro_id d = Some r then d else latest_room ds r)"
  by (simp add: latest_room_def)

text \<open>The poller a room gets: its own one, wherever it was, or a new one.\<close>

definition poller_for :: "polling_config \<Rightarrow> multi_poller \<Rightarrow> string \<Rightarrow> poller" where
  "poller_for cfg m r =
     (case bm_get (mp_rooms m) r of
        Some e \<Rightarrow> en_poller e
      | None \<Rightarrow> (case bm_get (mp_inactive_rooms m) r of
          Some e \<Rightarrow> en_poller e
        | None \<Rightarrow> new_room_poller cfg r (bm_get (mp_checkpoints m) r)))"

definition refresh_init :: "multi_poller \<Rightarrow> refresh_state" where
  "refresh_init m = \<lparr>rf_next = [], rf_rooms = mp_rooms m, rf_inactive = mp_inactive_rooms m,
     rf_order = mp_inactive_room_order m, rf_checkpoints = mp_checkpoints m\<rparr>"

definition refreshed :: "polling_config \<Rightarrow> multi_poller \<Rightarrow> room list \<Rightarrow> refresh_state \<Rightarrow> bool" where
  "refreshed cfg m ds st \<longleftrightarrow>
     rooms_ok (rf_next st) \<and> rooms_ok (rf_rooms st) \<and> rooms_ok (rf_inactive st) \<and> bm_inv (rf_checkpoints st) \<and>
     (\<forall>r. bm_get (rf_next st) r =
        (if r \<in> room_keys ds then Some \<lparr>en_room = latest_room ds r, en_poller = poller_for cfg m r\<rparr> else None)) \<and>
     (\<forall>r. bm_get (rf_rooms st) r = (if r \<in> room_keys ds then None else bm_get (mp_rooms m) r)) \<and>
     (\<forall>r. bm_get (rf_inactive st) r = (if r \<in> room_keys ds then None else bm_get (mp_inactive_rooms m) r)) \<and>
     rf_order st = filter (\<lambda>r. r \<notin> room_keys ds) (mp_inactive_room_order m) \<and>
     (\<forall>r. bm_get (rf_checkpoints st) r =
        (if r \<in> room_keys ds \<and> bm_get (mp_rooms m) r = None \<and> bm_get (mp_inactive_rooms m) r = None
         then None else bm_get (mp_checkpoints m) r))"

lemma entry_ok_poller_for:
  assumes "multi_inv m"
  shows "entry_ok \<lparr>en_room = room, en_poller = poller_for cfg m r\<rparr>"
proof -
  have "entry_ok e \<Longrightarrow> entry_ok \<lparr>en_room = room, en_poller = en_poller e\<rparr>" for e
    by (simp add: entry_ok_def)
  with assms entry_ok_new_room show ?thesis
    by (auto simp: poller_for_def multi_inv_def rooms_ok_def split: option.splits)
qed

lemma refreshed_init: "multi_inv m \<Longrightarrow> refreshed cfg m [] (refresh_init m)"
  by (simp add: refreshed_def refresh_init_def multi_inv_def)

lemma refreshed_step:
  assumes inv: "multi_inv m" and st: "refreshed cfg m ds st"
  shows "refreshed cfg m (ds @ [d]) (refresh_one cfg d st)"
proof (cases "ro_id d")
  case None
  then show ?thesis
    using st by (simp add: refreshed_def refresh_one_def latest_room_snoc)
next
  case (Some r)
  note st' = st [unfolded refreshed_def]
  note ok = entry_ok_poller_for [OF inv, of _ cfg]
  have disj: "bm_get (mp_rooms m) r = None \<or> bm_get (mp_inactive_rooms m) r = None"
    using inv by (simp add: multi_inv_def)
  show ?thesis
  proof (cases "r \<in> room_keys ds")
    case True
    then have "bm_get (rf_next st) r = Some \<lparr>en_room = latest_room ds r, en_poller = poller_for cfg m r\<rparr>"
      using st' by simp
    then have "refresh_one cfg d st = st\<lparr>rf_next :=
        bm_insert r \<lparr>en_room = d, en_poller = poller_for cfg m r\<rparr> (rf_next st)\<rparr>"
      using Some by (simp add: refresh_one_def entry_eta)
    moreover have "insert r (room_keys ds) = room_keys ds" using True by blast
    ultimately show ?thesis
      using st' Some ok True unfolding refreshed_def
      by (simp add: latest_room_snoc get_simps rooms_ok_insert)
  next
    case False
    then have none: "bm_get (rf_next st) r = None" "bm_get (rf_rooms st) r = bm_get (mp_rooms m) r"
      "bm_get (rf_inactive st) r = bm_get (mp_inactive_rooms m) r" using st' by simp_all
    show ?thesis
    proof (cases "bm_get (mp_rooms m) r")
      case (Some e)
      then have eq: "refresh_one cfg d st = st\<lparr>rf_rooms := bm_remove r (rf_rooms st),
          rf_next := bm_insert r \<lparr>en_room = d, en_poller = poller_for cfg m r\<rparr> (rf_next st)\<rparr>"
        using none \<open>ro_id d = Some r\<close> by (simp add: refresh_one_def poller_for_def entry_eta)
      have "r \<notin> set (mp_inactive_room_order m)" using inv disj Some by (simp add: multi_inv_def)
      then have "filter (\<lambda>x. x \<notin> insert r (room_keys ds)) (mp_inactive_room_order m) =
          filter (\<lambda>x. x \<notin> room_keys ds) (mp_inactive_room_order m)"
        by (intro filter_cong) auto
      then show ?thesis
        using st' \<open>ro_id d = Some r\<close> ok Some disj unfolding refreshed_def eq
        by (auto simp: latest_room_snoc get_simps rooms_ok_insert rooms_ok_remove)
    next
      case no_room: None
      have ord: "filter (\<lambda>x. x \<noteq> r) (filter (\<lambda>x. x \<notin> room_keys ds) (mp_inactive_room_order m)) =
          filter (\<lambda>x. x \<notin> insert r (room_keys ds)) (mp_inactive_room_order m)"
        by (simp add: conj_commute)
      show ?thesis
      proof (cases "bm_get (mp_inactive_rooms m) r")
        case (Some e)
        then have eq: "refresh_one cfg d st = st\<lparr>rf_inactive := bm_remove r (rf_inactive st),
            rf_order := filter (\<lambda>x. x \<noteq> r) (rf_order st),
            rf_next := bm_insert r \<lparr>en_room = d, en_poller = poller_for cfg m r\<rparr> (rf_next st)\<rparr>"
          using none no_room \<open>ro_id d = Some r\<close> by (simp add: refresh_one_def poller_for_def entry_eta)
        show ?thesis
          using st' \<open>ro_id d = Some r\<close> ok Some no_room ord unfolding refreshed_def eq
          by (auto simp: latest_room_snoc get_simps rooms_ok_insert rooms_ok_remove)
      next
        case None
        have "bm_get (rf_checkpoints st) r = bm_get (mp_checkpoints m) r" using st' False by simp
        then have eq: "refresh_one cfg d st = st\<lparr>rf_checkpoints := bm_remove r (rf_checkpoints st),
            rf_next := bm_insert r \<lparr>en_room = d, en_poller = poller_for cfg m r\<rparr> (rf_next st)\<rparr>"
          using none no_room None \<open>ro_id d = Some r\<close> by (simp add: refresh_one_def poller_for_def entry_eta)
        have "r \<notin> set (mp_inactive_room_order m)" using inv None by (simp add: multi_inv_def)
        then have "filter (\<lambda>x. x \<notin> insert r (room_keys ds)) (mp_inactive_room_order m) =
            filter (\<lambda>x. x \<notin> room_keys ds) (mp_inactive_room_order m)"
          by (intro filter_cong) auto
        then show ?thesis
          using st' \<open>ro_id d = Some r\<close> ok None no_room unfolding refreshed_def eq
          by (auto simp: latest_room_snoc get_simps rooms_ok_insert bm_inv_remove)
      qed
    qed
  qed
qed

lemma refreshed_fold:
  assumes "multi_inv m"
  shows "refreshed cfg m ds (fold (refresh_one cfg) ds (refresh_init m))"
  by (induction ds rule: rev_induct) (simp_all add: refreshed_init refreshed_step assms)

end
