(* ===== verification/MultiRoomRefresh.thy ===== *)
theory MultiRoomRefresh imports MultiRoomInv begin

text \<open>
  A refresh of the joined rooms as a whole: the rooms that left become inactive, and the
  inactive rooms beyond the limit are reduced to their checkpoints, never one with a backlog.
\<close>

subsection \<open>Rooms that left\<close>

definition tracked_ok :: "(string, room_entry) bmap \<times> string list \<Rightarrow> bool" where
  "tracked_ok st \<longleftrightarrow> rooms_ok (fst st) \<and> distinct (snd st) \<and>
     (\<forall>r. r \<in> set (snd st) \<longleftrightarrow> bm_get (fst st) r \<noteq> None)"

lemma remember_inactive_ok:
  assumes "tracked_ok st" "entry_ok e"
  shows "tracked_ok (remember_inactive_room r e st)"
  using assms by (cases st) (auto simp: tracked_ok_def remember_inactive_room_def rooms_ok_insert get_simps)

lemma remember_inactive_get:
  "bm_get (fst (remember_inactive_room r e st)) k = (if k = r then Some e else bm_get (fst st) k)"
  by (cases st) (simp add: remember_inactive_room_def get_simps)

lemma fold_inactive:
  assumes "tracked_ok st" "\<forall>(r, e)\<in>set xs. entry_ok e" "distinct (map fst xs)"
  shows "tracked_ok (fold (\<lambda>(r, e). remember_inactive_room r e) xs st) \<and>
    (\<forall>k. bm_get (fst (fold (\<lambda>(r, e). remember_inactive_room r e) xs st)) k =
       (case map_of xs k of Some e \<Rightarrow> Some e | None \<Rightarrow> bm_get (fst st) k))"
  using assms
proof (induction xs arbitrary: st)
  case (Cons x xs)
  obtain r e where x: "x = (r, e)" by (cases x)
  have ok: "tracked_ok (remember_inactive_room r e st)"
    using Cons.prems x by (intro remember_inactive_ok) auto
  have none: "map_of xs r = None" using Cons.prems(3) x by (simp add: map_of_eq_None_iff)
  from Cons.IH [OF ok] Cons.prems(2,3) x none show ?case
    by (auto simp: remember_inactive_get split: option.splits)
qed simp

subsection \<open>Pruning\<close>

definition saved :: "string \<Rightarrow> room_entry \<Rightarrow> (string, string list \<times> bool) bmap \<Rightarrow> bool" where
  "saved r e cps \<longleftrightarrow> po_initialized (en_poller e) \<longrightarrow>
     bm_get cps r = Some (sn_order (po_seen (en_poller e)), sn_order (po_seen (en_poller e)) = [])"

lemma saved_save: "saved r e (save_checkpoint r e cps)"
  by (auto simp: saved_def save_checkpoint_def current_checkpoint_def checkpoint_from_seen_def
      checkpoint_known_empty_def checkpoint_new_def get_simps)

lemma save_other: "k \<noteq> r \<Longrightarrow> bm_get (save_checkpoint r e cps) k = bm_get cps k"
  by (auto simp: save_checkpoint_def get_simps split: option.splits)

lemma save_inv: "bm_inv cps \<Longrightarrow> bm_inv (save_checkpoint r e cps)"
  by (auto simp: save_checkpoint_def inv_intros split: option.splits)

lemma removable_room_ok:
  assumes "removable_room inactive order = Some r" "bm_inv inactive"
  obtains e where "bm_get inactive r = Some e" "\<not> has_pending_backlog (en_poller e)"
proof (cases "find (removable inactive) order")
  case (Some x)
  then have "r = x" using assms(1) by (simp add: removable_room_def)
  moreover have "removable inactive x" using Some by (auto simp: find_Some_iff)
  ultimately have "removable inactive r" by simp
  with that show ?thesis by (auto simp: removable_def split: option.splits)
next
  case None
  then obtain e where "(r, e) \<in> set inactive" "\<not> has_pending_backlog (en_poller e)"
    using assms(1) by (auto simp: removable_room_def find_Some_iff) (metis nth_mem)
  with that assms(2) show ?thesis by (metis bm_inv_distinct map_of_eq_Some_iff)
qed

lemma removable_room_none:
  assumes "removable_room inactive order = None" "(r, e) \<in> set inactive"
  shows "has_pending_backlog (en_poller e)"
  using assms by (cases "find (removable inactive) order") (auto simp: removable_room_def find_None_iff)

text \<open>What pruning guarantees, from the rooms, order and checkpoints it is given.\<close>

definition pruned :: "nat \<Rightarrow> inactive_state \<Rightarrow> inactive_state \<Rightarrow> bool" where
  "pruned limit st st' \<longleftrightarrow>
     (case (st, st') of ((ina, ord, cps), (ina', ord', cps')) \<Rightarrow>
       tracked_ok (ina', ord') \<and> bm_inv cps' \<and>
       (\<forall>r. bm_get ina' r = bm_get ina r \<and> bm_get cps' r = bm_get cps r \<or>
         (\<exists>e. bm_get ina r = Some e \<and> bm_get ina' r = None \<and> \<not> has_pending_backlog (en_poller e) \<and>
            saved r e cps')) \<and>
       (length ina' \<le> limit \<or> (\<forall>(r, e)\<in>set ina'. has_pending_backlog (en_poller e))))"

lemma pruned_loop:
  assumes "tracked_ok (ina, ord)" "bm_inv cps"
  shows "pruned limit (ina, ord, cps) (prune_loop limit (ina, ord, cps))"
  using assms
proof (induction limit "(ina, ord, cps)" arbitrary: ina ord cps rule: prune_loop.induct)
  case (1 limit ina ord cps)
  have inv: "bm_inv ina" using "1.prems"(1) by (simp add: tracked_ok_def rooms_ok_def)
  show ?case
  proof (cases "length ina \<le> limit \<or> removable_room ina ord = None")
    case True
    then have "prune_loop limit (ina, ord, cps) = (ina, ord, cps)"
      by (subst prune_loop.simps) auto
    moreover have "length ina \<le> limit \<or> (\<forall>(r, e)\<in>set ina. has_pending_backlog (en_poller e))"
      using True removable_room_none by blast
    ultimately show ?thesis using "1.prems" by (simp add: pruned_def)
  next
    case False
    then obtain r where r: "\<not> length ina \<le> limit" "removable_room ina ord = Some r" by auto
    obtain e where e: "bm_get ina r = Some e" "\<not> has_pending_backlog (en_poller e)"
      using removable_room_ok [OF r(2) inv] by blast
    let ?ina = "bm_remove r ina" and ?ord = "filter (\<lambda>x. x \<noteq> r) ord" and ?cps = "save_checkpoint r e cps"
    have step: "prune_loop limit (ina, ord, cps) = prune_loop limit (?ina, ?ord, ?cps)"
      using r e by (subst prune_loop.simps) simp
    have ok: "tracked_ok (?ina, ?ord)"
      using "1.prems"(1) by (auto simp: tracked_ok_def rooms_ok_remove get_simps)
    have "pruned limit (?ina, ?ord, ?cps) (prune_loop limit (?ina, ?ord, ?cps))"
      using "1.hyps" [OF r(1,2)] ok save_inv [OF "1.prems"(2)] e by simp
    then obtain ina' ord' cps' where p: "prune_loop limit (?ina, ?ord, ?cps) = (ina', ord', cps')"
      "tracked_ok (ina', ord')" "bm_inv cps'"
      "\<And>k. bm_get ina' k = bm_get ?ina k \<and> bm_get cps' k = bm_get ?cps k \<or>
         (\<exists>e. bm_get ?ina k = Some e \<and> bm_get ina' k = None \<and> \<not> has_pending_backlog (en_poller e) \<and> saved k e cps')"
      "length ina' \<le> limit \<or> (\<forall>(r, e)\<in>set ina'. has_pending_backlog (en_poller e))"
      unfolding pruned_def by (cases "prune_loop limit (?ina, ?ord, ?cps)") auto
    have "bm_get ina' k = bm_get ina k \<and> bm_get cps' k = bm_get cps k \<or>
       (\<exists>e. bm_get ina k = Some e \<and> bm_get ina' k = None \<and> \<not> has_pending_backlog (en_poller e) \<and> saved k e cps')" for k
    proof (cases "k = r")
      case True
      then have "bm_get ina' r = None" "bm_get cps' r = bm_get ?cps r"
        using p(4) [of r] by (simp_all add: get_simps)
      then have "saved r e cps'" using saved_save [of r e cps] by (simp add: saved_def)
      with True e \<open>bm_get ina' r = None\<close> show ?thesis by blast
    next
      case False
      then show ?thesis using p(4) [of k] by (simp add: get_simps save_other)
    qed
    then show ?thesis unfolding step p(1) pruned_def using p(2,3,5) by simp
  qed
qed

subsection \<open>A refresh\<close>

text \<open>What becomes of a room that was tracked before.\<close>

definition kept_or_saved :: "multi_poller \<Rightarrow> multi_poller \<Rightarrow> string \<Rightarrow> room_entry \<Rightarrow> bool" where
  "kept_or_saved m m' r e \<longleftrightarrow>
     bm_get (mp_inactive_rooms m') r = Some e \<or>
     (bm_get (mp_inactive_rooms m') r = None \<and> \<not> has_pending_backlog (en_poller e) \<and> saved r e (mp_checkpoints m'))"

lemma apply_discovery_spec:
  assumes "multi_inv m" "m' = apply_discovery ds m"
  shows "multi_inv m' \<and>
    (\<forall>r. bm_get (mp_rooms m') r = (if r \<in> room_keys ds
       then Some \<lparr>en_room = latest_room ds r, en_poller = poller_for (mc_room_polling (mp_config m)) m r\<rparr> else None)) \<and>
    (\<forall>r e. r \<notin> room_keys ds \<longrightarrow> bm_get (mp_rooms m) r = Some e \<or> bm_get (mp_inactive_rooms m) r = Some e \<longrightarrow>
       kept_or_saved m m' r e) \<and>
    (\<forall>r. bm_get (mp_rooms m) r = None \<and> bm_get (mp_inactive_rooms m) r = None \<and> r \<notin> room_keys ds \<longrightarrow>
       bm_get (mp_checkpoints m') r = bm_get (mp_checkpoints m) r) \<and>
    (length (mp_inactive_rooms m') \<le> max (mc_max_inactive_rooms (mp_config m)) 1 \<or>
       (\<forall>(r, e)\<in>set (mp_inactive_rooms m'). has_pending_backlog (en_poller e)))"
proof -
  let ?cfg = "mc_room_polling (mp_config m)" and ?lim = "max (mc_max_inactive_rooms (mp_config m)) 1"
  define st where "st = fold (refresh_one ?cfg) ds (refresh_init m)"
  note rf = refreshed_fold [OF assms(1), of ?cfg ds, folded st_def, unfolded refreshed_def]
  have inv: "tracked_ok (rf_inactive st, rf_order st)"
    using rf assms(1) by (auto simp: tracked_ok_def multi_inv_def)
  have rooms: "\<forall>(r, e)\<in>set (rf_rooms st). entry_ok e" "distinct (map fst (rf_rooms st))"
    using rf by (auto simp: rooms_ok_def bm_inv_distinct)
  obtain ina ord where gone: "fold (\<lambda>(r, e). remember_inactive_room r e) (rf_rooms st)
      (rf_inactive st, rf_order st) = (ina, ord)" by fastforce
  have ina: "tracked_ok (ina, ord)"
    "\<And>k. bm_get ina k = (case bm_get (rf_rooms st) k of Some e \<Rightarrow> Some e | None \<Rightarrow> bm_get (rf_inactive st) k)"
    using fold_inactive [OF inv rooms, unfolded gone fst_conv] by blast+
  have "filter (\<lambda>r. bm_contains r ina) ord = ord"
    using ina(1) by (auto simp: tracked_ok_def bm_contains_iff intro: filter_True)
  obtain ina' ord' cps' where pr: "prune_loop ?lim (ina, ord, rf_checkpoints st) = (ina', ord', cps')"
    by (metis prod_cases3)
  have "pruned ?lim (ina, ord, rf_checkpoints st) (ina', ord', cps')"
    using pruned_loop [OF ina(1), of "rf_checkpoints st" ?lim] rf pr by simp
  then have p: "tracked_ok (ina', ord')" "bm_inv cps'"
    "\<And>r. bm_get ina' r = bm_get ina r \<and> bm_get cps' r = bm_get (rf_checkpoints st) r \<or>
       (\<exists>e. bm_get ina r = Some e \<and> bm_get ina' r = None \<and> \<not> has_pending_backlog (en_poller e) \<and> saved r e cps')"
    "length ina' \<le> ?lim \<or> (\<forall>(r, e)\<in>set ina'. has_pending_backlog (en_poller e))"
    unfolding pruned_def by auto
  have m': "mp_rooms m' = rf_next st" "mp_inactive_rooms m' = ina'" "mp_inactive_room_order m' = ord'"
    "mp_checkpoints m' = cps'"
    using assms(2) pr gone \<open>filter (\<lambda>r. bm_contains r ina) ord = ord\<close>
    by (simp_all add: apply_discovery_def st_def refresh_init_def prune_inactive_rooms_def Let_def)
  have gone_key: "bm_get ina r = (if r \<in> room_keys ds then None else
      case bm_get (mp_rooms m) r of Some e \<Rightarrow> Some e | None \<Rightarrow> bm_get (mp_inactive_rooms m) r)" for r
    using ina(2) [of r] rf by (simp split: option.splits)
  have next_key: "bm_get (rf_next st) r = (if r \<in> room_keys ds
      then Some \<lparr>en_room = latest_room ds r, en_poller = poller_for ?cfg m r\<rparr> else None)" for r
    using rf by blast
  have disj: "bm_get (rf_next st) r = None \<or> bm_get ina' r = None" for r
    using next_key [of r] gone_key [of r] p(3) [of r] by (cases "r \<in> room_keys ds") auto
  have "rooms_ok (rf_next st)" using rf by blast
  then have "multi_inv m'" using p(1,2) disj unfolding multi_inv_def m' tracked_ok_def by simp
  moreover have "kept_or_saved m m' r e" if "r \<notin> room_keys ds"
    "bm_get (mp_rooms m) r = Some e \<or> bm_get (mp_inactive_rooms m) r = Some e" for r e
  proof -
    have "bm_get (mp_rooms m) r = None \<or> bm_get (mp_inactive_rooms m) r = None"
      using assms(1) by (simp add: multi_inv_def)
    then have "bm_get ina r = Some e" using that gone_key [of r] by auto
    then show ?thesis using p(3) [of r] unfolding kept_or_saved_def m' by auto
  qed
  moreover have "bm_get cps' r = bm_get (mp_checkpoints m) r"
    if "bm_get (mp_rooms m) r = None" "bm_get (mp_inactive_rooms m) r = None" "r \<notin> room_keys ds" for r
  proof -
    have "bm_get ina r = None" using that gone_key [of r] by simp
    moreover have "bm_get (rf_checkpoints st) r = bm_get (mp_checkpoints m) r" using rf that by simp
    ultimately show ?thesis using p(3) [of r] by auto
  qed
  ultimately show ?thesis using next_key p(4) unfolding m' by simp
qed

end
