(* ===== verification/MultiRoomPass.thy ===== *)
theory MultiRoomPass imports MultiRoomRefresh "HOL-Library.Multiset" begin

text \<open>
  A pass over all rooms. While any room has a backlog nothing is delivered and every batch
  goes back to its poller; otherwise all batches are delivered, in one order. Either way no
  message of a finished poll is lost.
\<close>

subsection \<open>The batch\<close>

text \<open>The updates of the finished polls and whether any room is still catching up.\<close>

definition outcome_update :: "(poll_error + poll_update) option \<Rightarrow> poll_update option" where
  "outcome_update o' = (case o' of
     Some (Inr u) \<Rightarrow> Some u | Some (Inl (_, Some u)) \<Rightarrow> Some u | _ \<Rightarrow> None)"

definition outcome_messages :: "(poll_error + poll_update) option \<Rightarrow> message list" where
  "outcome_messages o' = (case o' of Some (Inr u) \<Rightarrow> pu_messages u | _ \<Rightarrow> [])"

definition outcome_pending :: "room_entry \<Rightarrow> (poll_error + poll_update) option \<Rightarrow> bool" where
  "outcome_pending e o' = (case outcome_update o' of
     Some u \<Rightarrow> \<not> pu_commit_seen u | None \<Rightarrow> has_pending_backlog (en_poller e))"

lemma add_completion_parts:
  "rb_updates (add_completion t r e out b) =
     rb_updates b @ (case outcome_update out of Some u \<Rightarrow> [(r, u)] | None \<Rightarrow> [])"
  "rb_messages (add_completion t r e out b) =
     rb_messages b @ index_messages r (en_room e) (outcome_messages out)"
  "rb_pending (add_completion t r e out b) = (rb_pending b \<or> outcome_pending e out)"
  by (cases out; cases "the out"; cases "snd (projl (the out))";
      auto simp: add_completion_def outcome_update_def outcome_messages_def outcome_pending_def
        index_messages_def Let_def split: sum.splits option.splits prod.splits)+

definition results :: "time \<Rightarrow> completions \<Rightarrow> multi_poller \<Rightarrow> (string \<times> room_entry \<times> (poll_error + poll_update) option) list" where
  "results cutoff cs m = List.map_filter (\<lambda>(r, src). map_option (\<lambda>e. (r, e, poll_room cutoff src e))
     (bm_get (mp_rooms m) r)) cs"

lemma batch_parts:
  "rb_updates (poll_rooms_concurrently cutoff cs m) =
     List.map_filter (\<lambda>(r, e, out). map_option (Pair r) (outcome_update out)) (results cutoff cs m)"
  "rb_messages (poll_rooms_concurrently cutoff cs m) =
     concat (map (\<lambda>(r, e, out). index_messages r (en_room e) (outcome_messages out)) (results cutoff cs m))"
  "rb_pending (poll_rooms_concurrently cutoff cs m) \<longleftrightarrow>
     (\<exists>(r, e, out)\<in>set (results cutoff cs m). outcome_pending e out)"
proof -
  define F where "F = (\<lambda>(r, src) b. case bm_get (mp_rooms m) r of
         Some e \<Rightarrow> add_completion (case mc_room_poll_timeout (mp_config m) of Some t \<Rightarrow> t | None \<Rightarrow> 0)
             r e (poll_room cutoff src e) b
       | None \<Rightarrow> b)"
  have res: "results cutoff ((r, src) # xs) m = (case bm_get (mp_rooms m) r of
      Some e \<Rightarrow> (r, e, poll_room cutoff src e) # results cutoff xs m | None \<Rightarrow> results cutoff xs m)" for r src xs
    by (simp add: results_def map_filter_def split: option.splits)
  have "rb_updates (fold F cs b) = rb_updates b @
      List.map_filter (\<lambda>(r, e, out). map_option (Pair r) (outcome_update out)) (results cutoff cs m) \<and>
    rb_messages (fold F cs b) = rb_messages b @
      concat (map (\<lambda>(r, e, out). index_messages r (en_room e) (outcome_messages out)) (results cutoff cs m)) \<and>
    (rb_pending (fold F cs b) \<longleftrightarrow> rb_pending b \<or> (\<exists>(r, e, out)\<in>set (results cutoff cs m). outcome_pending e out))" for b
  proof (induction cs arbitrary: b)
    case Nil
    show ?case by (simp add: results_def map_filter_def)
  next
    case (Cons x cs)
    obtain r src where x: "x = (r, src)" by (cases x)
    show ?case
    proof (cases "bm_get (mp_rooms m) r")
      case None
      with Cons x show ?thesis by (simp add: F_def res)
    next
      case (Some e)
      then have "fold F (x # cs) b = fold F cs (add_completion (case mc_room_poll_timeout (mp_config m) of
          Some t \<Rightarrow> t | None \<Rightarrow> 0) r e (poll_room cutoff src e) b)"
        by (simp add: F_def x)
      with Cons Some x show ?thesis
        by (simp add: res add_completion_parts) (auto simp: map_filter_def split: option.splits)
    qed
  qed
  from this [of empty_batch] show "rb_updates (poll_rooms_concurrently cutoff cs m) =
     List.map_filter (\<lambda>(r, e, out). map_option (Pair r) (outcome_update out)) (results cutoff cs m)"
    "rb_messages (poll_rooms_concurrently cutoff cs m) =
     concat (map (\<lambda>(r, e, out). index_messages r (en_room e) (outcome_messages out)) (results cutoff cs m))"
    "rb_pending (poll_rooms_concurrently cutoff cs m) \<longleftrightarrow>
     (\<exists>(r, e, out)\<in>set (results cutoff cs m). outcome_pending e out)"
    unfolding poll_rooms_concurrently_def F_def [symmetric] by (simp_all add: empty_batch_def)
qed

subsection \<open>Applying the updates\<close>

lemma apply_room_updates_get:
  assumes "distinct (map fst us)"
  shows "bm_get (fst (fold (apply_room_update pending) us (rooms, cps))) r =
    (case map_of us r of
       None \<Rightarrow> bm_get rooms r
     | Some u \<Rightarrow> map_option (\<lambda>e. e\<lparr>en_poller := apply_update (demote pending u) (en_poller e)\<rparr>) (bm_get rooms r))"
  using assms
proof (induction us arbitrary: rooms cps)
  case (Cons x us)
  obtain k u where x: "x = (k, u)" by (cases x)
  obtain rooms1 cps1 where st: "apply_room_update pending x (rooms, cps) = (rooms1, cps1)" by fastforce
  have get: "bm_get rooms1 j = (if j = k then map_option (\<lambda>e. e\<lparr>en_poller :=
      apply_update (demote pending u) (en_poller e)\<rparr>) (bm_get rooms k) else bm_get rooms j)" for j
    using st x by (auto simp: apply_room_update_def Let_def get_simps split: option.splits)
  have "map_of us k = None" using Cons.prems x by (simp add: map_of_eq_None_iff)
  with Cons.IH [of rooms1 cps1] Cons.prems st x get show ?case by (simp split: option.splits)
qed simp

lemma apply_room_updates_inv:
  "bm_inv rooms \<Longrightarrow> bm_inv (fst (fold (apply_room_update pending) us (rooms, cps)))"
proof (induction us arbitrary: rooms cps)
  case (Cons x us)
  obtain rooms1 cps1 where st: "apply_room_update pending x (rooms, cps) = (rooms1, cps1)" by fastforce
  have "bm_inv rooms1"
    using st Cons.prems by (auto simp: apply_room_update_def Let_def inv_intros split: prod.splits option.splits)
  with Cons.IH [of rooms1 cps1] st show ?case by simp
qed simp

text \<open>A demoted update keeps the poller well formed.\<close>

lemma poller_inv_demoted:
  assumes "poller_inv p" "update_ok p u"
  shows "poller_inv (apply_update (demote pending u) p)"
proof (cases "pending \<and> pu_commit_seen u \<and> pu_messages u \<noteq> []")
  case True
  with assms show ?thesis
    by (auto simp: demote_def poller_inv_def apply_update_def update_ok_def ids_of_rev has_pending_backlog_def)
next
  case False
  then have "demote pending u = u" by (auto simp: demote_def)
  with poller_inv_apply [OF assms] show ?thesis by simp
qed

lemma outcome_update_ok:
  assumes "poller_inv (en_poller e)" "outcome_update (poll_room cutoff src e) = Some u"
  shows "update_ok (en_poller e) u"
proof (cases src)
  case None
  with assms(2) show ?thesis by (simp add: poll_room_def outcome_update_def)
next
  case (Some s)
  then have "result_ok (en_poller e) (poll_once_transaction_before s (en_poller e) (Some cutoff))"
    using transaction_ok [OF assms(1)] by blast
  then show ?thesis
    using assms(2) Some
    by (cases "poll_once_transaction_before s (en_poller e) (Some cutoff)")
      (auto simp: poll_room_def outcome_update_def split: option.splits prod.splits)
qed

lemma in_map_filter: "y \<in> set (List.map_filter f xs) \<longleftrightarrow> (\<exists>x\<in>set xs. f x = Some y)"
  by (induction xs) (auto simp: map_filter_def split: option.splits)

lemma map_filter_fst_distinct:
  assumes "distinct (map fst xs)" "\<And>x y. f x = Some y \<Longrightarrow> fst y = fst x"
  shows "distinct (map fst (List.map_filter f xs))"
  using assms(1)
proof (induction xs)
  case (Cons x xs)
  show ?case
  proof (cases "f x")
    case None
    with Cons show ?thesis by (simp add: map_filter_def)
  next
    case (Some y)
    have "fst y \<notin> fst ` set (List.map_filter f xs)"
    proof
      assume "fst y \<in> fst ` set (List.map_filter f xs)"
      then obtain z where z: "z \<in> set (List.map_filter f xs)" "fst y = fst z" by (rule imageE)
      from z(1) obtain x' where x': "x' \<in> set xs" "f x' = Some z" unfolding in_map_filter by (rule bexE)
      have "fst x = fst x'" using assms(2) [OF Some] assms(2) [OF x'(2)] z(2) by simp
      with x'(1) Cons.prems show False by auto
    qed
    moreover have "List.map_filter f (x # xs) = y # List.map_filter f xs"
      using Some by (simp add: map_filter_def)
    ultimately show ?thesis using Cons by simp
  qed
qed (simp add: map_filter_def)

lemma results_distinct: "distinct (map fst cs) \<Longrightarrow> distinct (map fst (results cutoff cs m))"
  unfolding results_def by (rule map_filter_fst_distinct) auto

lemma updates_distinct:
  "distinct (map fst cs) \<Longrightarrow> distinct (map fst (rb_updates (poll_rooms_concurrently cutoff cs m)))"
  unfolding batch_parts by (rule map_filter_fst_distinct [OF results_distinct]) auto

lemma in_updates:
  "(r, u) \<in> set (rb_updates (poll_rooms_concurrently cutoff cs m)) \<longleftrightarrow>
    (\<exists>src e. (r, src) \<in> set cs \<and> bm_get (mp_rooms m) r = Some e \<and> outcome_update (poll_room cutoff src e) = Some u)"
proof -
  have res: "(r, e, out) \<in> set (results cutoff cs m) \<longleftrightarrow>
      (\<exists>src. (r, src) \<in> set cs \<and> bm_get (mp_rooms m) r = Some e \<and> out = poll_room cutoff src e)" for e out
    unfolding results_def in_map_filter by (auto intro: bexI [of _ "(r, _)"])
  have "(r, u) \<in> set (rb_updates (poll_rooms_concurrently cutoff cs m)) \<longleftrightarrow>
      (\<exists>e out. (r, e, out) \<in> set (results cutoff cs m) \<and> outcome_update out = Some u)"
    unfolding batch_parts(1) in_map_filter by (auto intro: bexI [of _ "(r, _, _)"])
  then show ?thesis unfolding res by blast
qed

lemma multi_inv_finish:
  assumes "multi_inv m" "distinct (map fst cs)"
    and "finish_poll errs (poll_rooms_concurrently cutoff cs m) m = (out, m')"
  shows "multi_inv m'"
proof -
  let ?b = "poll_rooms_concurrently cutoff cs m"
  define rooms where "rooms = fst (fold (apply_room_update (rb_pending ?b)) (rb_updates ?b) (mp_rooms m, []))"
  have m': "m' = m\<lparr>mp_rooms := rooms\<rparr>"
    using assms(3) by (simp add: finish_poll_def Let_def rooms_def)
  have get: "bm_get rooms r = (case map_of (rb_updates ?b) r of
       None \<Rightarrow> bm_get (mp_rooms m) r
     | Some u \<Rightarrow> map_option (\<lambda>e. e\<lparr>en_poller := apply_update (demote (rb_pending ?b) u) (en_poller e)\<rparr>)
         (bm_get (mp_rooms m) r))" for r
    unfolding rooms_def by (rule apply_room_updates_get [OF updates_distinct [OF assms(2)]])
  have "bm_inv rooms" unfolding rooms_def
    by (rule apply_room_updates_inv) (use assms(1) in \<open>simp add: multi_inv_def rooms_ok_def\<close>)
  moreover have "entry_ok e'" if "bm_get rooms r = Some e'" for r e'
  proof (cases "map_of (rb_updates ?b) r")
    case None
    with that get assms(1) show ?thesis by (auto simp: multi_inv_def rooms_ok_def)
  next
    case (Some u)
    then obtain src e where u: "bm_get (mp_rooms m) r = Some e" "outcome_update (poll_room cutoff src e) = Some u"
      using in_updates map_of_SomeD by metis
    have ok: "poller_inv (en_poller e)" using assms(1) u(1) by (auto simp: multi_inv_def rooms_ok_def entry_ok_def)
    have "e' = e\<lparr>en_poller := apply_update (demote (rb_pending ?b) u) (en_poller e)\<rparr>"
      using that get Some u(1) by simp
    then show ?thesis
      using poller_inv_demoted [OF ok outcome_update_ok [OF ok u(2)]]
      by (simp add: entry_ok_def) (simp add: apply_update_def)
  qed
  moreover have "bm_get rooms r = None \<longleftrightarrow> bm_get (mp_rooms m) r = None" for r
    using get by (auto split: option.splits)
  ultimately show ?thesis using assms(1) unfolding m' multi_inv_def by (simp add: rooms_ok_def)
qed

subsection \<open>The messages of one room\<close>

lemma index_messages_room:
  "filter (\<lambda>im. rm_room_id (snd im) = q) (index_messages r room ms) =
     (if q = r then index_messages r room ms else [])"
  by (auto simp: index_messages_def filter_map comp_def split_def)

lemma index_messages_content: "map (\<lambda>im. rm_message (snd im)) (index_messages r room ms) = ms"
  by (simp add: index_messages_def comp_def split_def)

lemma room_messages:
  assumes "distinct (map fst rs)" "(r, e, out) \<in> set rs"
  shows "filter (\<lambda>im. rm_room_id (snd im) = r)
      (concat (map (\<lambda>(r, e, out). index_messages r (en_room e) (outcome_messages out)) rs)) =
    index_messages r (en_room e) (outcome_messages out)"
  using assms
proof (induction rs)
  case (Cons x rs)
  obtain r' e' out' where x: "x = (r', e', out')" by (cases x)
  have none: "filter (\<lambda>im. rm_room_id (snd im) = q)
      (concat (map (\<lambda>(r, e, out). index_messages r (en_room e) (outcome_messages out)) ys)) = []"
    if "q \<notin> fst ` set ys" for q ys
    using that by (induction ys) (auto simp: index_messages_room)
  show ?case
  proof (cases "r = r'")
    case True
    then have "(r, e, out) = x" using Cons.prems x by (auto simp: image_iff)
    moreover have "r \<notin> fst ` set rs" using Cons.prems(1) True x by simp
    ultimately show ?thesis using x none by (simp add: index_messages_room)
  next
    case False
    with Cons x show ?thesis by (auto simp: index_messages_room)
  qed
qed simp

definition delivered_messages :: "multi_room_poll \<Rightarrow> room_message list" where
  "delivered_messages out = List.map_filter (\<lambda>ev. case ev of Inr m \<Rightarrow> Some m | Inl _ \<Rightarrow> None) (mr_events out)"

lemma delivered_finish:
  assumes "finish_poll errs b m = (out, m')"
  shows "delivered_messages out = (if rb_pending b then [] else map snd (sort_key message_key (rb_messages b)))"
proof -
  have errs: "List.map_filter (\<lambda>ev. case ev of Inr m \<Rightarrow> Some m | Inl _ \<Rightarrow> None) (map Inl es) = ([] :: room_message list)"
    for es :: "error list"
    by (induction es) (simp_all add: map_filter_def)
  have all: "List.map_filter (\<lambda>ev. case ev of Inr m \<Rightarrow> Some m | Inl _ \<Rightarrow> None) (map (\<lambda>im. Inr (f im)) xs @ map Inl es) = map f xs"
    for f :: "nat \<times> room_message \<Rightarrow> room_message" and xs and es :: "error list"
    by (induction xs) (simp_all add: map_filter_def errs [unfolded map_filter_def])
  show ?thesis
    using assms by (auto simp: finish_poll_def Let_def delivered_messages_def errs all simp del: map_append)
qed

lemma delivered_room:
  assumes "distinct (map fst cs)" "finish_poll errs (poll_rooms_concurrently cutoff cs m) m = (out, m')"
    and "(r, src) \<in> set cs" "bm_get (mp_rooms m) r = Some e"
    and "\<not> rb_pending (poll_rooms_concurrently cutoff cs m)"
  shows "mset (map rm_message (filter (\<lambda>x. rm_room_id x = r) (delivered_messages out))) =
    mset (outcome_messages (poll_room cutoff src e))"
proof -
  let ?b = "poll_rooms_concurrently cutoff cs m"
  have "(r, e, poll_room cutoff src e) \<in> set (results cutoff cs m)"
    unfolding results_def in_map_filter using assms(3,4) by (auto intro: bexI [of _ "(r, src)"])
  note room = room_messages [OF results_distinct [OF assms(1)] this]
  have "mset (map rm_message (filter (\<lambda>x. rm_room_id x = r) (delivered_messages out))) =
      image_mset (\<lambda>im. rm_message (snd im)) (filter_mset (\<lambda>im. rm_room_id (snd im) = r) (mset (rb_messages ?b)))"
    unfolding delivered_finish [OF assms(2)] using assms(5)
    by (simp add: filter_map comp_def image_mset.compositionality del: filter_sort)
  also have "\<dots> = mset (map (\<lambda>im. rm_message (snd im))
      (filter (\<lambda>im. rm_room_id (snd im) = r) (rb_messages ?b)))"
    by simp
  also have "\<dots> = mset (outcome_messages (poll_room cutoff src e))"
    unfolding batch_parts(2) room index_messages_content ..
  finally show ?thesis .
qed

text \<open>What a pass makes of a poll that ended with a committed update.\<close>

lemma finish_get:
  assumes "distinct (map fst cs)" "finish_poll errs (poll_rooms_concurrently cutoff cs m) m = (out, m')"
    and "(r, src) \<in> set cs" "bm_get (mp_rooms m) r = Some e"
    and "outcome_update (poll_room cutoff src e) = Some u"
  shows "bm_get (mp_rooms m') r = Some (e\<lparr>en_poller :=
    apply_update (demote (rb_pending (poll_rooms_concurrently cutoff cs m)) u) (en_poller e)\<rparr>)"
proof -
  have "(r, u) \<in> set (rb_updates (poll_rooms_concurrently cutoff cs m))"
    unfolding in_updates using assms(3-5) by blast
  then have "map_of (rb_updates (poll_rooms_concurrently cutoff cs m)) r = Some u"
    using updates_distinct [OF assms(1)] by (simp add: map_of_eq_Some_iff)
  then show ?thesis
    using assms(2,4) apply_room_updates_get [OF updates_distinct [OF assms(1)]]
    by (auto simp: finish_poll_def Let_def)
qed

text \<open>The batch of a poller that holds one is what its next pass answers, whatever the service does.\<close>

lemma demoted_next_pass:
  assumes "pu_commit_seen u" "pu_messages u \<noteq> []" "pu_backlog_next u = None"
  shows "poll_once_transaction_before src (apply_update (demote True u) p) before =
    Inr (commit_update (rev (pu_messages u)) (pu_seen_ids u))"
  using assms by (simp add: poll_once_transaction_before_def apply_update_def demote_def)

lemma checkpoint_after_update_current:
  "pu_initialized u \<Longrightarrow> checkpoint_after_update p r u = Some c \<Longrightarrow> current_checkpoint (apply_update u p) r = Some c"
  by (auto simp: checkpoint_after_update_def current_checkpoint_def apply_update_def split: if_splits)

lemma checkpoint_room [simp]: "rc_room_id (checkpoint_from_seen r s) = r"
  by (simp add: checkpoint_from_seen_def checkpoint_new_def checkpoint_known_empty_def)

lemma apply_room_updates_checkpoints:
  assumes "distinct (map fst us)" "c \<in> set (snd (fold (apply_room_update pending) us (rooms, cps)))"
  shows "c \<in> set cps \<or> (\<exists>r u e. (r, u) \<in> set us \<and> bm_get rooms r = Some e \<and>
    checkpoint_after_update (en_poller e) r (demote pending u) = Some c)"
  using assms
proof (induction us arbitrary: rooms cps)
  case (Cons x us)
  obtain k u where x: "x = (k, u)" by (cases x)
  obtain rooms1 cps1 where st: "apply_room_update pending x (rooms, cps) = (rooms1, cps1)" by fastforce
  have get: "bm_get rooms1 j = bm_get rooms j" if "j \<noteq> k" for j
    using st x that by (auto simp: apply_room_update_def Let_def get_simps split: option.splits)
  have new: "c \<in> set cps \<or> (\<exists>e. bm_get rooms k = Some e \<and>
      checkpoint_after_update (en_poller e) k (demote pending u) = Some c)" if "c \<in> set cps1"
    using st x that by (auto simp: apply_room_update_def Let_def split: option.splits)
  have fst: "r \<noteq> k" if "(r, v) \<in> set us" for r v using Cons.prems(1) x that by (auto simp: image_iff)
  have "distinct (map fst us)" "c \<in> set (snd (fold (apply_room_update pending) us (rooms1, cps1)))"
    using Cons.prems st by simp_all
  from Cons.IH [OF this] show ?case
  proof
    assume "c \<in> set cps1"
    from new [OF this] x show ?thesis by (simp add: exI [of _ k]) blast
  next
    assume "\<exists>r u e. (r, u) \<in> set us \<and> bm_get rooms1 r = Some e \<and>
      checkpoint_after_update (en_poller e) r (demote pending u) = Some c"
    then obtain r v e where later: "(r, v) \<in> set us" "bm_get rooms1 r = Some e"
      "checkpoint_after_update (en_poller e) r (demote pending v) = Some c" by blast
    then have "bm_get rooms r = Some e" using get fst by metis
    with later x show ?thesis by (intro disjI2 exI [of _ r] exI [of _ v] exI [of _ e]) simp
  qed
qed simp

lemma demote_initialized [simp]: "pu_initialized (demote b u) = pu_initialized u"
  by (simp add: demote_def)

end
