(* ===== verification/Discovery.thy ===== *)
theory Discovery imports MultiRoomInv begin

text \<open>
  The discovery of the joined rooms (\<open>discover_joined_rooms\<close>): over a finite feed of pages the
  loop ends, and its answer is the list of the rooms, each once and with its last record.
\<close>

subsection \<open>Adding the rooms of a page\<close>

text \<open>\<open>listed ds rooms\<close>: \<open>rooms\<close> has each room of \<open>ds\<close> once.\<close>

definition listed :: "room list \<Rightarrow> room list \<Rightarrow> bool" where
  "listed ds rooms \<longleftrightarrow>
     distinct (List.map_filter ro_id rooms) \<and>
     (\<forall>d r. ro_id d = Some r \<longrightarrow> (d \<in> set rooms \<longleftrightarrow> r \<in> room_keys ds \<and> d = latest_room ds r)) \<and>
     filter (\<lambda>d. ro_id d = None) rooms = filter (\<lambda>d. ro_id d = None) ds"

definition indexed :: "room list \<Rightarrow> (string, nat) bmap \<Rightarrow> bool" where
  "indexed rooms idx \<longleftrightarrow> bm_inv idx \<and>
     (\<forall>r k. bm_get idx r = Some k \<longleftrightarrow> k < length rooms \<and> ro_id (rooms ! k) = Some r)"

lemma map_filter_Cons:
  "List.map_filter f (x # xs) = (case f x of None \<Rightarrow> List.map_filter f xs | Some y \<Rightarrow> y # List.map_filter f xs)"
  "List.map_filter f [] = []"
  by (simp_all add: map_filter_def split: option.splits)

lemma map_filter_append: "List.map_filter f (xs @ ys) = List.map_filter f xs @ List.map_filter f ys"
  by (simp add: map_filter_def)

lemma map_filter_update:
  "k < length xs \<Longrightarrow> f y = f (xs ! k) \<Longrightarrow> List.map_filter f (xs[k := y]) = List.map_filter f xs"
  by (induction xs arbitrary: k) (auto simp: map_filter_def nth_Cons split: nat.splits)

lemma filter_update:
  "k < length xs \<Longrightarrow> \<not> P y \<Longrightarrow> \<not> P (xs ! k) \<Longrightarrow> filter P (xs[k := y]) = filter P xs"
  by (induction xs arbitrary: k) (auto simp: nth_Cons split: nat.splits)

lemma set_map_filter_ids: "r \<in> set (List.map_filter ro_id rooms) \<longleftrightarrow> (\<exists>d\<in>set rooms. ro_id d = Some r)"
  by (induction rooms) (auto simp: map_filter_def split: option.splits)

lemma ids_distinct_eq:
  "distinct (List.map_filter ro_id rooms) \<Longrightarrow> i < length rooms \<Longrightarrow> j < length rooms \<Longrightarrow>
   ro_id (rooms ! i) = Some r \<Longrightarrow> ro_id (rooms ! j) = Some r \<Longrightarrow> i = j"
proof (induction rooms arbitrary: i j)
  case (Cons x xs)
  have later: "ro_id (xs ! k) = Some r \<Longrightarrow> k < length xs \<Longrightarrow> r \<in> set (List.map_filter ro_id xs)" for k
    by (auto simp: set_map_filter_ids)
  show ?case
    using Cons later by (cases i; cases j) (auto simp: map_filter_Cons split: option.splits)
qed simp

lemma listed_replace:
  assumes "listed ds rooms" "k < length rooms" "ro_id (rooms ! k) = Some r" "ro_id d = Some r"
  shows "listed (ds @ [d]) (rooms[k := d])"
proof -
  have d1: "distinct (List.map_filter ro_id rooms)" using assms(1) by (simp add: listed_def)
  have only: "j = k" if "j < length rooms" "ro_id (rooms ! j) = Some r" for j
    using ids_distinct_eq [OF d1 that(1) assms(2) that(2) assms(3)] .
  have mem: "x \<in> set (rooms[k := d]) \<longleftrightarrow> x = d \<or> (x \<in> set rooms \<and> ro_id x \<noteq> Some r)" for x
  proof
    assume "x \<in> set (rooms[k := d])"
    then obtain j where j: "j < length rooms" "x = (rooms[k := d]) ! j"
      unfolding in_set_conv_nth length_list_update by blast
    show "x = d \<or> (x \<in> set rooms \<and> ro_id x \<noteq> Some r)"
    proof (cases "j = k")
      case True
      with j show ?thesis by simp
    next
      case False
      then have "ro_id (rooms ! j) \<noteq> Some r" using only [OF j(1)] by blast
      with False j show ?thesis by simp
    qed
  next
    assume "x = d \<or> (x \<in> set rooms \<and> ro_id x \<noteq> Some r)"
    then show "x \<in> set (rooms[k := d])"
    proof
      assume "x = d"
      then show ?thesis using assms(2) by (simp add: set_update_memI)
    next
      assume x: "x \<in> set rooms \<and> ro_id x \<noteq> Some r"
      then obtain j where j: "j < length rooms" "rooms ! j = x" by (auto simp: in_set_conv_nth)
      with x assms(3) have "k \<noteq> j" by auto
      with j have "(rooms[k := d]) ! j = x" by simp
      with j(1) show ?thesis by (metis length_list_update nth_mem)
    qed
  qed
  have "(x \<in> set (rooms[k := d]) \<longleftrightarrow> q \<in> room_keys (ds @ [d]) \<and> x = latest_room (ds @ [d]) q)"
    if "ro_id x = Some q" for x q
    using assms(1,4) that unfolding mem listed_def latest_room_snoc by auto
  moreover have "List.map_filter ro_id (rooms[k := d]) = List.map_filter ro_id rooms"
    using map_filter_update [of k rooms ro_id d] assms(2-4) by simp
  moreover have "filter (\<lambda>d. ro_id d = None) (rooms[k := d]) = filter (\<lambda>d. ro_id d = None) rooms"
    using filter_update [of k rooms "\<lambda>d. ro_id d = None" d] assms(2-4) by simp
  ultimately show ?thesis using assms(1,4) by (simp add: listed_def)
qed

lemma listed_snoc:
  assumes "listed ds rooms" "\<forall>r. ro_id d = Some r \<longrightarrow> r \<notin> room_keys ds"
  shows "listed (ds @ [d]) (rooms @ [d])"
proof -
  have "r \<notin> set (List.map_filter ro_id rooms)" if "ro_id d = Some r" for r
    using assms that unfolding set_map_filter_ids listed_def by blast
  then have "distinct (List.map_filter ro_id (rooms @ [d]))"
    using assms(1) by (auto simp: listed_def map_filter_append) (auto simp: map_filter_def split: option.splits)
  moreover have "(x \<in> set (rooms @ [d]) \<longleftrightarrow> q \<in> room_keys (ds @ [d]) \<and> x = latest_room (ds @ [d]) q)"
    if "ro_id x = Some q" for x q
    using assms that unfolding listed_def latest_room_snoc by (auto split: option.splits)
  ultimately show ?thesis using assms(1) by (simp add: listed_def)
qed

lemma add_rooms_listed:
  assumes "listed ds rooms" "indexed rooms idx" "add_rooms rs (rooms, idx) = (rooms', idx')"
  shows "listed (ds @ rs) rooms' \<and> indexed rooms' idx' \<and> length rooms \<le> length rooms'"
  using assms
proof (induction rs arbitrary: ds rooms idx)
  case (Cons d rs)
  have keys: "r \<in> room_keys ds \<longleftrightarrow> bm_get idx r \<noteq> None" for r
  proof -
    have "bm_get idx r \<noteq> None \<longleftrightarrow> (\<exists>x\<in>set rooms. ro_id x = Some r)"
    proof -
      have "bm_get idx r \<noteq> None \<longleftrightarrow> (\<exists>k. bm_get idx r = Some k)" by auto
      also have "\<dots> \<longleftrightarrow> (\<exists>k<length rooms. ro_id (rooms ! k) = Some r)"
        using Cons.prems(2) by (simp add: indexed_def)
      also have "\<dots> \<longleftrightarrow> (\<exists>x\<in>set rooms. ro_id x = Some r)" by (auto simp: in_set_conv_nth Bex_def)
      finally show ?thesis .
    qed
    moreover have "ro_id (latest_room ds r) = Some r" if "r \<in> room_keys ds"
    proof -
      have "filter (\<lambda>d. ro_id d = Some r) ds \<noteq> []" using that by (auto simp: room_keys_def filter_empty_conv)
      from last_in_set [OF this] show ?thesis unfolding latest_room_def by simp
    qed
    ultimately show ?thesis using Cons.prems(1) unfolding listed_def by blast
  qed
  consider (anon) "ro_id d = None" | (known) r k where "ro_id d = Some r" "bm_get idx r = Some k"
    | (new) r where "ro_id d = Some r" "bm_get idx r = None" by fastforce
  then show ?case
  proof cases
    case anon
    have "indexed (rooms @ [d]) idx"
      using Cons.prems(2) anon by (auto simp: indexed_def nth_append less_Suc_eq)
    with Cons.IH [OF listed_snoc [OF Cons.prems(1)] this] Cons.prems(3) anon show ?thesis by simp
  next
    case (known r k)
    then have k: "k < length rooms" "ro_id (rooms ! k) = Some r" using Cons.prems(2) by (simp_all add: indexed_def)
    have "indexed (rooms[k := d]) idx"
      using Cons.prems(2) known k by (auto simp: indexed_def nth_list_update)
    with Cons.IH [OF listed_replace [OF Cons.prems(1) k known(1)] this] Cons.prems(3) known show ?thesis by simp
  next
    case (new r)
    have "indexed (rooms @ [d]) (bm_insert r (length rooms) idx)"
    proof -
      have "\<not> (k < length rooms \<and> ro_id (rooms ! k) = Some r)" for k
        using Cons.prems(2) new(2) unfolding indexed_def by (metis option.distinct(1))
      then show ?thesis
        using Cons.prems(2) new(1) by (auto simp: indexed_def nth_append get_simps inv_intros less_Suc_eq)
    qed
    moreover have "listed (ds @ [d]) (rooms @ [d])"
      by (rule listed_snoc [OF Cons.prems(1)]) (use keys new in auto)
    ultimately show ?thesis
      using Cons.IH [of "ds @ [d]" "rooms @ [d]" "bm_insert r (length rooms) idx"] Cons.prems(3) new by simp
  qed
qed simp

subsection \<open>The loop over the pages\<close>

definition rooms_of :: "room page list \<Rightarrow> room list" where
  "rooms_of ps = concat (map pg_items ps)"

definition honest_rooms :: "room page list \<Rightarrow> room_source \<Rightarrow> bool" where
  "honest_rooms ps src \<longleftrightarrow> (\<forall>n req page. src n req = Inr page \<longrightarrow>
     (case req of
        ListRoomsReq _ \<Rightarrow> page = hd ps
      | NextRoomsReq u \<Rightarrow> \<exists>i. Suc i < length ps \<and> pg_next (ps ! i) = Some u \<and> page = ps ! Suc i))"

text \<open>How a discovery over the feed \<open>ps\<close> can end.\<close>

fun discovery_end :: "room page list \<Rightarrow> room_source \<Rightarrow> nat \<Rightarrow> room list res \<Rightarrow> bool" where
  "discovery_end ps src limit (Inr rooms) \<longleftrightarrow> listed (rooms_of ps) rooms \<and> length rooms \<le> limit"
| "discovery_end ps src limit (Inl e) \<longleftrightarrow>
     (\<exists>n req. src n req = Inl e) \<or>
     (e = discovery_exceeded limit \<and> (\<exists>j rooms. listed (rooms_of (take j ps)) rooms \<and> limit < length rooms))"

lemma feed_step:
  assumes "feed_ok ps" "honest_rooms ps src" "i < length ps" "pg_next (ps ! i) = Some u"
    and "src n (NextRoomsReq u) = Inr page"
  shows "Suc i < length ps \<and> page = ps ! Suc i"
proof -
  obtain j where j: "Suc j < length ps" "pg_next (ps ! j) = Some u" "page = ps ! Suc j"
    using assms(2,5) unfolding honest_rooms_def by fastforce
  have "distinct (map pg_next ps)" using assms(1) by (simp add: feed_ok_def)
  then have "i = j" using assms(3,4) j(1,2) by (simp add: distinct_conv_nth) (metis Suc_lessD)
  with j show ?thesis by simp
qed

lemma discover_pages_end:
  assumes "feed_ok ps" "honest_rooms ps src" "i < length ps"
    and "listed (rooms_of (take i ps)) rooms" "indexed rooms idx"
  shows "\<exists>r. discover_pages src limit n (ps ! i) (rooms, idx) = Some r \<and> discovery_end ps src limit r"
  using assms(3-)
proof (induction "length ps - i" arbitrary: i n rooms idx rule: less_induct)
  case less
  obtain rooms' idx' where add: "add_rooms (pg_items (ps ! i)) (rooms, idx) = (rooms', idx')" by fastforce
  have "rooms_of (take (Suc i) ps) = rooms_of (take i ps) @ pg_items (ps ! i)"
    using less.prems(1) by (simp add: rooms_of_def take_Suc_conv_app_nth)
  then have inv: "listed (rooms_of (take (Suc i) ps)) rooms'" "indexed rooms' idx'"
    using add_rooms_listed [OF less.prems(2,3) add] by simp_all
  note run = discover_pages.simps [of src limit n "ps ! i" "(rooms, idx)", unfolded add Let_def]
  show ?case
  proof (cases "limit < length rooms'")
    case True
    with run inv(1) show ?thesis by auto
  next
    case False
    show ?thesis
    proof (cases "pg_next (ps ! i)")
      case None
      have "Suc i = length ps"
        using None feed_ok_next [OF assms(1) less.prems(1)] less.prems(1) by auto
      with inv(1) False run None show ?thesis by simp
    next
      case (Some u)
      show ?thesis
      proof (cases "src (Suc n) (NextRoomsReq u)")
        case (Inl e)
        with run Some False show ?thesis by auto
      next
        case (Inr page)
        from feed_step [OF assms(1,2) less.prems(1) Some Inr]
        have "Suc i < length ps" "page = ps ! Suc i" by simp_all
        with less.hyps [OF _ _ inv, of "Suc n"] less.prems(1) run Some Inr False show ?thesis by simp
      qed
    qed
  qed
qed

lemma listed_Nil: "listed [] []" "indexed [] []"
  by (simp_all add: listed_def indexed_def room_keys_def map_filter_Cons)

end
