(* ===== verification/MultiRoomProps.thy ===== *)
theory MultiRoomProps imports MultiRoomPass Discovery PollerProps begin

text \<open>The properties of the multi-room poller, with concrete instances.\<close>

subsection \<open>A concrete poller\<close>

definition demo_room :: "string \<Rightarrow> room" where
  "demo_room r = \<lparr>ro_id = Some r, ro_title = None, ro_room_type = None, ro_is_locked = None,
     ro_team_id = None, ro_last_activity = None, ro_creator_id = None, ro_created = None,
     ro_owner_id = None, ro_classification_id = None, ro_is_announcement_only = None,
     ro_is_read_only = None, ro_is_public = None, ro_made_public = None, ro_description = None\<rparr>"

definition demo_multi :: multi_poller where
  "demo_multi = multi_poller_new\<lparr>
     mp_rooms := [(''r'', \<lparr>en_room = demo_room ''r'', en_poller = demo_poller\<rparr>)],
     mp_rooms_initialized := True, mp_last_room_discovery := Some 0\<rparr>"

lemma demo_multi_inv: "multi_inv demo_multi"
  using demo_poller_inv
  by (simp add: multi_inv_def demo_multi_def multi_poller_new_def rooms_ok_def entry_ok_def)
    (simp add: demo_poller_def with_seen_message_ids_def reseed_seen_message_ids_def)

lemma demo_multi_get: "bm_get (mp_rooms demo_multi) ''r'' = Some \<lparr>en_room = demo_room ''r'', en_poller = demo_poller\<rparr>"
  "''r'' \<notin> {''q''}"
  by (simp_all add: demo_multi_def)

lemma demo_room_keys [simp]: "room_keys [demo_room r] = {r}"
  by (auto simp: room_keys_def demo_room_def)

lemma demo_transaction:
  "poll_once_transaction_before (single_source [demo_msg ''a'']) demo_poller before =
     Inr (commit_update [demo_msg ''a''] [''a''])"
proof -
  have demo: "po_initialized demo_poller" "po_backlog_next demo_poller = None" "po_pending_fresh demo_poller = []"
    "po_pending_seen_ids demo_poller = []" "pc_max_pages_per_poll (po_config demo_poller) = Suc 0"
    "pc_max_pending_messages (po_config demo_poller) = 10000"
    by (simp_all add: demo_poller_def with_seen_message_ids_def reseed_seen_message_ids_def poller_new_def
        polling_config_default_def)
  have page: "collect_page_messages (po_seen demo_poller) [demo_msg ''a''] True emit {} =
      (([demo_msg ''a''], [''a''], False), {''a''})" for emit
    by (simp add: collect_page_messages_def demo_seen seen_contains_def)
  show ?thesis
    using page
    by (simp add: poll_once_transaction_before_def demo first_request_def single_source_def single_page_def
        ensure_pending_within_limit_def)
qed

definition demo_completions :: completions where
  "demo_completions = [(''r'', Some (single_source [demo_msg ''a'']))]"

lemma demo_pass:
  "distinct (map fst demo_completions)" "(''r'', Some (single_source [demo_msg ''a''])) \<in> set demo_completions"
  "pu_commit_seen (commit_update [demo_msg ''a''] [''a''])"
  by (simp_all add: demo_completions_def commit_update_def)

subsection \<open>The set of rooms\<close>

text \<open>
  C15. A refresh loses no room: afterwards the active rooms are exactly the discovered ones and
  each continues with the poller it had (active or inactive), a new room starts from its
  checkpoint; a room that is not discovered stays tracked as inactive with its poller, unless
  it has no backlog and was pruned, and then its memory is kept as a checkpoint. More than the
  allowed number of inactive rooms remain only when all of them have a backlog.
\<close>

theorem refresh_loses_no_room:
  assumes "multi_inv m" "refresh_rooms now (Inr ds) m = (res, m')"
  shows "(\<forall>r. bm_get (mp_rooms m') r = (if r \<in> room_keys ds
       then Some \<lparr>en_room = latest_room ds r, en_poller = poller_for (mc_room_polling (mp_config m)) m r\<rparr>
       else None)) \<and>
    (\<forall>r e. r \<notin> room_keys ds \<longrightarrow> bm_get (mp_rooms m) r = Some e \<or> bm_get (mp_inactive_rooms m) r = Some e \<longrightarrow>
       bm_get (mp_inactive_rooms m') r = Some e \<or>
       (\<not> has_pending_backlog (en_poller e) \<and> saved r e (mp_checkpoints m'))) \<and>
    (length (mp_inactive_rooms m') \<le> max (mc_max_inactive_rooms (mp_config m)) 1 \<or>
       (\<forall>(r, e)\<in>set (mp_inactive_rooms m'). has_pending_backlog (en_poller e)))"
proof -
  let ?m = "m\<lparr>mp_last_room_discovery := Some now\<rparr>"
  have inv: "multi_inv ?m" using assms(1) by (simp add: multi_inv_def)
  have m': "m' = apply_discovery ds ?m" using assms(2) by (simp add: refresh_rooms_def Let_def)
  have same: "poller_for cfg ?m r = poller_for cfg m r" for cfg r
    by (simp add: poller_for_def split: option.splits)
  show ?thesis
    using apply_discovery_spec [OF inv m'] unfolding same kept_or_saved_def by simp blast
qed

lemma refresh_loses_no_room_witness:
  "bm_get (mp_inactive_rooms (snd (refresh_rooms 5 (Inr [demo_room ''q'']) demo_multi))) ''r'' =
     Some \<lparr>en_room = demo_room ''r'', en_poller = demo_poller\<rparr> \<or>
   saved ''r'' \<lparr>en_room = demo_room ''r'', en_poller = demo_poller\<rparr>
     (mp_checkpoints (snd (refresh_rooms 5 (Inr [demo_room ''q'']) demo_multi)))"
proof -
  let ?run = "refresh_rooms 5 (Inr [demo_room ''q'']) demo_multi"
  have run: "?run = (fst ?run, snd ?run)" by simp
  note all = refresh_loses_no_room [OF demo_multi_inv run, THEN conjunct2, THEN conjunct1, unfolded demo_room_keys]
  from all [rule_format, OF demo_multi_get(2) disjI1 [OF demo_multi_get(1)]] show ?thesis by blast
qed

lemma multi_inv_refresh:
  assumes "multi_inv m"
  shows "multi_inv (snd (refresh_rooms now ds m))"
proof -
  have inv: "multi_inv (m\<lparr>mp_last_room_discovery := Some now\<rparr>)" using assms by (simp add: multi_inv_def)
  show ?thesis
    using apply_discovery_spec [OF inv refl] inv by (cases ds) (simp_all add: refresh_rooms_def Let_def)
qed

lemma rooms_ok_map:
  assumes "rooms_ok m" "\<And>k e. entry_ok e \<Longrightarrow> entry_ok (f k e)"
  shows "rooms_ok (map (\<lambda>(k, e). (k, f k e)) m)" "bm_get (map (\<lambda>(k, e). (k, f k e)) m) r = map_option (f r) (bm_get m r)"
proof -
  have get: "bm_get (map (\<lambda>(k, e). (k, f k e)) m) r = map_option (f r) (bm_get m r)" for r
    by (induction m) auto
  have "map fst (map (\<lambda>(k, e). (k, f k e)) m) = map fst m" by (induction m) auto
  then have "bm_inv (map (\<lambda>(k, e). (k, f k e)) m)"
    using assms(1) unfolding rooms_ok_def bm_inv_def by (simp only:)
  with assms get show "rooms_ok (map (\<lambda>(k, e). (k, f k e)) m)" by (auto simp: rooms_ok_def)
  show "bm_get (map (\<lambda>(k, e). (k, f k e)) m) r = map_option (f r) (bm_get m r)" by (rule get)
qed

lemma multi_inv_with_config:
  assumes "multi_inv m"
  shows "multi_inv (with_config cfg m)"
proof -
  have ok: "entry_ok (configure_entry (mc_room_polling cfg) e)" if e: "entry_ok e" for e
  proof -
    have "po_seed_seen_message_ids (set_config c p) = po_seed_seen_message_ids p" for c p
      by (simp add: set_config_def Let_def reseed_seen_message_ids_def split: option.splits)
    then show ?thesis
      using e poller_inv_set_config by (simp add: entry_ok_def configure_entry_def)
  qed
  note conf = rooms_ok_map [where f = "\<lambda>_. configure_entry (mc_room_polling cfg)", OF _ ok]
  have "rooms_ok (mp_rooms m)" "rooms_ok (mp_inactive_rooms m)" using assms by (simp_all add: multi_inv_def)
  with conf assms show ?thesis
    by (simp add: with_config_def Let_def multi_inv_def)
qed

lemma multi_inv_with_checkpoints:
  assumes "multi_inv m"
  shows "multi_inv (with_room_checkpoints cs m)"
proof -
  have ok: "entry_ok (case c of Some (ids, b) \<Rightarrow> e\<lparr>en_poller := replace_checkpoint ids b (en_poller e)\<rparr> | None \<Rightarrow> e)"
    if "entry_ok e" for c e
    using that poller_inv_replace
    by (auto simp: entry_ok_def replace_checkpoint_def Let_def reseed_seen_message_ids_def split: option.splits)
  note conf = rooms_ok_map [where f = "\<lambda>k e. case bm_get c k of
       Some (ids, b) \<Rightarrow> e\<lparr>en_poller := replace_checkpoint ids b (en_poller e)\<rparr> | None \<Rightarrow> e" for c, OF _ ok,
      folded reseed_rooms_def]
  have "bm_inv (fold (\<lambda>c. bm_insert (rc_room_id c) (rc_seen_message_ids c, rc_initialize_empty c)) cs [])"
  proof -
    have "bm_inv (fold (\<lambda>c. bm_insert (rc_room_id c) (rc_seen_message_ids c, rc_initialize_empty c)) cs acc)"
      if "bm_inv acc" for acc
      using that by (induction cs arbitrary: acc) (simp_all add: inv_intros)
    then show ?thesis by simp
  qed
  moreover have "rooms_ok (mp_rooms m)" "rooms_ok (mp_inactive_rooms m)" using assms by (simp_all add: multi_inv_def)
  ultimately show ?thesis
    using assms conf by (simp add: with_room_checkpoints_def Let_def multi_inv_def bm_inv_retain)
qed

text \<open>
  C14. Every operation keeps the multi-room poller well formed: no room is both active and
  inactive, the order of the inactive rooms lists exactly them, and every room's poller keeps
  its own invariant; so no poller, and no backlog, is ever duplicated or forgotten.
\<close>

theorem multi_poller_well_formed:
  assumes "multi_inv m" "\<forall>rs. distinct (map fst (cs rs))"
  shows "multi_inv (with_config cfg m) \<and> multi_inv (with_room_checkpoints cps m) \<and>
    multi_inv (snd (refresh_rooms now ds m)) \<and> multi_inv (snd (multi_poll_once now cutoff ds cs m))"
proof -
  have pass: "multi_inv (snd (case finish_poll errs (poll_rooms_concurrently cutoff (cs (room_ids q)) q) q of
      (r, q') \<Rightarrow> (Inr r :: multi_room_poll res, q')))" if "multi_inv q" for errs q
    using multi_inv_finish [OF that, of "cs (room_ids q)" errs cutoff] assms(2)
    by (simp split: prod.splits)
  have ref: "multi_inv q" if "refresh_rooms now ds m = (x, q)" for x q
    using multi_inv_refresh [OF assms(1), of now ds] that by simp
  have "multi_inv (snd (multi_poll_once now cutoff ds cs m))"
  proof (cases "refresh_rooms now ds m")
    case (Pair x q)
    then show ?thesis
      using pass [OF ref [OF Pair]] pass [OF assms(1)] ref [OF Pair]
      by (cases x) (simp_all add: multi_poll_once_def)
  qed
  then show ?thesis
    using multi_inv_with_config multi_inv_with_checkpoints multi_inv_refresh assms(1) by blast
qed

lemma multi_poller_well_formed_witness:
  "multi_inv (snd (multi_poll_once 5 5 (Inr [demo_room ''q'']) (map (\<lambda>r. (r, Some demo_source)) \<circ> remdups) demo_multi))"
  using multi_poller_well_formed [OF demo_multi_inv, of "map (\<lambda>r. (r, Some demo_source)) \<circ> remdups"
      multi_config_default "[]" 5 "Inr [demo_room ''q'']" 5]
  by (simp add: comp_def)

subsection \<open>What a pass delivers\<close>

text \<open>
  C13. A pass loses no message and delivers none twice: the batch of a room whose poll
  succeeded is delivered completely and remembered as seen, or nothing at all is delivered
  (some room is still catching up), the room's memory stays, and the room's next pass has
  exactly this batch again, whatever the service answers then.
\<close>

theorem pass_keeps_every_message:
  assumes "multi_inv m" "distinct (map fst cs)"
    and "finish_poll errs (poll_rooms_concurrently cutoff cs m) m = (out, m')"
    and "(r, Some src) \<in> set cs" "bm_get (mp_rooms m) r = Some e"
    and "poll_once_transaction_before src (en_poller e) (Some cutoff) = Inr u" "pu_commit_seen u"
  shows "(\<exists>e'. bm_get (mp_rooms m') r = Some e' \<and>
      mset (map rm_message (filter (\<lambda>x. rm_room_id x = r) (delivered_messages out))) = mset (pu_messages u) \<and>
      po_seen (en_poller e') = remember_newest_first (pu_seen_ids u)
        (pc_max_seen_ids (po_config (en_poller e))) (po_seen (en_poller e))) \<or>
    (\<exists>e' u'. bm_get (mp_rooms m') r = Some e' \<and> delivered_messages out = [] \<and>
      po_seen (en_poller e') = po_seen (en_poller e) \<and>
      (\<forall>s before. poll_once_transaction_before s (en_poller e') before = Inr u') \<and>
      pu_messages u' = pu_messages u \<and> pu_seen_ids u' = pu_seen_ids u \<and> pu_commit_seen u')"
proof -
  let ?b = "poll_rooms_concurrently cutoff cs m"
  have out: "poll_room cutoff (Some src) e = Some (Inr u)" using assms(6) by (simp add: poll_room_def)
  have upd: "outcome_update (poll_room cutoff (Some src) e) = Some u" by (simp add: out outcome_update_def)
  note get = finish_get [OF assms(2-5) upd]
  have "poller_inv (en_poller e)" using assms(1,5) by (auto simp: multi_inv_def rooms_ok_def entry_ok_def)
  then have ok: "pu_backlog_next u = None" using outcome_update_ok [OF _ upd] assms(7) by (simp add: update_ok_def)
  consider (all) "\<not> rb_pending ?b" | (none) "rb_pending ?b" "pu_messages u = []"
    | (held) "rb_pending ?b" "pu_messages u \<noteq> []" by blast
  then show ?thesis
  proof cases
    case all
    then have "demote (rb_pending ?b) u = u" by (simp add: demote_def)
    then show ?thesis
      using delivered_room [OF assms(2-5) all] get assms(7) out
      by (simp add: outcome_messages_def apply_update_def)
  next
    case none
    then have "demote (rb_pending ?b) u = u" by (simp add: demote_def)
    then show ?thesis
      using delivered_finish [OF assms(3)] get none assms(7) by (simp add: apply_update_def)
  next
    case held
    then have next_pass: "poll_once_transaction_before s (apply_update (demote (rb_pending ?b) u) (en_poller e)) before =
        Inr (commit_update (rev (pu_messages u)) (pu_seen_ids u))" for s before
      using demoted_next_pass assms(7) ok by simp
    have "po_seen (apply_update (demote (rb_pending ?b) u) (en_poller e)) = po_seen (en_poller e)"
      using held assms(7) by (simp add: apply_update_def demote_def)
    then show ?thesis
      using delivered_finish [OF assms(3)] get held(1) next_pass
      by (intro disjI2) (simp add: commit_update_def)
  qed
qed

lemma pass_keeps_every_message_witness:
  "let q = snd (finish_poll [] (poll_rooms_concurrently 9 demo_completions demo_multi) demo_multi) in
   bm_get (mp_rooms q) ''r'' \<noteq> None"
proof -
  let ?run = "finish_poll [] (poll_rooms_concurrently 9 demo_completions demo_multi) demo_multi"
  have run: "?run = (fst ?run, snd ?run)" by simp
  from pass_keeps_every_message [OF demo_multi_inv demo_pass(1) run demo_pass(2) demo_multi_get(1) _ demo_pass(3)]
  show ?thesis unfolding Let_def using demo_transaction by auto
qed

text \<open>
  The events of a pass are the messages in the order of their creation times, over all
  rooms, followed by the errors of the rooms.
\<close>

theorem pass_orders_events:
  "sorted (map (\<lambda>x. me_created (rm_message x)) (delivered_messages (fst (finish_poll errs b m)))) \<and>
   mr_events (fst (finish_poll errs b m)) =
     map Inr (delivered_messages (fst (finish_poll errs b m))) @ map Inl (errs @ rb_errors b)"
proof -
  have del: "delivered_messages (fst (finish_poll errs b m)) =
      (if rb_pending b then [] else map snd (sort_key message_key (rb_messages b)))"
    using delivered_finish [of errs b m] by (metis prod.collapse)
  have sorted: "sorted (map (\<lambda>x. me_created (rm_message (snd x))) (sort_key message_key ms))" for ms
  proof -
    have "sorted (map message_key (sort_key message_key ms))" by simp
    then have "sorted (map (\<lambda>x. fst (message_key x)) (sort_key message_key ms))"
      unfolding sorted_map by (rule sorted_wrt_mono_rel [rotated]) (auto simp: less_eq_prod_def)
    then show ?thesis by (simp add: comp_def message_key_def split_def)
  qed
  show ?thesis unfolding del using sorted by (auto simp: finish_poll_def Let_def comp_def)
qed

text \<open>The poller behind a checkpoint: it has committed its pass and has no backlog.\<close>

lemma pass_checkpoint_poller:
  assumes "multi_inv m" "distinct (map fst cs)"
    and "finish_poll errs (poll_rooms_concurrently cutoff cs m) m = (out, m')" "c \<in> set (mr_checkpoints out)"
  shows "\<exists>e. bm_get (mp_rooms m') (rc_room_id c) = Some e \<and> poller_inv (en_poller e) \<and> po_initialized (en_poller e) \<and>
    \<not> has_pending_backlog (en_poller e) \<and> po_seed_seen_message_ids (en_poller e) = None \<and>
    c = checkpoint_from_seen (rc_room_id c) (po_seen (en_poller e))"
proof -
  let ?b = "poll_rooms_concurrently cutoff cs m"
  have "c \<in> set (snd (fold (apply_room_update (rb_pending ?b)) (rb_updates ?b) (mp_rooms m, [])))"
    using assms(3,4) by (auto simp: finish_poll_def Let_def)
  from apply_room_updates_checkpoints [OF updates_distinct [OF assms(2)] this] obtain r u e
    where u: "(r, u) \<in> set (rb_updates ?b)" "bm_get (mp_rooms m) r = Some e"
      "checkpoint_after_update (en_poller e) r (demote (rb_pending ?b) u) = Some c" by auto
  let ?u = "demote (rb_pending ?b) u"
  from u(1,2) obtain src where src: "(r, src) \<in> set cs" "outcome_update (poll_room cutoff src e) = Some u"
    unfolding in_updates by auto
  have inv: "poller_inv (en_poller e)" using assms(1) u(2) by (auto simp: multi_inv_def rooms_ok_def entry_ok_def)
  have commit: "pu_commit_seen ?u" using u(3) by (simp add: checkpoint_after_update_def split: if_splits)
  then have "?u = u" by (auto simp: demote_def split: if_splits)
  with outcome_update_ok [OF inv src(2)] have ok: "update_ok (en_poller e) ?u" by simp
  from commit have after: "\<not> has_pending_backlog (apply_update ?u (en_poller e))" "pu_initialized ?u"
    using ok by (auto simp: update_ok_def apply_update_def has_pending_backlog_def)
  then have "current_checkpoint (apply_update ?u (en_poller e)) r = Some c"
    using checkpoint_after_update_current [OF _ u(3)] by simp
  then have c: "c = checkpoint_from_seen r (po_seen (apply_update ?u (en_poller e)))"
    by (simp add: current_checkpoint_def split: if_splits)
  moreover have "rc_room_id c = r" by (simp add: c)
  moreover have "poller_inv (apply_update ?u (en_poller e))" by (rule poller_inv_apply [OF inv ok])
  moreover have "po_initialized (apply_update ?u (en_poller e))" "po_seed_seen_message_ids (apply_update ?u (en_poller e)) = None"
    using after(2) by (simp_all add: apply_update_def)
  ultimately show ?thesis using finish_get [OF assms(2,3) src(1) u(2) src(2)] after(1) by simp
qed

text \<open>
  Every checkpoint a pass hands out is the checkpoint of the room's poller after the
  pass, so an application that stores it restarts that room with what was delivered as seen.
\<close>

theorem pass_checkpoints_current:
  assumes "multi_inv m" "distinct (map fst cs)"
    and "finish_poll errs (poll_rooms_concurrently cutoff cs m) m = (out, m')" "c \<in> set (mr_checkpoints out)"
  shows "\<exists>e. bm_get (mp_rooms m') (rc_room_id c) = Some e \<and>
    current_checkpoint (en_poller e) (rc_room_id c) = Some c"
  using pass_checkpoint_poller [OF assms] by (auto simp: current_checkpoint_def)

definition demo_checkpoint :: room_checkpoint where
  "demo_checkpoint = checkpoint_from_seen ''r'' (remember_newest_first [''a''] (pc_max_seen_ids (po_config demo_poller)) (po_seen demo_poller))"

lemma demo_pass_checkpoints:
  "mr_checkpoints (fst (finish_poll [] (poll_rooms_concurrently 9 demo_completions demo_multi) demo_multi)) = [demo_checkpoint]"
proof -
  have "poll_room 9 (Some (single_source [demo_msg ''a''])) \<lparr>en_room = demo_room ''r'', en_poller = demo_poller\<rparr> =
      Some (Inr (commit_update [demo_msg ''a''] [''a'']))"
    by (simp add: poll_room_def demo_transaction)
  then have "rb_updates (poll_rooms_concurrently 9 demo_completions demo_multi) =
        [(''r'', commit_update [demo_msg ''a''] [''a''])]"
      "\<not> rb_pending (poll_rooms_concurrently 9 demo_completions demo_multi)"
    by (simp_all add: batch_parts results_def demo_completions_def demo_multi_get(1) map_filter_def
        outcome_update_def outcome_pending_def demo_pass)
  then show ?thesis
    by (simp add: finish_poll_def Let_def apply_room_update_def demo_multi_get(1) demote_def
        checkpoint_after_update_def demo_checkpoint_def) (simp add: commit_update_def)
qed

lemma pass_checkpoints_current_witness:
  "\<exists>e. bm_get (mp_rooms (snd (finish_poll [] (poll_rooms_concurrently 9 demo_completions demo_multi) demo_multi))) ''r'' = Some e \<and>
     current_checkpoint (en_poller e) ''r'' = Some demo_checkpoint"
proof -
  let ?run = "finish_poll [] (poll_rooms_concurrently 9 demo_completions demo_multi) demo_multi"
  have run: "?run = (fst ?run, snd ?run)" by simp
  have "demo_checkpoint \<in> set (mr_checkpoints (fst ?run))" by (simp add: demo_pass_checkpoints)
  from pass_checkpoints_current [OF demo_multi_inv demo_pass(1) run this] show ?thesis
    by (simp add: demo_checkpoint_def)
qed

subsection \<open>Discovery\<close>

text \<open>
  C16. Over a finite list of pages the discovery ends. It answers every room once, with its
  last record, and at most the allowed number of rooms; or it reports an error of the service,
  or that there are more rooms than allowed, and then there are.
\<close>

theorem discovery_lists_each_room_once:
  assumes "feed_ok ps" "honest_rooms ps src"
  shows "\<exists>r. discover_joined_rooms src cfg = Some r \<and> discovery_end ps src (max (dc_max_rooms cfg) 1) r"
proof -
  define req where "req = ListRoomsReq (list_rooms_default\<lparr>lr_team_id := dc_team_id cfg,
    lr_room_type := dc_room_type cfg, lr_sort_by := dc_sort_by cfg, lr_max := Some (dc_page_size cfg)\<rparr>)"
  show ?thesis
  proof (cases "src 0 req")
    case (Inl e)
    then show ?thesis by (auto simp: discover_joined_rooms_def req_def)
  next
    case (Inr page)
    then have "page = ps ! 0" "0 < length ps"
      using assms unfolding honest_rooms_def req_def feed_ok_def by (fastforce simp: hd_conv_nth)+
    with Inr show ?thesis
      using discover_pages_end [OF assms, of 0 "[]" "[]" "max (dc_max_rooms cfg) 1" 0] listed_Nil
      by (simp add: discover_joined_rooms_def req_def rooms_of_def)
  qed
qed

definition demo_room_page :: "room page" where
  "demo_room_page = \<lparr>pg_items = [demo_room ''r'', demo_room ''q'', demo_room ''r''], pg_next = None\<rparr>"

lemma discovery_lists_each_room_once_witness:
  "\<exists>rooms. discover_joined_rooms (\<lambda>n req. case req of ListRoomsReq _ \<Rightarrow> Inr demo_room_page
     | NextRoomsReq _ \<Rightarrow> Inl (Other ''gone'')) discovery_config_default = Some (Inr rooms) \<and>
     listed [demo_room ''r'', demo_room ''q'', demo_room ''r''] rooms"
proof -
  let ?src = "\<lambda>n req. case req of ListRoomsReq _ \<Rightarrow> Inr demo_room_page | NextRoomsReq _ \<Rightarrow> Inl (Other ''gone'')"
  have "feed_ok [demo_room_page]" by (simp add: feed_ok_def demo_room_page_def)
  moreover have "honest_rooms [demo_room_page] ?src"
    by (auto simp: honest_rooms_def split: room_request.splits)
  moreover obtain rooms where "discover_joined_rooms ?src discovery_config_default = Some (Inr rooms)"
    by (simp add: discover_joined_rooms_def discover_pages.simps demo_room_page_def demo_room_def
        discovery_config_default_def)
  ultimately show ?thesis
    using discovery_lists_each_room_once [of "[demo_room_page]" ?src discovery_config_default]
    by (auto simp: rooms_of_def demo_room_page_def)
qed

end
