(* ===== verification/BotIds.thy ===== *)
theory BotIds imports RustStr begin

text \<open>
  The encoding of message ids in the account bot's state file (\<open>encode_state_id\<close> and
  \<open>decode_state_id\<close> of \<open>examples/account_bot.rs\<close>): unreserved ASCII stays, every other byte
  becomes a percent sign and two hexadecimal digits.
\<close>

subsection \<open>Bytes\<close>

definition in_range :: "char \<Rightarrow> nat \<Rightarrow> nat \<Rightarrow> bool" where
  "in_range c lo hi \<longleftrightarrow> lo \<le> byte c \<and> byte c \<le> hi"

definition unreserved :: "char \<Rightarrow> bool" where
  "unreserved c \<longleftrightarrow> in_range c 65 90 \<or> in_range c 97 122 \<or> in_range c 48 57 \<or>
     c = CHR ''.'' \<or> c = CHR ''_'' \<or> c = CHR ''-'' \<or> c = CHR ''~''"

definition hex_digit :: "nat \<Rightarrow> char" where
  "hex_digit n = char_of (if n < 10 then 48 + n else 55 + n)"

definition hex_value :: "char \<Rightarrow> nat option" where
  "hex_value c =
     (if in_range c 48 57 then Some (byte c - 48)
      else if in_range c 97 102 then Some (byte c - 97 + 10)
      else if in_range c 65 70 then Some (byte c - 65 + 10)
      else None)"

definition encode_byte :: "char \<Rightarrow> string" where
  "encode_byte c =
     (if unreserved c then [c] else [CHR ''%'', hex_digit (byte c div 16), hex_digit (byte c mod 16)])"

definition encode_state_id :: "string \<Rightarrow> string" where
  "encode_state_id s = concat (map encode_byte s)"

fun decode_bytes :: "string \<Rightarrow> string option" where
  "decode_bytes [] = Some []"
| "decode_bytes (c # s) =
     (if c = CHR ''%'' then
        (case s of
           h # l # r \<Rightarrow>
             (case hex_value h of None \<Rightarrow> None | Some a \<Rightarrow>
              case hex_value l of None \<Rightarrow> None | Some b \<Rightarrow>
                map_option ((#) (char_of (16 * a + b))) (decode_bytes r))
         | _ \<Rightarrow> None)
      else map_option ((#) c) (decode_bytes s))"

definition decode_state_id :: "string \<Rightarrow> string option" where
  "decode_state_id s =
     (case decode_bytes s of
        Some b \<Rightarrow> if utf8_valid b then Some b else None
      | None \<Rightarrow> None)"

subsection \<open>What is encoded decodes to itself\<close>

lemma byte_of_literal: "byte c = n \<longleftrightarrow> n < 256 \<and> c = char_of n"
  by (metis byte_char_of byte_inject byte_lt)

lemma hex_value_digit: "n < 16 \<Longrightarrow> hex_value (hex_digit n) = Some n"
  by (auto simp: hex_value_def hex_digit_def in_range_def byte_char_of)

lemma percent_reserved [simp]: "\<not> unreserved (CHR ''%'')"
  by (simp add: unreserved_def in_range_def byte_def)

lemma decode_bytes_encode: "decode_bytes (encode_byte c @ s) = map_option ((#) c) (decode_bytes s)"
proof (cases "unreserved c")
  case True
  then have "c \<noteq> CHR ''%''" by auto
  with True show ?thesis by (simp add: encode_byte_def)
next
  case False
  have "char_of (16 * (byte c div 16) + byte c mod 16) = c"
    by (simp only: mult_div_mod_eq) (simp add: byte_def)
  then show ?thesis
    using False byte_lt [of c] by (simp add: encode_byte_def hex_value_digit)
qed

lemma decode_encode_bytes: "decode_bytes (encode_state_id s @ r) = map_option ((@) s) (decode_bytes r)"
  unfolding encode_state_id_def
  by (induction s) (auto simp: decode_bytes_encode option.map_comp comp_def option.map_ident)

lemma decode_encode: "utf8_valid s \<Longrightarrow> decode_state_id (encode_state_id s) = Some s"
  using decode_encode_bytes [of s "[]"] by (simp add: decode_state_id_def)

text \<open>An encoded id is visible ASCII: it has no blank, no tab and no line end.\<close>

lemma unreserved_visible: "unreserved c \<Longrightarrow> visible c"
  by (auto simp: unreserved_def visible_def in_range_def byte_def)

lemma hex_digit_visible: "n < 16 \<Longrightarrow> visible (hex_digit n)"
  by (auto simp: visible_def hex_digit_def byte_char_of)

lemma encode_byte_visible: "x \<in> set (encode_byte c) \<Longrightarrow> visible x"
proof -
  have "visible (CHR ''%'')" by (simp add: visible_def byte_def)
  then show "x \<in> set (encode_byte c) \<Longrightarrow> visible x"
    using byte_lt [of c] by (auto simp: encode_byte_def unreserved_visible hex_digit_visible split: if_splits)
qed

lemma encode_visible: "list_all visible (encode_state_id s)"
  by (auto simp: list_all_iff encode_state_id_def encode_byte_visible)

lemma encode_eq_Nil_iff [simp]: "encode_state_id s = [] \<longleftrightarrow> s = []"
  by (cases s) (simp_all add: encode_state_id_def encode_byte_def)

end
