(* ===== verification/BotStore.thy ===== *)
theory BotStore imports BotIds BTree ErrorModel begin

text \<open>
  The account bot's memory of the messages it has answered (\<open>ProcessedMessageStore\<close> of
  \<open>examples/account_bot.rs\<close>): the processed ids in the order they were added, at most
  \<open>max_ids\<close> of them; the leases of the attempts; the ids this process works on; and the ids
  whose completion could not be written (\<open>volatile\<close>). The state file is written anew by every
  change. Seconds since the epoch are natural numbers below \<open>2^64\<close>.
\<close>

subsection \<open>State\<close>

record processed_store =
  ps_ids :: "string bset"
  ps_attempts :: "(string, nat) bmap"
  ps_inflight :: "string bset"
  ps_order :: "string list"
  ps_max_ids :: nat
  ps_volatile :: "string bset"

text \<open>
  The state file: \<open>None\<close> when it does not exist. Writing it can fail before the new file is
  in place, and after (the directory could not be synchronised).
\<close>

type_synonym disk = "string option"

datatype persist_fault = Persisted | FailedBefore error | FailedAfter error

text \<open>Both the loader and a completion add a processed id and drop the oldest beyond the limit.\<close>

function evict_loop :: "nat \<Rightarrow> string bset \<Rightarrow> string list \<Rightarrow> string bset \<times> string list" where
  "evict_loop max_ids ids [] = (ids, [])"
| "evict_loop max_ids ids (x # order) =
     (if max_ids < length (x # order) then evict_loop max_ids (bs_remove x ids) order
      else (ids, x # order))"
  by pat_completeness auto
termination by (relation "measure (\<lambda>(_, _, order). length order)") simp_all

definition add_processed_id ::
    "nat \<Rightarrow> string \<Rightarrow> string bset \<times> string list \<Rightarrow> string bset \<times> string list" where
  "add_processed_id max_ids i st =
     (case st of (ids, order) \<Rightarrow>
        if i \<in> set ids then (ids, order)
        else evict_loop max_ids (bs_insert i ids) (order @ [i]))"

subsection \<open>The state file\<close>

definition TAB :: char where "TAB = CHR 0x09"

definition processed_line :: "string \<Rightarrow> string" where
  "processed_line i = ''processed_v2'' @ [TAB] @ encode_state_id i @ [LF]"

definition attempt_line :: "string \<times> nat \<Rightarrow> string" where
  "attempt_line a = ''attempt_v2'' @ [TAB] @ show_nat (snd a) @ [TAB] @ encode_state_id (fst a) @ [LF]"

definition render_state :: "processed_store \<Rightarrow> string" where
  "render_state s = concat (map processed_line (ps_order s)) @ concat (map attempt_line (ps_attempts s))"

definition persist_state :: "persist_fault \<Rightarrow> processed_store \<Rightarrow> disk \<Rightarrow> unit res \<times> disk" where
  "persist_state f s d =
     (case f of
        Persisted \<Rightarrow> (Inr (), Some (render_state s))
      | FailedBefore e \<Rightarrow> (Inl e, d)
      | FailedAfter e \<Rightarrow> (Inl e, Some (render_state s)))"

text \<open>The state of the loader: ids, order, attempts.\<close>

type_synonym load_state = "(string bset \<times> string list) \<times> (string, nat) bmap"

definition add_attempt ::
    "nat \<Rightarrow> string \<Rightarrow> (string \<Rightarrow> string option) \<Rightarrow> (string, nat) bmap \<Rightarrow> (string, nat) bmap" where
  "add_attempt now rest decode attempts =
     (case split_once TAB rest of
        None \<Rightarrow> attempts
      | Some (e, i) \<Rightarrow>
          (case (parse_uint U64_MAX e, decode i) of
             (Some expires_at, Some i) \<Rightarrow>
               if now < expires_at \<and> \<not> blank i then bm_insert i expires_at attempts else attempts
           | _ \<Rightarrow> attempts))"

definition load_line :: "nat \<Rightarrow> nat \<Rightarrow> string \<Rightarrow> load_state \<Rightarrow> load_state" where
  "load_line max_ids now line st =
     (case st of (old, attempts) \<Rightarrow>
      case strip_prefix (''processed_v2'' @ [TAB]) line of
        Some i \<Rightarrow>
          (case decode_state_id i of
             Some i \<Rightarrow> (add_processed_id max_ids i old, attempts)
           | None \<Rightarrow> st)
      | None \<Rightarrow>
      case strip_prefix (''attempt_v2'' @ [TAB]) line of
        Some rest \<Rightarrow> (old, add_attempt now rest decode_state_id attempts)
      | None \<Rightarrow>
      case strip_prefix (''processed'' @ [TAB]) line of
        Some i \<Rightarrow> (add_processed_id max_ids i old, attempts)
      | None \<Rightarrow>
      case strip_prefix (''attempt'' @ [TAB]) line of
        Some rest \<Rightarrow> (old, add_attempt now rest Some attempts)
      | None \<Rightarrow> (add_processed_id max_ids line old, attempts))"

definition load_text :: "nat \<Rightarrow> nat \<Rightarrow> string \<Rightarrow> load_state" where
  "load_text max_ids now contents =
     fold (load_line max_ids now) (filter (\<lambda>l. l \<noteq> []) (map trim (str_lines contents))) (([], []), [])"

text \<open>\<open>read_to_string\<close>: \<open>fault\<close> is an error other than a missing file.\<close>

definition read_to_string :: "disk \<Rightarrow> string res" where
  "read_to_string d =
     (case d of
        None \<Rightarrow> Inr []
      | Some t \<Rightarrow> if utf8_valid t then Inr t else Inl (Io OtherKind ''stream did not contain valid UTF-8''))"

definition bot_load :: "error option \<Rightarrow> nat \<Rightarrow> nat \<Rightarrow> disk \<Rightarrow> processed_store res" where
  "bot_load fault max_ids now d =
     and_then (case fault of Some e \<Rightarrow> Inl e | None \<Rightarrow> read_to_string d) (\<lambda>contents.
       case load_text max_ids now contents of ((ids, order), attempts) \<Rightarrow>
         Inr \<lparr>ps_ids = ids, ps_attempts = attempts, ps_inflight = [], ps_order = order,
           ps_max_ids = max_ids, ps_volatile = []\<rparr>)"

subsection \<open>Operations\<close>

definition prune_expired :: "nat \<Rightarrow> processed_store \<Rightarrow> processed_store" where
  "prune_expired now s =
     s\<lparr>ps_attempts := bm_retain (\<lambda>_ e. now < e) (ps_attempts s),
       ps_inflight := filter (\<lambda>i. case bm_get (ps_attempts s) i of Some e \<Rightarrow> now < e | None \<Rightarrow> True) (ps_inflight s)\<rparr>"

definition drop_attempt :: "string \<Rightarrow> processed_store \<Rightarrow> processed_store" where
  "drop_attempt i s = s\<lparr>ps_inflight := bs_remove i (ps_inflight s), ps_attempts := bm_remove i (ps_attempts s)\<rparr>"

definition add_done :: "string \<Rightarrow> processed_store \<Rightarrow> processed_store" where
  "add_done i s =
     (case add_processed_id (ps_max_ids s) i (ps_ids s, ps_order s) of
        (ids, order) \<Rightarrow> s\<lparr>ps_ids := ids, ps_order := order\<rparr>)"

definition absorb_volatile :: "processed_store \<Rightarrow> processed_store" where
  "absorb_volatile s = fold (\<lambda>i s. add_done i (drop_attempt i s)) (ps_volatile s) (s\<lparr>ps_volatile := []\<rparr>)"

type_synonym store_state = "processed_store \<times> disk"

definition persist :: "persist_fault \<Rightarrow> store_state \<Rightarrow> unit res \<times> store_state" where
  "persist f st =
     (case persist_state f (absorb_volatile (fst st)) (snd st) of
        (Inr _, d) \<Rightarrow> (Inr (), absorb_volatile (fst st), d)
      | (Inl e, d) \<Rightarrow> (Inl e, fst st, d))"

definition verify_persistable :: "persist_fault \<Rightarrow> store_state \<Rightarrow> unit res \<times> store_state" where
  "verify_persistable f st = (case persist_state f (fst st) (snd st) of (r, d) \<Rightarrow> (r, fst st, d))"

definition lease_end :: "nat \<Rightarrow> duration \<Rightarrow> nat" where
  "lease_end now lease = min (now + max (lease div SEC) 1) U64_MAX"

definition complete_at :: "persist_fault \<Rightarrow> string \<Rightarrow> nat \<Rightarrow> store_state \<Rightarrow> unit res \<times> store_state" where
  "complete_at f i now st =
     (let s = drop_attempt i (prune_expired now (fst st));
          s = add_done i (s\<lparr>ps_volatile := bs_remove i (ps_volatile s)\<rparr>) in
      case persist f (s, snd st) of
        (Inr _, st') \<Rightarrow> (Inr (), st')
      | (Inl e, st') \<Rightarrow> (Inl e, fst st, snd st'))"

datatype begin_attempt =
    BotStarted
  | BotProcessed
  | BotProcessedAfterPersist
  | BotInProgress
  | BotAttemptLeased duration

definition bot_begin_attempt_at ::
    "persist_fault \<Rightarrow> string \<Rightarrow> duration \<Rightarrow> nat \<Rightarrow> store_state \<Rightarrow> begin_attempt res \<times> store_state" where
  "bot_begin_attempt_at f i lease now st =
     (let s = prune_expired now (fst st) in
      if i \<in> set (ps_ids s) then (Inr BotProcessed, s, snd st)
      else if i \<in> set (ps_volatile s) then
        (case complete_at f i now (s, snd st) of
           (Inr _, st') \<Rightarrow> (Inr BotProcessedAfterPersist, st')
         | (Inl e, st') \<Rightarrow> (Inl e, st'))
      else if i \<in> set (ps_inflight s) then (Inr BotInProgress, s, snd st)
      else case bm_get (ps_attempts s) i of
        Some expires_at \<Rightarrow> (Inr (BotAttemptLeased (max (expires_at - now) 1 * SEC)), s, snd st)
      | None \<Rightarrow>
          (case persist f (s\<lparr>ps_inflight := bs_insert i (ps_inflight s),
                 ps_attempts := bm_insert i (lease_end now lease) (ps_attempts s)\<rparr>, snd st) of
             (Inr _, st') \<Rightarrow> (Inr BotStarted, st')
           | (Inl e, st') \<Rightarrow> (Inl e, drop_attempt i (fst st'), snd st')))"

definition bot_release :: "persist_fault \<Rightarrow> string \<Rightarrow> store_state \<Rightarrow> unit res \<times> store_state" where
  "bot_release f i st =
     (case persist f (drop_attempt i (fst st), snd st) of
        (Inr _, st') \<Rightarrow> (Inr (), st')
      | (Inl e, st') \<Rightarrow> (Inl e, (fst st')\<lparr>ps_attempts := ps_attempts (fst st),
            ps_inflight := ps_inflight (fst st)\<rparr>, snd st'))"

definition bot_defer_attempt_at ::
    "persist_fault \<Rightarrow> string \<Rightarrow> duration \<Rightarrow> nat \<Rightarrow> store_state \<Rightarrow> unit res \<times> store_state" where
  "bot_defer_attempt_at f i lease now st =
     (let s = prune_expired now (fst st) in
      persist f (s\<lparr>ps_inflight := bs_remove i (ps_inflight s),
        ps_attempts := bm_insert i (lease_end now lease) (ps_attempts s)\<rparr>, snd st))"

definition mark_volatile_processed :: "string \<Rightarrow> nat \<Rightarrow> processed_store \<Rightarrow> processed_store" where
  "mark_volatile_processed i now s =
     (let s = drop_attempt i (prune_expired now s) in s\<lparr>ps_volatile := bs_insert i (ps_volatile s)\<rparr>)"

end
