(* ===== verification/BotTypes.thy ===== *)
theory BotTypes imports BotStore Types begin

text \<open>
  The values of the account bot (\<open>examples/account_bot.rs\<close>): the message it reads from an
  event, the action it reports, its errors and how long a client has to wait after one.
\<close>

subsection \<open>Messages\<close>

record bot_message =
  bm_id :: "string option"
  bm_room_id :: "string option"
  bm_parent_id :: "string option"
  bm_person_id :: "string option"
  bm_text :: "string option"
  bm_markdown :: "string option"

definition needs_hydration :: "bot_message \<Rightarrow> bool" where
  "needs_hydration m \<longleftrightarrow> bm_room_id m = None \<or> bm_person_id m = None"

definition merge_message :: "message \<Rightarrow> bot_message \<Rightarrow> bot_message" where
  "merge_message h m = \<lparr>bm_id = or_else (bm_id m) (me_id h), bm_room_id = or_else (bm_room_id m) (me_room_id h),
     bm_parent_id = or_else (bm_parent_id m) (me_parent_id h),
     bm_person_id = or_else (bm_person_id m) (me_person_id h),
     bm_text = or_else (bm_text m) (me_text h), bm_markdown = or_else (bm_markdown m) (me_markdown h)\<rparr>"

definition collapse_whitespace :: "string \<Rightarrow> string" where
  "collapse_whitespace s = join_with '' '' (split_whitespace s)"

definition truncate_chars :: "string \<Rightarrow> nat \<Rightarrow> string" where
  "truncate_chars s n = concat (take n (chars s)) @ (if n < length (chars s) then ''...'' else [])"

definition reply_text :: "string \<Rightarrow> bot_message \<Rightarrow> string" where
  "reply_text pre m =
     (let body = (case map_option collapse_whitespace (or_else (bm_markdown m) (bm_text m)) of
            Some b \<Rightarrow> if b = [] then ''message'' else b
          | None \<Rightarrow> ''message'');
          preview = truncate_chars body 240 in
      if trim pre = [] then preview else trim pre @ '': '' @ preview)"

subsection \<open>Actions\<close>

datatype action_kind = Ignored | MockReplied | Replied

record bot_action =
  ba_logged :: bool
  ba_action :: action_kind
  ba_reason :: "string option"
  ba_message_id :: "string option"
  ba_room_id :: "string option"
  ba_reply_id :: "string option"
  ba_reply_text :: "string option"

definition act_ignored :: "string \<Rightarrow> string option \<Rightarrow> string option \<Rightarrow> bot_action" where
  "act_ignored reason i r = \<lparr>ba_logged = False, ba_action = Ignored, ba_reason = Some reason,
     ba_message_id = i, ba_room_id = r, ba_reply_id = None, ba_reply_text = None\<rparr>"

definition act_mock_replied :: "string \<Rightarrow> string \<Rightarrow> string \<Rightarrow> bot_action" where
  "act_mock_replied i r t = \<lparr>ba_logged = False, ba_action = MockReplied, ba_reason = None,
     ba_message_id = Some i, ba_room_id = Some r, ba_reply_id = None, ba_reply_text = Some t\<rparr>"

definition act_replied :: "string \<Rightarrow> string \<Rightarrow> string \<Rightarrow> string option \<Rightarrow> bot_action" where
  "act_replied i r t reply = \<lparr>ba_logged = False, ba_action = Replied, ba_reason = None,
     ba_message_id = Some i, ba_room_id = Some r, ba_reply_id = reply, ba_reply_text = Some t\<rparr>"

datatype reply_outcome = OutReplied "string option" | OutIgnored string

fun from_reply_outcome :: "string \<Rightarrow> string \<Rightarrow> string \<Rightarrow> reply_outcome \<Rightarrow> bot_action" where
  "from_reply_outcome i r t (OutReplied reply) = act_replied i r t reply"
| "from_reply_outcome i r t (OutIgnored reason) = act_ignored reason (Some i) (Some r)"

definition counted_reasons :: "string list" where
  "counted_reasons = [''duplicate_message'', ''message_not_found'', ''missing_room_id'', ''room_not_allowed'',
     ''self_message'', ''reply_unknown'']"

definition counts_toward_max_events :: "bot_action \<Rightarrow> bool" where
  "counts_toward_max_events a =
     (case ba_action a of
        Ignored \<Rightarrow> (case ba_reason a of Some r \<Rightarrow> r \<in> set counted_reasons | None \<Rightarrow> False)
      | _ \<Rightarrow> True)"

subsection \<open>Errors and waiting times\<close>

definition ceil_secs :: "duration \<Rightarrow> nat" where
  "ceil_secs d = max (min (d div SEC + (if 0 < d mod SEC then 1 else 0)) U64_MAX) 1"

definition retry_after_secs :: "duration \<Rightarrow> string" where
  "retry_after_secs d = show_nat (ceil_secs d)"

definition retry_after_for_lease :: "duration \<Rightarrow> duration" where
  "retry_after_for_lease lease = ceil_secs lease * SEC"

datatype bot_error =
    Webex error
  | RetryableApi error duration
  | RetryAfter string duration

fun bot_error_display :: "bot_error \<Rightarrow> string" where
  "bot_error_display (Webex e) = error_display e"
| "bot_error_display (RetryableApi e d) = error_display e"
| "bot_error_display (RetryAfter m d) = m"

definition is_webex_api_status :: "error \<Rightarrow> nat \<Rightarrow> bool" where
  "is_webex_api_status e st = (case e of Api a \<Rightarrow> ae_status a = st | _ \<Rightarrow> False)"

definition retryable_api_failure_lease :: "error \<Rightarrow> duration \<Rightarrow> duration option" where
  "retryable_api_failure_lease e fallback =
     (case e of
        Api a \<Rightarrow>
          if ae_status a = 401 \<or> ae_status a = 408 \<or> ae_status a = 429 \<or> 500 \<le> ae_status a
          then Some (retry_after_for_lease (case ae_retry_after a of Some d \<Rightarrow> d | None \<Rightarrow> fallback))
          else None
      | _ \<Rightarrow> None)"

definition retryable_api :: "error \<Rightarrow> duration \<Rightarrow> bot_error" where
  "retryable_api e fallback =
     (case retryable_api_failure_lease e fallback of
        Some d \<Rightarrow> RetryableApi e d
      | None \<Rightarrow> Webex e)"

definition create_message_error_could_have_been_accepted :: "error \<Rightarrow> bool" where
  "create_message_error_could_have_been_accepted e =
     (case e of
        Http h \<Rightarrow> \<not> he_is_builder h \<and> \<not> he_is_connect h
      | JsonErr _ \<Rightarrow> True
      | _ \<Rightarrow> False)"

subsection \<open>Configuration\<close>

record bot_config =
  bc_event_path :: string
  bc_health_path :: string
  bc_expected_forward_token :: "string option"
  bc_mock :: bool
  bc_max_events :: nat
  bc_attempt_lease :: duration
  bc_in_flight_wait :: duration
  bc_allowed_room_ids :: "string bset"
  bc_reply_prefix :: string
  bc_self_person_id :: "string option"

definition room_allowed :: "bot_config \<Rightarrow> string \<Rightarrow> bool" where
  "room_allowed cfg r \<longleftrightarrow> bc_allowed_room_ids cfg = [] \<or> r \<in> set (bc_allowed_room_ids cfg)"

end
