(* ===== verification/Bot.thy ===== *)
theory Bot imports BotTypes begin

text \<open>
  The account bot's handling of one event (\<open>AccountBot\<close>, \<open>InFlightMessage\<close> and \<open>EventSlot\<close> of
  \<open>examples/account_bot.rs\<close>). Each access to the store takes its lock, so it is one atomic
  step; between two such steps other requests may act on the same state, and they do it through
  \<open>wk_others\<close>. The \<open>n\<close>th step reads the clock and writes the state file as the world says.
\<close>

subsection \<open>State and world\<close>

text \<open>\<open>bt_sent\<close> is what the service has received, not a field of the program.\<close>

record bot_state =
  bt_store :: store_state
  bt_persist_failed :: bool
  bt_slots :: nat
  bt_completed :: nat
  bt_sent :: "create_message list"
  bt_tick :: nat

definition send_request :: "create_message \<Rightarrow> bot_state \<Rightarrow> bot_state" where
  "send_request req st = st\<lparr>bt_sent := bt_sent st @ [req]\<rparr>"

text \<open>
  What the outside does: the answers of the service, \<open>None\<close> when the handler's timer ends
  first; how often the wait for another attempt asks again, and whether the timer ends then.
\<close>

record world =
  wk_others :: "nat \<Rightarrow> bot_state \<Rightarrow> bot_state"
  wk_fault :: "nat \<Rightarrow> persist_fault"
  wk_now :: "nat \<Rightarrow> nat"
  wk_later :: "nat \<Rightarrow> nat"
  wk_waits :: nat
  wk_wait_timeout :: bool
  wk_get_message :: "string \<Rightarrow> message res option"
  wk_create_message :: "create_message \<Rightarrow> message res"
  wk_worker_lost :: "string option"
  wk_log_enqueued :: bool

definition store_call ::
    "world \<Rightarrow> (persist_fault \<Rightarrow> nat \<Rightarrow> nat \<Rightarrow> store_state \<Rightarrow> 'a \<times> store_state) \<Rightarrow> bot_state \<Rightarrow> 'a \<times> bot_state" where
  "store_call w f st =
     (let n = bt_tick st; st = wk_others w n st in
      case f (wk_fault w n) (wk_now w n) (wk_later w n) (bt_store st) of
        (r, s) \<Rightarrow> (r, st\<lparr>bt_store := s, bt_tick := Suc n\<rparr>))"

definition set_failed :: "bool \<Rightarrow> bot_state \<Rightarrow> bot_state" where
  "set_failed b st = st\<lparr>bt_persist_failed := b\<rparr>"

subsection \<open>Event slots\<close>

datatype event_slot = Unlimited | Counted

definition try_acquire_event_slot :: "bot_config \<Rightarrow> bot_state \<Rightarrow> event_slot option \<times> bot_state" where
  "try_acquire_event_slot cfg st =
     (if bc_max_events cfg = 0 then (Some Unlimited, st)
      else if bc_max_events cfg \<le> bt_slots st then (None, st)
      else (Some Counted, st\<lparr>bt_slots := Suc (bt_slots st)\<rparr>))"

definition commit_slot :: "event_slot \<Rightarrow> bot_state \<Rightarrow> bot_state" where
  "commit_slot sl st = (case sl of Unlimited \<Rightarrow> st | Counted \<Rightarrow> st\<lparr>bt_completed := Suc (bt_completed st)\<rparr>)"

definition drop_slot :: "event_slot \<Rightarrow> bot_state \<Rightarrow> bot_state" where
  "drop_slot sl st = (case sl of Unlimited \<Rightarrow> st | Counted \<Rightarrow> st\<lparr>bt_slots := bt_slots st - 1\<rparr>)"

definition max_event_quota_reached :: "nat \<Rightarrow> nat \<Rightarrow> nat \<Rightarrow> bool" where
  "max_event_quota_reached max_events completed accepted \<longleftrightarrow>
     0 < max_events \<and> (max_events \<le> completed \<or> max_events \<le> accepted)"

definition max_event_admission_closed :: "nat \<Rightarrow> nat \<Rightarrow> nat \<Rightarrow> nat \<Rightarrow> bool" where
  "max_event_admission_closed max_events slots completed accepted \<longleftrightarrow>
     0 < max_events \<and> (max_events \<le> slots \<or> max_event_quota_reached max_events completed accepted)"

definition max_events_reached :: "nat \<Rightarrow> nat \<Rightarrow> nat \<Rightarrow> nat \<Rightarrow> bool" where
  "max_events_reached max_events slots completed accepted \<longleftrightarrow>
     max_event_quota_reached max_events completed accepted \<and> slots = completed"

subsection \<open>An attempt in flight\<close>

record in_flight =
  if_id :: string
  if_lease :: duration
  if_active :: bool
  if_reply_started :: bool

datatype begin_in_flight =
    FlightStarted in_flight
  | FlightProcessed
  | FlightInProgress
  | FlightLeased duration

definition in_flight_begin ::
    "world \<Rightarrow> string \<Rightarrow> duration \<Rightarrow> bot_state \<Rightarrow> begin_in_flight res \<times> bot_state" where
  "in_flight_begin w i lease st =
     (case store_call w (\<lambda>f now later. bot_begin_attempt_at f i lease now) st of
        (Inl e, st) \<Rightarrow> (Inl e, st)
      | (Inr BotStarted, st) \<Rightarrow>
          (Inr (FlightStarted \<lparr>if_id = i, if_lease = lease, if_active = True, if_reply_started = False\<rparr>),
           set_failed False st)
      | (Inr BotProcessed, st) \<Rightarrow> (Inr FlightProcessed, st)
      | (Inr BotProcessedAfterPersist, st) \<Rightarrow> (Inr FlightProcessed, set_failed False st)
      | (Inr BotInProgress, st) \<Rightarrow> (Inr FlightInProgress, st)
      | (Inr (BotAttemptLeased d), st) \<Rightarrow> (Inr (FlightLeased (retry_after_for_lease d)), st))"

text \<open>\<open>remember\<close>, and \<open>mark_volatile_processed\<close> when it fails, under one lock.\<close>

definition remember_or_volatile ::
    "string \<Rightarrow> persist_fault \<Rightarrow> nat \<Rightarrow> nat \<Rightarrow> store_state \<Rightarrow> unit res \<times> store_state" where
  "remember_or_volatile i f now later s =
     (case complete_at f i now s of
        (Inr _, s') \<Rightarrow> (Inr (), s')
      | (Inl e, s') \<Rightarrow> (Inl e, mark_volatile_processed i later (fst s'), snd s'))"

text \<open>What happens when an attempt goes out of scope without having been finished.\<close>

definition drop_in_flight :: "world \<Rightarrow> in_flight \<Rightarrow> bot_state \<Rightarrow> bot_state" where
  "drop_in_flight w im st =
     (if \<not> if_active im then st
      else if if_reply_started im then
        (case store_call w (remember_or_volatile (if_id im)) st of
           (Inl e, st) \<Rightarrow> set_failed True st
         | (Inr _, st) \<Rightarrow> set_failed False st)
      else
        (case store_call w (\<lambda>f now later. bot_defer_attempt_at f (if_id im) (if_lease im) now) st of
           (Inl e, st) \<Rightarrow> set_failed True st
         | (Inr _, st) \<Rightarrow> set_failed False st))"

text \<open>
  The methods that consume the attempt: on success it is inactive when it is dropped, on an
  error it is dropped active.
\<close>

definition finish_flight ::
    "world \<Rightarrow> in_flight \<Rightarrow> (persist_fault \<Rightarrow> nat \<Rightarrow> nat \<Rightarrow> store_state \<Rightarrow> unit res \<times> store_state)
      \<Rightarrow> bot_state \<Rightarrow> unit res \<times> bot_state" where
  "finish_flight w im f st =
     (case store_call w f st of
        (Inr _, st) \<Rightarrow> (Inr (), set_failed False st)
      | (Inl e, st) \<Rightarrow> (Inl e, drop_in_flight w im st))"

definition flight_release :: "world \<Rightarrow> in_flight \<Rightarrow> bot_state \<Rightarrow> unit res \<times> bot_state" where
  "flight_release w im = finish_flight w im (\<lambda>f now later. bot_release f (if_id im))"

definition flight_remember :: "world \<Rightarrow> in_flight \<Rightarrow> bot_state \<Rightarrow> unit res \<times> bot_state" where
  "flight_remember w im = finish_flight w im (\<lambda>f now later. complete_at f (if_id im) now)"

definition flight_defer :: "world \<Rightarrow> duration \<Rightarrow> in_flight \<Rightarrow> bot_state \<Rightarrow> unit res \<times> bot_state" where
  "flight_defer w lease im =
     finish_flight w (im\<lparr>if_lease := lease\<rparr>) (\<lambda>f now later. bot_defer_attempt_at f (if_id im) lease now)"

definition flight_remember_after_reply :: "world \<Rightarrow> in_flight \<Rightarrow> bot_state \<Rightarrow> unit res \<times> bot_state" where
  "flight_remember_after_reply w im st =
     (case store_call w (remember_or_volatile (if_id im)) st of
        (Inr _, st) \<Rightarrow> (Inr (), set_failed False st)
      | (Inl e, st) \<Rightarrow> (Inl e, st))"

definition mark_reply_started :: "in_flight \<Rightarrow> in_flight" where
  "mark_reply_started im = im\<lparr>if_reply_started := True\<rparr>"

definition mark_reply_not_accepted :: "in_flight \<Rightarrow> in_flight" where
  "mark_reply_not_accepted im = im\<lparr>if_reply_started := False\<rparr>"

end
