(* ===== verification/BotHandler.thy ===== *)
theory BotHandler imports Bot begin

text \<open>
  The decisions of the account bot on one event (\<open>handle_event_with_permit\<close>, \<open>send_reply\<close> and
  \<open>send_reply_worker\<close> of \<open>examples/account_bot.rs\<close>). An answer is \<open>None\<close> when the handler's
  timer ends while it waits for the service; a reply worker goes on then.
\<close>

subsection \<open>Finishing an attempt\<close>

definition finish_error ::
    "(string \<Rightarrow> string) \<Rightarrow> duration \<Rightarrow> unit res \<times> bot_state \<Rightarrow> (bot_error + unit) \<times> bot_state" where
  "finish_error msg lease rs =
     (case rs of
        (Inr _, st) \<Rightarrow> (Inr (), st)
      | (Inl e, st) \<Rightarrow> (Inl (RetryAfter (msg (error_display e)) (retry_after_for_lease lease)), set_failed True st))"

definition release_or_retry_after ::
    "bot_config \<Rightarrow> world \<Rightarrow> in_flight \<Rightarrow> string \<Rightarrow> string \<Rightarrow> bot_state \<Rightarrow> (bot_error + unit) \<times> bot_state" where
  "release_or_retry_after cfg w im i ctx st =
     finish_error (\<lambda>e. ''processed message state persist failed while releasing '' @ ctx @
         '' attempt for message '' @ i @ '': '' @ e)
       (bc_attempt_lease cfg) (flight_release w (mark_reply_not_accepted im) st)"

definition remember_or_retry_after ::
    "bot_config \<Rightarrow> world \<Rightarrow> in_flight \<Rightarrow> string \<Rightarrow> string \<Rightarrow> bot_state \<Rightarrow> (bot_error + unit) \<times> bot_state" where
  "remember_or_retry_after cfg w im i ctx st =
     finish_error (\<lambda>e. ''processed message state persist failed while recording '' @ ctx @
         '' for message '' @ i @ '': '' @ e)
       (bc_attempt_lease cfg) (flight_remember w im st)"

definition remember_after_reply_or_retry_after ::
    "bot_config \<Rightarrow> world \<Rightarrow> in_flight \<Rightarrow> string \<Rightarrow> bot_state \<Rightarrow> (bot_error + unit) \<times> bot_state" where
  "remember_after_reply_or_retry_after cfg w im i st =
     finish_error (\<lambda>e. ''processed message state persist failed after reply for message '' @ i @ '': '' @ e)
       (bc_attempt_lease cfg) (flight_remember_after_reply w im st)"

definition finish_after_known_api_failure ::
    "bot_config \<Rightarrow> world \<Rightarrow> in_flight \<Rightarrow> error \<Rightarrow> bot_state \<Rightarrow> bot_state" where
  "finish_after_known_api_failure cfg w im e st =
     (let im = mark_reply_not_accepted im in
      case (case retryable_api_failure_lease e (bc_attempt_lease cfg) of
              Some d \<Rightarrow> flight_defer w d im st
            | None \<Rightarrow> flight_release w im st) of
        (Inl _, st) \<Rightarrow> set_failed True st
      | (Inr _, st) \<Rightarrow> st)"

definition begin_in_flight_attempt ::
    "bot_config \<Rightarrow> world \<Rightarrow> string \<Rightarrow> bot_state \<Rightarrow> (bot_error + begin_in_flight) \<times> bot_state" where
  "begin_in_flight_attempt cfg w i st =
     (case in_flight_begin w i (bc_attempt_lease cfg) st of
        (Inr b, st) \<Rightarrow> (Inr b, st)
      | (Inl e, st) \<Rightarrow>
          (Inl (RetryAfter (''processed message state persist failed while leasing message '' @ i @ '': '' @
              error_display e) (retry_after_for_lease (bc_attempt_lease cfg))), set_failed True st))"

text \<open>The wait for another attempt asks again a number of times that the clock decides.\<close>

fun wait_for_in_flight_attempt ::
    "bot_config \<Rightarrow> world \<Rightarrow> string \<Rightarrow> nat \<Rightarrow> bot_state \<Rightarrow> (bot_error + begin_in_flight) option \<times> bot_state" where
  "wait_for_in_flight_attempt cfg w i 0 st =
     ((if wk_wait_timeout w then None else Some (Inr FlightInProgress)), st)"
| "wait_for_in_flight_attempt cfg w i (Suc n) st =
     (case begin_in_flight_attempt cfg w i st of
        (Inr FlightInProgress, st) \<Rightarrow> wait_for_in_flight_attempt cfg w i n st
      | (r, st) \<Rightarrow> (Some r, st))"

subsection \<open>Replying\<close>

type_synonym bot_answer = "(bot_error + bot_action) option"

text \<open>An attempt that is finished: the event slot is committed, or given back after an error.\<close>

definition settle ::
    "event_slot \<Rightarrow> 'a \<Rightarrow> (bot_error + unit) \<times> bot_state \<Rightarrow> (bot_error + 'a) \<times> bot_state" where
  "settle sl a rs =
     (case rs of
        (Inr _, st) \<Rightarrow> (Inr a, commit_slot sl st)
      | (Inl e, st) \<Rightarrow> (Inl e, drop_slot sl st))"

definition send_reply_worker ::
    "bot_config \<Rightarrow> world \<Rightarrow> in_flight \<Rightarrow> string \<Rightarrow> string \<Rightarrow> string \<Rightarrow> string \<Rightarrow> event_slot \<Rightarrow> bot_state
      \<Rightarrow> (bot_error + reply_outcome) \<times> bot_state" where
  "send_reply_worker cfg w im i r parent txt sl st =
     (let req = create_message_reply_text r parent txt; st = send_request req st in
      case wk_create_message w req of
        Inr reply \<Rightarrow>
          settle sl (OutReplied (me_id reply)) (remember_after_reply_or_retry_after cfg w im i st)
      | Inl e \<Rightarrow>
          if is_webex_api_status e 404 then
            settle sl (OutIgnored ''message_not_found'')
              (remember_or_retry_after cfg w (mark_reply_not_accepted im) i ''missing Webex message'' st)
          else if (case e of Api _ \<Rightarrow> True | _ \<Rightarrow> False) then
            (let st = drop_slot sl (finish_after_known_api_failure cfg w im e st) in
             case retryable_api_failure_lease e (bc_attempt_lease cfg) of
               Some _ \<Rightarrow> (Inl (retryable_api e (bc_attempt_lease cfg)), st)
             | None \<Rightarrow> (Inl (Webex e), st))
          else if create_message_error_could_have_been_accepted e then
            settle sl (OutIgnored ''reply_unknown'')
              (remember_after_reply_or_retry_after cfg w (mark_reply_started im) i st)
          else
            (case release_or_retry_after cfg w im i ''create_message failure'' st of
               (Inl b, st) \<Rightarrow> (Inl b, drop_slot sl st)
             | (Inr _, st) \<Rightarrow> (Inl (Webex e), drop_slot sl st)))"

text \<open>
  The worker runs in a task of its own. It can be lost (the task panicked), then its values
  are dropped where they are; its message says how.
\<close>

definition send_reply ::
    "bot_config \<Rightarrow> world \<Rightarrow> in_flight \<Rightarrow> string \<Rightarrow> string \<Rightarrow> string \<Rightarrow> string \<Rightarrow> event_slot \<Rightarrow> bot_state
      \<Rightarrow> (bot_error + reply_outcome) \<times> bot_state" where
  "send_reply cfg w im i r parent txt sl st =
     (case wk_worker_lost w of
        Some why \<Rightarrow>
          (Inl (RetryAfter (''message reply worker failed before completion: '' @ why)
              (retry_after_for_lease (bc_attempt_lease cfg))),
           set_failed True (drop_in_flight w im (drop_slot sl st)))
      | None \<Rightarrow> send_reply_worker cfg w im i r parent txt sl st)"

definition after_hydration ::
    "bot_config \<Rightarrow> world \<Rightarrow> in_flight \<Rightarrow> string \<Rightarrow> bot_message \<Rightarrow> event_slot \<Rightarrow> bot_state
      \<Rightarrow> (bot_error + bot_action) \<times> bot_state" where
  "after_hydration cfg w im i m sl st =
     (case bm_room_id m of
        None \<Rightarrow> settle sl (act_ignored ''missing_room_id'' (Some i) None)
                  (release_or_retry_after cfg w im i ''missing room id'' st)
      | Some r \<Rightarrow>
          if \<not> room_allowed cfg r then
            settle sl (act_ignored ''room_not_allowed'' (Some i) (Some r))
              (release_or_retry_after cfg w im i ''room not allowed'' st)
          else if bc_self_person_id cfg \<noteq> None \<and> bm_person_id m = bc_self_person_id cfg then
            settle sl (act_ignored ''self_message'' (Some i) (Some r))
              (release_or_retry_after cfg w im i ''self message'' st)
          else
            (let txt = reply_text (bc_reply_prefix cfg) m in
             if bc_mock cfg then
               settle sl (act_mock_replied i r txt) (remember_or_retry_after cfg w im i ''mock reply'' st)
             else
               (case send_reply cfg w im i r (case bm_parent_id m of Some p \<Rightarrow> p | None \<Rightarrow> i) txt sl st of
                  (Inl e, st) \<Rightarrow> (Inl e, st)
                | (Inr out, st) \<Rightarrow>
                    (Inr ((from_reply_outcome i r txt out)\<lparr>ba_logged := wk_log_enqueued w\<rparr>), st))))"

definition answer_message ::
    "bot_config \<Rightarrow> world \<Rightarrow> in_flight \<Rightarrow> string \<Rightarrow> bot_message \<Rightarrow> event_slot \<Rightarrow> bot_state
      \<Rightarrow> bot_answer \<times> bot_state" where
  "answer_message cfg w im i m sl st =
     (if (case bm_room_id m of Some r \<Rightarrow> \<not> room_allowed cfg r | None \<Rightarrow> False) then
        apfst Some (settle sl (act_ignored ''room_not_allowed'' (Some i) (bm_room_id m))
          (release_or_retry_after cfg w im i ''room not allowed'' st))
      else if \<not> bc_mock cfg \<and> needs_hydration m then
        (case wk_get_message w i of
           None \<Rightarrow> (None, drop_in_flight w im (drop_slot sl st))
         | Some (Inr h) \<Rightarrow> apfst Some (after_hydration cfg w im i (merge_message h m) sl st)
         | Some (Inl e) \<Rightarrow>
             if is_webex_api_status e 404 then
               apfst Some (settle sl (act_ignored ''message_not_found'' (Some i) (bm_room_id m))
                 (remember_or_retry_after cfg w im i ''missing Webex message'' st))
             else if (case e of Api _ \<Rightarrow> True | _ \<Rightarrow> False) then
               (Some (Inl (retryable_api e (bc_attempt_lease cfg))),
                drop_slot sl (finish_after_known_api_failure cfg w im e st))
             else
               (case release_or_retry_after cfg w im i ''hydration failure'' st of
                  (Inl b, st) \<Rightarrow> (Some (Inl b), drop_slot sl st)
                | (Inr _, st) \<Rightarrow> (Some (Inl (Webex e)), drop_slot sl st)))
      else apfst Some (after_hydration cfg w im i m sl st))"

subsection \<open>One event\<close>

text \<open>An attempt has begun: it goes on when an event slot is free, and is released otherwise.\<close>

definition start_answer ::
    "bot_config \<Rightarrow> world \<Rightarrow> in_flight \<Rightarrow> string \<Rightarrow> bot_message \<Rightarrow> bot_state \<Rightarrow> bot_answer \<times> bot_state" where
  "start_answer cfg w im i m st =
     (case try_acquire_event_slot cfg st of
        (Some sl, st) \<Rightarrow> answer_message cfg w im i m sl st
      | (None, st) \<Rightarrow>
          (case release_or_retry_after cfg w im i ''max events reached'' st of
             (Inl b, st) \<Rightarrow> (Some (Inl b), st)
           | (Inr _, st) \<Rightarrow> (Some (Inl (Webex (Other ''max events reached''))), st)))"

definition duplicate_message_action ::
    "bot_config \<Rightarrow> string \<Rightarrow> string option \<Rightarrow> bot_state \<Rightarrow> (bot_error + bot_action) \<times> bot_state" where
  "duplicate_message_action cfg i r st =
     (case try_acquire_event_slot cfg st of
        (Some sl, st) \<Rightarrow> (Inr (act_ignored ''duplicate_message'' (Some i) r), commit_slot sl st)
      | (None, st) \<Rightarrow>
          (Inl (RetryAfter ''max events reached'' (retry_after_for_lease (bc_in_flight_wait cfg))), st))"

definition leased_error :: "string \<Rightarrow> duration \<Rightarrow> bot_error" where
  "leased_error i d = RetryAfter (''message '' @ i @ '' reply attempt is pending retry lease'') d"

definition handle_message ::
    "bot_config \<Rightarrow> world \<Rightarrow> string \<Rightarrow> bot_message \<Rightarrow> bot_state \<Rightarrow> bot_answer \<times> bot_state" where
  "handle_message cfg w i m st =
     (case begin_in_flight_attempt cfg w i st of
        (Inl e, st) \<Rightarrow> (Some (Inl e), st)
      | (Inr (FlightStarted im), st) \<Rightarrow> start_answer cfg w im i m st
      | (Inr FlightProcessed, st) \<Rightarrow> apfst Some (duplicate_message_action cfg i (bm_room_id m) st)
      | (Inr (FlightLeased d), st) \<Rightarrow> (Some (Inl (leased_error i d)), st)
      | (Inr FlightInProgress, st) \<Rightarrow>
          (case wait_for_in_flight_attempt cfg w i (wk_waits w) st of
             (None, st) \<Rightarrow> (None, st)
           | (Some (Inl e), st) \<Rightarrow> (Some (Inl e), st)
           | (Some (Inr (FlightStarted im)), st) \<Rightarrow> start_answer cfg w im i m st
           | (Some (Inr FlightProcessed), st) \<Rightarrow> apfst Some (duplicate_message_action cfg i (bm_room_id m) st)
           | (Some (Inr FlightInProgress), st) \<Rightarrow>
               (Some (Inl (RetryAfter (''message '' @ i @ '' reply attempt is already in progress'')
                  (bc_in_flight_wait cfg))), st)
           | (Some (Inr (FlightLeased d)), st) \<Rightarrow> (Some (Inl (leased_error i d)), st)))"

record sidecar_event =
  se_version :: nat
  se_resource :: string
  se_event :: string
  se_received_at :: "time option"
  se_data :: json

definition sidecar_event_new :: "time \<Rightarrow> string \<Rightarrow> string \<Rightarrow> json \<Rightarrow> sidecar_event" where
  "sidecar_event_new now resource event d = \<lparr>se_version = 1, se_resource = resource, se_event = event,
     se_received_at = Some now, se_data = d\<rparr>"

definition message_created :: "time \<Rightarrow> json \<Rightarrow> sidecar_event" where
  "message_created now d = sidecar_event_new now ''messages'' ''created'' d"

text \<open>\<open>parse\<close> is the JSON crate's reading of a message.\<close>

definition handle_event ::
    "(json \<Rightarrow> bot_message option) \<Rightarrow> bot_config \<Rightarrow> world \<Rightarrow> sidecar_event \<Rightarrow> bot_state \<Rightarrow> bot_answer \<times> bot_state" where
  "handle_event parse cfg w ev st =
     (if se_version ev \<noteq> 1 then (Some (Inr (act_ignored ''unsupported_event_version'' None None)), st)
      else if se_resource ev \<noteq> ''messages'' \<or> se_event ev \<noteq> ''created'' then
        (Some (Inr (act_ignored ''unsupported_event'' (Some (se_resource ev)) None)), st)
      else case parse (se_data ev) of
        None \<Rightarrow> (Some (Inr (act_ignored ''invalid_message_payload'' None None)), st)
      | Some m \<Rightarrow>
          (case bm_id m of
             None \<Rightarrow> (Some (Inr (act_ignored ''missing_message_id'' None None)), st)
           | Some i \<Rightarrow> handle_message cfg w i m st))"

end
