(* ===== verification/BotStoreInv.thy ===== *)
theory BotStoreInv imports BotStore begin

text \<open>
  What every operation of the account bot's store keeps, and what a reload of the state file
  finds: the processed ids in the same order and the leases that still run.
\<close>

subsection \<open>Dropping the oldest\<close>

definition newest :: "nat \<Rightarrow> 'a list \<Rightarrow> 'a list" where
  "newest k xs = drop (length xs - k) xs"

lemma newest_simps [simp]: "length (newest k xs) = min k (length xs)" "length xs \<le> k \<Longrightarrow> newest k xs = xs"
  by (auto simp: newest_def)

lemma newest_subset: "set (newest k xs) \<subseteq> set xs"
  by (auto simp: newest_def dest: in_set_dropD)

lemma newest_snoc: "1 \<le> k \<Longrightarrow> x \<in> set (newest k (xs @ [x]))"
  by (simp add: newest_def)

lemma newest_Cons: "k < length (x # xs) \<Longrightarrow> newest k (x # xs) = newest k xs"
  by (cases "length xs - k") (auto simp: newest_def Suc_diff_le)

definition order_ok :: "string bset \<times> string list \<Rightarrow> bool" where
  "order_ok st \<longleftrightarrow> bs_inv (fst st) \<and> distinct (snd st) \<and> set (fst st) = set (snd st)"

lemma evict_loop_ok:
  "order_ok (ids, order) \<Longrightarrow>
   order_ok (evict_loop k ids order) \<and> snd (evict_loop k ids order) = newest k order"
proof (induction k ids order rule: evict_loop.induct)
  case (2 k ids x order)
  show ?case
  proof (cases "k < length (x # order)")
    case True
    have "order_ok (bs_remove x ids, order)"
      using 2(2) by (auto simp: order_ok_def inv_intros)
    with 2(1) [OF True] newest_Cons [OF True] True show ?thesis by simp
  next
    case False
    with 2(2) show ?thesis by simp
  qed
qed (simp add: newest_def)

lemma add_processed_ok:
  assumes "order_ok st"
  shows "order_ok (add_processed_id k i st)"
    and "snd (add_processed_id k i st) =
      (if i \<in> set (snd st) then snd st else newest k (snd st @ [i]))"
proof -
  obtain ids order where st: "st = (ids, order)" by (cases st)
  have "order_ok (bs_insert i ids, order @ [i])" if "i \<notin> set ids"
    using assms that st by (auto simp: order_ok_def inv_intros)
  then show "order_ok (add_processed_id k i st)"
    "snd (add_processed_id k i st) = (if i \<in> set (snd st) then snd st else newest k (snd st @ [i]))"
    using evict_loop_ok [of "bs_insert i ids" "order @ [i]" k] assms st
    by (auto simp: add_processed_id_def) (auto simp: order_ok_def)
qed

subsection \<open>The invariant\<close>

text \<open>
  A Rust string is valid UTF-8, and a time stamp is below \<open>2^64\<close>. A message id of the service
  is not blank; the state file does not keep a blank one (see \<open>blank_id_lost\<close>).
\<close>

definition good_id :: "string \<Rightarrow> bool" where
  "good_id i \<longleftrightarrow> utf8_valid i \<and> \<not> blank i"

definition store_ok :: "processed_store \<Rightarrow> bool" where
  "store_ok s \<longleftrightarrow>
     order_ok (ps_ids s, ps_order s) \<and> length (ps_order s) \<le> ps_max_ids s \<and> 1 \<le> ps_max_ids s \<and>
     bm_inv (ps_attempts s) \<and> bs_inv (ps_inflight s) \<and> bs_inv (ps_volatile s) \<and>
     (\<forall>i\<in>set (ps_inflight s). bm_get (ps_attempts s) i \<noteq> None) \<and>
     (\<forall>(i, e)\<in>set (ps_attempts s). good_id i \<and> e \<le> U64_MAX) \<and>
     list_all good_id (ps_order s) \<and> list_all good_id (ps_volatile s)"

lemma set_bm_insert_subset: "set (bm_insert k v m) \<subseteq> insert (k, v) (set m)"
  by (induction k v m rule: bm_insert.induct) auto

lemma bs_inv_filter: "bs_inv s \<Longrightarrow> bs_inv (filter P s)"
  by (induction s) auto

lemma in_keys_filter: "bs_inv s \<Longrightarrow> x \<in> set (filter P s) \<longleftrightarrow> x \<in> set s \<and> P x" for x :: string
  by simp

lemma prune_ok: "store_ok s \<Longrightarrow> store_ok (prune_expired now s)"
proof -
  have sub: "set (bm_retain P m) \<subseteq> set m" for P and m :: "(string, nat) bmap" by (auto simp: bm_retain_def)
  show "store_ok s \<Longrightarrow> store_ok (prune_expired now s)"
    using sub [of "\<lambda>_ e. now < e" "ps_attempts s"]
    by (auto simp: store_ok_def prune_expired_def inv_intros get_simps bs_inv_filter split: option.splits)
qed

lemma drop_ok: "store_ok s \<Longrightarrow> store_ok (drop_attempt i s)"
proof -
  have sub: "set (bm_remove i m) \<subseteq> set m" for m :: "(string, nat) bmap" by (auto simp: bm_remove_def)
  show "store_ok s \<Longrightarrow> store_ok (drop_attempt i s)"
    using sub [of "ps_attempts s"] by (auto simp: store_ok_def drop_attempt_def inv_intros get_simps)
qed

lemma add_done_ok:
  assumes "store_ok s" "good_id i"
  shows "store_ok (add_done i s)"
proof -
  have "order_ok (ps_ids s, ps_order s)" using assms(1) by (simp add: store_ok_def)
  note add = add_processed_ok [OF this, of "ps_max_ids s" i]
  have "list_all good_id (snd (add_processed_id (ps_max_ids s) i (ps_ids s, ps_order s)))"
    using add(2) assms newest_subset [of "ps_max_ids s" "ps_order s @ [i]"]
    by (auto simp: store_ok_def list_all_iff)
  moreover have "length (snd (add_processed_id (ps_max_ids s) i (ps_ids s, ps_order s))) \<le> ps_max_ids s"
    using add(2) assms by (simp add: store_ok_def)
  ultimately show ?thesis
    using add(1) assms(1)
    by (cases "add_processed_id (ps_max_ids s) i (ps_ids s, ps_order s)") (simp add: store_ok_def add_done_def)
qed

lemma absorb_ok:
  assumes "store_ok s"
  shows "store_ok (absorb_volatile s)"
proof -
  have "store_ok (fold (\<lambda>i s. add_done i (drop_attempt i s)) vs t)" if "store_ok t" "list_all good_id vs" for vs t
    using that by (induction vs arbitrary: t) (simp_all add: add_done_ok drop_ok)
  moreover have "store_ok (s\<lparr>ps_volatile := []\<rparr>)" "list_all good_id (ps_volatile s)"
    using assms by (simp_all add: store_ok_def)
  ultimately show ?thesis by (simp add: absorb_volatile_def)
qed

text \<open>How writing the state can end.\<close>

lemma persist_cases:
  obtains (ok) "persist f (s, d) = (Inr (), absorb_volatile s, Some (render_state (absorb_volatile s)))"
    | (failed) e d' where "persist f (s, d) = (Inl e, s, d')" "d' = d \<or> d' = Some (render_state (absorb_volatile s))"
  by (cases f) (auto simp: persist_def persist_state_def)

lemma persist_ok:
  "store_ok s \<Longrightarrow> store_ok (fst (snd (persist f (s, d))))"
  by (auto simp: persist_def absorb_ok split: prod.splits sum.splits)

lemma complete_ok:
  assumes "store_ok (fst st)" "good_id i"
  shows "store_ok (fst (snd (complete_at f i now st)))"
proof -
  have "store_ok (add_done i ((drop_attempt i (prune_expired now (fst st)))\<lparr>ps_volatile := vs\<rparr>))"
    if "vs = bs_remove i (ps_volatile (drop_attempt i (prune_expired now (fst st))))" for vs
    by (rule add_done_ok [OF _ assms(2)])
      (use drop_ok [OF prune_ok [OF assms(1), of now], of i] that in
        \<open>auto simp: store_ok_def inv_intros list_all_iff\<close>)
  from persist_ok [OF this [OF refl], of f "snd st"] show ?thesis
    using assms(1) by (auto simp: complete_at_def Let_def split: prod.splits sum.splits)
qed

lemma insert_attempt_ok:
  assumes "store_ok s" "good_id i" "e \<le> U64_MAX"
  shows "store_ok (s\<lparr>ps_inflight := bs_insert i (ps_inflight s), ps_attempts := bm_insert i e (ps_attempts s)\<rparr>)"
    and "store_ok (s\<lparr>ps_inflight := bs_remove i (ps_inflight s), ps_attempts := bm_insert i e (ps_attempts s)\<rparr>)"
  using assms set_bm_insert_subset [of i e "ps_attempts s"]
  by (auto simp: store_ok_def inv_intros get_simps)

lemma lease_end_le: "lease_end now lease \<le> U64_MAX"
  by (simp add: lease_end_def)

lemma begin_ok:
  assumes "store_ok (fst st)" "good_id i"
  shows "store_ok (fst (snd (bot_begin_attempt_at f i lease now st)))"
proof -
  let ?s = "prune_expired now (fst st)"
  have s: "store_ok ?s" by (rule prune_ok [OF assms(1)])
  have c: "store_ok (fst (snd (complete_at f i now (?s, snd st))))" using complete_ok s assms(2) by simp
  note p = persist_ok [OF insert_attempt_ok(1) [OF s assms(2) lease_end_le, of now lease], of f "snd st"]
  show ?thesis
    using s c p by (auto simp: bot_begin_attempt_at_def Let_def drop_ok split: prod.splits sum.splits option.splits)
qed

lemma release_ok:
  assumes "store_ok (fst st)"
  shows "store_ok (fst (snd (bot_release f i st)))"
proof (cases rule: persist_cases [of f "drop_attempt i (fst st)" "snd st"])
  case ok
  then show ?thesis using absorb_ok drop_ok assms by (simp add: bot_release_def)
next
  case (failed e d')
  then show ?thesis using assms by (simp add: bot_release_def drop_attempt_def)
qed

lemma defer_ok:
  "store_ok (fst st) \<Longrightarrow> good_id i \<Longrightarrow> store_ok (fst (snd (bot_defer_attempt_at f i lease now st)))"
  by (simp add: bot_defer_attempt_at_def Let_def persist_ok insert_attempt_ok(2) prune_ok lease_end_le)

lemma mark_volatile_ok:
  "store_ok s \<Longrightarrow> good_id i \<Longrightarrow> store_ok (mark_volatile_processed i now s)"
  using drop_ok [OF prune_ok, of s i now]
  by (auto simp: mark_volatile_processed_def Let_def store_ok_def inv_intros list_all_iff)

end
