(* ===== verification/BotReload.thy ===== *)
theory BotReload imports BotStoreInv begin

text \<open>Reloading the state file that a store writes.\<close>

subsection \<open>The lines of the file\<close>

lemma str_lines_unlines:
  "\<forall>l\<in>set ls. LF \<notin> set l \<and> (l \<noteq> [] \<longrightarrow> last l \<noteq> CR) \<Longrightarrow>
   str_lines (concat (map (\<lambda>l. l @ [LF]) ls)) = ls"
proof -
  have split: "split_on LF (concat (map (\<lambda>l. l @ [LF]) ls)) = ls @ [[]]" if "\<forall>l\<in>set ls. LF \<notin> set l" for ls
    using that
  proof (induction ls)
    case (Cons l ls)
    have "split_with (\<lambda>c. c = LF) (l @ LF # concat (map (\<lambda>l. l @ [LF]) ls)) =
        l # split_with (\<lambda>c. c = LF) (concat (map (\<lambda>l. l @ [LF]) ls))"
      using Cons.prems by (intro split_with_append_sep) auto
    with Cons show ?case by (simp add: split_on_def)
  qed (simp add: split_on_def)
  assume ls: "\<forall>l\<in>set ls. LF \<notin> set l \<and> (l \<noteq> [] \<longrightarrow> last l \<noteq> CR)"
  have "map strip_cr ls = ls" by (rule map_idI) (use ls in \<open>auto simp: strip_cr_def\<close>)
  with split [of ls] ls show ?thesis by (simp add: str_lines_def)
qed

definition printable :: "char \<Rightarrow> bool" where
  "printable c \<longleftrightarrow> c = TAB \<or> visible c"

lemma printable_line:
  assumes "list_all printable l" "l \<noteq> []" "visible (hd l)" "visible (last l)"
  shows "trim l = l" "LF \<notin> set l \<and> (l \<noteq> [] \<longrightarrow> last l \<noteq> CR)"
proof -
  have "byte c < 128" if "printable c" for c
    using that by (cases "c = TAB") (auto simp: printable_def visible_def TAB_def byte_def)
  then have "is_ascii l" using assms(1) by (simp add: is_ascii_def list_all_iff)
  then show "trim l = l" by (rule trim_ascii_id) (use assms visible_not_ws in blast)+
  have "\<not> printable LF" "\<not> visible CR" by (simp_all add: printable_def visible_def LF_def CR_def TAB_def byte_def)
  then show "LF \<notin> set l \<and> (l \<noteq> [] \<longrightarrow> last l \<noteq> CR)" using assms(1,4) by (auto simp: list_all_iff)
qed

definition done_line :: "string \<Rightarrow> string" where
  "done_line i = ''processed_v2'' @ [TAB] @ encode_state_id i"

definition lease_line :: "string \<times> nat \<Rightarrow> string" where
  "lease_line a = ''attempt_v2'' @ [TAB] @ show_nat (snd a) @ [TAB] @ encode_state_id (fst a)"

lemma render_lines:
  "render_state s = concat (map (\<lambda>l. l @ [LF]) (map done_line (ps_order s) @ map lease_line (ps_attempts s)))"
proof -
  have "processed_line = (\<lambda>i. done_line i @ [LF])" "attempt_line = (\<lambda>a. lease_line a @ [LF])"
    by (auto simp: fun_eq_iff processed_line_def attempt_line_def done_line_def lease_line_def)
  then show ?thesis by (simp add: render_state_def comp_def)
qed

lemma visible_letters: "list_all visible ''processed_v2''" "list_all visible ''attempt_v2''"
  by (simp_all add: visible_def byte_def)

lemma visible_printable: "list_all visible l \<Longrightarrow> list_all printable l"
  by (auto simp: list_all_iff printable_def)

lemma state_line:
  assumes "i \<noteq> []"
  shows "trim (done_line i) = done_line i" "LF \<notin> set (done_line i) \<and> (done_line i \<noteq> [] \<longrightarrow> last (done_line i) \<noteq> CR)"
    and "trim (lease_line (i, e)) = lease_line (i, e)"
      "LF \<notin> set (lease_line (i, e)) \<and> (lease_line (i, e) \<noteq> [] \<longrightarrow> last (lease_line (i, e)) \<noteq> CR)"
proof -
  have tab: "printable TAB" by (simp add: printable_def)
  have enc: "encode_state_id i \<noteq> []" "list_all visible (encode_state_id i)" using assms encode_visible by simp_all
  then have last: "visible (last (encode_state_id i))" by (simp add: list_all_iff)
  have d: "list_all printable (done_line i)" "done_line i \<noteq> []" "visible (hd (done_line i))" "visible (last (done_line i))"
    using visible_letters(1) enc last tab visible_printable [OF visible_letters(1)] visible_printable [OF enc(2)]
    by (simp_all add: done_line_def)
  show "trim (done_line i) = done_line i" "LF \<notin> set (done_line i) \<and> (done_line i \<noteq> [] \<longrightarrow> last (done_line i) \<noteq> CR)"
    by (rule printable_line [OF d])+
  have l: "list_all printable (lease_line (i, e))" "lease_line (i, e) \<noteq> []" "visible (hd (lease_line (i, e)))"
    "visible (last (lease_line (i, e)))"
    using visible_letters(2) enc last tab visible_printable [OF visible_letters(2)] visible_printable [OF enc(2)]
      visible_printable [OF visible_show_nat]
    by (simp_all add: lease_line_def)
  show "trim (lease_line (i, e)) = lease_line (i, e)"
    "LF \<notin> set (lease_line (i, e)) \<and> (lease_line (i, e) \<noteq> [] \<longrightarrow> last (lease_line (i, e)) \<noteq> CR)"
    by (rule printable_line [OF l])+
qed

lemma lines_of_state:
  assumes "\<forall>i\<in>set (ps_order s). i \<noteq> []" "\<forall>(i, e)\<in>set (ps_attempts s). i \<noteq> []"
  shows "filter (\<lambda>l. l \<noteq> []) (map trim (str_lines (render_state s))) =
    map done_line (ps_order s) @ map lease_line (ps_attempts s)"
proof -
  have trim: "map trim (map done_line (ps_order s) @ map lease_line (ps_attempts s)) =
      map done_line (ps_order s) @ map lease_line (ps_attempts s)"
    using assms state_line(1,3) by (fastforce intro: map_idI)
  have "str_lines (render_state s) = map done_line (ps_order s) @ map lease_line (ps_attempts s)"
    unfolding render_lines by (rule str_lines_unlines) (use assms state_line(2,4) in fastforce)
  moreover have "filter (\<lambda>l. l \<noteq> []) (map done_line (ps_order s) @ map lease_line (ps_attempts s)) =
      map done_line (ps_order s) @ map lease_line (ps_attempts s)"
    by (rule filter_True) (auto simp: done_line_def lease_line_def)
  ultimately show ?thesis using trim by (simp only: trim)
qed

subsection \<open>The loader on these lines\<close>

lemma no_tab [simp]: "TAB \<notin> set (show_nat e)"
proof -
  have "\<not> visible TAB" by (simp add: visible_def TAB_def byte_def)
  then show ?thesis using visible_show_nat [of e] by (auto simp: list_all_iff)
qed

lemma load_done_line:
  "utf8_valid i \<Longrightarrow> load_line k now (done_line i) (old, attempts) = (add_processed_id k i old, attempts)"
  unfolding load_line_def done_line_def append_assoc [symmetric] strip_prefix_append
  by (simp add: decode_encode)

lemma load_lease_line:
  assumes "utf8_valid i" "e \<le> U64_MAX"
  shows "load_line k now (lease_line (i, e)) (old, attempts) =
    (old, if now < e \<and> \<not> blank i then bm_insert i e attempts else attempts)"
proof -
  have no: "strip_prefix (''processed_v2'' @ [TAB]) (lease_line (i, e)) = None"
    by (simp add: strip_prefix_def starts_with_def lease_line_def)
  have rest: "strip_prefix (''attempt_v2'' @ [TAB]) (lease_line (i, e)) =
      Some (show_nat e @ TAB # encode_state_id i)"
    by (simp add: strip_prefix_Some_iff lease_line_def)
  have "split_once TAB (show_nat e @ TAB # encode_state_id i) = Some (show_nat e, encode_state_id i)"
    by (simp add: split_once_Some_iff)
  with no rest show ?thesis
    using assms by (simp add: load_line_def add_attempt_def decode_encode parse_uint_show_nat)
qed

lemma load_done_lines:
  "list_all utf8_valid is \<Longrightarrow>
   fold (load_line k now) (map done_line is) (old, attempts) = (fold (add_processed_id k) is old, attempts)"
  by (induction "is" arbitrary: old) (simp_all add: load_done_line)

lemma load_lease_lines:
  "\<forall>(i, e)\<in>set m. utf8_valid i \<and> e \<le> U64_MAX \<Longrightarrow>
   fold (load_line k now) (map lease_line m) (old, attempts) =
     (old, fold (\<lambda>(i, e) a. if now < e \<and> \<not> blank i then bm_insert i e a else a) m attempts)"
proof (induction m arbitrary: attempts)
  case (Cons x m)
  then show ?case by (cases x) (simp add: load_lease_line)
qed simp

lemma fold_add_processed:
  "order_ok st \<Longrightarrow> distinct (snd st @ is) \<Longrightarrow> length (snd st @ is) \<le> k \<Longrightarrow>
   order_ok (fold (add_processed_id k) is st) \<and> snd (fold (add_processed_id k) is st) = snd st @ is"
proof (induction "is" arbitrary: st)
  case (Cons i "is")
  have "snd (add_processed_id k i st) = snd st @ [i]"
    using Cons.prems add_processed_ok(2) [OF Cons.prems(1), of k i] by simp
  with Cons.IH [of "add_processed_id k i st"] add_processed_ok(1) [OF Cons.prems(1)] Cons.prems
  show ?case by simp
qed simp

lemma fold_insert_unexpired:
  assumes "bm_inv m" "bm_inv a"
  shows "bm_inv (fold (\<lambda>(i, e) a. if P i e then bm_insert i e a else a) m a) \<and>
    (\<forall>i. bm_get (fold (\<lambda>(i, e) a. if P i e then bm_insert i e a else a) m a) i =
      (case bm_get m i of Some e \<Rightarrow> if P i e then Some e else bm_get a i | None \<Rightarrow> bm_get a i))"
  using assms
proof (induction m arbitrary: a)
  case (Cons x m)
  obtain i e where x: "x = (i, e)" by (cases x)
  let ?a = "if P i e then bm_insert i e a else a"
  have "bm_inv ?a" using Cons.prems by (simp add: inv_intros)
  with Cons.IH [of ?a] Cons.prems x
  have IH: "bm_inv (fold (\<lambda>(i, e) a. if P i e then bm_insert i e a else a) m ?a)"
    "\<forall>j. bm_get (fold (\<lambda>(i, e) a. if P i e then bm_insert i e a else a) m ?a) j =
      (case bm_get m j of Some e \<Rightarrow> if P j e then Some e else bm_get ?a j | None \<Rightarrow> bm_get ?a j)" by simp_all
  have "bm_get m i = None" using Cons.prems(1) x by (auto simp: map_of_eq_None_iff)
  with IH x show ?case by (auto simp: get_simps split: option.splits)
qed simp

text \<open>
  The store that a reload gives: the same processed ids, the leases that still run, no work
  in progress.
\<close>

definition reloaded :: "nat \<Rightarrow> processed_store \<Rightarrow> processed_store" where
  "reloaded now s = s\<lparr>ps_attempts := bm_retain (\<lambda>_ e. now < e) (ps_attempts s), ps_inflight := [],
     ps_volatile := []\<rparr>"

lemma load_text_render:
  assumes "store_ok s"
  shows "load_text (ps_max_ids s) now (render_state s) =
    ((ps_ids s, ps_order s), bm_retain (\<lambda>_ e. now < e) (ps_attempts s))"
proof -
  have ok: "order_ok (ps_ids s, ps_order s)" "length (ps_order s) \<le> ps_max_ids s" "bm_inv (ps_attempts s)"
    "list_all utf8_valid (ps_order s)" "\<forall>(i, e)\<in>set (ps_attempts s). utf8_valid i \<and> e \<le> U64_MAX"
    using assms by (auto simp: store_ok_def good_id_def list_all_iff)
  have nonblank: "\<forall>(i, e)\<in>set (ps_attempts s). \<not> blank i" "\<forall>i\<in>set (ps_order s). \<not> blank i"
    using assms by (auto simp: store_ok_def good_id_def list_all_iff)
  then have ne: "\<forall>(i, e)\<in>set (ps_attempts s). i \<noteq> []" "\<forall>i\<in>set (ps_order s). i \<noteq> []" by auto
  have "order_ok (fold (add_processed_id (ps_max_ids s)) (ps_order s) ([], [])) \<and>
      snd (fold (add_processed_id (ps_max_ids s)) (ps_order s) ([], [])) = ps_order s"
    using fold_add_processed [of "([], [])" "ps_order s" "ps_max_ids s"] ok(1,2) by (simp add: order_ok_def)
  then have order: "fold (add_processed_id (ps_max_ids s)) (ps_order s) ([], []) = (ps_ids s, ps_order s)"
    using ok(1) bs_ext by (cases "fold (add_processed_id (ps_max_ids s)) (ps_order s) ([], [])")
      (auto simp: order_ok_def)
  let ?m = "fold (\<lambda>(i, e) a. if now < e \<and> \<not> blank i then bm_insert i e a else a) (ps_attempts s) []"
  have "?m = bm_retain (\<lambda>_ e. now < e) (ps_attempts s)"
  proof (rule bm_ext)
    show "bm_inv ?m" "bm_inv (bm_retain (\<lambda>_ e. now < e) (ps_attempts s))"
      using fold_insert_unexpired [OF ok(3), of "[]" "\<lambda>i e. now < e \<and> \<not> blank i"] ok(3) by (simp_all add: inv_intros)
    show "bm_get ?m i = bm_get (bm_retain (\<lambda>_ e. now < e) (ps_attempts s)) i" for i
      using fold_insert_unexpired [OF ok(3), of "[]" "\<lambda>i e. now < e \<and> \<not> blank i"] nonblank(1)
      by (auto simp: bm_get_retain [OF ok(3)] dest!: map_of_SomeD split: option.splits)
  qed
  then show ?thesis
    unfolding load_text_def lines_of_state [OF ne(2,1)]
    using load_done_lines [OF ok(4)] load_lease_lines [OF ok(5)] order by simp
qed

lemma render_utf8: "utf8_valid (render_state s)"
proof -
  have "byte c < 128" if "printable c \<or> c = LF" for c
    using that by (auto simp: printable_def visible_def TAB_def LF_def byte_def)
  moreover have "list_all (\<lambda>c. printable c \<or> c = LF) (render_state s)"
  proof -
    have tab: "printable TAB" by (simp add: printable_def)
    have "list_all printable (done_line i)" "list_all printable (lease_line a)" for i a
      using visible_printable [OF visible_letters(1)] visible_printable [OF visible_letters(2)]
        visible_printable [OF visible_show_nat] visible_printable [OF encode_visible] tab
      by (simp_all add: done_line_def lease_line_def)
    then have "\<forall>l\<in>set (map done_line (ps_order s) @ map lease_line (ps_attempts s)). \<forall>c\<in>set l. printable c"
      unfolding list_all_iff by auto
    then show ?thesis unfolding render_lines list_all_iff by (auto simp del: map_append simp: Un_iff)
  qed
  ultimately have "is_ascii (render_state s)" by (simp add: is_ascii_def list_all_iff)
  then show ?thesis by (rule is_ascii_utf8_valid)
qed

lemma load_render:
  "store_ok s \<Longrightarrow> bot_load None (ps_max_ids s) now (Some (render_state s)) = Inr (reloaded now s)"
  by (simp add: bot_load_def read_to_string_def render_utf8 load_text_render reloaded_def)

end
