(* ===== verification/BotLease.thy ===== *)
theory BotLease imports BotReload LeaseGuard begin

text \<open>
  The account bot's store as a provider of leases: while the lease of an attempt runs, no
  worker of the process starts the message again, and neither does a process that is started
  from the state file after a crash.
\<close>

subsection \<open>Calls\<close>

datatype bot_call =
    CallBegin persist_fault string duration nat
  | CallRelease persist_fault string
  | CallDefer persist_fault string duration nat
  | CallRemember persist_fault string nat
  | CallVolatile string nat
  | CallRestart nat

fun call_id :: "bot_call \<Rightarrow> string option" where
  "call_id (CallBegin f i lease now) = Some i"
| "call_id (CallRelease f i) = Some i"
| "call_id (CallDefer f i lease now) = Some i"
| "call_id (CallRemember f i now) = Some i"
| "call_id (CallVolatile i now) = Some i"
| "call_id (CallRestart now) = None"

fun call_time :: "bot_call \<Rightarrow> nat option" where
  "call_time (CallBegin f i lease now) = Some now"
| "call_time (CallRelease f i) = None"
| "call_time (CallDefer f i lease now) = Some now"
| "call_time (CallRemember f i now) = Some now"
| "call_time (CallVolatile i now) = Some now"
| "call_time (CallRestart now) = Some now"

text \<open>The process restarts: only the state file is left.\<close>

definition bot_restart :: "nat \<Rightarrow> store_state \<Rightarrow> store_state" where
  "bot_restart now st =
     (case bot_load None (ps_max_ids (fst st)) now (snd st) of
        Inr s \<Rightarrow> (s, snd st)
      | Inl e \<Rightarrow> st)"

fun bot_do :: "bot_call \<Rightarrow> store_state \<Rightarrow> store_state" where
  "bot_do (CallBegin f i lease now) st = snd (bot_begin_attempt_at f i lease now st)"
| "bot_do (CallRelease f i) st = snd (bot_release f i st)"
| "bot_do (CallDefer f i lease now) st = snd (bot_defer_attempt_at f i lease now st)"
| "bot_do (CallRemember f i now) st = snd (complete_at f i now st)"
| "bot_do (CallVolatile i now) st = (mark_volatile_processed i now (fst st), snd st)"
| "bot_do (CallRestart now) st = bot_restart now st"

text \<open>Message ids of the service are not blank: other calls are left out of the runs.\<close>

definition bot_step :: "store_state \<Rightarrow> bot_call \<Rightarrow> store_state" where
  "bot_step st c = (if case call_id c of Some i \<Rightarrow> good_id i | None \<Rightarrow> True then bot_do c st else st)"

subsection \<open>How a call can end\<close>

lemma max_ids [simp]:
  "ps_max_ids (prune_expired now s) = ps_max_ids s"
  "ps_max_ids (drop_attempt i s) = ps_max_ids s"
  "ps_max_ids (add_done i s) = ps_max_ids s"
  "ps_max_ids (absorb_volatile s) = ps_max_ids s"
proof -
  show drop: "ps_max_ids (drop_attempt i s) = ps_max_ids s" for s i by (simp add: drop_attempt_def)
  show add: "ps_max_ids (add_done i s) = ps_max_ids s" for s i by (simp add: add_done_def split: prod.splits)
  have "ps_max_ids (fold (\<lambda>i s. add_done i (drop_attempt i s)) vs t) = ps_max_ids t" for vs t
    by (induction vs arbitrary: t) (simp_all add: drop add)
  then show "ps_max_ids (absorb_volatile s) = ps_max_ids s" by (simp add: absorb_volatile_def)
qed (simp add: prune_expired_def)



definition completed :: "string \<Rightarrow> nat \<Rightarrow> processed_store \<Rightarrow> processed_store" where
  "completed i now s = add_done i ((drop_attempt i (prune_expired now s))
     \<lparr>ps_volatile := bs_remove i (ps_volatile s)\<rparr>)"

lemma complete_eq:
  "complete_at f i now (s, d) =
     (case persist f (completed i now s, d) of
        (Inr _, st') \<Rightarrow> (Inr (), st')
      | (Inl e, st') \<Rightarrow> (Inl e, s, snd st'))"
  by (simp add: complete_at_def completed_def Let_def drop_attempt_def prune_expired_def fst_conv
      cong: prod.case_cong sum.case_cong)

definition attempted :: "string \<Rightarrow> duration \<Rightarrow> nat \<Rightarrow> processed_store \<Rightarrow> processed_store" where
  "attempted i lease now s = (prune_expired now s)
     \<lparr>ps_inflight := bs_insert i (ps_inflight (prune_expired now s)),
      ps_attempts := bm_insert i (lease_end now lease) (ps_attempts (prune_expired now s))\<rparr>"

lemma begin_cases:
  obtains (known) r where "bot_begin_attempt_at f i lease now (s, d) = (Inr r, prune_expired now s, d)" "r \<noteq> BotStarted"
      "i \<in> set (ps_ids s) \<or> i \<in> set (ps_inflight (prune_expired now s)) \<or>
         bm_get (ps_attempts (prune_expired now s)) i \<noteq> None"
    | (volatile) r r' st where "bot_begin_attempt_at f i lease now (s, d) = (r, st)" "r \<noteq> Inr BotStarted"
      "complete_at f i now (prune_expired now s, d) = (r', st)" "i \<in> set (ps_volatile s)"
    | (started) st where "bot_begin_attempt_at f i lease now (s, d) = (Inr BotStarted, st)"
      "persist f (attempted i lease now s, d) = (Inr (), st)" "i \<notin> set (ps_ids s)" "i \<notin> set (ps_volatile s)"
      "i \<notin> set (ps_inflight (prune_expired now s))" "bm_get (ps_attempts (prune_expired now s)) i = None"
    | (failed) e st where "bot_begin_attempt_at f i lease now (s, d) = (Inl e, drop_attempt i (fst st), snd st)"
      "persist f (attempted i lease now s, d) = (Inl e, st)" "i \<notin> set (ps_ids s)" "i \<notin> set (ps_volatile s)"
      "i \<notin> set (ps_inflight (prune_expired now s))" "bm_get (ps_attempts (prune_expired now s)) i = None"
proof -
  have same: "ps_ids (prune_expired now s) = ps_ids s" "ps_volatile (prune_expired now s) = ps_volatile s"
    by (simp_all add: prune_expired_def)
  obtain r2 st2 where p: "persist f (attempted i lease now s, d) = (r2, st2)" by (meson surj_pair)
  obtain r1 st1 where c: "complete_at f i now (prune_expired now s, d) = (r1, st1)" by (meson surj_pair)
  note run = bot_begin_attempt_at_def [of f i lease now "(s, d)", unfolded Let_def fst_conv snd_conv same
      attempted_def [symmetric] p c]
  show thesis
  proof (cases "i \<in> set (ps_ids s)")
    case True
    with run known [of BotProcessed] show ?thesis by simp
  next
    case new: False
    show ?thesis
    proof (cases "i \<in> set (ps_volatile s)")
      case True
      show ?thesis
        by (rule volatile [of "case r1 of Inl e \<Rightarrow> Inl e | Inr _ \<Rightarrow> Inr BotProcessedAfterPersist" st1 r1])
          (use run new True c in \<open>auto split: sum.splits\<close>)
    next
      case novol: False
      show ?thesis
      proof (cases "i \<in> set (ps_inflight (prune_expired now s))")
        case True
        with run new novol known [of BotInProgress] show ?thesis by simp
      next
        case free: False
        show ?thesis
        proof (cases "bm_get (ps_attempts (prune_expired now s)) i")
          case (Some e)
          with run new novol free known show ?thesis by simp
        next
          case None
          show ?thesis
          proof (cases r2)
            case (Inl e)
            with run new novol free None p failed [of e st2] show ?thesis by simp
          next
            case (Inr u)
            with run new novol free None p started [of st2] show ?thesis by simp
          qed
        qed
      qed
    qed
  qed
qed

lemma complete_cases:
  obtains (ok) "complete_at f i now (s, d) = (Inr (), absorb_volatile (completed i now s),
      Some (render_state (absorb_volatile (completed i now s))))"
    | (failed) e d' where "complete_at f i now (s, d) = (Inl e, s, d')"
      "d' = d \<or> d' = Some (render_state (absorb_volatile (completed i now s)))"
  by (cases rule: persist_cases [of f "completed i now s" d]) (auto simp: complete_eq)

lemma completed_ok:
  assumes "store_ok s" "good_id i"
  shows "store_ok (completed i now s)"
  unfolding completed_def
  by (rule add_done_ok [OF _ assms(2)])
    (use drop_ok [OF prune_ok [OF assms(1), of now], of i] assms(1) in
      \<open>auto simp: store_ok_def inv_intros list_all_iff drop_attempt_def prune_expired_def\<close>)

lemma max_ids_completed [simp]: "ps_max_ids (completed i now s) = ps_max_ids s"
  by (simp add: completed_def)

lemma attempted_ok: "store_ok s \<Longrightarrow> good_id i \<Longrightarrow> store_ok (attempted i lease now s)"
  unfolding attempted_def by (rule insert_attempt_ok(1) [OF prune_ok _ lease_end_le])

subsection \<open>What memory and file keep\<close>

text \<open>\<open>M\<close> holds of the memory and of the store the file was written from.\<close>

definition keeps :: "(processed_store \<Rightarrow> bool) \<Rightarrow> bool \<Rightarrow> store_state \<Rightarrow> bool" where
  "keeps M fresh st \<longleftrightarrow> M (fst st) \<and>
     (case snd st of None \<Rightarrow> fresh | Some t \<Rightarrow> (\<exists>s. M s \<and> t = render_state s))"

definition empty_store :: "nat \<Rightarrow> processed_store" where
  "empty_store k = \<lparr>ps_ids = [], ps_attempts = [], ps_inflight = [], ps_order = [], ps_max_ids = k, ps_volatile = []\<rparr>"

definition deferred :: "string \<Rightarrow> duration \<Rightarrow> nat \<Rightarrow> processed_store \<Rightarrow> processed_store" where
  "deferred i lease now s = (prune_expired now s)
     \<lparr>ps_inflight := bs_remove i (ps_inflight (prune_expired now s)),
      ps_attempts := bm_insert i (lease_end now lease) (ps_attempts (prune_expired now s))\<rparr>"

text \<open>The stores a call can write or leave in memory.\<close>

fun variants :: "bot_call \<Rightarrow> processed_store \<Rightarrow> processed_store list" where
  "variants (CallBegin f i lease now) s =
     [prune_expired now s, completed i now (prune_expired now s), attempted i lease now s,
      drop_attempt i (attempted i lease now s)]"
| "variants (CallRelease f i) s = [drop_attempt i s]"
| "variants (CallDefer f i lease now) s = [deferred i lease now s]"
| "variants (CallRemember f i now) s = [completed i now s]"
| "variants (CallVolatile i now) s = [mark_volatile_processed i now s]"
| "variants (CallRestart now) s = [reloaded now s]"

definition closed_under :: "bot_call \<Rightarrow> bool \<Rightarrow> (processed_store \<Rightarrow> bool) \<Rightarrow> bool" where
  "closed_under c fresh M \<longleftrightarrow>
     (\<forall>s. M s \<longrightarrow> M (absorb_volatile s) \<and> list_all M (variants c s) \<and> (fresh \<longrightarrow> M (empty_store (ps_max_ids s)))) \<and>
     (\<exists>k. \<forall>s. M s \<longrightarrow> store_ok s \<and> ps_max_ids s = k)"

lemma keeps_persist:
  assumes "keeps M fresh (s0, d)" "M s" "M (absorb_volatile s)"
  shows "keeps M fresh (snd (persist f (s, d)))" "keeps M fresh (s', snd (snd (persist f (s, d)))) = M s'"
  using assms by (cases rule: persist_cases [of f s d]; auto simp: keeps_def)+

lemma keeps_complete:
  assumes "keeps M fresh (s, d)" "M (completed i now s)" "M (absorb_volatile (completed i now s))"
  shows "keeps M fresh (snd (complete_at f i now (s, d)))"
  using assms by (cases rule: complete_cases [of f i now s d]) (auto simp: keeps_def)

lemma bot_do_keeps:
  assumes "keeps M fresh (s, d)" "closed_under c fresh M"
  shows "keeps M fresh (bot_do c (s, d))"
proof -
  have s: "M s" using assms(1) by (simp add: keeps_def)
  have abs: "M (absorb_volatile t)" if "M t" for t using assms(2) that by (simp add: closed_under_def)
  have var: "list_all M (variants c s)" using assms(2) s by (simp add: closed_under_def)
  show ?thesis
  proof (cases c)
    case (CallBegin f i lease now)
    with var have v: "M (prune_expired now s)" "M (completed i now (prune_expired now s))"
      "M (attempted i lease now s)" "M (drop_attempt i (attempted i lease now s))" by simp_all
    show ?thesis
    proof (cases rule: begin_cases [of f i lease now s d])
      case (known r)
      then show ?thesis using CallBegin v(1) assms(1) by (simp add: keeps_def)
    next
      case (volatile r r' st)
      have "keeps M fresh (prune_expired now s, d)" using v(1) assms(1) by (simp add: keeps_def)
      from keeps_complete [OF this v(2) abs [OF v(2)], of f] volatile CallBegin show ?thesis by simp
    next
      case (started st)
      with keeps_persist(1) [OF assms(1) v(3) abs [OF v(3)], of f] CallBegin show ?thesis by simp
    next
      case (failed e st)
      have "fst st = attempted i lease now s"
        using failed(2) by (cases rule: persist_cases [of f "attempted i lease now s" d]) auto
      with failed keeps_persist(2) [OF assms(1) v(3) abs [OF v(3)], of "drop_attempt i (attempted i lease now s)" f]
        v(4) CallBegin show ?thesis by simp
    qed
  next
    case (CallRelease f i)
    with var have v: "M (drop_attempt i s)" by simp
    from keeps_persist(1) [OF assms(1) v abs [OF v], of f]
      keeps_persist(2) [OF assms(1) v abs [OF v], of s f] s CallRelease
    show ?thesis
      by (cases rule: persist_cases [of f "drop_attempt i s" d]) (auto simp: bot_release_def drop_attempt_def)
  next
    case (CallDefer f i lease now)
    with var have v: "M (deferred i lease now s)" by simp
    from keeps_persist(1) [OF assms(1) v abs [OF v], of f] CallDefer show ?thesis
      by (simp add: bot_defer_attempt_at_def Let_def deferred_def)
  next
    case (CallRemember f i now)
    with var have v: "M (completed i now s)" by simp
    from keeps_complete [OF assms(1) v abs [OF v], of f] CallRemember show ?thesis by simp
  next
    case (CallVolatile i now)
    with var assms(1) show ?thesis by (simp add: keeps_def)
  next
    case (CallRestart now)
    have ok: "\<exists>k. \<forall>s. M s \<longrightarrow> store_ok s \<and> ps_max_ids s = k" using assms(2) by (simp add: closed_under_def)
    have re: "M (reloaded now t)" if "M t" for t using assms(2) that CallRestart by (simp add: closed_under_def)
    show ?thesis
    proof (cases d)
      case None
      then have "M (empty_store (ps_max_ids s))" using assms by (simp add: keeps_def closed_under_def)
      with None CallRestart assms(1) show ?thesis
        by (simp add: bot_restart_def bot_load_def read_to_string_def load_text_def str_lines_def split_on_def
            keeps_def empty_store_def)
    next
      case (Some t)
      then obtain t' where t': "M t'" "t = render_state t'" using assms(1) by (auto simp: keeps_def)
      then have "store_ok t'" "ps_max_ids t' = ps_max_ids s" using ok s by metis+
      with t' load_render [of t' now] have "bot_load None (ps_max_ids s) now d = Inr (reloaded now t')"
        using Some by simp
      then show ?thesis using CallRestart re t' Some by (auto simp: bot_restart_def keeps_def)
    qed
  qed
qed

subsection \<open>Well-formed stores\<close>

definition sized :: "nat \<Rightarrow> processed_store \<Rightarrow> bool" where
  "sized k s \<longleftrightarrow> store_ok s \<and> ps_max_ids s = k"

definition bot_inv :: "store_state \<Rightarrow> bool" where
  "bot_inv st \<longleftrightarrow> keeps (sized (ps_max_ids (fst st))) True st"

definition call_ok :: "bot_call \<Rightarrow> bool" where
  "call_ok c \<longleftrightarrow> (case call_id c of Some i \<Rightarrow> good_id i | None \<Rightarrow> True)"

lemma max_ids_more [simp]:
  "ps_max_ids (attempted i lease now s) = ps_max_ids s"
  "ps_max_ids (deferred i lease now s) = ps_max_ids s"
  "ps_max_ids (mark_volatile_processed i now s) = ps_max_ids s"
  "ps_max_ids (reloaded now s) = ps_max_ids s"
  "ps_max_ids (empty_store k) = k"
  by (simp_all add: attempted_def deferred_def mark_volatile_processed_def Let_def reloaded_def empty_store_def)

lemma reloaded_ok: "store_ok s \<Longrightarrow> store_ok (reloaded now s)"
  by (auto simp: store_ok_def reloaded_def inv_intros) (auto simp: bm_retain_def)

lemma empty_ok: "1 \<le> k \<Longrightarrow> store_ok (empty_store k)"
  by (simp add: store_ok_def empty_store_def order_ok_def)

lemma variants_ok: "store_ok s \<Longrightarrow> call_ok c \<Longrightarrow> list_all store_ok (variants c s)"
  by (cases c) (simp_all add: call_ok_def prune_ok completed_ok attempted_ok drop_ok mark_volatile_ok
      reloaded_ok deferred_def insert_attempt_ok(2) lease_end_le)

lemma variants_max: "list_all (\<lambda>t. ps_max_ids t = ps_max_ids s) (variants c s)"
  by (cases c) simp_all

lemma closed_sized: "call_ok c \<Longrightarrow> closed_under c True (sized k)"
proof -
  assume c: "call_ok c"
  have "1 \<le> ps_max_ids s" if "store_ok s" for s using that by (simp add: store_ok_def)
  moreover have "list_all (sized (ps_max_ids s)) (variants c s)" if "store_ok s" for s
    using variants_ok [OF that c] variants_max [of s c] by (simp add: sized_def list_all_iff)
  ultimately show ?thesis
    unfolding closed_under_def sized_def by (auto simp: absorb_ok empty_ok)
qed

lemma keeps_M: "keeps M fresh st \<Longrightarrow> M (fst st)"
  by (simp add: keeps_def)

lemma bot_step_def': "bot_step st c = (if call_ok c then bot_do c st else st)"
  by (simp add: bot_step_def call_ok_def)

lemma bot_inv_step: "bot_inv st \<Longrightarrow> bot_inv (bot_step st c)"
proof (cases "call_ok c")
  case True
  assume inv: "bot_inv st"
  let ?k = "ps_max_ids (fst st)"
  have "keeps (sized ?k) True (bot_do c st)"
    using bot_do_keeps [of "sized ?k" True "fst st" "snd st" c] closed_sized [OF True] inv by (simp add: bot_inv_def)
  moreover from keeps_M [OF this] have "ps_max_ids (fst (bot_do c st)) = ?k" by (simp add: sized_def)
  ultimately show ?thesis using True by (simp add: bot_inv_def bot_step_def')
qed (simp add: bot_step_def')

subsection \<open>Leases\<close>

type_synonym bot_lease = "string \<times> nat"

text \<open>The lease of message \<open>i\<close> until \<open>t\<close>, in one store.\<close>

definition leased :: "nat \<Rightarrow> bot_lease \<Rightarrow> processed_store \<Rightarrow> bool" where
  "leased k l s \<longleftrightarrow> sized k s \<and> (\<exists>e. bm_get (ps_attempts s) (fst l) = Some e \<and> snd l \<le> e) \<and>
     fst l \<notin> set (ps_volatile s)"

text \<open>The lease holds in memory and survives a restart from the file.\<close>

definition bot_held :: "store_state \<Rightarrow> bot_lease \<Rightarrow> bool" where
  "bot_held st l \<longleftrightarrow> keeps (leased (ps_max_ids (fst st)) l) False st"

definition bot_starts :: "store_state \<Rightarrow> bot_call \<Rightarrow> bot_lease \<Rightarrow> bool" where
  "bot_starts st c l \<longleftrightarrow> call_ok c \<and> (case c of
     CallBegin f i lease now \<Rightarrow> fst (bot_begin_attempt_at f i lease now st) = Inr BotStarted \<and>
       l = (i, lease_end now lease)
   | _ \<Rightarrow> False)"

text \<open>
  A call that comes before the lease ends and is not a worker of this message giving it back,
  putting it off or completing it.
\<close>

definition bot_quiet :: "bot_lease \<Rightarrow> bot_call \<Rightarrow> bool" where
  "bot_quiet l c \<longleftrightarrow> (case call_time c of Some now \<Rightarrow> now < snd l | None \<Rightarrow> True) \<and>
     (case c of CallBegin f i lease now \<Rightarrow> True | _ \<Rightarrow> call_id c \<noteq> Some (fst l))"

lemma attempts_prune:
  "store_ok s \<Longrightarrow> bm_get (ps_attempts (prune_expired now s)) i =
    (case bm_get (ps_attempts s) i of Some e \<Rightarrow> if now < e then Some e else None | None \<Rightarrow> None)"
  by (simp add: prune_expired_def store_ok_def get_simps)

lemma attempts_simps [simp]:
  "bm_get (ps_attempts (drop_attempt j s)) i = (if i = j then None else bm_get (ps_attempts s) i)"
  "ps_attempts (add_done j s) = ps_attempts s"
  "ps_volatile (add_done j s) = ps_volatile s"
  "ps_volatile (drop_attempt j s) = ps_volatile s"
  "ps_volatile (prune_expired now s) = ps_volatile s"
  by (simp_all add: drop_attempt_def get_simps add_done_def prune_expired_def split: prod.splits)

lemma attempts_absorb:
  "bm_get (ps_attempts (absorb_volatile s)) i =
     (if i \<in> set (ps_volatile s) then None else bm_get (ps_attempts s) i)"
  "ps_volatile (absorb_volatile s) = []"
proof -
  have "bm_get (ps_attempts (fold (\<lambda>i s. add_done i (drop_attempt i s)) vs t)) i =
      (if i \<in> set vs then None else bm_get (ps_attempts t) i) \<and>
    ps_volatile (fold (\<lambda>i s. add_done i (drop_attempt i s)) vs t) = ps_volatile t" for vs t
    by (induction vs arbitrary: t) auto
  then show "bm_get (ps_attempts (absorb_volatile s)) i =
     (if i \<in> set (ps_volatile s) then None else bm_get (ps_attempts s) i)"
    "ps_volatile (absorb_volatile s) = []"
    by (simp_all add: absorb_volatile_def)
qed

lemma attempts_changed [simp]:
  "bm_get (ps_attempts (completed j now s)) i = (if i = j then None else bm_get (ps_attempts (prune_expired now s)) i)"
  "ps_volatile (completed j now s) = bs_remove j (ps_volatile s)"
  "bm_get (ps_attempts (attempted j lease now s)) i =
     (if i = j then Some (lease_end now lease) else bm_get (ps_attempts (prune_expired now s)) i)"
  "ps_volatile (attempted j lease now s) = ps_volatile s"
  "bm_get (ps_attempts (deferred j lease now s)) i =
     (if i = j then Some (lease_end now lease) else bm_get (ps_attempts (prune_expired now s)) i)"
  "ps_volatile (deferred j lease now s) = ps_volatile s"
  "bm_get (ps_attempts (mark_volatile_processed j now s)) i =
     (if i = j then None else bm_get (ps_attempts (prune_expired now s)) i)"
  "ps_volatile (mark_volatile_processed j now s) = bs_insert j (ps_volatile s)"
  "ps_volatile (reloaded now s) = []"
  by (simp_all add: completed_def attempted_def deferred_def mark_volatile_processed_def Let_def get_simps reloaded_def)

lemma leased_prune: "leased k l s \<Longrightarrow> now < snd l \<Longrightarrow> leased k l (prune_expired now s)"
  by (auto simp: leased_def sized_def attempts_prune prune_ok)

lemma leased_absorb: "leased k l s \<Longrightarrow> leased k l (absorb_volatile s)"
  by (auto simp: leased_def sized_def attempts_absorb absorb_ok)

lemma leased_variants:
  assumes "leased k l s" "bot_quiet l c" "call_ok c" "call_id c \<noteq> Some (fst l)"
  shows "list_all (leased k l) (variants c s)"
proof -
  have s: "store_ok s" "ps_max_ids s = k" "\<exists>e. bm_get (ps_attempts s) (fst l) = Some e \<and> snd l \<le> e"
    "fst l \<notin> set (ps_volatile s)"
    using assms(1) by (simp_all add: leased_def sized_def)
  have get1: "\<exists>e. bm_get (ps_attempts (prune_expired now u)) (fst l) = Some e \<and> snd l \<le> e"
    if "now < snd l" "store_ok u" "\<exists>e. bm_get (ps_attempts u) (fst l) = Some e \<and> snd l \<le> e" for now u
    using that by (auto simp: attempts_prune)
  have get: "\<exists>e. bm_get (ps_attempts (prune_expired now s)) (fst l) = Some e \<and> snd l \<le> e"
    "\<exists>e. bm_get (ps_attempts (prune_expired now (prune_expired now s))) (fst l) = Some e \<and> snd l \<le> e"
    if "now < snd l" for now
    using s that get1 prune_ok [OF s(1), of now] by blast+
  have get3: "\<exists>e. bm_get (ps_attempts (reloaded now s)) (fst l) = Some e \<and> snd l \<le> e" if "now < snd l" for now
    using s that by (auto simp: reloaded_def store_ok_def get_simps)
  have "list_all (\<lambda>t. (\<exists>e. bm_get (ps_attempts t) (fst l) = Some e \<and> snd l \<le> e) \<and> fst l \<notin> set (ps_volatile t))
      (variants c s)"
    using assms(2,4) s(3,4) get get3 by (cases c) (auto simp: bot_quiet_def)
  then show ?thesis
    using variants_ok [OF s(1) assms(3)] variants_max [of s c] s(2)
    by (simp add: leased_def sized_def list_all_iff)
qed

lemma leased_sized: "leased k l s \<Longrightarrow> store_ok s \<and> ps_max_ids s = k"
  by (simp add: leased_def sized_def)

lemma begin_leased:
  assumes "leased k (i, t) s" "now < t"
  shows "\<exists>r. bot_begin_attempt_at f i lease now (s, d) = (Inr r, prune_expired now s, d) \<and> r \<noteq> BotStarted"
proof (cases rule: begin_cases [of f i lease now s d])
  case (known r)
  then show ?thesis by blast
next
  case (volatile r r' st)
  then show ?thesis using assms(1) by (simp add: leased_def)
next
  case (started st)
  then show ?thesis using leased_prune [OF assms(1), of now] assms(2) by (simp add: leased_def)
next
  case (failed e st)
  then show ?thesis using leased_prune [OF assms(1), of now] assms(2) by (simp add: leased_def)
qed

lemma bot_held_step:
  assumes "bot_held st l" "bot_quiet l c"
  shows "bot_held (bot_step st c) l"
proof (cases "call_ok c")
  case True
  obtain s d where st: "st = (s, d)" by (cases st)
  define k where "k = ps_max_ids s"
  have held: "keeps (leased k l) False (s, d)" using assms(1) by (simp add: bot_held_def st k_def)
  have "keeps (leased k l) False (bot_do c (s, d))"
  proof (cases "call_id c = Some (fst l)")
    case False
    have "closed_under c False (leased k l)"
      using leased_absorb leased_variants [OF _ assms(2) True False] leased_sized
      unfolding closed_under_def by blast
    from bot_do_keeps [OF held this] show ?thesis .
  next
    case same: True
    then obtain f lease now where c: "c = CallBegin f (fst l) lease now" "now < snd l"
      using assms(2) by (cases c) (auto simp: bot_quiet_def)
    have l: "leased k (fst l, snd l) s" using keeps_M [OF held] by simp
    from begin_leased [OF this c(2), of f lease d] have "bot_do c (s, d) = (prune_expired now s, d)"
      using c by auto
    moreover have "keeps (leased k l) False (prune_expired now s, d)"
      using held leased_prune [OF _ c(2), of k s] by (simp add: keeps_def)
    ultimately show ?thesis by simp
  qed
  moreover from keeps_M [OF this] have "ps_max_ids (fst (bot_do c (s, d))) = k" by (simp add: leased_def sized_def)
  ultimately show ?thesis using True by (simp add: bot_held_def bot_step_def' st)
qed (use assms(1) in \<open>simp add: bot_step_def'\<close>)

lemma bot_starts_held:
  assumes "bot_inv st" "bot_starts st c l"
  shows "bot_held (bot_step st c) l"
proof -
  obtain s d where st: "st = (s, d)" by (cases st)
  obtain f i lease now where c: "c = CallBegin f i lease now" "l = (i, lease_end now lease)" "call_ok c"
    "fst (bot_begin_attempt_at f i lease now (s, d)) = Inr BotStarted"
    using assms(2) by (auto simp: bot_starts_def st split: bot_call.splits)
  have s: "store_ok s" using assms(1) by (simp add: bot_inv_def st keeps_def sized_def)
  define k where "k = ps_max_ids s"
  have good: "good_id i" using c(1,3) by (simp add: call_ok_def)
  show ?thesis
  proof (cases rule: begin_cases [of f i lease now s d])
    case (started st')
    have "leased k l (attempted i lease now s)"
      using attempted_ok [OF s good] started(4) c(2) by (simp add: leased_def sized_def k_def)
    from leased_absorb [OF this] have "keeps (leased k l) False st'"
      using started(2) by (cases rule: persist_cases [of f "attempted i lease now s" d]) (auto simp: keeps_def)
    moreover from keeps_M [OF this] have "ps_max_ids (fst st') = k" by (simp add: leased_def sized_def)
    ultimately show ?thesis using started(1) c by (simp add: bot_held_def bot_step_def' st)
  qed (use c(4) in auto)
qed

lemma bot_held_excludes:
  assumes "bot_held st l" "bot_quiet l c" "bot_starts st c l'"
  shows "fst l \<noteq> fst l'"
proof
  assume same: "fst l = fst l'"
  obtain f i lease now where c: "c = CallBegin f i lease now" "fst l' = i"
    "fst (bot_begin_attempt_at f i lease now st) = Inr BotStarted"
    using assms(3) by (auto simp: bot_starts_def split: bot_call.splits)
  have "leased (ps_max_ids (fst st)) (i, snd l) (fst st)"
    using keeps_M [OF assms(1) [unfolded bot_held_def]] same c(2) by (cases l) simp
  moreover have "now < snd l" using assms(2) c(1) by (simp add: bot_quiet_def)
  ultimately obtain r where "bot_begin_attempt_at f i lease now (fst st, snd st) = (Inr r, prune_expired now (fst st), snd st)"
    "r \<noteq> BotStarted"
    using begin_leased by blast
  with c(3) show False by simp
qed

interpretation bot: lease_guard bot_step bot_starts bot_held bot_quiet "\<lambda>l l'. fst l = fst l'" bot_inv
  by unfold_locales (auto intro: bot_inv_step bot_starts_held bot_held_step dest: bot_held_excludes)

end
