(* ===== verification/BotHandlerProps.thy ===== *)
theory BotHandlerProps imports BotHandler BotLease begin

text \<open>What one run of the handler does to the event slots and what it sends.\<close>

subsection \<open>Steps that neither send nor touch a slot\<close>

definition frame :: "bot_state \<Rightarrow> nat \<times> nat \<times> create_message list" where
  "frame st = (bt_slots st, bt_completed st, bt_sent st)"

text \<open>Other requests leave the slots and the sent messages alone while this one runs.\<close>

definition calm :: "world \<Rightarrow> bool" where
  "calm w \<longleftrightarrow> (\<forall>n st. frame (wk_others w n st) = frame st)"

named_theorems frames \<open>steps that keep the frame\<close>

lemma frame_store_call [frames]: "calm w \<Longrightarrow> frame (snd (store_call w f st)) = frame st"
  by (auto simp: store_call_def Let_def calm_def frame_def split: prod.splits)

lemma frame_set_failed [simp]: "frame (set_failed b st) = frame st"
  by (simp add: set_failed_def frame_def)

lemma frame_store_call': "store_call w f st = (r, st') \<Longrightarrow> calm w \<Longrightarrow> frame st' = frame st"
  using frame_store_call [of w f st] by simp

lemma frame_in_flight_begin: "calm w \<Longrightarrow> frame (snd (in_flight_begin w i lease st)) = frame st"
  by (auto simp: in_flight_begin_def dest!: frame_store_call' split: prod.splits sum.splits begin_attempt.splits)

lemma frame_drop_in_flight [frames]: "calm w \<Longrightarrow> frame (drop_in_flight w im st) = frame st"
  by (auto simp: drop_in_flight_def dest!: frame_store_call' split: prod.splits sum.splits)

lemma frame_finish_flight: "calm w \<Longrightarrow> frame (snd (finish_flight w im f st)) = frame st"
  by (auto simp: finish_flight_def frame_drop_in_flight dest!: frame_store_call' split: prod.splits sum.splits)

lemma frame_flight [frames]:
  "calm w \<Longrightarrow> frame (snd (flight_release w im st)) = frame st"
  "calm w \<Longrightarrow> frame (snd (flight_remember w im st)) = frame st"
  "calm w \<Longrightarrow> frame (snd (flight_defer w d im st)) = frame st"
  "calm w \<Longrightarrow> frame (snd (flight_remember_after_reply w im st)) = frame st"
  by (auto simp: flight_release_def flight_remember_def flight_defer_def frame_finish_flight
      flight_remember_after_reply_def dest!: frame_store_call' split: prod.splits sum.splits)

lemma frame_finish_error [simp]: "frame (snd (finish_error msg d rs)) = frame (snd rs)"
  by (auto simp: finish_error_def split: prod.splits sum.splits)

lemma frame_finish [frames]:
  "calm w \<Longrightarrow> frame (snd (release_or_retry_after cfg w im i ctx st)) = frame st"
  "calm w \<Longrightarrow> frame (snd (remember_or_retry_after cfg w im i ctx st)) = frame st"
  "calm w \<Longrightarrow> frame (snd (remember_after_reply_or_retry_after cfg w im i st)) = frame st"
  by (simp_all add: release_or_retry_after_def remember_or_retry_after_def remember_after_reply_or_retry_after_def frames)

lemma frame_api_failure [frames]: "calm w \<Longrightarrow> frame (finish_after_known_api_failure cfg w im e st) = frame st"
  using frame_flight(1) [of w "mark_reply_not_accepted im" st]
    frame_flight(3) [of w _ "mark_reply_not_accepted im" st]
  by (auto simp: finish_after_known_api_failure_def Let_def split: option.splits prod.splits sum.splits)
    (metis snd_conv)+

lemma frame_begin [frames]: "calm w \<Longrightarrow> frame (snd (begin_in_flight_attempt cfg w i st)) = frame st"
  using frame_in_flight_begin [of w i "bc_attempt_lease cfg" st]
  by (auto simp: begin_in_flight_attempt_def split: prod.splits sum.splits)

lemma frame_wait [frames]: "calm w \<Longrightarrow> frame (snd (wait_for_in_flight_attempt cfg w i n st)) = frame st"
proof (induction n arbitrary: st)
  case (Suc n)
  obtain r st' where b: "begin_in_flight_attempt cfg w i st = (r, st')" by (meson surj_pair)
  then have "frame st' = frame st" using frame_begin [OF Suc.prems, of cfg i st] by simp
  with b Suc show ?case by (auto split: sum.splits begin_in_flight.splits)
qed simp

subsection \<open>What a step does with its slot\<close>

text \<open>
  From a state with the slot taken: the slot is committed exactly for a counted action, given
  back otherwise, and at most the one given message is sent.
\<close>

definition outcome ::
    "event_slot \<Rightarrow> bool \<Rightarrow> create_message list \<Rightarrow> bot_state \<Rightarrow> bot_state \<Rightarrow> bool" where
  "outcome sl counted msgs st st' \<longleftrightarrow>
     bt_sent st' = bt_sent st @ msgs \<and>
     (case sl of
        Unlimited \<Rightarrow> bt_slots st' = bt_slots st \<and> bt_completed st' = bt_completed st
      | Counted \<Rightarrow>
          if counted then bt_slots st' = bt_slots st \<and> bt_completed st' = Suc (bt_completed st)
          else bt_slots st' = bt_slots st - 1 \<and> bt_completed st' = bt_completed st)"

lemma outcome_commit: "frame st' = frame st \<Longrightarrow> outcome sl True [] st (commit_slot sl st')"
  by (simp add: outcome_def commit_slot_def frame_def split: event_slot.splits)

lemma outcome_drop: "frame st' = frame st \<Longrightarrow> outcome sl False [] st (drop_slot sl st')"
  by (simp add: outcome_def drop_slot_def frame_def split: event_slot.splits)

lemma outcome_send: "outcome sl c [] (send_request req st) st' \<Longrightarrow> outcome sl c [req] st st'"
  by (simp add: outcome_def send_request_def split: event_slot.splits)

lemma settle_outcome:
  assumes "frame (snd rs) = frame st"
  shows "outcome sl (\<not> isl (fst (settle sl a rs))) [] st (snd (settle sl a rs))"
    "fst (settle sl a rs) = Inr b \<Longrightarrow> b = a"
  using assms by (auto simp: settle_def outcome_commit outcome_drop split: prod.splits sum.splits)

lemma finish_cases:
  obtains (ok) st' where "rs = (Inr (), st')" | (err) e st' where "rs = (Inl e, st')"
  by (cases rs; cases "fst rs") auto

lemma outcome_dropped:
  "frame (snd rs) = frame st \<Longrightarrow> outcome sl False [] st (drop_slot sl (snd rs))"
  by (rule outcome_drop)

lemma worker_outcome:
  assumes "calm w"
  shows "outcome sl (\<not> isl (fst (send_reply_worker cfg w im i r p t sl st)))
    [create_message_reply_text r p t] st (snd (send_reply_worker cfg w im i r p t sl st))"
proof -
  let ?st = "send_request (create_message_reply_text r p t) st"
  let ?run = "send_reply_worker cfg w im i r p t sl st"
  have "outcome sl (\<not> isl (fst ?run)) [] ?st (snd ?run)"
  proof (cases "wk_create_message w (create_message_reply_text r p t)")
    case (Inr reply)
    then show ?thesis
      by (simp add: send_reply_worker_def settle_outcome(1) frame_finish(3) [OF assms])
  next
    case (Inl e)
    consider (gone) "is_webex_api_status e 404"
      | (api) "\<not> is_webex_api_status e 404" "case e of Api _ \<Rightarrow> True | _ \<Rightarrow> False"
      | (maybe) "\<not> is_webex_api_status e 404" "\<not> (case e of Api _ \<Rightarrow> True | _ \<Rightarrow> False)"
          "create_message_error_could_have_been_accepted e"
      | (not_sent) "\<not> is_webex_api_status e 404" "\<not> (case e of Api _ \<Rightarrow> True | _ \<Rightarrow> False)"
          "\<not> create_message_error_could_have_been_accepted e" by blast
    then show ?thesis
    proof cases
      case gone
      then show ?thesis
        using Inl by (simp add: send_reply_worker_def settle_outcome(1) frame_finish(2) [OF assms])
    next
      case api
      then show ?thesis
        using Inl outcome_drop [OF frame_api_failure [OF assms]]
        by (simp add: send_reply_worker_def Let_def split: option.splits)
    next
      case maybe
      then show ?thesis
        using Inl by (simp add: send_reply_worker_def settle_outcome(1) frame_finish(3) [OF assms])
    next
      case not_sent
      then show ?thesis
        using Inl outcome_drop [OF frame_finish(1) [OF assms, of cfg im i "''create_message failure''" ?st]]
        by (cases rule: finish_cases [of "release_or_retry_after cfg w im i ''create_message failure'' ?st"])
          (simp_all add: send_reply_worker_def)
    qed
  qed
  then show ?thesis by (rule outcome_send)
qed

text \<open>A reply that is sent: to an allowed room, and not to the bot's own message.\<close>

definition due_reply :: "bot_config \<Rightarrow> bot_message \<Rightarrow> string \<Rightarrow> create_message \<Rightarrow> bool" where
  "due_reply cfg m i req \<longleftrightarrow> \<not> bc_mock cfg \<and>
     (\<exists>r p. bm_room_id m = Some r \<and> room_allowed cfg r \<and>
        p = (case bm_parent_id m of Some p \<Rightarrow> p | None \<Rightarrow> i) \<and>
        req = create_message_reply_text r p (reply_text (bc_reply_prefix cfg) m)) \<and>
     (bc_self_person_id cfg \<noteq> None \<longrightarrow> bm_person_id m \<noteq> bc_self_person_id cfg)"

definition step_ok ::
    "bot_config \<Rightarrow> bot_message \<Rightarrow> string \<Rightarrow> event_slot \<Rightarrow> bot_state \<Rightarrow> (bot_error + bot_action) \<times> bot_state \<Rightarrow> bool" where
  "step_ok cfg m i sl st rs \<longleftrightarrow>
     (\<exists>msgs. outcome sl (\<not> isl (fst rs)) msgs st (snd rs) \<and> (msgs = [] \<or> (\<exists>req. msgs = [req] \<and> due_reply cfg m i req))) \<and>
     (\<forall>a. fst rs = Inr a \<longrightarrow> counts_toward_max_events a)"

lemma counts_simps [simp]:
  "counts_toward_max_events (act_ignored reason i r) \<longleftrightarrow> reason \<in> set counted_reasons"
  "counts_toward_max_events (act_mock_replied i' r' t)"
  "counts_toward_max_events (act_replied i' r' t reply)"
  "counts_toward_max_events (a\<lparr>ba_logged := b\<rparr>) = counts_toward_max_events a"
  by (simp_all add: counts_toward_max_events_def act_ignored_def act_mock_replied_def act_replied_def
      split: action_kind.splits)

lemma settle_ok:
  assumes "frame (snd rs) = frame st" "counts_toward_max_events a"
  shows "step_ok cfg m i sl st (settle sl a rs)"
  using settle_outcome [OF assms(1), of sl a] assms(2) unfolding step_ok_def by blast

lemma settle_value: "fst (settle sl a rs) = Inr out \<Longrightarrow> out = a"
  by (auto simp: settle_def split: prod.splits sum.splits)

lemma worker_counts:
  assumes "fst (send_reply_worker cfg w im i r p t sl st) = Inr out"
  shows "counts_toward_max_events (from_reply_outcome i r t out)"
proof (cases "wk_create_message w (create_message_reply_text r p t)")
  case (Inr reply)
  then show ?thesis using assms by (auto simp: send_reply_worker_def dest!: settle_value)
next
  case (Inl e)
  have "out = OutIgnored ''message_not_found'' \<or> out = OutIgnored ''reply_unknown''"
    using assms Inl
    by (auto simp: send_reply_worker_def Let_def dest!: settle_value split: if_splits option.splits prod.splits sum.splits)
  then show ?thesis by (auto simp: counted_reasons_def)
qed

lemma after_hydration_ok:
  assumes "calm w"
  shows "step_ok cfg m i sl st (after_hydration cfg w im i m sl st)"
proof (cases "bm_room_id m")
  case None
  then show ?thesis
    by (simp add: after_hydration_def settle_ok frame_finish(1) [OF assms] counted_reasons_def)
next
  case (Some r)
  let ?p = "case bm_parent_id m of Some p \<Rightarrow> p | None \<Rightarrow> i" and ?t = "reply_text (bc_reply_prefix cfg) m"
  consider (room) "\<not> room_allowed cfg r"
    | (self) "room_allowed cfg r" "bc_self_person_id cfg \<noteq> None" "bm_person_id m = bc_self_person_id cfg"
    | (mock) "room_allowed cfg r" "\<not> (bc_self_person_id cfg \<noteq> None \<and> bm_person_id m = bc_self_person_id cfg)" "bc_mock cfg"
    | (send) "room_allowed cfg r" "\<not> (bc_self_person_id cfg \<noteq> None \<and> bm_person_id m = bc_self_person_id cfg)"
        "\<not> bc_mock cfg" by blast
  then show ?thesis
  proof cases
    case room
    then show ?thesis
      by (simp add: after_hydration_def Some settle_ok frame_finish(1) [OF assms] counted_reasons_def)
  next
    case self
    then show ?thesis
      by (simp add: after_hydration_def Some settle_ok frame_finish(1) [OF assms] counted_reasons_def)
  next
    case mock
    then show ?thesis
      by (simp only: after_hydration_def Some option.case Let_def if_True if_False not_not simp_thms)
        (simp add: settle_ok frame_finish(2) [OF assms])
  next
    case send
    have due: "due_reply cfg m i (create_message_reply_text r ?p ?t)"
      using send Some by (auto simp: due_reply_def)
    have run: "after_hydration cfg w im i m sl st = (case send_reply cfg w im i r ?p ?t sl st of
        (Inl e, st) \<Rightarrow> (Inl e, st)
      | (Inr out, st) \<Rightarrow> (Inr ((from_reply_outcome i r ?t out)\<lparr>ba_logged := wk_log_enqueued w\<rparr>), st))"
      using send Some by (auto simp: after_hydration_def Let_def)
    show ?thesis
    proof (cases "wk_worker_lost w")
      case lost: (Some why)
      have "frame (drop_in_flight w im (drop_slot sl st)) = frame (drop_slot sl st)"
        by (rule frame_drop_in_flight [OF assms])
      then have "outcome sl False [] st (set_failed True (drop_in_flight w im (drop_slot sl st)))"
        by (auto simp: outcome_def frame_def set_failed_def drop_slot_def split: event_slot.splits)
      then show ?thesis unfolding run by (auto simp: send_reply_def lost step_ok_def intro!: exI [of _ "[]"])
    next
      case None
      let ?run = "send_reply_worker cfg w im i r ?p ?t sl st"
      note worker = worker_outcome [OF assms, of sl cfg im i r ?p ?t st]
      show ?thesis
      proof (cases "fst ?run")
        case (Inl e)
        then have "step_ok cfg m i sl st (Inl e, snd ?run)"
          unfolding step_ok_def fst_conv snd_conv using worker due by auto
        with Inl show ?thesis unfolding run send_reply_def None option.case by (cases ?run) simp
      next
        case (Inr out)
        then have "step_ok cfg m i sl st
            (Inr ((from_reply_outcome i r ?t out)\<lparr>ba_logged := wk_log_enqueued w\<rparr>), snd ?run)"
          unfolding step_ok_def fst_conv snd_conv using worker due worker_counts [OF Inr] by auto
        with Inr show ?thesis unfolding run send_reply_def None option.case by (cases ?run) simp
      qed
    qed
  qed
qed

subsection \<open>One event\<close>

text \<open>The message the handler decides on: the event's, or with the service's fields filled in.\<close>

definition resolved :: "world \<Rightarrow> string \<Rightarrow> bot_message \<Rightarrow> bot_message \<Rightarrow> bool" where
  "resolved w i m m' \<longleftrightarrow> m' = m \<or> (\<exists>h. wk_get_message w i = Some (Inr h) \<and> m' = merge_message h m)"

definition sent_ok :: "bot_config \<Rightarrow> world \<Rightarrow> bot_message \<Rightarrow> string \<Rightarrow> create_message list \<Rightarrow> bool" where
  "sent_ok cfg w m i msgs \<longleftrightarrow>
     msgs = [] \<or> (\<exists>req m'. msgs = [req] \<and> resolved w i m m' \<and> due_reply cfg m' i req)"

definition counted :: "bot_answer \<Rightarrow> bool" where
  "counted ans \<longleftrightarrow> (case ans of Some (Inr a) \<Rightarrow> counts_toward_max_events a | _ \<Rightarrow> False)"

definition answered :: "bot_config \<Rightarrow> world \<Rightarrow> bot_message \<Rightarrow> string \<Rightarrow> event_slot \<Rightarrow> bot_state \<Rightarrow> bot_answer \<times> bot_state \<Rightarrow> bool" where
  "answered cfg w m i sl st rs \<longleftrightarrow>
     (\<exists>msgs. outcome sl (counted (fst rs)) msgs st (snd rs) \<and> sent_ok cfg w m i msgs)"

lemma answered_step:
  assumes "step_ok cfg m' i sl st rs" "resolved w i m m'"
  shows "answered cfg w m i sl st (apfst Some rs)"
proof -
  have "counted (Some (fst rs)) = (\<not> isl (fst rs))"
    using assms(1) by (cases "fst rs") (auto simp: step_ok_def counted_def)
  with assms show ?thesis unfolding answered_def step_ok_def sent_ok_def by (cases rs) force
qed

lemma answered_drop:
  "frame st' = frame st \<Longrightarrow> \<not> counted ans \<Longrightarrow> answered cfg w m i sl st (ans, drop_slot sl st')"
  unfolding answered_def sent_ok_def by (auto intro!: exI [of _ "[]"] outcome_drop)

lemma counted_simps [simp]: "\<not> counted None" "\<not> counted (Some (Inl e))"
  by (simp_all add: counted_def)

lemma answer_message_ok:
  assumes "calm w"
  shows "answered cfg w m i sl st (answer_message cfg w im i m sl st)"
proof -
  have self: "resolved w i m m" by (simp add: resolved_def)
  consider (room) "case bm_room_id m of Some r \<Rightarrow> \<not> room_allowed cfg r | None \<Rightarrow> False"
    | (ask) "\<not> (case bm_room_id m of Some r \<Rightarrow> \<not> room_allowed cfg r | None \<Rightarrow> False)" "\<not> bc_mock cfg" "needs_hydration m"
    | (direct) "\<not> (case bm_room_id m of Some r \<Rightarrow> \<not> room_allowed cfg r | None \<Rightarrow> False)"
        "\<not> (\<not> bc_mock cfg \<and> needs_hydration m)" by blast
  then show ?thesis
  proof cases
    case room
    have "step_ok cfg m i sl st (settle sl (act_ignored ''room_not_allowed'' (Some i) (bm_room_id m))
        (release_or_retry_after cfg w im i ''room not allowed'' st))"
      by (rule settle_ok [OF frame_finish(1) [OF assms]]) (simp add: counted_reasons_def)
    from answered_step [OF this self] room show ?thesis by (simp add: answer_message_def)
  next
    case direct
    then show ?thesis
      using answered_step [OF after_hydration_ok [OF assms] self] by (auto simp: answer_message_def)
  next
    case ask
    show ?thesis
    proof (cases "wk_get_message w i")
      case None
      have "frame (drop_in_flight w im (drop_slot sl st)) = frame (drop_slot sl st)"
        by (rule frame_drop_in_flight [OF assms])
      then have "outcome sl False [] st (drop_in_flight w im (drop_slot sl st))"
        by (auto simp: outcome_def frame_def drop_slot_def split: event_slot.splits)
      then show ?thesis
        using ask None by (auto simp: answer_message_def answered_def sent_ok_def intro!: exI [of _ "[]"])
    next
      case got: (Some answer)
      show ?thesis
      proof (cases answer)
        case (Inr h)
        have "resolved w i m (merge_message h m)" using got Inr by (auto simp: resolved_def)
        from answered_step [OF after_hydration_ok [OF assms] this] ask got Inr show ?thesis
          by (simp add: answer_message_def)
      next
        case (Inl e)
        have "step_ok cfg m i sl st (settle sl (act_ignored ''message_not_found'' (Some i) (bm_room_id m))
            (remember_or_retry_after cfg w im i ''missing Webex message'' st))"
          by (rule settle_ok [OF frame_finish(2) [OF assms]]) (simp add: counted_reasons_def)
        note gone = answered_step [OF this self]
        have api: "answered cfg w m i sl st (Some (Inl (retryable_api e (bc_attempt_lease cfg))),
            drop_slot sl (finish_after_known_api_failure cfg w im e st))"
          by (rule answered_drop [OF frame_api_failure [OF assms]]) simp
        have rel: "answered cfg w m i sl st
            (case release_or_retry_after cfg w im i ''hydration failure'' st of
               (Inl b, st) \<Rightarrow> (Some (Inl b), drop_slot sl st)
             | (Inr _, st) \<Rightarrow> (Some (Inl (Webex e)), drop_slot sl st))"
          using frame_finish(1) [OF assms, of cfg im i "''hydration failure''" st]
          by (cases rule: finish_cases [of "release_or_retry_after cfg w im i ''hydration failure'' st"])
            (simp_all add: answered_drop)
        show ?thesis
          using ask got Inl gone api rel by (cases e) (auto simp: answer_message_def)
      qed
    qed
  qed
qed

text \<open>The same from the state before the slot is taken.\<close>

definition event_ok :: "bot_config \<Rightarrow> world \<Rightarrow> bot_message \<Rightarrow> string \<Rightarrow> bot_state \<Rightarrow> bot_answer \<times> bot_state \<Rightarrow> bool" where
  "event_ok cfg w m i st rs \<longleftrightarrow>
     (\<exists>msgs. bt_sent (snd rs) = bt_sent st @ msgs \<and> sent_ok cfg w m i msgs) \<and>
     (let n = (if bc_max_events cfg \<noteq> 0 \<and> counted (fst rs) then 1 else 0) in
      bt_slots (snd rs) = bt_slots st + n \<and> bt_completed (snd rs) = bt_completed st + n)"

lemma event_ok_frame:
  "frame (snd rs) = frame st \<Longrightarrow> \<not> counted (fst rs) \<Longrightarrow> event_ok cfg w m i st rs"
  by (simp add: event_ok_def frame_def sent_ok_def Let_def)

lemma event_ok_begin:
  "frame st' = frame st \<Longrightarrow> event_ok cfg w m i st' rs \<Longrightarrow> event_ok cfg w m i st rs"
  by (simp add: event_ok_def frame_def)

lemma start_answer_ok:
  assumes "calm w"
  shows "event_ok cfg w m i st (start_answer cfg w im i m st)"
proof -
  consider (free) "bc_max_events cfg = 0" | (full) "bc_max_events cfg \<noteq> 0" "bc_max_events cfg \<le> bt_slots st"
    | (slot) "bc_max_events cfg \<noteq> 0" "bt_slots st < bc_max_events cfg" by linarith
  then show ?thesis
  proof cases
    case free
    have "start_answer cfg w im i m st = answer_message cfg w im i m Unlimited st"
      using free by (simp add: start_answer_def try_acquire_event_slot_def)
    with answer_message_ok [OF assms, of cfg m i Unlimited st im] free show ?thesis
      by (auto simp: event_ok_def answered_def outcome_def)
  next
    case full
    have "frame (snd (start_answer cfg w im i m st)) = frame st \<and> \<not> counted (fst (start_answer cfg w im i m st))"
      using full frame_finish(1) [OF assms, of cfg im i "''max events reached''" st]
      by (cases rule: finish_cases [of "release_or_retry_after cfg w im i ''max events reached'' st"])
        (simp_all add: start_answer_def try_acquire_event_slot_def)
    then show ?thesis by (intro event_ok_frame) simp_all
  next
    case slot
    let ?st = "st\<lparr>bt_slots := Suc (bt_slots st)\<rparr>"
    have "start_answer cfg w im i m st = answer_message cfg w im i m Counted ?st"
      using slot by (simp add: start_answer_def try_acquire_event_slot_def)
    with answer_message_ok [OF assms, of cfg m i Counted ?st im] slot show ?thesis
      by (auto simp: event_ok_def answered_def outcome_def split: if_splits)
  qed
qed

lemma duplicate_ok: "event_ok cfg w m i st (apfst Some (duplicate_message_action cfg i r st))"
  by (auto simp: event_ok_def duplicate_message_action_def try_acquire_event_slot_def commit_slot_def
      sent_ok_def counted_def counted_reasons_def)

lemma handle_message_ok:
  assumes "calm w"
  shows "event_ok cfg w m i st (handle_message cfg w i m st)"
proof -
  obtain b st1 where b: "begin_in_flight_attempt cfg w i st = (b, st1)" by (meson surj_pair)
  then have f1: "frame st1 = frame st" using frame_begin [OF assms, of cfg i st] by simp
  obtain b2 st2 where b2: "wait_for_in_flight_attempt cfg w i (wk_waits w) st1 = (b2, st2)" by (meson surj_pair)
  then have f2: "frame st2 = frame st" using frame_wait [OF assms, of cfg i "wk_waits w" st1] f1 by simp
  note start = event_ok_begin [OF f1 start_answer_ok [OF assms]] event_ok_begin [OF f2 start_answer_ok [OF assms]]
  note dup = event_ok_begin [OF f1 duplicate_ok] event_ok_begin [OF f2 duplicate_ok]
  have err: "event_ok cfg w m i st (Some (Inl e), st1)" "event_ok cfg w m i st (Some (Inl e), st2)"
    "event_ok cfg w m i st (None, st2)" for e
    using f1 f2 by (simp_all add: event_ok_frame)
  show ?thesis
    unfolding handle_message_def b b2
    using start dup err
    by (auto simp: b2 split: sum.splits begin_in_flight.splits option.splits)
qed

end
