(* ===== verification/BotReplies.thy ===== *)
theory BotReplies imports BotHandlerProps begin

text \<open>
  A message whose reply the service has accepted is remembered, in the state file or, when it
  cannot be written, in memory; another event for it is not answered again.
\<close>

subsection \<open>A remembered message is not started\<close>

definition remembers :: "processed_store \<Rightarrow> string \<Rightarrow> bool" where
  "remembers s i \<longleftrightarrow> i \<in> set (ps_ids s) \<or> i \<in> set (ps_volatile s)"

text \<open>No other request acts in between.\<close>

definition alone :: "world \<Rightarrow> bool" where
  "alone w \<longleftrightarrow> (\<forall>n st. wk_others w n st = st)"

lemma alone_calm: "alone w \<Longrightarrow> calm w"
  by (simp add: alone_def calm_def)

lemma alone_call:
  "alone w \<Longrightarrow> store_call w f st =
    (case f (wk_fault w (bt_tick st)) (wk_now w (bt_tick st)) (wk_later w (bt_tick st)) (bt_store st) of
       (r, s) \<Rightarrow> (r, st\<lparr>bt_store := s, bt_tick := Suc (bt_tick st)\<rparr>))"
  by (simp add: store_call_def alone_def Let_def)

lemma begin_remembered:
  assumes "remembers (fst s) i"
  shows "(\<exists>e s'. bot_begin_attempt_at f i lease now s = (Inl e, s')) \<or>
    (\<exists>s'. bot_begin_attempt_at f i lease now s = (Inr BotProcessed, s')) \<or>
    (\<exists>s'. bot_begin_attempt_at f i lease now s = (Inr BotProcessedAfterPersist, s'))"
proof -
  have "ps_ids (prune_expired now (fst s)) = ps_ids (fst s)" by (simp add: prune_expired_def)
  then show ?thesis
    using assms by (auto simp: remembers_def bot_begin_attempt_at_def Let_def split: prod.splits sum.splits)
qed

lemma remembered_not_started:
  assumes "alone w" "remembers (fst (bt_store st)) i"
  shows "(\<exists>e st'. begin_in_flight_attempt cfg w i st = (Inl e, st')) \<or>
    (\<exists>st'. begin_in_flight_attempt cfg w i st = (Inr FlightProcessed, st'))"
  using begin_remembered [OF assms(2), of "wk_fault w (bt_tick st)" "bc_attempt_lease cfg" "wk_now w (bt_tick st)"]
  by (auto simp: begin_in_flight_attempt_def in_flight_begin_def alone_call [OF assms(1)])

lemma remembered_not_answered:
  assumes "alone w" "remembers (fst (bt_store st)) i"
  shows "bt_sent (snd (handle_message cfg w i m st)) = bt_sent st"
proof -
  have dup: "bt_sent (snd (duplicate_message_action cfg i r st')) = bt_sent st'" for r st'
    by (simp add: duplicate_message_action_def try_acquire_event_slot_def commit_slot_def)
  have "bt_sent (snd (begin_in_flight_attempt cfg w i st)) = bt_sent st"
    using frame_begin [OF alone_calm [OF assms(1)], of cfg i st] by (simp add: frame_def)
  then show ?thesis
    using remembered_not_started [OF assms, of cfg] dup by (auto simp: handle_message_def)
qed

subsection \<open>A finished reply is remembered\<close>

text \<open>\<open>i\<close> is young enough to survive \<open>k\<close> more ids.\<close>

definition recent :: "string \<Rightarrow> nat \<Rightarrow> processed_store \<Rightarrow> bool" where
  "recent i k s \<longleftrightarrow> (\<exists>pre post. ps_order s = pre @ i # post \<and> length post + k < ps_max_ids s)"

lemma newest_keeps:
  assumes "order = pre @ i # post" "length post + Suc k < mx"
  shows "\<exists>pre' post'. newest mx (order @ [v]) = pre' @ i # post' \<and> length post' + k < mx"
proof -
  define n where "n = length (order @ [v]) - mx"
  have n: "n \<le> length pre" using assms by (simp add: n_def)
  have "newest mx (order @ [v]) = drop n pre @ i # (post @ [v])"
    using n assms(1) by (simp add: newest_def n_def)
  then show ?thesis using assms(2) by (intro exI [of _ "drop n pre"] exI [of _ "post @ [v]"]) simp
qed

lemma order_add_done:
  "store_ok s \<Longrightarrow> ps_order (add_done v s) = (if v \<in> set (ps_order s) then ps_order s else newest (ps_max_ids s) (ps_order s @ [v]))"
  using add_processed_ok(2) [of "(ps_ids s, ps_order s)" "ps_max_ids s" v]
  by (auto simp: add_done_def store_ok_def split: prod.splits)

lemma recent_add:
  assumes "store_ok s" "recent i (Suc k) s"
  shows "recent i k (add_done v s)"
proof -
  from assms(2) obtain pre post where p: "ps_order s = pre @ i # post" "length post + Suc k < ps_max_ids s"
    by (auto simp: recent_def)
  show ?thesis
  proof (cases "v \<in> set (ps_order s)")
    case True
    then show ?thesis using p order_add_done [OF assms(1), of v] unfolding recent_def by fastforce
  next
    case False
    then show ?thesis
      using newest_keeps [OF p, of v] order_add_done [OF assms(1), of v] by (simp add: recent_def)
  qed
qed

lemma recent_drop [simp]: "recent i k (drop_attempt v s) = recent i k s"
  by (simp add: recent_def drop_attempt_def)

lemma recent_in_ids: "store_ok s \<Longrightarrow> recent i k s \<Longrightarrow> i \<in> set (ps_ids s)"
  by (auto simp: recent_def store_ok_def order_ok_def)

lemma recent_absorb:
  assumes "store_ok s" "recent i (length (ps_volatile s)) s"
  shows "i \<in> set (ps_ids (absorb_volatile s))"
proof -
  have "recent i 0 (fold (\<lambda>i s. add_done i (drop_attempt i s)) vs t)"
    if "store_ok t" "list_all good_id vs" "recent i (length vs) t" for vs t
    using that
  proof (induction vs arbitrary: t)
    case (Cons v vs)
    have "store_ok (drop_attempt v t)" using Cons.prems(1) by (rule drop_ok)
    then show ?case
      using Cons recent_add [of "drop_attempt v t" i "length vs" v] add_done_ok [of "drop_attempt v t" v] by simp
  qed simp
  from this [of "s\<lparr>ps_volatile := []\<rparr>" "ps_volatile s"] assms
  have "recent i 0 (absorb_volatile s)"
    by (simp add: absorb_volatile_def store_ok_def recent_def)
  with recent_in_ids absorb_ok [OF assms(1)] show ?thesis by blast
qed

lemma recent_completed:
  assumes "store_ok s" "good_id i" "i \<notin> set (ps_ids s)" "length (ps_volatile s) < ps_max_ids s"
  shows "recent i (length (ps_volatile (completed i now s))) (completed i now s)"
proof -
  let ?t = "(drop_attempt i (prune_expired now s))\<lparr>ps_volatile := bs_remove i (ps_volatile s)\<rparr>"
  have t: "store_ok ?t"
    using drop_ok [OF prune_ok [OF assms(1), of now], of i] assms(1)
    by (auto simp: store_ok_def inv_intros list_all_iff drop_attempt_def prune_expired_def)
  have same: "ps_order ?t = ps_order s" "ps_max_ids ?t = ps_max_ids s"
    by (simp_all add: drop_attempt_def prune_expired_def)
  have "i \<notin> set (ps_order s)" using assms(1,3) by (auto simp: store_ok_def order_ok_def)
  then have order: "ps_order (completed i now s) = newest (ps_max_ids s) (ps_order s @ [i])"
    using order_add_done [OF t, of i] same by (simp add: completed_def)
  have mx: "1 \<le> ps_max_ids s" using assms(1) by (simp add: store_ok_def)
  have "length (bs_remove i (ps_volatile s)) \<le> length (ps_volatile s)" by (simp add: bs_remove_def)
  moreover have "newest (ps_max_ids s) (ps_order s @ [i]) =
      drop (length (ps_order s @ [i]) - ps_max_ids s) (ps_order s) @ [i]"
    using mx by (simp add: newest_def)
  ultimately show ?thesis
    using order assms(4) unfolding recent_def by fastforce
qed

lemma remember_remembers:
  assumes "store_ok (fst s)" "good_id i" "i \<notin> set (ps_ids (fst s))"
    "length (ps_volatile (fst s)) < ps_max_ids (fst s)"
  shows "remembers (fst (snd (remember_or_volatile i f now later s))) i"
proof (cases rule: complete_cases [of f i now "fst s" "snd s"])
  case ok
  have "i \<in> set (ps_ids (absorb_volatile (completed i now (fst s))))"
    by (rule recent_absorb [OF completed_ok [OF assms(1,2)] recent_completed [OF assms]])
  with ok show ?thesis by (simp add: remember_or_volatile_def remembers_def)
next
  case (failed e d')
  then show ?thesis by (simp add: remember_or_volatile_def remembers_def)
qed

subsection \<open>From the start of an attempt to its reply\<close>

text \<open>A store in which an attempt for \<open>i\<close> has just begun.\<close>

definition begun :: "string \<Rightarrow> bot_state \<Rightarrow> bool" where
  "begun i st \<longleftrightarrow> store_ok (fst (bt_store st)) \<and> i \<notin> set (ps_ids (fst (bt_store st))) \<and>
     ps_volatile (fst (bt_store st)) = []"

lemma evict_loop_subset: "set (fst (evict_loop k ids order)) \<subseteq> set ids"
  by (induction k ids order rule: evict_loop.induct) auto

lemma ids_absorb: "set (ps_ids (absorb_volatile s)) \<subseteq> set (ps_ids s) \<union> set (ps_volatile s)"
proof -
  have add: "set (ps_ids (add_done v t)) \<subseteq> insert v (set (ps_ids t))" for v t
    using evict_loop_subset [of "ps_max_ids t" "bs_insert v (ps_ids t)" "ps_order t @ [v]"]
    by (auto simp: add_done_def add_processed_id_def split: prod.splits if_splits)
  have "set (ps_ids (fold (\<lambda>i s. add_done i (drop_attempt i s)) vs t)) \<subseteq> set (ps_ids t) \<union> set vs" for vs t
  proof (induction vs arbitrary: t)
    case (Cons v vs)
    have "set (ps_ids (add_done v (drop_attempt v t))) \<subseteq> insert v (set (ps_ids t))"
      using add [of v "drop_attempt v t"] by (simp add: drop_attempt_def)
    with Cons.IH [of "add_done v (drop_attempt v t)"] show ?case by auto
  qed simp
  from this [of "ps_volatile s" "s\<lparr>ps_volatile := []\<rparr>"] show ?thesis by (simp add: absorb_volatile_def)
qed

lemma begin_begun:
  assumes "store_ok (fst s)" "good_id i" "bot_begin_attempt_at f i lease now s = (Inr BotStarted, s')"
  shows "store_ok (fst s') \<and> i \<notin> set (ps_ids (fst s')) \<and> ps_volatile (fst s') = []"
proof -
  have s: "bot_begin_attempt_at f i lease now (fst s, snd s) = (Inr BotStarted, s')" using assms(3) by simp
  show ?thesis
  proof (cases rule: begin_cases [of f i lease now "fst s" "snd s"])
    case (started st)
    then have "fst s' = absorb_volatile (attempted i lease now (fst s))"
      using s by (cases rule: persist_cases [of f "attempted i lease now (fst s)" "snd s"]) auto
    moreover have "set (ps_ids (attempted i lease now (fst s))) = set (ps_ids (fst s))"
      by (simp add: attempted_def prune_expired_def)
    ultimately show ?thesis
      using absorb_ok [OF attempted_ok [OF assms(1,2)]] started ids_absorb [of "attempted i lease now (fst s)"]
      by (auto simp: attempts_absorb(2))
  qed (use s in auto)
qed

lemma flight_begun:
  assumes "alone w" "store_ok (fst (bt_store st))" "good_id i"
    "begin_in_flight_attempt cfg w i st = (Inr b, st')"
  shows "store_ok (fst (bt_store st')) \<and> (\<forall>im. b = FlightStarted im \<longrightarrow> if_id im = i \<and> begun i st')"
proof -
  obtain r s' where r: "bot_begin_attempt_at (wk_fault w (bt_tick st)) i (bc_attempt_lease cfg)
      (wk_now w (bt_tick st)) (bt_store st) = (r, s')" by (meson surj_pair)
  have "store_ok (fst s')"
    using begin_ok [OF assms(2,3), of "wk_fault w (bt_tick st)" "bc_attempt_lease cfg" "wk_now w (bt_tick st)"] r by simp
  moreover have "r = Inr BotStarted \<Longrightarrow> store_ok (fst s') \<and> i \<notin> set (ps_ids (fst s')) \<and> ps_volatile (fst s') = []"
    using begin_begun [OF assms(2,3)] r by blast
  ultimately show ?thesis
    using assms(4) r
    by (cases r; cases "projr r")
      (auto simp: begin_in_flight_attempt_def in_flight_begin_def alone_call [OF assms(1)] set_failed_def begun_def)
qed

lemma wait_begun:
  assumes "alone w" "good_id i"
  shows "store_ok (fst (bt_store st)) \<Longrightarrow>
    wait_for_in_flight_attempt cfg w i n st = (Some (Inr (FlightStarted im)), st') \<Longrightarrow> if_id im = i \<and> begun i st'"
proof (induction n arbitrary: st)
  case (Suc n)
  obtain r st1 where b: "begin_in_flight_attempt cfg w i st = (r, st1)" by (meson surj_pair)
  show ?case
  proof (cases r)
    case (Inl e)
    with b Suc.prems show ?thesis by simp
  next
    case (Inr x)
    note one = flight_begun [OF assms(1) Suc.prems(1) assms(2) b [unfolded Inr]]
    show ?thesis
    proof (cases "x = FlightInProgress")
      case True
      then show ?thesis using Suc b Inr one by simp
    next
      case False
      then have "x = FlightStarted im \<and> st1 = st'" using Suc.prems(2) b Inr by (cases x) auto
      with one show ?thesis by blast
    qed
  qed
qed (simp split: if_splits)

text \<open>
  Either nothing is sent, or the state is the one a reply worker leaves that started right
  after the begin of an attempt.
\<close>

definition via_worker :: "bot_config \<Rightarrow> world \<Rightarrow> string \<Rightarrow> bot_state \<Rightarrow> bot_state \<Rightarrow> bool" where
  "via_worker cfg w i st st' \<longleftrightarrow> bt_sent st' = bt_sent st \<or>
     (\<exists>im r p t sl st0. if_id im = i \<and> begun i st0 \<and> bt_sent st0 = bt_sent st \<and>
        st' = snd (send_reply_worker cfg w im i r p t sl st0))"

lemma via_frame: "frame st' = frame st \<Longrightarrow> via_worker cfg w i st st'"
  by (simp add: via_worker_def frame_def)

lemma sent_slot [simp]: "bt_sent (commit_slot sl st) = bt_sent st" "bt_sent (drop_slot sl st) = bt_sent st"
  by (simp_all add: commit_slot_def drop_slot_def split: event_slot.splits)

lemma sent_settle: "bt_sent (snd (settle sl a rs)) = bt_sent (snd rs)"
  by (auto simp: settle_def split: prod.splits sum.splits)

lemma sent_frames:
  assumes "calm w"
  shows "bt_sent (snd (release_or_retry_after cfg w im i ctx st)) = bt_sent st"
    "bt_sent (snd (remember_or_retry_after cfg w im i ctx st)) = bt_sent st"
    "bt_sent (drop_in_flight w im st) = bt_sent st"
    "bt_sent (finish_after_known_api_failure cfg w im e st) = bt_sent st"
  using frame_finish(1,2) [OF assms] frame_drop_in_flight [OF assms] frame_api_failure [OF assms]
  by (metis frame_def prod.inject)+

lemma via_after_hydration:
  assumes "alone w" "if_id im = i" "begun i st"
  shows "via_worker cfg w i st (snd (after_hydration cfg w im i m sl st))"
proof -
  note [simp] = sent_settle sent_frames [OF alone_calm [OF assms(1)]]
  show ?thesis
  proof (cases "bm_room_id m \<noteq> None \<and> room_allowed cfg (the (bm_room_id m)) \<and>
      \<not> (bc_self_person_id cfg \<noteq> None \<and> bm_person_id m = bc_self_person_id cfg) \<and> \<not> bc_mock cfg \<and> wk_worker_lost w = None")
    case True
    then obtain r where r: "bm_room_id m = Some r" by auto
    let ?run = "send_reply_worker cfg w im i r (case bm_parent_id m of Some p \<Rightarrow> p | None \<Rightarrow> i)
      (reply_text (bc_reply_prefix cfg) m) sl st"
    have "snd (after_hydration cfg w im i m sl st) = snd ?run"
      using True r by (auto simp: after_hydration_def Let_def send_reply_def split: prod.splits sum.splits)
    then show ?thesis using assms(2,3) unfolding via_worker_def by blast
  next
    case False
    then have "bt_sent (snd (after_hydration cfg w im i m sl st)) = bt_sent st"
      by (auto simp: after_hydration_def Let_def send_reply_def set_failed_def split: option.splits)
    then show ?thesis by (simp add: via_worker_def)
  qed
qed

lemma via_trans: "bt_sent st1 = bt_sent st \<Longrightarrow> via_worker cfg w i st1 st' \<Longrightarrow> via_worker cfg w i st st'"
  by (simp add: via_worker_def)

lemma via_answer:
  assumes "alone w" "if_id im = i" "begun i st"
  shows "via_worker cfg w i st (snd (answer_message cfg w im i m sl st))"
proof -
  note calm = alone_calm [OF assms(1)]
  note [simp] = sent_settle sent_frames [OF calm]
  note hyd = via_after_hydration [OF assms]
  have rel: "bt_sent st' = bt_sent st" if "release_or_retry_after cfg w im i ctx st = (r, st')" for ctx r st'
    using sent_frames(1) [OF calm, of cfg im i ctx st] that by simp
  show ?thesis
    using hyd rel
    by (auto simp: answer_message_def via_worker_def split: option.splits sum.splits prod.splits)
qed

lemma begun_slot [simp]: "begun i (st\<lparr>bt_slots := n\<rparr>) = begun i st"
  by (simp add: begun_def)

lemma via_start:
  assumes "alone w" "if_id im = i" "begun i st"
  shows "via_worker cfg w i st (snd (start_answer cfg w im i m st))"
proof -
  have rel: "bt_sent st' = bt_sent st" if "release_or_retry_after cfg w im i ctx st = (r, st')" for ctx r st'
    using sent_frames(1) [OF alone_calm [OF assms(1)], of cfg im i ctx st] that by simp
  have slot: "via_worker cfg w i st (snd (answer_message cfg w im i m sl (st\<lparr>bt_slots := n\<rparr>)))" for sl n
    by (rule via_trans [of "st\<lparr>bt_slots := n\<rparr>"], simp) (rule via_answer; simp add: assms)
  have none: "via_worker cfg w i st st'" if "bt_sent st' = bt_sent st" for st'
    using that by (simp add: via_worker_def)
  show ?thesis
    using via_answer [OF assms] slot rel none
    by (auto simp: start_answer_def try_acquire_event_slot_def split: sum.splits prod.splits)
qed

lemma via_handle:
  assumes "alone w" "store_ok (fst (bt_store st))" "good_id i"
  shows "via_worker cfg w i st (snd (handle_message cfg w i m st))"
proof -
  note calm = alone_calm [OF assms(1)]
  obtain b st1 where b: "begin_in_flight_attempt cfg w i st = (b, st1)" by (meson surj_pair)
  have s1: "bt_sent st1 = bt_sent st" using frame_begin [OF calm, of cfg i st] b by (simp add: frame_def)
  obtain b2 st2 where b2: "wait_for_in_flight_attempt cfg w i (wk_waits w) st1 = (b2, st2)" by (meson surj_pair)
  have s2: "bt_sent st2 = bt_sent st"
    using frame_wait [OF calm, of cfg i "wk_waits w" st1] b2 s1 by (simp add: frame_def)
  have dup: "bt_sent (snd (duplicate_message_action cfg i r st')) = bt_sent st'" for r st'
    by (simp add: duplicate_message_action_def try_acquire_event_slot_def commit_slot_def)
  have none: "via_worker cfg w i st st'" if "bt_sent st' = bt_sent st" for st'
    using that by (simp add: via_worker_def)
  have first: "via_worker cfg w i st (snd (start_answer cfg w im i m st1))" if "b = Inr (FlightStarted im)" for im
    using flight_begun [OF assms b [unfolded that]] via_trans [OF s1 via_start [OF assms(1)]] by blast
  have later: "via_worker cfg w i st (snd (start_answer cfg w im i m st2))"
    if "b = Inr x" "b2 = Some (Inr (FlightStarted im))" for x im
  proof -
    have "store_ok (fst (bt_store st1))" using flight_begun [OF assms b [unfolded that(1)]] by blast
    from wait_begun [OF assms(1,3) this b2 [unfolded that(2)]] show ?thesis
      using via_trans [OF s2 via_start [OF assms(1)]] by blast
  qed
  show ?thesis
    unfolding handle_message_def b
    using first later none dup s1 s2
    by (auto simp: b2 split: sum.splits begin_in_flight.splits option.splits)
qed

subsection \<open>The worker remembers what may have been accepted\<close>

definition maybe_accepted :: "message res \<Rightarrow> bool" where
  "maybe_accepted r \<longleftrightarrow> (case r of
     Inr _ \<Rightarrow> True | Inl e \<Rightarrow> create_message_error_could_have_been_accepted e)"

lemma remembers_after_call:
  assumes "alone w" "begun i st" "good_id i" "if_id im = i" "1 \<le> ps_max_ids (fst (bt_store st))"
  shows "remembers (fst (bt_store (snd (remember_after_reply_or_retry_after cfg w im i st)))) i"
proof -
  let ?run = "remember_or_volatile i (wk_fault w (bt_tick st)) (wk_now w (bt_tick st)) (wk_later w (bt_tick st)) (bt_store st)"
  have "remembers (fst (snd ?run)) i"
    by (rule remember_remembers) (use assms in \<open>simp_all add: begun_def\<close>)
  then show ?thesis
    by (cases ?run; cases "fst ?run")
      (auto simp: remember_after_reply_or_retry_after_def finish_error_def flight_remember_after_reply_def
        alone_call [OF assms(1)] set_failed_def assms(4))
qed

lemma store_slot [simp]: "bt_store (commit_slot sl st) = bt_store st" "bt_store (drop_slot sl st) = bt_store st"
  by (simp_all add: commit_slot_def drop_slot_def split: event_slot.splits)

lemma store_settle [simp]: "bt_store (snd (settle sl a rs)) = bt_store (snd rs)"
  by (auto simp: settle_def split: prod.splits sum.splits)

lemma worker_remembers:
  assumes "alone w" "begun i st" "good_id i" "if_id im = i"
    and "maybe_accepted (wk_create_message w (create_message_reply_text r p t))"
  shows "remembers (fst (bt_store (snd (send_reply_worker cfg w im i r p t sl st)))) i"
proof -
  let ?st = "send_request (create_message_reply_text r p t) st"
  have b: "begun i ?st" "1 \<le> ps_max_ids (fst (bt_store ?st))"
    using assms(2) by (simp_all add: begun_def send_request_def store_ok_def)
  note rem = remembers_after_call [OF assms(1) b(1) assms(3) _ b(2)]
  show ?thesis
  proof (cases "wk_create_message w (create_message_reply_text r p t)")
    case (Inr reply)
    then show ?thesis using rem [OF assms(4), of cfg] by (simp add: send_reply_worker_def)
  next
    case (Inl e)
    then have e: "create_message_error_could_have_been_accepted e" using assms(5) by (simp add: maybe_accepted_def)
    then have "\<not> is_webex_api_status e 404" "\<not> (case e of Api _ \<Rightarrow> True | _ \<Rightarrow> False)"
      by (cases e; simp add: create_message_error_could_have_been_accepted_def is_webex_api_status_def)+
    then show ?thesis
      using Inl e rem [of "mark_reply_started im" cfg] assms(4) by (simp add: send_reply_worker_def mark_reply_started_def)
  qed
qed

end
