(* ===== verification/BotProps.thy ===== *)
theory BotProps imports BotReplies begin

text \<open>The properties of the account bot's store and of its handler, with concrete instances.\<close>

subsection \<open>Concrete states and worlds\<close>

definition demo_store :: processed_store where
  "demo_store = \<lparr>ps_ids = [], ps_attempts = [], ps_inflight = [], ps_order = [], ps_max_ids = 2, ps_volatile = []\<rparr>"

definition demo_bot :: bot_state where
  "demo_bot = \<lparr>bt_store = (demo_store, None), bt_persist_failed = False, bt_slots = 0, bt_completed = 0,
     bt_sent = [], bt_tick = 0\<rparr>"

definition demo_bot_config :: bot_config where
  "demo_bot_config = \<lparr>bc_event_path = ''/webex/events'', bc_health_path = ''/healthz'', bc_expected_forward_token = Some ''k1'',
     bc_mock = False, bc_max_events = 5, bc_attempt_lease = 30 * SEC, bc_in_flight_wait = 8 * SEC,
     bc_allowed_room_ids = [], bc_reply_prefix = ''ack'', bc_self_person_id = Some ''me''\<rparr>"

definition demo_reply :: message where
  "demo_reply = \<lparr>me_id = Some ''reply'', me_parent_id = None, me_room_id = None, me_room_type = None,
     me_to_person_id = None, me_to_person_email = None, me_text = None, me_markdown = None,
     me_html = None, me_files = [], me_attachments = [], me_person_id = None, me_person_email = None,
     me_mentioned_people = [], me_mentioned_groups = [], me_created = None, me_updated = None,
     me_is_voice_clip = None\<rparr>"

text \<open>The reply is accepted, but the state file cannot be written afterwards.\<close>

definition demo_world :: world where
  "demo_world = \<lparr>wk_others = \<lambda>n st. st, wk_fault = \<lambda>n. if n = 0 then Persisted else FailedBefore (Other ''full''),
     wk_now = \<lambda>n. 100 + n, wk_later = \<lambda>n. 100 + n, wk_waits = 0, wk_wait_timeout = False,
     wk_get_message = \<lambda>i. None, wk_create_message = \<lambda>req. Inr demo_reply, wk_worker_lost = None,
     wk_log_enqueued = True\<rparr>"

definition demo_bot_message :: bot_message where
  "demo_bot_message = \<lparr>bm_id = Some ''m'', bm_room_id = Some ''r'', bm_parent_id = None, bm_person_id = Some ''p'',
     bm_text = Some ''hi'', bm_markdown = None\<rparr>"

definition demo_event :: sidecar_event where
  "demo_event = message_created 0 JNull"

lemma demo_alone: "alone demo_world" "calm demo_world"
  by (simp_all add: alone_def calm_def demo_world_def)

lemma demo_store_ok: "store_ok demo_store"
  by (simp add: store_ok_def demo_store_def order_ok_def)

text \<open>A variant of the world whose first write succeeds.\<close>

lemma demo_begin:
  assumes "f 0 = Persisted"
  shows "begin_in_flight_attempt demo_bot_config (demo_world\<lparr>wk_fault := f\<rparr>) ''m'' demo_bot =
     (Inr (FlightStarted \<lparr>if_id = ''m'', if_lease = 30 * SEC, if_active = True, if_reply_started = False\<rparr>),
      demo_bot\<lparr>bt_store := (attempted ''m'' (30 * SEC) 100 demo_store,
         Some (render_state (attempted ''m'' (30 * SEC) 100 demo_store))), bt_tick := 1\<rparr>)"
proof -
  have "prune_expired 100 demo_store = demo_store" by (simp add: prune_expired_def demo_store_def bm_retain_def)
  then have "bot_begin_attempt_at Persisted ''m'' (30 * SEC) 100 (demo_store, None) =
      (Inr BotStarted, attempted ''m'' (30 * SEC) 100 demo_store,
       Some (render_state (attempted ''m'' (30 * SEC) 100 demo_store)))"
    by (simp add: bot_begin_attempt_at_def Let_def demo_store_def persist_def persist_state_def absorb_volatile_def
        attempted_def)
  then show ?thesis
    by (simp add: begin_in_flight_attempt_def in_flight_begin_def store_call_def demo_bot_config_def demo_bot_def
        demo_world_def set_failed_def assms)
qed

lemma demo_sent_variant:
  assumes "f 0 = Persisted"
  shows "bt_sent (snd (handle_event (\<lambda>_. Some demo_bot_message) demo_bot_config (demo_world\<lparr>wk_fault := f\<rparr>) demo_event demo_bot)) \<noteq> []"
proof -
  let ?w = "demo_world\<lparr>wk_fault := f\<rparr>"
  have calm: "calm ?w" by (simp add: calm_def demo_world_def)
  have sent: "bt_sent (snd (send_reply_worker cfg ?w im i r p t sl st)) = bt_sent st @ [create_message_reply_text r p t]"
    for cfg im i r p t sl st
    using worker_outcome [OF calm] by (simp add: outcome_def)
  have "bt_sent (snd (case send_reply_worker cfg ?w im i r p t sl st of (Inl e, st) \<Rightarrow> (Inl e, st)
      | (Inr out, st) \<Rightarrow> (Inr (g out), st))) \<noteq> []" for cfg im i r p t sl st and g :: "reply_outcome \<Rightarrow> bot_action"
    using sent [of cfg im i r p t sl st] by (auto split: prod.splits sum.splits)
  moreover have "bc_max_events demo_bot_config = 5" "bc_allowed_room_ids demo_bot_config = []"
    "bc_mock demo_bot_config = False" "bc_self_person_id demo_bot_config = Some ''me''" "bt_slots demo_bot = 0"
    "wk_worker_lost ?w = None"
    by (simp_all add: demo_bot_config_def demo_world_def demo_bot_def)
  ultimately show ?thesis
    by (simp add: handle_event_def demo_event_def message_created_def sidecar_event_new_def demo_bot_message_def
        handle_message_def demo_begin [of f, OF assms] start_answer_def try_acquire_event_slot_def answer_message_def
        after_hydration_def send_reply_def needs_hydration_def room_allowed_def Let_def)
qed

lemma demo_sent:
  "bt_sent (snd (handle_event (\<lambda>_. Some demo_bot_message) demo_bot_config demo_world demo_event demo_bot)) \<noteq> []"
  using demo_sent_variant [of "wk_fault demo_world"] by (simp add: demo_world_def)

subsection \<open>The handler\<close>

lemma handle_event_ok:
  assumes "calm w"
  shows "(let n = (if bc_max_events cfg \<noteq> 0 \<and> counted (fst (handle_event parse cfg w ev st)) then 1 else 0);
       st' = snd (handle_event parse cfg w ev st) in
     bt_slots st' = bt_slots st + n \<and> bt_completed st' = bt_completed st + n \<and>
     (bt_sent st' = bt_sent st \<or>
       (\<exists>m i req m'. parse (se_data ev) = Some m \<and> bm_id m = Some i \<and> resolved w i m m' \<and> due_reply cfg m' i req \<and>
          bt_sent st' = bt_sent st @ [req])))"
proof (cases "\<exists>m i. parse (se_data ev) = Some m \<and> bm_id m = Some i \<and> se_version ev = 1 \<and>
    se_resource ev = ''messages'' \<and> se_event ev = ''created''")
  case True
  then obtain m i where m: "parse (se_data ev) = Some m" "bm_id m = Some i"
    and run: "handle_event parse cfg w ev st = handle_message cfg w i m st"
    by (auto simp: handle_event_def)
  show ?thesis
    using handle_message_ok [OF assms, of cfg m i st] m unfolding run event_ok_def sent_ok_def Let_def by fastforce
next
  case False
  then have "snd (handle_event parse cfg w ev st) = st \<and> \<not> counted (fst (handle_event parse cfg w ev st))"
    by (auto simp: handle_event_def counted_def counted_reasons_def split: option.splits)
  then show ?thesis by simp
qed




lemma demo_id: "good_id ''m''"
  by (simp add: good_id_def blank_def is_ascii_utf8_valid byte_def chars.simps)


subsection \<open>The store\<close>

text \<open>
  C19. After an attempt for a message has been started, no other call of the process, and no
  process that is restarted from the state file, starts the same message before the lease
  ends, unless a worker of this message gives the attempt back, puts it off or completes it;
  this holds for any history of calls in between, with any failures of the state file.
\<close>

theorem bot_lease_exclusive:
  assumes "bot_inv st" "bot_starts st c (i, t)" "list_all (bot_quiet (i, t)) cs" "bot_quiet (i, t) c'"
    and "bot_starts (foldl bot_step (bot_step st c) cs) c' (j, t')"
  shows "i \<noteq> j"
  using bot.exclusive [OF assms(1-5)] by simp

lemma demo_bot_inv: "bot_inv (demo_store, None)"
  using demo_store_ok by (simp add: bot_inv_def keeps_def sized_def)

lemma demo_id': "good_id ''n''"
  by (simp add: good_id_def blank_def is_ascii_utf8_valid byte_def chars.simps)

lemma demo_start: "bot_starts (demo_store, None) (CallBegin Persisted ''m'' (30 * SEC) 100) (''m'', 130)"
  by (simp add: bot_starts_def call_ok_def demo_id bot_begin_attempt_at_def Let_def prune_expired_def demo_store_def
      persist_def persist_state_def absorb_volatile_def lease_end_def bm_retain_def)

lemma bot_lease_exclusive_witness:
  "\<not> (\<exists>t'. bot_starts (foldl bot_step (bot_step (demo_store, None) (CallBegin Persisted ''m'' (30 * SEC) 100))
      [CallBegin (FailedAfter (Other ''disk'')) ''n'' SEC 105, CallRestart 110])
     (CallBegin Persisted ''m'' (30 * SEC) 129) (''m'', t'))"
proof
  assume "\<exists>t'. bot_starts (foldl bot_step (bot_step (demo_store, None) (CallBegin Persisted ''m'' (30 * SEC) 100))
      [CallBegin (FailedAfter (Other ''disk'')) ''n'' SEC 105, CallRestart 110])
     (CallBegin Persisted ''m'' (30 * SEC) 129) (''m'', t')"
  then obtain t' where "bot_starts (foldl bot_step (bot_step (demo_store, None) (CallBegin Persisted ''m'' (30 * SEC) 100))
      [CallBegin (FailedAfter (Other ''disk'')) ''n'' SEC 105, CallRestart 110])
     (CallBegin Persisted ''m'' (30 * SEC) 129) (''m'', t')" ..
  from bot_lease_exclusive [OF demo_bot_inv demo_start _ _ this] show False by (simp add: bot_quiet_def)
qed


definition demo_full :: processed_store where
  "demo_full = \<lparr>ps_ids = [''a b''], ps_attempts = [(''m'', 130)], ps_inflight = [''m''], ps_order = [''a b''],
     ps_max_ids = 2, ps_volatile = []\<rparr>"

lemma demo_full_ok: "store_ok demo_full"
proof -
  have "good_id ''a b''"
    by (simp add: good_id_def blank_def is_ascii_utf8_valid byte_def chars.simps)
  then show ?thesis using demo_id by (simp add: store_ok_def demo_full_def order_ok_def)
qed




text \<open>
  C22. The contract has a gap: a release names only the message, not the attempt. Once the
  lease of a slow worker has expired and another worker has started the message, the release
  of the slow worker ends the running attempt, and the message is started a third time while
  the second lease still runs.
\<close>

theorem late_release_ends_running_attempt:
  assumes "bot_inv (s, d)" "good_id i" "i \<notin> set (ps_ids s)" "ps_volatile s = []"
  shows "fst (bot_begin_attempt_at Persisted i lease now (snd (bot_release Persisted i (s, d)))) = Inr BotStarted"
proof -
  have abs: "absorb_volatile t = t" if "ps_volatile t = []" for t :: processed_store
    using that by (simp add: absorb_volatile_def)
  have rel: "snd (bot_release Persisted i (s, d)) = (drop_attempt i s, Some (render_state (drop_attempt i s)))"
    using assms(4) by (simp add: bot_release_def persist_def persist_state_def abs)
  have ok: "store_ok (drop_attempt i s)"
    using assms(1) by (auto simp: bot_inv_def keeps_def sized_def intro: drop_ok)
  have "i \<notin> set (ps_inflight (prune_expired now (drop_attempt i s)))"
    by (simp add: prune_expired_def drop_attempt_def)
  moreover have "bm_get (ps_attempts (prune_expired now (drop_attempt i s))) i = None"
    using attempts_prune [OF ok] by simp
  moreover have "i \<notin> set (ps_ids (prune_expired now (drop_attempt i s)))" "i \<notin> set (ps_volatile (prune_expired now (drop_attempt i s)))"
    using assms(3,4) by (simp_all add: prune_expired_def drop_attempt_def)
  ultimately show ?thesis unfolding rel
    by (simp add: bot_begin_attempt_at_def Let_def persist_def persist_state_def)
qed

lemma late_release_ends_running_attempt_witness:
  "\<exists>st1 st2. bot_starts st1 (CallBegin Persisted ''m'' (30 * SEC) 130) (''m'', 160) \<and>
     st2 = bot_step st1 (CallBegin Persisted ''m'' (30 * SEC) 130) \<and>
     fst (bot_begin_attempt_at Persisted ''m'' (30 * SEC) 140 (snd (bot_release Persisted ''m'' st2))) = Inr BotStarted"
proof -
  let ?call = "CallBegin Persisted ''m'' (30 * SEC) 130"
  let ?st1 = "bot_step (demo_store, None) (CallBegin Persisted ''m'' (30 * SEC) 100)"
  have prune: "prune_expired 100 demo_store = demo_store" by (simp add: prune_expired_def demo_store_def bm_retain_def)
  have st1: "?st1 = (attempted ''m'' (30 * SEC) 100 demo_store, Some (render_state (attempted ''m'' (30 * SEC) 100 demo_store)))"
    using prune by (simp add: bot_step_def' call_ok_def demo_id bot_begin_attempt_at_def Let_def demo_store_def persist_def
        persist_state_def absorb_volatile_def attempted_def)
  have s1: "bot_starts ?st1 ?call (''m'', 160)"
    unfolding st1
    by (simp add: bot_starts_def call_ok_def demo_id bot_begin_attempt_at_def Let_def attempted_def prune demo_store_def)
      (simp add: prune_expired_def bm_retain_def lease_end_def persist_def persist_state_def absorb_volatile_def)
  obtain s2 d2 where st2: "bot_step ?st1 ?call = (s2, d2)" by (meson surj_pair)
  have inv: "bot_inv (s2, d2)"
    using bot_inv_step [OF bot_inv_step [OF demo_bot_inv, of "CallBegin Persisted ''m'' (30 * SEC) 100"], of ?call]
    unfolding st2 .
  have "fst (bot_begin_attempt_at Persisted ''m'' (30 * SEC) 130 ?st1) = Inr BotStarted"
    using s1 by (simp add: bot_starts_def)
  moreover have "bot_begin_attempt_at Persisted ''m'' (30 * SEC) 130 ?st1 = (fst (bot_begin_attempt_at Persisted ''m'' (30 * SEC) 130 ?st1), s2, d2)"
    using st2 by (simp add: bot_step_def' call_ok_def demo_id prod_eq_iff)
  ultimately have begun: "''m'' \<notin> set (ps_ids s2) \<and> ps_volatile s2 = []"
    using begin_begun [OF _ demo_id, of ?st1 Persisted "30 * SEC" 130 "(s2, d2)"]
      bot_inv_step [OF demo_bot_inv, of "CallBegin Persisted ''m'' (30 * SEC) 100"]
    by (simp add: bot_inv_def keeps_def sized_def)
  have "fst (bot_begin_attempt_at Persisted ''m'' (30 * SEC) 140 (snd (bot_release Persisted ''m'' (s2, d2)))) = Inr BotStarted"
    by (rule late_release_ends_running_attempt [OF inv demo_id]) (use begun in simp_all)
  with s1 st2 show ?thesis by (metis (no_types, lifting))
qed

text \<open>
  A blank id does not survive a restart: the loader trims the line of the empty id and takes
  what is left for an id of the oldest format, so the id \<open>processed_v2\<close> is remembered instead.
\<close>

lemma blank_id_lost:
  "load_text 2 100 (processed_line []) = (([''processed_v2''], [''processed_v2'']), [])"
  by code_simp

end
