(* ===== verification/Http.thy ===== *)
theory Http imports ErrorModel begin

text \<open>
  The small HTTP front ends of the account bot (\<open>examples/account_bot.rs\<close>), of the command
  line tool (\<open>src/bin/webex-headless.rs\<close>) and of \<open>examples/sidecar_receiver.rs\<close>: reading one
  request from a connection, and writing the response. The connection is the list of what its
  reads return, an empty string at its end.
\<close>

subsection \<open>Text from bytes\<close>

definition REPLACEMENT :: string where
  "REPLACEMENT = [CHR 0xEF, CHR 0xBF, CHR 0xBD]"

text \<open>
  The second byte a lead byte allows, and how many continuation bytes follow that one;
  \<open>String::from_utf8_lossy\<close> replaces every maximal invalid piece.
\<close>

definition second_ok :: "char \<Rightarrow> char \<Rightarrow> bool" where
  "second_ok a b \<longleftrightarrow> is_cont b \<and>
     (byte a = 224 \<longrightarrow> 160 \<le> byte b) \<and> (byte a = 237 \<longrightarrow> byte b < 160) \<and>
     (byte a = 240 \<longrightarrow> 144 \<le> byte b) \<and> (byte a = 244 \<longrightarrow> byte b < 144)"

function lossy :: "string \<Rightarrow> string" where
  "lossy [] = []"
| "lossy (a # s) =
    (if byte a < 128 then a # lossy s
     else if 194 \<le> byte a \<and> byte a < 224 then
       (case s of
          b # s' \<Rightarrow> if is_cont b then a # b # lossy s' else REPLACEMENT @ lossy s
        | [] \<Rightarrow> REPLACEMENT)
     else if 224 \<le> byte a \<and> byte a < 240 then
       (case s of
          b # s' \<Rightarrow>
            if \<not> second_ok a b then REPLACEMENT @ lossy s
            else (case s' of
              c # s'' \<Rightarrow> if is_cont c then a # b # c # lossy s'' else REPLACEMENT @ lossy s'
            | [] \<Rightarrow> REPLACEMENT)
        | [] \<Rightarrow> REPLACEMENT)
     else if 240 \<le> byte a \<and> byte a < 245 then
       (case s of
          b # s' \<Rightarrow>
            if \<not> second_ok a b then REPLACEMENT @ lossy s
            else (case s' of
              c # s'' \<Rightarrow>
                if \<not> is_cont c then REPLACEMENT @ lossy s'
                else (case s'' of
                  d # s''' \<Rightarrow> if is_cont d then a # b # c # d # lossy s''' else REPLACEMENT @ lossy s''
                | [] \<Rightarrow> REPLACEMENT)
            | [] \<Rightarrow> REPLACEMENT)
        | [] \<Rightarrow> REPLACEMENT)
     else REPLACEMENT @ lossy s)"
  by pat_completeness auto
termination by (relation "measure length") auto

declare lossy.simps(2) [simp del]

lemma lossy_valid: "utf8_valid s \<Longrightarrow> lossy s = s"
proof (induction s rule: length_induct)
  case (1 s)
  show ?case
  proof (cases s)
    case (Cons a t)
    have valid: "utf8_valid (a # t)" using 1(2) Cons by simp
    have IH: "utf8_valid u \<Longrightarrow> length u \<le> length t \<Longrightarrow> lossy u = u" for u using 1(1) Cons by simp
    note simps = lossy.simps(2) utf8_valid.simps(2) second_ok_def
    consider (one) "byte a < 128" | (two) "\<not> byte a < 128" "194 \<le> byte a \<and> byte a < 224"
      | (three) "\<not> byte a < 128" "\<not> (194 \<le> byte a \<and> byte a < 224)" "224 \<le> byte a \<and> byte a < 240"
      | (four) "\<not> byte a < 128" "\<not> (194 \<le> byte a \<and> byte a < 224)" "\<not> (224 \<le> byte a \<and> byte a < 240)"
          "240 \<le> byte a \<and> byte a < 245"
      using valid by (auto simp: utf8_valid.simps(2) split: if_splits)
    then show ?thesis
    proof cases
      case one
      with valid IH [of t] Cons show ?thesis by (simp add: simps)
    next
      case two
      with valid obtain b u where "t = b # u" "is_cont b" "utf8_valid u" by (auto simp: simps split: list.splits)
      with two IH [of u] Cons show ?thesis by (simp add: simps)
    next
      case three
      with valid obtain b c u where "t = b # c # u" "is_cont b" "is_cont c" "utf8_valid u"
        "byte a = 224 \<longrightarrow> 160 \<le> byte b" "byte a = 237 \<longrightarrow> byte b < 160"
        by (auto simp: simps split: list.splits)
      with three IH [of u] Cons show ?thesis by (simp add: simps)
    next
      case four
      with valid obtain b c d u where "t = b # c # d # u" "is_cont b" "is_cont c" "is_cont d" "utf8_valid u"
        "byte a = 240 \<longrightarrow> 144 \<le> byte b" "byte a = 244 \<longrightarrow> byte b < 144"
        by (auto simp: simps split: list.splits)
      with four IH [of u] Cons show ?thesis by (simp add: simps)
    qed
  qed simp
qed

subsection \<open>Requests\<close>

record http_request =
  hr_method :: string
  hr_path :: string
  hr_headers :: "(string, string) bmap"
  hr_body :: string

definition find_bytes :: "string \<Rightarrow> string \<Rightarrow> nat option" where
  "find_bytes haystack needle =
     find (\<lambda>i. take (length needle) (drop i haystack) = needle) [0..<Suc (length haystack) - length needle]"

definition CRLFCRLF :: string where
  "CRLFCRLF = [CR, LF, CR, LF]"

abbreviation MAX_BODY_BYTES :: nat where "MAX_BODY_BYTES \<equiv> 1048576"
abbreviation MAX_HEADER_BYTES :: nat where "MAX_HEADER_BYTES \<equiv> 16384"

definition header_line :: "string \<Rightarrow> (string \<times> string) option" where
  "header_line l = map_option (\<lambda>(name, v). (to_ascii_lowercase name, trim v)) (split_once (CHR '':'') l)"

definition parse_request :: "string \<Rightarrow> string \<Rightarrow> http_request res" where
  "parse_request headers body =
     (case str_lines (lossy headers) of
        [] \<Rightarrow> Inl (Other ''missing request line'')
      | l # ls \<Rightarrow>
          (case split_whitespace l of
             [] \<Rightarrow> Inl (Other ''missing method'')
           | [_] \<Rightarrow> Inl (Other ''missing path'')
           | m # p # _ \<Rightarrow>
               Inr \<lparr>hr_method = m, hr_path = p,
                 hr_headers = fold (\<lambda>(k, v). bm_insert k v) (List.map_filter header_line ls) [],
                 hr_body = body\<rparr>))"

text \<open>The value of the first \<open>Content-Length\<close> header that counts.\<close>

definition content_length_value :: "string \<Rightarrow> string option" where
  "content_length_value l =
     (case split_once (CHR '':'') l of
        Some (name, v) \<Rightarrow> if eq_ignore_ascii_case name ''content-length'' then Some v else None
      | None \<Rightarrow> None)"

definition parse_content_length :: "string \<Rightarrow> nat option res" where
  "parse_content_length headers =
     (case find_map content_length_value (str_lines headers) of
        None \<Rightarrow> Inr None
      | Some v \<Rightarrow>
          (case parse_uint U64_MAX (trim v) of
             Some n \<Rightarrow> Inr (Some n)
           | None \<Rightarrow> Inl (Other ''invalid content-length'')))"

definition receiver_content_length :: "string \<Rightarrow> nat res" where
  "receiver_content_length headers =
     (case find_map (\<lambda>l. Option.bind (content_length_value l) (\<lambda>v. parse_uint U64_MAX (trim v))) (str_lines headers) of
        Some n \<Rightarrow> Inr n
      | None \<Rightarrow> Inl (Other ''missing content-length''))"

subsection \<open>Reading\<close>

definition headers_too_long :: error where
  "headers_too_long = Other ''request headers exceeded maximum size''"

text \<open>What the loop decides on the bytes read so far; \<open>None\<close>: it reads on.\<close>

definition request_ready ::
    "bool \<Rightarrow> (string \<Rightarrow> nat res) \<Rightarrow> string \<Rightarrow> http_request res option" where
  "request_ready bounded length_of bytes =
     (case find_bytes bytes CRLFCRLF of
        Some header_end \<Rightarrow>
          if bounded \<and> MAX_HEADER_BYTES < header_end then Some (Inl headers_too_long)
          else (case length_of (lossy (take header_end bytes)) of
            Inl e \<Rightarrow> Some (Inl e)
          | Inr n \<Rightarrow>
              if MAX_BODY_BYTES < n then Some (Inl (Other ''request body exceeded maximum size''))
              else if header_end + 4 + n \<le> length bytes then
                Some (parse_request (take header_end bytes) (take n (drop (header_end + 4) bytes)))
              else None)
      | None \<Rightarrow> if MAX_HEADER_BYTES < length bytes then Some (Inl headers_too_long) else None)"

text \<open>\<open>None\<close>: the reads of the list were not enough, the connection is still waited for.\<close>

fun read_loop ::
    "bool \<Rightarrow> (string \<Rightarrow> nat res) \<Rightarrow> string \<Rightarrow> string res list \<Rightarrow> http_request res option" where
  "read_loop bounded length_of bytes [] = None"
| "read_loop bounded length_of bytes (Inl e # reads) = Some (Inl e)"
| "read_loop bounded length_of bytes (Inr chunk # reads) =
     (if chunk = [] then Some (Inl (Other ''connection closed before request completed''))
      else (case request_ready bounded length_of (bytes @ chunk) of
        Some r \<Rightarrow> Some r
      | None \<Rightarrow> read_loop bounded length_of (bytes @ chunk) reads))"

definition optional_length :: "string \<Rightarrow> nat res" where
  "optional_length headers =
     and_then (parse_content_length headers) (\<lambda>n. Inr (case n of Some n \<Rightarrow> n | None \<Rightarrow> 0))"

definition bot_read_request :: "string res list \<Rightarrow> http_request res option" where
  "bot_read_request = read_loop True optional_length []"

definition cli_read_request :: "string res list \<Rightarrow> http_request res option" where
  "cli_read_request = read_loop False optional_length []"

definition receiver_read_request :: "string res list \<Rightarrow> http_request res option" where
  "receiver_read_request = read_loop False receiver_content_length []"

subsection \<open>Responses\<close>

record http_response =
  hs_status :: nat
  hs_headers :: "(string, string) bmap"
  hs_body :: string

text \<open>\<open>ser\<close> is the JSON crate's text of a value; the keys of an object come sorted.\<close>

definition json_value :: "(json \<Rightarrow> string) \<Rightarrow> nat \<Rightarrow> json \<Rightarrow> http_response" where
  "json_value ser status v = \<lparr>hs_status = status, hs_headers = [], hs_body = ser v\<rparr>"

definition json_error :: "(json \<Rightarrow> string) \<Rightarrow> nat \<Rightarrow> string \<Rightarrow> http_response" where
  "json_error ser status e = json_value ser status (JObj [(''error'', JStr e), (''ok'', JBool False)])"

definition with_header :: "string \<Rightarrow> string \<Rightarrow> http_response \<Rightarrow> http_response" where
  "with_header k v r = r\<lparr>hs_headers := bm_insert k v (hs_headers r)\<rparr>"

definition reason_text :: "(nat \<times> string) list \<Rightarrow> nat \<Rightarrow> string" where
  "reason_text table status = (case map_of table status of Some t \<Rightarrow> t | None \<Rightarrow> ''Error'')"

definition common_reasons :: "(nat \<times> string) list" where
  "common_reasons = [(200, ''OK''), (400, ''Bad Request''), (401, ''Unauthorized''), (404, ''Not Found''),
     (405, ''Method Not Allowed''), (408, ''Request Timeout'')]"

definition CRLF :: string where
  "CRLF = [CR, LF]"

definition response_text :: "(nat \<times> string) list \<Rightarrow> http_response \<Rightarrow> string" where
  "response_text table r =
     ''HTTP/1.1 '' @ show_nat (hs_status r) @ '' '' @ reason_text table (hs_status r) @ CRLF @
     ''Content-Type: application/json'' @ CRLF @
     ''Content-Length: '' @ show_nat (length (hs_body r)) @ CRLF @ ''Connection: close'' @ CRLF @
     concat (map (\<lambda>(k, v). k @ '': '' @ v @ CRLF) (hs_headers r)) @ CRLF @ hs_body r"

definition bot_response_text :: "http_response \<Rightarrow> string" where
  "bot_response_text = response_text ([(403, ''Forbidden''), (429, ''Too Many Requests''),
     (500, ''Internal Server Error''), (503, ''Service Unavailable'')] @ common_reasons)"

definition cli_response_text :: "http_response \<Rightarrow> string" where
  "cli_response_text = response_text ((503, ''Service Unavailable'') # common_reasons)"

definition receiver_response_text :: "http_response \<Rightarrow> string" where
  "receiver_response_text = response_text common_reasons"

end
