(* ===== verification/BotFront.thy ===== *)
theory BotFront imports BotHandler Http begin

text \<open>
  From a request to a response: the account bot (\<open>handle_connection\<close> down to \<open>error_response\<close>
  in \<open>examples/account_bot.rs\<close>), the command line tool's \<open>sidecar receive\<close> and
  \<open>examples/sidecar_receiver.rs\<close>. What the JSON crate does is a parameter.
\<close>

record json_env =
  je_ser :: "json \<Rightarrow> string"
  je_event :: "string \<Rightarrow> sidecar_event res"
  je_message :: "json \<Rightarrow> bot_message option"

subsection \<open>Responses to errors\<close>

definition http_error_status :: "nat \<Rightarrow> bool" where
  "http_error_status st \<longleftrightarrow> 400 \<le> st \<and> st \<le> 599"

definition error_response :: "(json \<Rightarrow> string) \<Rightarrow> bot_error \<Rightarrow> http_response" where
  "error_response ser e =
     (let plain = json_error ser 503 (bot_error_display e) in
      case e of
        RetryableApi (Api a) d \<Rightarrow>
          if http_error_status (ae_status a) then
            with_header ''Retry-After'' (retry_after_secs d)
              (json_error ser (if ae_status a = 401 then 503 else ae_status a) (bot_error_display e))
          else plain
      | Webex (Api a) \<Rightarrow>
          if http_error_status (ae_status a) then
            (let r = json_error ser (ae_status a) (bot_error_display e) in
             case ae_retry_after a of
               Some d \<Rightarrow> with_header ''Retry-After'' (retry_after_secs d) r
             | None \<Rightarrow> r)
          else plain
      | RetryAfter m d \<Rightarrow> with_header ''Retry-After'' (retry_after_secs d) plain
      | _ \<Rightarrow> plain)"

definition busy_response :: "(json \<Rightarrow> string) \<Rightarrow> duration \<Rightarrow> http_response" where
  "busy_response ser d = with_header ''Retry-After'' (retry_after_secs d) (json_error ser 503 ''server busy'')"

subsection \<open>The account bot\<close>

record handle_response =
  hp_response :: http_response
  hp_event_counted :: bool

definition plain_response :: "http_response \<Rightarrow> handle_response" where
  "plain_response r = \<lparr>hp_response = r, hp_event_counted = False\<rparr>"

definition json_opt :: "nat option \<Rightarrow> json" where
  "json_opt n = (case n of Some n \<Rightarrow> JNum (int n) | None \<Rightarrow> JNull)"

text \<open>\<open>busy\<close>: another request holds the store's lock.\<close>

definition health_response :: "(json \<Rightarrow> string) \<Rightarrow> bot_config \<Rightarrow> bool \<Rightarrow> bot_state \<Rightarrow> http_response" where
  "health_response ser cfg busy st =
     (let s = fst (bt_store st);
          ids = (if busy then None else Some (length (ps_ids s)));
          vol = (if busy then None else Some (length (ps_volatile s)));
          healthy = (\<not> bt_persist_failed st \<and> (case vol of Some n \<Rightarrow> n = 0 | None \<Rightarrow> True)) in
      json_value ser (if healthy then 200 else 503)
        (JObj [(''busy'', JBool busy), (''mock'', JBool (bc_mock cfg)), (''ok'', JBool healthy),
           (''processedMessageIds'', json_opt ids),
           (''selfPersonIdKnown'', JBool (bc_self_person_id cfg \<noteq> None)),
           (''statePersistenceHealthy'', JBool healthy), (''volatileProcessedIds'', json_opt vol)]))"

definition action_name :: "action_kind \<Rightarrow> string" where
  "action_name k = (case k of Ignored \<Rightarrow> ''ignored'' | MockReplied \<Rightarrow> ''mock_replied'' | Replied \<Rightarrow> ''replied'')"

definition opt_field :: "string \<Rightarrow> string option \<Rightarrow> (string \<times> json) list" where
  "opt_field k v = (case v of Some s \<Rightarrow> [(k, JStr s)] | None \<Rightarrow> [])"

definition action_json :: "bot_action \<Rightarrow> json" where
  "action_json a = JObj ([(''action'', JStr (action_name (ba_action a)))] @ opt_field ''messageId'' (ba_message_id a) @
     opt_field ''reason'' (ba_reason a) @ opt_field ''replyId'' (ba_reply_id a) @
     opt_field ''replyText'' (ba_reply_text a) @ opt_field ''roomId'' (ba_room_id a))"

definition authorized :: "string option \<Rightarrow> http_request \<Rightarrow> bool" where
  "authorized token req \<longleftrightarrow> (case token of
     Some t \<Rightarrow> bm_get (hr_headers req) ''authorization'' = Some (''Bearer '' @ t)
   | None \<Rightarrow> True)"

text \<open>\<open>None\<close>: the handler's timer ends before there is an answer.\<close>

definition bot_handle_request ::
    "json_env \<Rightarrow> bot_config \<Rightarrow> world \<Rightarrow> bool \<Rightarrow> nat \<Rightarrow> http_request \<Rightarrow> bot_state \<Rightarrow> handle_response option \<times> bot_state" where
  "bot_handle_request je cfg w busy accepted_events req st =
     (if hr_path req = bc_health_path cfg then
        (Some (plain_response (if hr_method req = ''GET'' then health_response (je_ser je) cfg busy st
           else json_error (je_ser je) 405 ''method not allowed'')), st)
      else if hr_method req \<noteq> ''POST'' then
        (Some (plain_response (json_error (je_ser je) 405 ''method not allowed'')), st)
      else if hr_path req \<noteq> bc_event_path cfg then
        (Some (plain_response (json_error (je_ser je) 404 ''not found'')), st)
      else if \<not> authorized (bc_expected_forward_token cfg) req then
        (Some (plain_response (json_error (je_ser je) 401 ''unauthorized'')), st)
      else if max_event_admission_closed (bc_max_events cfg) (bt_slots st) (bt_completed st) accepted_events then
        (Some (plain_response (error_response (je_ser je)
           (RetryAfter ''max events reached'' (retry_after_for_lease (bc_in_flight_wait cfg))))), st)
      else case je_event je (hr_body req) of
        Inl e \<Rightarrow> (Some (plain_response (json_error (je_ser je) 400 (error_display e))), st)
      | Inr ev \<Rightarrow>
          (case handle_event (je_message je) cfg w ev st of
             (None, st) \<Rightarrow> (None, st)
           | (Some (Inl e), st) \<Rightarrow> (Some (plain_response (error_response (je_ser je) e)), st)
           | (Some (Inr a), st) \<Rightarrow>
               (Some \<lparr>hp_response = json_value (je_ser je) 200 (JObj [(''action'', action_json a), (''ok'', JBool True)]),
                  hp_event_counted = counts_toward_max_events a\<rparr>, st)))"

text \<open>
  \<open>late\<close>: the timer ends while the handler waits for a reply worker; the worker's effects
  stay, the answer is lost.
\<close>

definition handle_parsed_request ::
    "json_env \<Rightarrow> bot_config \<Rightarrow> world \<Rightarrow> bool \<Rightarrow> bool \<Rightarrow> nat \<Rightarrow> http_request \<Rightarrow> bot_state \<Rightarrow> handle_response \<times> bot_state" where
  "handle_parsed_request je cfg w busy late accepted_events req st =
     (let timed_out = plain_response (with_header ''Retry-After'' (retry_after_secs (retry_after_for_lease (bc_attempt_lease cfg)))
            (json_error (je_ser je) 503 ''handler timeout'')) in
      case bot_handle_request je cfg w busy accepted_events req st of
        (None, st) \<Rightarrow> (timed_out, st)
      | (Some r, st) \<Rightarrow> ((if late then timed_out else r), st))"

text \<open>
  One connection: \<open>request\<close> is \<open>None\<close> when reading timed out; \<open>permit\<close> says whether an event
  may still be handled concurrently.
\<close>

definition handle_connection ::
    "json_env \<Rightarrow> bot_config \<Rightarrow> world \<Rightarrow> bool \<Rightarrow> bool \<Rightarrow> bool \<Rightarrow> nat \<Rightarrow> http_request res option \<Rightarrow> bot_state
      \<Rightarrow> handle_response \<times> bot_state" where
  "handle_connection je cfg w busy late permit accepted_events request st =
     (case request of
        None \<Rightarrow> (plain_response (json_error (je_ser je) 408 ''request timeout''), st)
      | Some (Inl e) \<Rightarrow> (plain_response (json_error (je_ser je) 400 (error_display e)), st)
      | Some (Inr req) \<Rightarrow>
          if hr_path req = bc_event_path cfg \<and> hr_method req = ''POST'' \<and> \<not> permit then
            (plain_response (busy_response (je_ser je) (retry_after_for_lease (bc_in_flight_wait cfg))), st)
          else handle_parsed_request je cfg w busy late accepted_events req st)"

text \<open>The count of accepted events; whether the server is told to stop.\<close>

definition write_final_response :: "bot_config \<Rightarrow> handle_response \<Rightarrow> nat \<Rightarrow> nat \<times> bool" where
  "write_final_response cfg r accepted =
     (if hp_event_counted r then
        (Suc accepted, 0 < bc_max_events cfg \<and> bc_max_events cfg \<le> Suc accepted)
      else (accepted, False))"

subsection \<open>The receivers\<close>

definition handle_sidecar_request ::
    "json_env \<Rightarrow> string \<Rightarrow> string \<Rightarrow> string option \<Rightarrow> http_request \<Rightarrow> http_response \<times> sidecar_event option" where
  "handle_sidecar_request je path health_path token req =
     (if hr_path req = health_path then
        (if hr_method req = ''GET'' then (json_value (je_ser je) 200 (JObj [(''ok'', JBool True)]), None)
         else (json_error (je_ser je) 405 ''method not allowed'', None))
      else if hr_method req \<noteq> ''POST'' then (json_error (je_ser je) 405 ''method not allowed'', None)
      else if hr_path req \<noteq> path then (json_error (je_ser je) 404 ''not found'', None)
      else if \<not> authorized token req then (json_error (je_ser je) 401 ''unauthorized'', None)
      else case je_event je (hr_body req) of
        Inr ev \<Rightarrow> (json_value (je_ser je) 200 (JObj [(''ok'', JBool True)]), Some ev)
      | Inl e \<Rightarrow> (json_error (je_ser je) 400 (error_display e), None))"

definition handle_sidecar_connection ::
    "json_env \<Rightarrow> string \<Rightarrow> string \<Rightarrow> string option \<Rightarrow> http_request res option \<Rightarrow> http_response \<times> sidecar_event option" where
  "handle_sidecar_connection je path health_path token request =
     (case request of
        Some (Inr req) \<Rightarrow> handle_sidecar_request je path health_path token req
      | Some (Inl e) \<Rightarrow> (json_error (je_ser je) 400 (error_display e), None)
      | None \<Rightarrow> (json_error (je_ser je) 408 ''request timeout'', None))"

definition receiver_handle_request :: "json_env \<Rightarrow> string \<Rightarrow> string option \<Rightarrow> http_request \<Rightarrow> http_response" where
  "receiver_handle_request je path token req =
     (if hr_method req \<noteq> ''POST'' then json_error (je_ser je) 405 ''method not allowed''
      else if hr_path req \<noteq> path then json_error (je_ser je) 404 ''not found''
      else if \<not> authorized token req then json_error (je_ser je) 401 ''unauthorized''
      else case je_event je (hr_body req) of
        Inr ev \<Rightarrow> json_value (je_ser je) 200 (JObj [(''ok'', JBool True)])
      | Inl e \<Rightarrow> json_error (je_ser je) 400 (error_display e))"

end
