(* ===== verification/HttpProps.thy ===== *)
theory HttpProps imports Http begin

text \<open>
  Reading a request: what the front ends read does not depend on how the bytes arrive, and
  a request that is written is read back.
\<close>

subsection \<open>Searching\<close>

lemma find_bytes_Nil: "n \<noteq> [] \<Longrightarrow> find_bytes [] n = None"
  by (cases n) (simp_all add: find_bytes_def)

lemma find_upt_Suc: "find P [0..<Suc n] = (if P 0 then Some 0 else map_option Suc (find (\<lambda>i. P (Suc i)) [0..<n]))"
proof -
  have "find P (map Suc xs) = map_option Suc (find (\<lambda>i. P (Suc i)) xs)" for xs
    by (induction xs) auto
  moreover have "[0..<Suc n] = 0 # map Suc [0..<n]"
    by (simp add: map_Suc_upt upt_conv_Cons del: upt_Suc)
  ultimately show ?thesis by simp
qed

lemma find_bytes_Cons:
  assumes "n \<noteq> []"
  shows "find_bytes (c # s) n =
    (if take (length n) (c # s) = n then Some 0 else map_option Suc (find_bytes s n))"
proof (cases "length n \<le> Suc (length s)")
  case True
  then have "Suc (length (c # s)) - length n = Suc (Suc (length s) - length n)" by simp
  then show ?thesis by (simp add: find_bytes_def find_upt_Suc del: upt_Suc take_Suc_Cons)
next
  case False
  then have "length (take (length n) (c # s)) \<noteq> length n" by simp
  then have "take (length n) (c # s) \<noteq> n" by metis
  with False show ?thesis by (simp add: find_bytes_def)
qed

lemma find_bytes_bound: "n \<noteq> [] \<Longrightarrow> find_bytes s n = Some i \<Longrightarrow> i + length n \<le> length s"
proof (induction s arbitrary: i)
  case (Cons c s)
  then show ?case
    by (auto simp: find_bytes_Cons split: if_splits)
       (metis length_Cons length_take min.bounded_iff nle_le)
qed (simp add: find_bytes_Nil)

lemma find_bytes_append: "n \<noteq> [] \<Longrightarrow> find_bytes s n = Some i \<Longrightarrow> find_bytes (s @ t) n = Some i"
proof (induction s arbitrary: i)
  case (Cons c s)
  show ?case
  proof (cases "take (length n) (c # s) = n")
    case True
    then have "length n \<le> length (c # s)" by (metis length_take min.cobounded1)
    with True have "take (length n) (c # s @ t) = n" by (metis append_Cons take_all_iff take_append append_Nil2 diff_is_0_eq take0)
    with True Cons show ?thesis by (simp add: find_bytes_Cons)
  next
    case False
    with Cons obtain j where j: "find_bytes s n = Some j" "i = Suc j" by (auto simp: find_bytes_Cons)
    with Cons.prems have "j + length n \<le> length s" using find_bytes_bound by blast
    then have "take (length n) (c # s @ t) = take (length n) (c # s)" by (simp add: take_Cons split: nat.splits)
    with False j Cons show ?thesis by (simp add: find_bytes_Cons)
  qed
qed (simp add: find_bytes_Nil)

lemma find_bytes_prefix:
  assumes "n \<noteq> []" "find_bytes (s @ t) n = Some i" "i + length n \<le> length s"
  shows "find_bytes s n = Some i"
  using assms(2,3)
proof (induction s arbitrary: i)
  case (Cons c s)
  have "take (length n) (c # s @ t) = take (length n) (c # s)"
    using Cons.prems(2) by (simp add: take_Cons split: nat.splits)
  with Cons assms(1) show ?case by (auto simp: find_bytes_Cons split: if_splits)
qed (use assms(1) in simp)

lemma find_end_skip:
  "c \<noteq> CR \<Longrightarrow> find_bytes (c # s) CRLFCRLF = map_option Suc (find_bytes s CRLFCRLF)"
  by (simp add: find_bytes_Cons CRLFCRLF_def)

lemma find_end_here: "find_bytes (CRLFCRLF @ s) CRLFCRLF = Some 0"
  by (simp add: CRLFCRLF_def find_bytes_Cons)

lemma find_end_line:
  assumes "CR \<notin> set l"
  shows "find_bytes (l @ s) CRLFCRLF = map_option ((+) (length l)) (find_bytes s CRLFCRLF)"
  using assms by (induction l; cases "find_bytes s CRLFCRLF") (auto simp: find_end_skip)

lemma find_end_break:
  "c \<noteq> CR \<Longrightarrow> find_bytes (CRLF @ c # s) CRLFCRLF = map_option ((+) 2) (find_bytes (c # s) CRLFCRLF)"
  by (simp add: find_bytes_Cons CRLFCRLF_def CRLF_def CR_def LF_def option.map_comp comp_def)

subsection \<open>Chunks\<close>

lemma request_ready_append:
  assumes "find_bytes s CRLFCRLF = Some k" "request_ready b L s = Some r"
  shows "request_ready b L (s @ t) = Some r"
proof -
  have "find_bytes (s @ t) CRLFCRLF = Some k" "k + 4 \<le> length s"
    using assms(1) find_bytes_append find_bytes_bound by (fastforce simp: CRLFCRLF_def)+
  with assms show ?thesis
    by (auto simp: request_ready_def split: if_splits sum.splits)
qed

lemma read_loop_chunks:
  assumes "[] \<notin> set cs" "find_bytes (bytes @ concat cs) CRLFCRLF = Some k" "k + 3 \<le> MAX_HEADER_BYTES"
    "request_ready b L bytes = None"
  shows "read_loop b L bytes (map Inr cs @ later) =
    (case request_ready b L (bytes @ concat cs) of
       Some r \<Rightarrow> Some r
     | None \<Rightarrow> read_loop b L (bytes @ concat cs) later)"
  using assms
proof (induction cs arbitrary: bytes)
  case (Cons c cs)
  show ?case
  proof (cases "request_ready b L (bytes @ c)")
    case None
    with Cons.IH [of "bytes @ c"] Cons.prems show ?thesis by (auto split: option.split)
  next
    case (Some r)
    have "find_bytes (bytes @ c) CRLFCRLF \<noteq> None"
    proof
      assume n: "find_bytes (bytes @ c) CRLFCRLF = None"
      with Some have "MAX_HEADER_BYTES < length (bytes @ c)" by (auto simp: request_ready_def split: if_splits)
      with Cons.prems(3) have "k + length CRLFCRLF \<le> length (bytes @ c)" by (simp add: CRLFCRLF_def)
      with Cons.prems(2) find_bytes_prefix [of CRLFCRLF "bytes @ c" "concat cs" k]
      have "find_bytes (bytes @ c) CRLFCRLF = Some k" by (simp add: CRLFCRLF_def)
      with n show False by simp
    qed
    with Some have "request_ready b L ((bytes @ c) @ concat cs) = Some r"
      using request_ready_append by blast
    with Some Cons.prems(1) show ?thesis by auto
  qed
qed simp

subsection \<open>The text of a request\<close>

definition header_text :: "string \<times> string \<Rightarrow> string" where
  "header_text h = fst h @ '': '' @ snd h"

definition length_header :: "string \<Rightarrow> string \<times> string" where
  "length_header body = (''Content-Length'', show_nat (length body))"

definition request_line :: "string \<Rightarrow> string \<Rightarrow> string" where
  "request_line m p = m @ '' '' @ p @ '' HTTP/1.1''"

definition head_text :: "string \<Rightarrow> string \<Rightarrow> (string \<times> string) list \<Rightarrow> string" where
  "head_text m p hs = request_line m p @ concat (map (\<lambda>h. CRLF @ header_text h) hs)"

definition token :: "string \<Rightarrow> bool" where
  "token s \<longleftrightarrow> s \<noteq> [] \<and> list_all visible s \<and> CHR '':'' \<notin> set s"

text \<open>A header's value: visible characters, with single blanks between them.\<close>

definition plain :: "char \<Rightarrow> bool" where
  "plain c \<longleftrightarrow> 32 \<le> byte c \<and> byte c \<le> 126"

definition field_value :: "string \<Rightarrow> bool" where
  "field_value v \<longleftrightarrow> list_all plain v \<and> (v \<noteq> [] \<longrightarrow> visible (hd v) \<and> visible (last v))"

definition header_ok :: "string \<times> string \<Rightarrow> bool" where
  "header_ok h \<longleftrightarrow> token (fst h) \<and> field_value (snd h)"

definition request_ok :: "string \<Rightarrow> string \<Rightarrow> (string \<times> string) list \<Rightarrow> bool" where
  "request_ok m p hs \<longleftrightarrow> token m \<and> p \<noteq> [] \<and> list_all visible p \<and> list_all header_ok hs"

lemma visible_plain: "list_all visible s \<Longrightarrow> list_all plain s"
  by (auto simp: list_all_iff visible_def plain_def)

lemma plain_not_break: "list_all plain s \<Longrightarrow> CR \<notin> set s \<and> LF \<notin> set s"
  by (auto simp: list_all_iff plain_def CR_def LF_def byte_def)

lemma plain_ascii: "list_all plain s \<Longrightarrow> is_ascii s"
  by (auto simp: list_all_iff plain_def is_ascii_def)

lemma plain_request_line: "request_ok m p hs \<Longrightarrow> list_all plain (request_line m p)"
  by (auto simp: request_ok_def token_def request_line_def visible_plain) (simp_all add: plain_def byte_def)

lemma plain_header_text: "header_ok h \<Longrightarrow> list_all plain (header_text h)"
  by (auto simp: header_ok_def token_def field_value_def header_text_def visible_plain)
     (simp_all add: plain_def byte_def)

lemma header_text_Cons: "header_ok h \<Longrightarrow> \<exists>c t. header_text h = c # t \<and> c \<noteq> CR"
  using plain_not_break [OF plain_header_text [of h]]
  by (cases "fst h") (auto simp: header_ok_def token_def header_text_def)

lemma length_header_ok: "header_ok (length_header body)"
  using visible_show_nat [of "length body"]
  by (auto simp: header_ok_def length_header_def token_def field_value_def visible_plain list.pred_set [of visible] hd_in_set)
     (simp_all add: visible_def byte_def)

lemma find_head_end:
  assumes "list_all plain l" "list_all header_ok hs"
  shows "find_bytes (l @ concat (map (\<lambda>h. CRLF @ header_text h) hs) @ CRLFCRLF @ r) CRLFCRLF =
    Some (length l + length (concat (map (\<lambda>h. CRLF @ header_text h) hs)))"
  using assms
proof (induction hs arbitrary: l)
  case Nil
  then show ?case using plain_not_break find_end_line find_end_here by simp
next
  case (Cons h hs)
  obtain c t where h: "header_text h = c # t" "c \<noteq> CR" using Cons.prems header_text_Cons [of h] by auto
  have "list_all plain (header_text h)" using Cons.prems plain_header_text by simp
  with Cons have "find_bytes (header_text h @ concat (map (\<lambda>h. CRLF @ header_text h) hs) @ CRLFCRLF @ r) CRLFCRLF =
      Some (length (header_text h) + length (concat (map (\<lambda>h. CRLF @ header_text h) hs)))" by simp
  with h have "find_bytes (CRLF @ header_text h @ concat (map (\<lambda>h. CRLF @ header_text h) hs) @ CRLFCRLF @ r) CRLFCRLF =
      Some (2 + (length (header_text h) + length (concat (map (\<lambda>h. CRLF @ header_text h) hs))))"
    using find_end_break [OF h(2)] by simp
  with find_end_line plain_not_break [OF Cons.prems(1)] show ?case by (simp add: CRLF_def)
qed

lemma str_lines_break: "LF \<notin> set l \<Longrightarrow> str_lines (l @ CRLF @ t) = l # str_lines t"
proof -
  assume l: "LF \<notin> set l"
  then have "split_on LF ((l @ [CR]) @ LF # t) = (l @ [CR]) # split_on LF t"
    unfolding split_on_def by (intro split_with_append_sep) (auto simp: CR_def LF_def)
  then show ?thesis by (simp add: str_lines_def CRLF_def strip_cr_def split_on_def Let_def)
qed

lemma str_lines_last: "LF \<notin> set l \<Longrightarrow> l \<noteq> [] \<Longrightarrow> str_lines l = [l]"
proof -
  assume l: "LF \<notin> set l" "l \<noteq> []"
  then have "split_on LF l = [l]" unfolding split_on_def by (intro split_with_none) auto
  with l show ?thesis by (simp add: str_lines_def)
qed

lemma lines_head:
  assumes "list_all plain l" "l \<noteq> []" "list_all header_ok hs"
  shows "str_lines (l @ concat (map (\<lambda>h. CRLF @ header_text h) hs)) = l # map header_text hs"
  using assms
proof (induction hs arbitrary: l)
  case (Cons h hs)
  have "header_text h \<noteq> []" "list_all plain (header_text h)"
    using Cons.prems plain_header_text [of h] header_text_Cons [of h] by auto
  with Cons have "str_lines (header_text h @ concat (map (\<lambda>h. CRLF @ header_text h) hs)) =
      header_text h # map header_text hs" by simp
  then show ?case using str_lines_break [of l] plain_not_break [OF Cons.prems(1)] by simp
qed (use plain_not_break str_lines_last in simp)

lemma words_of_word:
  "list_all visible w \<Longrightarrow> words_of (map (\<lambda>c. [c]) w @ cs) acc = words_of cs (acc @ w)"
  by (induction w arbitrary: acc) (simp_all add: visible_not_ws del: is_ws.simps)

lemma words_of_blank:
  assumes "list_all visible w" "w \<noteq> []"
  shows "words_of (map (\<lambda>c. [c]) (w @ CHR '' '' # s)) [] = w # words_of (map (\<lambda>c. [c]) s) []"
proof -
  have "is_ws [CHR '' '']" by (simp add: byte_def)
  with assms show ?thesis
    using words_of_word [OF assms(1), of "map (\<lambda>c. [c]) (CHR '' '' # s)" "[]"] by (simp del: is_ws.simps)
qed

lemma words_of_last:
  "list_all visible w \<Longrightarrow> w \<noteq> [] \<Longrightarrow> words_of (map (\<lambda>c. [c]) w) [] = [w]"
  using words_of_word [of w "[]" "[]"] by simp

lemma split_request_line:
  assumes "request_ok m p hs"
  shows "split_whitespace (request_line m p) = [m, p, ''HTTP/1.1'']"
proof -
  have "list_all visible ''HTTP/1.1''" by (simp add: visible_def byte_def)
  then have v: "words_of (map (\<lambda>c. [c]) ''HTTP/1.1'') [] = [''HTTP/1.1'']" by (rule words_of_last) simp
  have "chars (request_line m p) = map (\<lambda>c. [c]) (m @ CHR '' '' # p @ CHR '' '' # ''HTTP/1.1'')"
    using plain_ascii [OF plain_request_line [OF assms]] chars_ascii by (simp add: request_line_def)
  then show ?thesis
    using assms unfolding split_whitespace_def
    by (metis words_of_blank v request_ok_def token_def)
qed

text \<open>The blank before a value is trimmed.\<close>

lemma trim_value:
  assumes "field_value v"
  shows "trim (CHR '' '' # v) = v"
proof -
  have "is_ascii v" using assms plain_ascii by (simp add: field_value_def)
  then have "trim (CHR '' '' # v) = trim v" by (rule trim_blank)
  also have "trim v = v"
  proof (cases "v = []")
    case False
    with assms \<open>is_ascii v\<close> show ?thesis by (intro trim_id) (simp_all add: field_value_def)
  qed simp
  finally show ?thesis .
qed

lemma split_header: "header_ok h \<Longrightarrow> split_once (CHR '':'') (header_text h) = Some (fst h, CHR '' '' # snd h)"
  by (simp add: split_once_Some_iff header_ok_def token_def header_text_def)

lemma header_line_text: "header_ok h \<Longrightarrow> header_line (header_text h) = Some (to_ascii_lowercase (fst h), snd h)"
  by (simp add: header_line_def split_header trim_value header_ok_def)

lemma head_ascii:
  assumes "request_ok m p hs"
  shows "is_ascii (head_text m p hs)"
proof -
  have "list_all header_ok hs" using assms by (simp add: request_ok_def)
  then have "is_ascii (concat (map (\<lambda>h. CRLF @ header_text h) hs))"
    using plain_ascii [OF plain_header_text] by (induction hs) (auto simp: CRLF_def CR_def LF_def byte_def)
  then show ?thesis using plain_ascii [OF plain_request_line [OF assms]] by (simp add: head_text_def)
qed

lemma lines_of_head:
  assumes "request_ok m p hs"
  shows "str_lines (head_text m p hs) = request_line m p # map header_text hs"
proof -
  have "request_line m p \<noteq> []" by (simp add: request_line_def)
  moreover have "list_all header_ok hs" using assms by (simp add: request_ok_def)
  ultimately show ?thesis
    unfolding head_text_def using plain_request_line [OF assms] lines_head by simp
qed

lemma parse_request_head:
  assumes "request_ok m p hs"
  shows "parse_request (head_text m p hs) body = Inr \<lparr>hr_method = m, hr_path = p,
    hr_headers = fold (\<lambda>(k, v). bm_insert k v) (map (apfst to_ascii_lowercase) hs) [], hr_body = body\<rparr>"
proof -
  have "list_all header_ok hs" using assms by (simp add: request_ok_def)
  then have "List.map_filter header_line (map header_text hs) = map (apfst to_ascii_lowercase) hs"
    by (induction hs) (auto simp: map_filter_def header_line_text apfst_def map_prod_def split: prod.splits)
  then show ?thesis
    using split_request_line [OF assms] head_ascii [OF assms] lines_of_head [OF assms]
    by (simp add: parse_request_def lossy_valid is_ascii_utf8_valid)
qed

lemma request_ok_length: "request_ok m p hs \<Longrightarrow> request_ok m p (hs @ [length_header body])"
  using length_header_ok by (simp add: request_ok_def)

subsection \<open>The length of the body\<close>

definition length_name :: "string \<Rightarrow> bool" where
  "length_name n \<longleftrightarrow> eq_ignore_ascii_case n ''content-length''"

lemma length_name_no_blank: "CHR '' '' \<in> set n \<Longrightarrow> \<not> length_name n"
proof
  assume "CHR '' '' \<in> set n" "length_name n"
  then have "ascii_lower (CHR '' '') \<in> set (to_ascii_lowercase ''content-length'')"
    unfolding length_name_def eq_ignore_ascii_case_def to_ascii_lowercase_def by (metis image_eqI list.set_map)
  then show False by (simp add: to_ascii_lowercase_def ascii_lower_def byte_def)
qed

lemma length_of_request_line:
  assumes "request_ok m p hs"
  shows "content_length_value (request_line m p) = None"
proof (cases "split_once (CHR '':'') (request_line m p)")
  case (Some ab)
  obtain a b where ab: "ab = (a, b)" by force
  with Some have eq: "m @ CHR '' '' # p @ '' HTTP/1.1'' = a @ CHR '':'' # b"
    by (auto simp: split_once_Some_iff request_line_def)
  have "CHR '':'' \<notin> set m" using assms by (simp add: request_ok_def token_def)
  with eq have "CHR '' '' \<in> set a" by (auto simp: append_eq_append_conv2 Cons_eq_append_conv append_eq_Cons_conv)
  with Some ab show ?thesis using length_name_no_blank by (simp add: content_length_value_def length_name_def)
qed (simp add: content_length_value_def)

lemma length_of_header:
  "header_ok h \<Longrightarrow> content_length_value (header_text h) = (if length_name (fst h) then Some (CHR '' '' # snd h) else None)"
  by (simp add: content_length_value_def split_header length_name_def)

lemma find_map_last: "\<forall>x\<in>set xs. f x = None \<Longrightarrow> find_map f (xs @ [x]) = f x"
  by (induction xs) (auto split: option.splits)

lemma lengths_of_head:
  assumes ok: "request_ok m p hs" and names: "\<forall>h\<in>set hs. \<not> length_name (fst h)"
    and small: "length body \<le> MAX_BODY_BYTES"
  shows "optional_length (head_text m p (hs @ [length_header body])) = Inr (length body)"
    and "receiver_content_length (head_text m p (hs @ [length_header body])) = Inr (length body)"
proof -
  have hs: "list_all header_ok hs" using ok by (simp add: request_ok_def)
  have h: "header_ok (length_header body)" by (rule length_header_ok)
  have "length_name ''Content-Length''"
    by code_simp
  then have l: "content_length_value (header_text (length_header body)) = Some (CHR '' '' # show_nat (length body))"
    using length_of_header [OF h] by (simp add: length_header_def)
  have lines: "str_lines (head_text m p (hs @ [length_header body])) =
      (request_line m p # map header_text hs) @ [header_text (length_header body)]"
    using lines_of_head [OF request_ok_length [OF ok]] by simp
  have others: "\<forall>l\<in>set (request_line m p # map header_text hs). content_length_value l = None"
    using length_of_request_line [OF ok] names hs length_of_header by (auto simp: list_all_iff)
  have v: "trim (CHR '' '' # show_nat (length body)) = show_nat (length body)"
    using h trim_value by (simp add: header_ok_def length_header_def)
  have n: "parse_uint U64_MAX (show_nat (length body)) = Some (length body)"
    using small by (intro parse_uint_show_nat) simp
  show "optional_length (head_text m p (hs @ [length_header body])) = Inr (length body)"
    using find_map_last [of _ content_length_value, OF others] l v n
    by (simp add: optional_length_def parse_content_length_def lines)
  show "receiver_content_length (head_text m p (hs @ [length_header body])) = Inr (length body)"
    using find_map_last [of "request_line m p # map header_text hs"
        "\<lambda>l. Option.bind (content_length_value l) (\<lambda>v. parse_uint U64_MAX (trim v))"] others l v n
    by (simp add: receiver_content_length_def lines)
qed

subsection \<open>A request is read back\<close>

definition request_text :: "string \<Rightarrow> string \<Rightarrow> (string \<times> string) list \<Rightarrow> string \<Rightarrow> string" where
  "request_text m p hs body = head_text m p (hs @ [length_header body]) @ CRLFCRLF @ body"

definition request_of :: "string \<Rightarrow> string \<Rightarrow> (string \<times> string) list \<Rightarrow> string \<Rightarrow> http_request" where
  "request_of m p hs body = \<lparr>hr_method = m, hr_path = p,
     hr_headers = fold (\<lambda>(k, v). bm_insert k v) (map (apfst to_ascii_lowercase) (hs @ [length_header body])) [],
     hr_body = body\<rparr>"

lemma read_request_text:
  assumes ok: "request_ok m p hs" and body: "length body \<le> MAX_BODY_BYTES"
    and head: "length (head_text m p (hs @ [length_header body])) + 3 \<le> MAX_HEADER_BYTES"
    and L: "L (head_text m p (hs @ [length_header body])) = Inr (length body)"
    and cs: "concat cs = request_text m p hs body" "[] \<notin> set cs"
  shows "read_loop b L [] (map Inr cs @ later) = Some (Inr (request_of m p hs body))"
proof -
  define h where "h = head_text m p (hs @ [length_header body])"
  note ok' = request_ok_length [OF ok, of body]
  have plain: "list_all plain (request_line m p)" "list_all header_ok (hs @ [length_header body])"
    using ok' plain_request_line by (auto simp: request_ok_def)
  have found: "find_bytes (h @ CRLFCRLF @ body) CRLFCRLF = Some (length h)"
    using find_head_end [OF plain] by (simp add: h_def head_text_def)
  have "is_ascii h" using head_ascii [OF ok'] by (simp add: h_def)
  then have "lossy h = h" by (simp add: lossy_valid is_ascii_utf8_valid)
  then have "request_ready b L (h @ CRLFCRLF @ body) = Some (parse_request h body)"
    using found head body L by (auto simp: request_ready_def h_def [symmetric] CRLFCRLF_def)
  moreover have "parse_request h body = Inr (request_of m p hs body)"
    using parse_request_head [OF ok'] by (simp add: h_def request_of_def)
  moreover have "request_ready b L [] = None" by (simp add: request_ready_def find_bytes_Nil CRLFCRLF_def)
  ultimately show ?thesis
    using read_loop_chunks [OF cs(2), of "[]" "length h" b L later] cs(1) found head
    by (simp add: request_text_def h_def)
qed

text \<open>
  C23. A request that is sent is read back by all three servers, however the connection cuts it
  into pieces: for a method, a path, headers and a body of the sizes the servers accept, they
  get this method and path, the headers under their lower-case names and the body.
\<close>

theorem request_read_back:
  assumes "request_ok m p hs" "\<forall>h\<in>set hs. \<not> length_name (fst h)"
    "length (head_text m p (hs @ [length_header body])) + 3 \<le> MAX_HEADER_BYTES"
    "length body \<le> MAX_BODY_BYTES" "concat cs = request_text m p hs body" "[] \<notin> set cs"
  shows "bot_read_request (map Inr cs @ later) = Some (Inr (request_of m p hs body)) \<and>
    cli_read_request (map Inr cs @ later) = Some (Inr (request_of m p hs body)) \<and>
    receiver_read_request (map Inr cs @ later) = Some (Inr (request_of m p hs body))"
  using assms lengths_of_head [of m p hs body]
  by (simp add: bot_read_request_def cli_read_request_def receiver_read_request_def read_request_text)

definition demo_headers :: "(string \<times> string) list" where
  "demo_headers = [(''Host'', ''localhost''), (''Authorization'', ''Bearer k1'')]"

definition demo_request :: string where
  "demo_request = request_text ''POST'' ''/webex/events'' demo_headers ''{}''"

lemma show_two: "show_nat (Suc (Suc 0)) = ''2''"
  by code_simp

lemma request_read_back_witness:
  "bot_read_request (map Inr [take 70 demo_request, drop 70 demo_request]) =
     Some (Inr (request_of ''POST'' ''/webex/events'' demo_headers ''{}''))"
proof -
  have "length demo_request = 95"
    by (simp add: demo_request_def request_text_def head_text_def request_line_def header_text_def demo_headers_def
        length_header_def show_two CRLF_def CRLFCRLF_def)
  then have cs: "[] \<notin> set [take 70 demo_request, drop 70 demo_request]" by auto
  have ok: "request_ok ''POST'' ''/webex/events'' demo_headers" by code_simp
  have names: "\<forall>h\<in>set demo_headers. \<not> length_name (fst h)" by code_simp
  have "length (head_text ''POST'' ''/webex/events'' (demo_headers @ [length_header ''{}''])) + 3 \<le> MAX_HEADER_BYTES"
    by (simp add: head_text_def request_line_def header_text_def demo_headers_def length_header_def show_two CRLF_def)
  from request_read_back [OF ok names this _ _ cs, of "[]"] show ?thesis
    by (simp add: demo_request_def)
qed

end
