(* ===== verification/FrontProps.thy ===== *)
theory FrontProps imports BotFront HttpProps BotProps begin

text \<open>From the bytes of a connection to the account bot's handler.\<close>

lemma bot_handle_request_event:
  assumes "bot_handle_request je cfg w busy n req st = (r, st')" "st' \<noteq> st"
  shows "hr_method req = ''POST'' \<and> hr_path req = bc_event_path cfg \<and>
    authorized (bc_expected_forward_token cfg) req \<and>
    \<not> max_event_admission_closed (bc_max_events cfg) (bt_slots st) (bt_completed st) n \<and>
    (\<exists>ev. je_event je (hr_body req) = Inr ev \<and> st' = snd (handle_event (je_message je) cfg w ev st))"
  using assms unfolding bot_handle_request_def
  by (auto split: if_splits sum.splits prod.splits option.splits)

text \<open>
  C24. Only an authorized event reaches the handler: when a token is configured and a connection
  changes the bot's state, then its bytes were a complete request that posts to the event
  path, carries exactly this token, found a free place and held a well-formed event; and the
  change is what the handler does with this event.
\<close>

theorem event_needs_token:
  assumes "bc_expected_forward_token cfg = Some t"
    "handle_connection je cfg w busy late permit n (bot_read_request reads) st = (r, st')" "st' \<noteq> st"
  shows "\<exists>req ev. bot_read_request reads = Some (Inr req) \<and> hr_method req = ''POST'' \<and>
    hr_path req = bc_event_path cfg \<and> bm_get (hr_headers req) ''authorization'' = Some (''Bearer '' @ t) \<and>
    permit \<and> \<not> max_event_admission_closed (bc_max_events cfg) (bt_slots st) (bt_completed st) n \<and>
    je_event je (hr_body req) = Inr ev \<and> st' = snd (handle_event (je_message je) cfg w ev st)"
proof -
  obtain req where req: "bot_read_request reads = Some (Inr req)"
    "\<not> (hr_path req = bc_event_path cfg \<and> hr_method req = ''POST'' \<and> \<not> permit)"
    "handle_parsed_request je cfg w busy late n req st = (r, st')"
    using assms(2,3) by (auto simp: handle_connection_def split: option.splits sum.splits if_splits)
  obtain a where "bot_handle_request je cfg w busy n req st = (a, st')"
    using req(3) by (auto simp: handle_parsed_request_def Let_def split: prod.splits option.splits)
  from bot_handle_request_event [OF this assms(3)] req assms(1) show ?thesis
    by (auto simp: authorized_def)
qed

definition demo_json :: json_env where
  "demo_json = \<lparr>je_ser = \<lambda>_. ''{}'', je_event = \<lambda>_. Inr demo_event, je_message = \<lambda>_. Some demo_bot_message\<rparr>"

lemma event_needs_token_witness:
  "\<exists>req. bot_read_request [Inr (take 70 demo_request), Inr (drop 70 demo_request)] = Some (Inr req) \<and>
     bm_get (hr_headers req) ''authorization'' = Some ''Bearer k1''"
proof -
  let ?reads = "map Inr [take 70 demo_request, drop 70 demo_request] :: string res list"
  let ?req = "request_of ''POST'' ''/webex/events'' demo_headers ''{}''"
  obtain r st' where c: "handle_connection demo_json demo_bot_config demo_world False False True 0
      (bot_read_request ?reads) demo_bot = (r, st')" by force
  have "bm_get (hr_headers ?req) ''authorization'' = Some ''Bearer k1''"
    by code_simp
  then have "snd (bot_handle_request demo_json demo_bot_config demo_world False 0 ?req demo_bot) =
      snd (handle_event (\<lambda>_. Some demo_bot_message) demo_bot_config demo_world demo_event demo_bot)"
    by (simp add: bot_handle_request_def demo_bot_config_def request_of_def authorized_def demo_json_def demo_bot_def
        max_event_admission_closed_def max_event_quota_reached_def split: prod.split sum.split option.split)
  with c demo_sent have "bt_sent st' \<noteq> []"
    using request_read_back_witness
    by (auto simp: handle_connection_def handle_parsed_request_def Let_def request_of_def
        split: prod.splits option.splits)
  then have "st' \<noteq> demo_bot" by (auto simp: demo_bot_def)
  from event_needs_token [OF _ c this, of "''k1''"] show ?thesis
    by (auto simp: demo_bot_config_def)
qed

end
