(* ===== verification/Resources.thy ===== *)
theory Resources imports Types begin

text \<open>
  The other requests and resources of \<open>src/types.rs\<close>, and what their debug texts show. The
  JSON of a record is derived by its field names; the client hands the record itself on.
\<close>

subsection \<open>Rooms and messages\<close>

record list_direct_messages =
  ld_parent_id :: "string option"
  ld_person_id :: "string option"
  ld_person_email :: "string option"

record update_message =
  um_room_id :: string
  um_text :: "string option"
  um_markdown :: "string option"

record create_room =
  cr_title :: string
  cr_team_id :: "string option"
  cr_classification_id :: "string option"
  cr_is_locked :: "bool option"
  cr_is_public :: "bool option"
  cr_description :: "string option"
  cr_is_announcement_only :: "bool option"

definition create_room_new :: "string \<Rightarrow> create_room" where
  "create_room_new title = \<lparr>cr_title = title, cr_team_id = None, cr_classification_id = None,
     cr_is_locked = None, cr_is_public = None, cr_description = None, cr_is_announcement_only = None\<rparr>"

record update_room =
  ur_title :: string
  ur_classification_id :: "string option"
  ur_team_id :: "string option"
  ur_is_locked :: "bool option"
  ur_is_public :: "bool option"
  ur_description :: "string option"
  ur_is_announcement_only :: "bool option"
  ur_is_read_only :: "bool option"

record local_file_attachment =
  lf_path :: string
  lf_file_name :: "string option"
  lf_media_type :: "string option"

definition attachment_new :: "string \<Rightarrow> local_file_attachment" where
  "attachment_new p = \<lparr>lf_path = p, lf_file_name = None, lf_media_type = None\<rparr>"

definition with_file_name :: "string \<Rightarrow> local_file_attachment \<Rightarrow> local_file_attachment" where
  "with_file_name n a = a\<lparr>lf_file_name := Some n\<rparr>"

definition with_media_type :: "string \<Rightarrow> local_file_attachment \<Rightarrow> local_file_attachment" where
  "with_media_type t a = a\<lparr>lf_media_type := Some t\<rparr>"

subsection \<open>Memberships and webhooks\<close>

record membership =
  mb_id :: "string option"
  mb_room_id :: "string option"
  mb_person_id :: "string option"
  mb_person_email :: "string option"
  mb_person_display_name :: "string option"
  mb_person_org_id :: "string option"
  mb_is_moderator :: "bool option"
  mb_is_room_hidden :: "bool option"
  mb_room_type :: "string option"
  mb_is_monitor :: "bool option"
  mb_created :: "time option"

record list_memberships =
  lb_room_id :: "string option"
  lb_person_id :: "string option"
  lb_person_email :: "string option"
  lb_max :: "nat option"

definition list_memberships_room :: "string \<Rightarrow> list_memberships" where
  "list_memberships_room r = \<lparr>lb_room_id = Some r, lb_person_id = None, lb_person_email = None, lb_max = None\<rparr>"

record create_membership =
  cb_room_id :: string
  cb_person_id :: "string option"
  cb_person_email :: "string option"
  cb_is_moderator :: "bool option"

record update_membership =
  ub_is_moderator :: "bool option"
  ub_is_room_hidden :: "bool option"

record webhook =
  wh_id :: "string option"
  wh_name :: "string option"
  wh_target_url :: "string option"
  wh_resource :: "string option"
  wh_event :: "string option"
  wh_filter :: "string option"
  wh_secret :: "string option"
  wh_status :: "string option"
  wh_created :: "time option"
  wh_owned_by :: "string option"

record list_webhooks =
  lw_max :: "nat option"
  lw_owned_by :: "string option"

record create_webhook =
  cw_name :: string
  cw_target_url :: string
  cw_resource :: string
  cw_event :: string
  cw_filter :: "string option"
  cw_secret :: "string option"
  cw_owned_by :: "string option"

record update_webhook =
  uw_name :: string
  uw_target_url :: string
  uw_secret :: "string option"
  uw_owned_by :: "string option"
  uw_status :: "string option"

subsection \<open>Debug texts\<close>

text \<open>
  \<open>debug_struct\<close> prints the type's name and the fields it is given, in their order. What it
  prints of a field is a function of the value below.
\<close>

datatype debug_value =
    DbgStr string
  | DbgTime time
  | DbgNone
  | DbgSome debug_value
  | DbgList "debug_value list"

type_synonym debug_struct = "string \<times> (string \<times> debug_value) list"

definition dbg_opt :: "('a \<Rightarrow> debug_value) \<Rightarrow> 'a option \<Rightarrow> debug_value" where
  "dbg_opt f v = (case v of Some x \<Rightarrow> DbgSome (f x) | None \<Rightarrow> DbgNone)"

definition redacted :: "'a \<Rightarrow> debug_value" where
  "redacted v = DbgStr ''<redacted>''"

definition webhook_debug :: "webhook \<Rightarrow> debug_struct" where
  "webhook_debug w = (''Webhook'',
     [(''id'', dbg_opt DbgStr (wh_id w)), (''name'', dbg_opt DbgStr (wh_name w)),
      (''target_url'', dbg_opt DbgStr (wh_target_url w)), (''resource'', dbg_opt DbgStr (wh_resource w)),
      (''event'', dbg_opt DbgStr (wh_event w)), (''filter'', dbg_opt DbgStr (wh_filter w)),
      (''secret'', dbg_opt redacted (wh_secret w)), (''status'', dbg_opt DbgStr (wh_status w)),
      (''created'', dbg_opt DbgTime (wh_created w)), (''owned_by'', dbg_opt DbgStr (wh_owned_by w))])"

definition create_webhook_debug :: "create_webhook \<Rightarrow> debug_struct" where
  "create_webhook_debug w = (''CreateWebhook'',
     [(''name'', DbgStr (cw_name w)), (''target_url'', DbgStr (cw_target_url w)),
      (''resource'', DbgStr (cw_resource w)), (''event'', DbgStr (cw_event w)),
      (''filter'', dbg_opt DbgStr (cw_filter w)), (''secret'', dbg_opt redacted (cw_secret w)),
      (''owned_by'', dbg_opt DbgStr (cw_owned_by w))])"

definition update_webhook_debug :: "update_webhook \<Rightarrow> debug_struct" where
  "update_webhook_debug w = (''UpdateWebhook'',
     [(''name'', DbgStr (uw_name w)), (''target_url'', DbgStr (uw_target_url w)),
      (''secret'', dbg_opt redacted (uw_secret w)), (''owned_by'', dbg_opt DbgStr (uw_owned_by w)),
      (''status'', dbg_opt DbgStr (uw_status w))])"

definition attachment_debug :: "local_file_attachment \<Rightarrow> debug_struct" where
  "attachment_debug a = (''LocalFileAttachment'',
     [(''path'', DbgStr (lf_path a)), (''file_name'', dbg_opt DbgStr (lf_file_name a)),
      (''media_type'', dbg_opt DbgStr (lf_media_type a))])"

end
