(* ===== verification/Links.thy ===== *)
theory Links imports Resources "HOL-Library.Word" begin

text \<open>
  Addresses and links: the next page in a \<open>Link\<close> header (\<open>src/pagination.rs\<close>), the address
  checks of the client (\<open>src/client.rs\<close>), room ids in links (\<open>src/rooms.rs\<close>) and webhook
  signatures (\<open>src/webhooks.rs\<close>).
\<close>

subsection \<open>Addresses\<close>

text \<open>
  The \<open>url\<close> crate. An address is its text; \<open>ul_port\<close> is \<open>port_or_known_default\<close>,
  \<open>ul_form_pairs\<close> is \<open>form_urlencoded::parse\<close>.
\<close>

type_synonym url = string

record url_lib =
  ul_parse :: "string \<Rightarrow> url res"
  ul_scheme :: "url \<Rightarrow> string"
  ul_host :: "url \<Rightarrow> string option"
  ul_port :: "url \<Rightarrow> nat option"
  ul_path :: "url \<Rightarrow> string"
  ul_set_path :: "string \<Rightarrow> url \<Rightarrow> url"
  ul_join :: "url \<Rightarrow> string \<Rightarrow> url res"
  ul_append_pair :: "string \<Rightarrow> string \<Rightarrow> url \<Rightarrow> url"
  ul_path_segments :: "url \<Rightarrow> string list option"
  ul_query_pairs :: "url \<Rightarrow> (string \<times> string) list"
  ul_fragment :: "url \<Rightarrow> string option"
  ul_form_pairs :: "string \<Rightarrow> (string \<times> string) list"

definition ensure_directory_url :: "url_lib \<Rightarrow> url \<Rightarrow> url" where
  "ensure_directory_url ul u =
     (if strip_suffix ''/'' (ul_path ul u) = None then ul_set_path ul (ul_path ul u @ ''/'') u else u)"

definition is_same_or_child_path :: "string \<Rightarrow> string \<Rightarrow> bool" where
  "is_same_or_child_path p base \<longleftrightarrow> p = base \<or> starts_with p base"

definition validate_page_url :: "url_lib \<Rightarrow> url \<Rightarrow> url \<Rightarrow> unit res" where
  "validate_page_url ul base nxt =
     (if ul_scheme ul nxt = ul_scheme ul base \<and> ul_host ul nxt = ul_host ul base \<and>
         ul_port ul nxt = ul_port ul base \<and> is_same_or_child_path (ul_path ul nxt) (ul_path ul base)
      then Inr ()
      else Inl (Other (''refusing to send Webex bearer token to pagination URL outside configured base URL: '' @ nxt)))"

subsection \<open>The next page\<close>

fun next_in :: "(string \<Rightarrow> url res) \<Rightarrow> string list \<Rightarrow> url option" where
  "next_in parse [] = None"
| "next_in parse (part # parts) =
     (case split_once (CHR '';'') (trim part) of
        None \<Rightarrow> None
      | Some (url_part, params) \<Rightarrow>
          (case Option.bind (strip_prefix ''<'' (trim url_part)) (strip_suffix ''>'') of
             None \<Rightarrow> None
           | Some u \<Rightarrow>
               if list_ex (\<lambda>p. eq_ignore_ascii_case (trim p) ''rel=\"next\"'') (split_on (CHR '';'') params)
               then (case parse (trim u) of Inr u \<Rightarrow> Some u | Inl _ \<Rightarrow> None)
               else next_in parse parts))"

definition parse_next_link :: "(string \<Rightarrow> url res) \<Rightarrow> string \<Rightarrow> url option" where
  "parse_next_link parse link = next_in parse (split_on (CHR '','') link)"

definition next_link :: "(string \<Rightarrow> url res) \<Rightarrow> headers \<Rightarrow> url option" where
  "next_link parse hs =
     Option.bind (Option.bind (hdr_get ''link'' hs) hdr_to_str) (parse_next_link parse)"

subsection \<open>Room ids in links\<close>

definition contains_text :: "string \<Rightarrow> string \<Rightarrow> bool" where
  "contains_text s p \<longleftrightarrow> list_ex (\<lambda>i. starts_with (drop i s) p) [0..<Suc (length s)]"

definition key_contains_room_hint :: "string \<Rightarrow> bool" where
  "key_contains_room_hint key =
     (let key = to_ascii_lowercase key in
      key = ''id'' \<or> contains_text key ''room'' \<or> contains_text key ''space'' \<or> contains_text key ''conversation'')"

definition push_unique :: "string \<Rightarrow> string list \<Rightarrow> string list" where
  "push_unique v candidates = (if v \<in> set candidates then candidates else candidates @ [v])"

definition is_hexdigit :: "char \<Rightarrow> bool" where
  "is_hexdigit c \<longleftrightarrow> is_digit c \<or> 65 \<le> byte c \<and> byte c \<le> 70 \<or> 97 \<le> byte c \<and> byte c \<le> 102"

definition is_alphanumeric :: "char \<Rightarrow> bool" where
  "is_alphanumeric c \<longleftrightarrow> is_digit c \<or> 65 \<le> byte c \<and> byte c \<le> 90 \<or> 97 \<le> byte c \<and> byte c \<le> 122"

definition is_hyphenated_uuid_like :: "string \<Rightarrow> bool" where
  "is_hyphenated_uuid_like v \<longleftrightarrow> length v = 36 \<and>
     list_all (\<lambda>(i, ch). i \<in> set [8, 13, 18, 23] \<and> ch = ''-'' \<or>
         i \<notin> set [8, 13, 18, 23] \<and> (case ch of [c] \<Rightarrow> is_hexdigit c | _ \<Rightarrow> False))
       (zip [0..<length (chars v)] (chars v))"

text \<open>\<open>b64\<close> is the base64 crate's standard encoding.\<close>

definition rest_room_id_from_space_uuid :: "(string \<Rightarrow> string) \<Rightarrow> string \<Rightarrow> string option" where
  "rest_room_id_from_space_uuid b64 v =
     (let v = trim v in
      if is_hyphenated_uuid_like v then Some (b64 (''ciscospark://us/ROOM/'' @ to_ascii_lowercase v)) else None)"

definition room_id_char :: "string \<Rightarrow> bool" where
  "room_id_char ch = (case ch of [c] \<Rightarrow> is_alphanumeric c \<or> c \<in> set ''-_:/='' | _ \<Rightarrow> False)"

definition push_room_candidate :: "(string \<Rightarrow> string) \<Rightarrow> string \<Rightarrow> string list \<Rightarrow> string list" where
  "push_room_candidate b64 v candidates =
     (let v = trim v;
          candidates = (case rest_room_id_from_space_uuid b64 v of
              Some r \<Rightarrow> push_unique r candidates
            | None \<Rightarrow> candidates) in
      if 16 \<le> length v \<and> list_all room_id_char (chars v) then push_unique v candidates else candidates)"

definition push_hinted :: "(string \<Rightarrow> string) \<Rightarrow> string \<times> string \<Rightarrow> string list \<Rightarrow> string list" where
  "push_hinted b64 kv candidates =
     (if key_contains_room_hint (fst kv) then push_room_candidate b64 (snd kv) candidates else candidates)"

definition room_id_candidates_from_link :: "url_lib \<Rightarrow> (string \<Rightarrow> string) \<Rightarrow> string \<Rightarrow> string list" where
  "room_id_candidates_from_link ul b64 link =
     (case ul_parse ul (trim link) of
        Inl _ \<Rightarrow> []
      | Inr u \<Rightarrow>
          (let cs = fold (push_room_candidate b64) (case ul_path_segments ul u of Some ss \<Rightarrow> ss | None \<Rightarrow> []) [];
               cs = fold (push_hinted b64) (ul_query_pairs ul u) cs in
           case ul_fragment ul u of
             Some f \<Rightarrow> fold (push_hinted b64) (ul_form_pairs ul f) cs
           | None \<Rightarrow> cs))"

subsection \<open>Webhook signatures\<close>

text \<open>
  The bytes are compared as 8-bit words. \<open>mac\<close> is the HMAC crate's SHA-1 code of a payload
  under a key, \<open>hex\<close> the lower-case hexadecimal text of bytes.
\<close>

definition word_of_byte :: "char \<Rightarrow> 8 word" where
  "word_of_byte c = word_of_nat (byte c)"

definition constant_time_eq :: "string \<Rightarrow> string \<Rightarrow> bool" where
  "constant_time_eq a b \<longleftrightarrow>
     (if length a \<noteq> length b then False
      else fold (\<lambda>(l, r) acc. or acc (xor (word_of_byte l) (word_of_byte r))) (zip a b) 0 = 0)"

definition expected_signature :: "string \<Rightarrow> string" where
  "expected_signature header =
     (let t = trim header in
      to_ascii_lowercase (case strip_prefix ''sha1='' t of Some s \<Rightarrow> s
        | None \<Rightarrow> (case strip_prefix ''SHA1='' t of Some s \<Rightarrow> s | None \<Rightarrow> t)))"

definition verify_signature ::
    "(string \<Rightarrow> string res) \<Rightarrow> (string \<Rightarrow> string \<Rightarrow> string) \<Rightarrow> (string \<Rightarrow> string) \<Rightarrow> string \<Rightarrow> string \<Rightarrow> string \<Rightarrow> unit res" where
  "verify_signature new_key mac hex secret payload header =
     and_then (new_key secret) (\<lambda>key.
       if constant_time_eq (hex (mac key payload)) (expected_signature header) then Inr ()
       else Inl InvalidWebhookSignature)"

end
