(* ===== verification/RestClient.thy ===== *)
theory RestClient imports Links Poller begin

text \<open>
  The client of the REST service (\<open>src/client.rs\<close>). A request carries the bearer token; what
  the service answers to the \<open>n\<close>th request that is sent is a parameter, and so are the token
  provider and the decoders that serde derives. A request's query or body is the value the
  caller passed, which serde renders.
\<close>

subsection \<open>Requests\<close>

datatype rest_method = GET | POST | PUT | DELETE

record multipart_form =
  mp_texts :: "(string \<times> string) list"
  mp_file_name :: string
  mp_media_type :: string
  mp_bytes :: string

datatype payload =
    NoPayload
  | RoomsQuery list_rooms
  | MessagesQuery list_messages
  | DirectQuery list_direct_messages
  | MembershipsQuery list_memberships
  | WebhooksQuery list_webhooks
  | RoomBody create_room
  | RoomUpdate update_room
  | MessageBody create_message
  | MessageUpdate update_message
  | MembershipBody create_membership
  | MembershipUpdate update_membership
  | WebhookBody create_webhook
  | WebhookUpdate update_webhook
  | FormBody multipart_form

record rest_request =
  rq_method :: rest_method
  rq_url :: url
  rq_token :: string
  rq_payload :: payload

text \<open>A file that was opened without following a symbolic link; reading it can fail.\<close>

record opened_file =
  of_is_file :: bool
  of_len :: nat
  of_content :: "string res"

type_synonym 'a decoder = "response \<Rightarrow> 'a res"

record rest_env =
  re_url :: url_lib
  re_encode :: "string \<Rightarrow> string"
  re_http :: http_env
  re_now :: "nat \<Rightarrow> time"
  re_token :: "nat \<Rightarrow> string res"
  re_answer :: "nat \<Rightarrow> rest_request \<Rightarrow> response res"
  re_open :: "string \<Rightarrow> opened_file res"
  re_mime :: "string \<Rightarrow> string option"

text \<open>The state is what has been sent so far.\<close>

type_synonym sent = "rest_request list"
type_synonym 'a rest_op = "sent \<Rightarrow> 'a res \<times> sent"

text \<open>\<open>DEFAULT_BASE_URL\<close>.\<close>

definition default_base_url :: string where
  "default_base_url = ''https://webexapis.com/v1/''"

definition endpoint :: "rest_env \<Rightarrow> url \<Rightarrow> string \<Rightarrow> url res" where
  "endpoint env base p = ul_join (re_url env) base p"

text \<open>\<open>authenticated\<close>, the payload and \<open>send\<close>: the token is asked for first.\<close>

definition send_authenticated :: "rest_env \<Rightarrow> rest_method \<Rightarrow> payload \<Rightarrow> url \<Rightarrow> response rest_op" where
  "send_authenticated env m body u sent =
     (case re_token env (length sent) of
        Inl e \<Rightarrow> (Inl e, sent)
      | Inr t \<Rightarrow>
          (let rq = \<lparr>rq_method = m, rq_url = u, rq_token = t, rq_payload = body\<rparr> in
           (re_answer env (length sent) rq, sent @ [rq])))"

definition response_error :: "rest_env \<Rightarrow> nat \<Rightarrow> response \<Rightarrow> error" where
  "response_error env n r = Api (from_response (re_http env) (re_now env n) r)"

definition decode_json :: "rest_env \<Rightarrow> 'a decoder \<Rightarrow> response \<Rightarrow> 'a rest_op" where
  "decode_json env dec r sent =
     (if is_success (rs_status r) then dec r else Inl (response_error env (length sent) r), sent)"

definition decode_page :: "rest_env \<Rightarrow> 'a list decoder \<Rightarrow> response \<Rightarrow> 'a page rest_op" where
  "decode_page env dec r sent =
     (if is_success (rs_status r) then
        and_then (dec r) (\<lambda>items. Inr \<lparr>pg_items = items, pg_next = next_link (ul_parse (re_url env)) (rs_headers r)\<rparr>)
      else Inl (response_error env (length sent) r), sent)"

definition get_json :: "rest_env \<Rightarrow> url \<Rightarrow> 'a decoder \<Rightarrow> string \<Rightarrow> payload \<Rightarrow> 'a rest_op" where
  "get_json env base dec p query =
     seq_op (lift_res (endpoint env base p)) (\<lambda>u.
     seq_op (send_authenticated env GET query u) (decode_json env dec))"

definition get_page :: "rest_env \<Rightarrow> url \<Rightarrow> 'a list decoder \<Rightarrow> string \<Rightarrow> payload \<Rightarrow> 'a page rest_op" where
  "get_page env base dec p query =
     seq_op (lift_res (endpoint env base p)) (\<lambda>u.
     seq_op (send_authenticated env GET query u) (decode_page env dec))"

definition send_json :: "rest_env \<Rightarrow> url \<Rightarrow> 'a decoder \<Rightarrow> rest_method \<Rightarrow> string \<Rightarrow> payload \<Rightarrow> 'a rest_op" where
  "send_json env base dec m p body =
     seq_op (lift_res (endpoint env base p)) (\<lambda>u.
     seq_op (send_authenticated env m body u) (decode_json env dec))"

definition delete_at :: "rest_env \<Rightarrow> url \<Rightarrow> string \<Rightarrow> unit rest_op" where
  "delete_at env base p =
     seq_op (lift_res (endpoint env base p)) (\<lambda>u.
     seq_op (send_authenticated env DELETE NoPayload u) (\<lambda>r sent.
       (if is_success (rs_status r) then Inr () else Inl (response_error env (length sent) r), sent)))"

definition next_page :: "rest_env \<Rightarrow> url \<Rightarrow> 'a list decoder \<Rightarrow> url \<Rightarrow> 'a page rest_op" where
  "next_page env base dec nxt =
     seq_op (lift_res (validate_page_url (re_url env) base nxt)) (\<lambda>_.
     seq_op (send_authenticated env GET NoPayload nxt) (decode_page env dec))"

text \<open>The loop of \<open>collect_all\<close>, with the number of pages it may still ask for.\<close>

fun collect_loop ::
    "rest_env \<Rightarrow> url \<Rightarrow> 'a list decoder \<Rightarrow> nat \<Rightarrow> 'a list \<Rightarrow> url option \<Rightarrow> sent \<Rightarrow> 'a list res option \<times> sent" where
  "collect_loop env base dec k items None sent = (Some (Inr items), sent)"
| "collect_loop env base dec 0 items (Some u) sent = (None, sent)"
| "collect_loop env base dec (Suc k) items (Some u) sent =
     (case next_page env base dec u sent of
        (Inl e, sent) \<Rightarrow> (Some (Inl e), sent)
      | (Inr page, sent) \<Rightarrow> collect_loop env base dec k (items @ pg_items page) (pg_next page) sent)"

definition collect_all ::
    "rest_env \<Rightarrow> url \<Rightarrow> 'a list decoder \<Rightarrow> nat \<Rightarrow> 'a page \<Rightarrow> sent \<Rightarrow> 'a list res option \<times> sent" where
  "collect_all env base dec k page = collect_loop env base dec k (pg_items page) (pg_next page)"

subsection \<open>Attachments\<close>

abbreviation MAX_LOCAL_FILE_UPLOAD_BYTES :: nat where "MAX_LOCAL_FILE_UPLOAD_BYTES \<equiv> 100000000"

definition append_optional_text :: "string \<Rightarrow> string option \<Rightarrow> (string \<times> string) list \<Rightarrow> (string \<times> string) list" where
  "append_optional_text name v form = (case v of Some t \<Rightarrow> form @ [(name, t)] | None \<Rightarrow> form)"

definition reject_unsafe_local_file_name :: "string \<Rightarrow> string res" where
  "reject_unsafe_local_file_name n =
     (if CR \<in> set n \<or> LF \<in> set n
      then Inl (Other ''local file attachment file name must not contain CR or LF'') else Inr n)"

definition validate_local_attachment_media_type :: "rest_env \<Rightarrow> string \<Rightarrow> unit res" where
  "validate_local_attachment_media_type env t =
     (case re_mime env t of
        Some e \<Rightarrow> Inl (Other (''local file attachment media type is invalid: '' @ e))
      | None \<Rightarrow> Inr ())"

definition read_limited_local_attachment :: "string res \<Rightarrow> nat \<Rightarrow> string res" where
  "read_limited_local_attachment content max_bytes =
     and_then content (\<lambda>c.
       let bytes = take (max_bytes + 1) c in
       if max_bytes < length bytes
       then Inl (Other (''local file attachment exceeds Webex 100 MB limit: '' @ show_nat (length bytes) @ '' bytes read''))
       else Inr bytes)"

text \<open>
  \<open>Path::file_name\<close>: the last component, when it is a name. A path is split at its slashes;
  empty pieces do not count, nor does a dot that does not begin the path.
\<close>

definition path_file_name :: "string \<Rightarrow> string option" where
  "path_file_name p =
     (let ps = split_on (CHR ''/'') p;
          names = filter (\<lambda>s. s \<noteq> [] \<and> s \<noteq> ''.'') ps in
      if names = [] then None else if last names = ''..'' then None else Some (last names))"

definition utf8_name :: "string \<Rightarrow> string option" where
  "utf8_name n = (if utf8_valid n then Some n else None)"

definition message_texts :: "create_message \<Rightarrow> (string \<times> string) list" where
  "message_texts m =
     append_optional_text ''markdown'' (cm_markdown m)
       (append_optional_text ''text'' (cm_text m)
         (append_optional_text ''toPersonEmail'' (cm_to_person_email m)
           (append_optional_text ''toPersonId'' (cm_to_person_id m)
             (append_optional_text ''parentId'' (cm_parent_id m)
               (append_optional_text ''roomId'' (cm_room_id m) [])))))"

definition message_multipart_form :: "rest_env \<Rightarrow> create_message \<Rightarrow> local_file_attachment \<Rightarrow> multipart_form res" where
  "message_multipart_form env m file =
     (if cm_files m \<noteq> [] then
        Inl (Other ''create_message_with_file accepts one local file attachment; use create_message for public file URLs'')
      else if cm_attachments m \<noteq> [] then
        Inl (Other ''create_message_with_file does not support Adaptive Card attachments; use raw JSON create_message for card payloads'')
      else
        and_then (case or_else (lf_file_name file) (Option.bind (path_file_name (lf_path file)) utf8_name) of
            Some n \<Rightarrow> if n = [] then Inl (Other ''local file attachment requires a UTF-8 file name'') else Inr n
          | None \<Rightarrow> Inl (Other ''local file attachment requires a UTF-8 file name'')) (\<lambda>name.
        and_then (reject_unsafe_local_file_name name) (\<lambda>name.
        let media_type = (case lf_media_type file of Some t \<Rightarrow> t | None \<Rightarrow> ''application/octet-stream'') in
        and_then (validate_local_attachment_media_type env media_type) (\<lambda>_.
        and_then (re_open env (lf_path file)) (\<lambda>f.
        if \<not> of_is_file f then Inl (Other ''local file attachment path must be a regular file'')
        else if MAX_LOCAL_FILE_UPLOAD_BYTES < of_len f then
          Inl (Other (''local file attachment exceeds Webex 100 MB limit: '' @ show_nat (of_len f) @ '' bytes''))
        else
          and_then (read_limited_local_attachment (of_content f) MAX_LOCAL_FILE_UPLOAD_BYTES) (\<lambda>bytes.
          Inr \<lparr>mp_texts = message_texts m, mp_file_name = name, mp_media_type = media_type, mp_bytes = bytes\<rparr>))))))"

subsection \<open>The operations\<close>

record decoders =
  dc_person :: "person decoder"
  dc_room :: "room decoder"
  dc_rooms :: "room list decoder"
  dc_message :: "message decoder"
  dc_messages :: "message list decoder"
  dc_membership :: "membership decoder"
  dc_memberships :: "membership list decoder"
  dc_webhook :: "webhook decoder"
  dc_webhooks :: "webhook list decoder"

record client =
  cl_env :: rest_env
  cl_dec :: decoders
  cl_base :: url

text \<open>
  The builder: a client needs a token provider, and its base address is the service's own or a
  directory. The provider is asked again for every request; the decoders come with the client.
\<close>

record client_builder =
  cb_http :: rest_env
  cb_base_url :: url
  cb_token_provider :: "(nat \<Rightarrow> string res) option"

definition client_builder_new :: "rest_env \<Rightarrow> client_builder res" where
  "client_builder_new env =
     and_then (ul_parse (re_url env) default_base_url) (\<lambda>u. Inr \<lparr>cb_http = env, cb_base_url = u, cb_token_provider = None\<rparr>)"

definition client_base_url :: "url \<Rightarrow> client_builder \<Rightarrow> client_builder" where
  "client_base_url u b = b\<lparr>cb_base_url := ensure_directory_url (re_url (cb_http b)) u\<rparr>"

definition http_client :: "rest_env \<Rightarrow> client_builder \<Rightarrow> client_builder" where
  "http_client env b = b\<lparr>cb_http := env\<rparr>"

definition with_token_provider :: "(nat \<Rightarrow> string res) \<Rightarrow> client_builder \<Rightarrow> client_builder" where
  "with_token_provider p b = b\<lparr>cb_token_provider := Some p\<rparr>"

definition static_token_provider :: "string \<Rightarrow> nat \<Rightarrow> string res" where
  "static_token_provider token n = Inr token"

definition with_access_token :: "string \<Rightarrow> client_builder \<Rightarrow> client_builder" where
  "with_access_token token = with_token_provider (static_token_provider token)"

definition build_webex_client :: "decoders \<Rightarrow> client_builder \<Rightarrow> client res" where
  "build_webex_client dec b =
     (case cb_token_provider b of
        None \<Rightarrow> Inl (Other ''token provider is required'')
      | Some p \<Rightarrow> Inr \<lparr>cl_env = (cb_http b)\<lparr>re_token := p\<rparr>, cl_dec = dec, cl_base = cb_base_url b\<rparr>)"

definition from_access_token :: "rest_env \<Rightarrow> decoders \<Rightarrow> string \<Rightarrow> client res" where
  "from_access_token env dec token =
     and_then (client_builder_new env) (\<lambda>b. build_webex_client dec (with_access_token token b))"

text \<open>No request is sent without a token: whatever is built asks its provider, or nothing is built.\<close>

lemma build_needs_token:
  assumes "build_webex_client dec b = Inr c"
  obtains p where "cb_token_provider b = Some p" "re_token (cl_env c) = p" "cl_base c = cb_base_url b"
  using assms by (auto simp: build_webex_client_def split: option.splits)

lemma unbuilt_without_token: "and_then (client_builder_new env) (build_webex_client dec) \<noteq> Inr c"
  by (auto simp: client_builder_new_def build_webex_client_def and_then_def split: sum.splits)

lemma from_access_token_presents:
  assumes "from_access_token env dec token = Inr c" "send_authenticated (cl_env c) m body u asked = (r, asked')"
  shows "asked' = asked @ [\<lparr>rq_method = m, rq_url = u, rq_token = token, rq_payload = body\<rparr>]"
  using assms by (auto simp: from_access_token_def client_builder_new_def build_webex_client_def with_access_token_def
    with_token_provider_def static_token_provider_def send_authenticated_def Let_def and_then_def split: sum.splits)

definition in_dir :: "client \<Rightarrow> string \<Rightarrow> string \<Rightarrow> string" where
  "in_dir c d i = d @ ''/'' @ re_encode (cl_env c) i"

definition me :: "client \<Rightarrow> person rest_op" where
  "me c = get_json (cl_env c) (cl_base c) (dc_person (cl_dec c)) ''people/me'' NoPayload"

definition list_rooms_page :: "client \<Rightarrow> list_rooms \<Rightarrow> room page rest_op" where
  "list_rooms_page c p = get_page (cl_env c) (cl_base c) (dc_rooms (cl_dec c)) ''rooms'' (RoomsQuery p)"

definition get_room :: "client \<Rightarrow> string \<Rightarrow> room rest_op" where
  "get_room c i = get_json (cl_env c) (cl_base c) (dc_room (cl_dec c)) (in_dir c ''rooms'' i) NoPayload"

definition create_room_call :: "client \<Rightarrow> create_room \<Rightarrow> room rest_op" where
  "create_room_call c r = send_json (cl_env c) (cl_base c) (dc_room (cl_dec c)) POST ''rooms'' (RoomBody r)"

definition update_room_call :: "client \<Rightarrow> string \<Rightarrow> update_room \<Rightarrow> room rest_op" where
  "update_room_call c i r = send_json (cl_env c) (cl_base c) (dc_room (cl_dec c)) PUT (in_dir c ''rooms'' i) (RoomUpdate r)"

definition delete_room :: "client \<Rightarrow> string \<Rightarrow> unit rest_op" where
  "delete_room c i = delete_at (cl_env c) (cl_base c) (in_dir c ''rooms'' i)"

definition list_messages_page :: "client \<Rightarrow> list_messages \<Rightarrow> message page rest_op" where
  "list_messages_page c p = get_page (cl_env c) (cl_base c) (dc_messages (cl_dec c)) ''messages'' (MessagesQuery p)"

definition list_direct_messages_page :: "client \<Rightarrow> list_direct_messages \<Rightarrow> message page rest_op" where
  "list_direct_messages_page c p = get_page (cl_env c) (cl_base c) (dc_messages (cl_dec c)) ''messages/direct'' (DirectQuery p)"

definition get_message :: "client \<Rightarrow> string \<Rightarrow> message rest_op" where
  "get_message c i = get_json (cl_env c) (cl_base c) (dc_message (cl_dec c)) (in_dir c ''messages'' i) NoPayload"

definition create_message_call :: "client \<Rightarrow> create_message \<Rightarrow> message rest_op" where
  "create_message_call c m = send_json (cl_env c) (cl_base c) (dc_message (cl_dec c)) POST ''messages'' (MessageBody m)"

definition create_message_with_file :: "client \<Rightarrow> create_message \<Rightarrow> local_file_attachment \<Rightarrow> message rest_op" where
  "create_message_with_file c m file =
     seq_op (lift_res (message_multipart_form (cl_env c) m file)) (\<lambda>form.
       send_json (cl_env c) (cl_base c) (dc_message (cl_dec c)) POST ''messages'' (FormBody form))"

definition reply_text_call :: "client \<Rightarrow> string \<Rightarrow> string \<Rightarrow> string \<Rightarrow> message rest_op" where
  "reply_text_call c r p t = create_message_call c (create_message_reply_text r p t)"

definition update_message_call :: "client \<Rightarrow> string \<Rightarrow> update_message \<Rightarrow> message rest_op" where
  "update_message_call c i m = send_json (cl_env c) (cl_base c) (dc_message (cl_dec c)) PUT (in_dir c ''messages'' i) (MessageUpdate m)"

definition delete_message :: "client \<Rightarrow> string \<Rightarrow> unit rest_op" where
  "delete_message c i = delete_at (cl_env c) (cl_base c) (in_dir c ''messages'' i)"

definition list_memberships_page :: "client \<Rightarrow> list_memberships \<Rightarrow> membership page rest_op" where
  "list_memberships_page c p = get_page (cl_env c) (cl_base c) (dc_memberships (cl_dec c)) ''memberships'' (MembershipsQuery p)"

definition get_membership :: "client \<Rightarrow> string \<Rightarrow> membership rest_op" where
  "get_membership c i = get_json (cl_env c) (cl_base c) (dc_membership (cl_dec c)) (in_dir c ''memberships'' i) NoPayload"

definition create_membership_call :: "client \<Rightarrow> create_membership \<Rightarrow> membership rest_op" where
  "create_membership_call c m = send_json (cl_env c) (cl_base c) (dc_membership (cl_dec c)) POST ''memberships'' (MembershipBody m)"

definition update_membership_call :: "client \<Rightarrow> string \<Rightarrow> update_membership \<Rightarrow> membership rest_op" where
  "update_membership_call c i m = send_json (cl_env c) (cl_base c) (dc_membership (cl_dec c)) PUT (in_dir c ''memberships'' i) (MembershipUpdate m)"

definition delete_membership :: "client \<Rightarrow> string \<Rightarrow> unit rest_op" where
  "delete_membership c i = delete_at (cl_env c) (cl_base c) (in_dir c ''memberships'' i)"

definition list_webhooks_page :: "client \<Rightarrow> list_webhooks \<Rightarrow> webhook page rest_op" where
  "list_webhooks_page c p = get_page (cl_env c) (cl_base c) (dc_webhooks (cl_dec c)) ''webhooks'' (WebhooksQuery p)"

definition get_webhook :: "client \<Rightarrow> string \<Rightarrow> webhook rest_op" where
  "get_webhook c i = get_json (cl_env c) (cl_base c) (dc_webhook (cl_dec c)) (in_dir c ''webhooks'' i) NoPayload"

definition create_webhook_call :: "client \<Rightarrow> create_webhook \<Rightarrow> webhook rest_op" where
  "create_webhook_call c w = send_json (cl_env c) (cl_base c) (dc_webhook (cl_dec c)) POST ''webhooks'' (WebhookBody w)"

definition update_webhook_call :: "client \<Rightarrow> string \<Rightarrow> update_webhook \<Rightarrow> webhook rest_op" where
  "update_webhook_call c i w = send_json (cl_env c) (cl_base c) (dc_webhook (cl_dec c)) PUT (in_dir c ''webhooks'' i) (WebhookUpdate w)"

definition delete_webhook :: "client \<Rightarrow> string \<Rightarrow> unit rest_op" where
  "delete_webhook c i = delete_at (cl_env c) (cl_base c) (in_dir c ''webhooks'' i)"

end
