(* ===== verification/LinksProps.thy ===== *)
theory LinksProps imports Links begin

text \<open>The next page a \<open>Link\<close> header names, and the comparison of signatures.\<close>

subsection \<open>Links\<close>

definition link_text :: "string \<times> string \<Rightarrow> string" where
  "link_text l = ''<'' @ fst l @ ''>; rel=\"'' @ snd l @ [CHR 0x22]"

fun links_text :: "(string \<times> string) list \<Rightarrow> string" where
  "links_text [] = []"
| "links_text [l] = link_text l"
| "links_text (l # ls) = link_text l @ '', '' @ links_text ls"

text \<open>Visible text without the two characters that separate links and parameters.\<close>

definition link_word :: "string \<Rightarrow> bool" where
  "link_word s \<longleftrightarrow> list_all visible s \<and> CHR '','' \<notin> set s \<and> CHR '';'' \<notin> set s"

definition link_ok :: "string \<times> string \<Rightarrow> bool" where
  "link_ok l \<longleftrightarrow> link_word (fst l) \<and> link_word (snd l)"

lemma link_ascii: "link_ok l \<Longrightarrow> is_ascii (link_text l)"
  using visible_ascii by (auto simp: link_ok_def link_word_def link_text_def byte_def)

lemma link_no_comma: "link_ok l \<Longrightarrow> CHR '','' \<notin> set (link_text l)"
  by (auto simp: link_ok_def link_word_def link_text_def)

lemma trim_link: "link_ok l \<Longrightarrow> trim (link_text l) = link_text l"
  by (rule trim_id) (simp_all add: link_ascii, simp_all add: link_text_def visible_def byte_def)

lemma split_link:
  "link_ok l \<Longrightarrow> split_once (CHR '';'') (link_text l) = Some (''<'' @ fst l @ ''>'', '' rel=\"'' @ snd l @ [CHR 0x22])"
  by (simp add: split_once_Some_iff link_text_def link_ok_def link_word_def)

lemma strip_suffix_append: "strip_suffix p (s @ p) = Some s"
  by (simp add: strip_suffix_def)

lemma url_of_link:
  assumes "link_ok l"
  shows "Option.bind (strip_prefix ''<'' (trim (''<'' @ fst l @ ''>''))) (strip_suffix ''>'') = Some (fst l)"
proof -
  have "list_all visible (''<'' @ fst l @ ''>'')"
    using assms by (simp add: link_ok_def link_word_def visible_def byte_def)
  then have "trim (''<'' @ fst l @ ''>'') = ''<'' @ fst l @ ''>''" by (rule trim_visible)
  then show ?thesis by (metis strip_prefix_append strip_suffix_append bind.bind_lunit)
qed

lemma rel_of_link:
  assumes "link_ok l"
  shows "list_ex (\<lambda>p. eq_ignore_ascii_case (trim p) ''rel=\"next\"'')
      (split_on (CHR '';'') ('' rel=\"'' @ snd l @ [CHR 0x22])) \<longleftrightarrow> eq_ignore_ascii_case (snd l) ''next''"
proof -
  have word: "link_word (snd l)" using assms by (simp add: link_ok_def)
  then have "split_on (CHR '';'') ('' rel=\"'' @ snd l @ [CHR 0x22]) = ['' rel=\"'' @ snd l @ [CHR 0x22]]"
    unfolding split_on_def link_word_def by (intro split_with_none) auto
  moreover have v: "list_all visible (''rel=\"'' @ snd l @ [CHR 0x22])"
    using word by (simp add: link_word_def visible_def byte_def)
  then have "trim ('' rel=\"'' @ snd l @ [CHR 0x22]) = ''rel=\"'' @ snd l @ [CHR 0x22]"
    using trim_blank [OF visible_ascii [OF v]] trim_visible [OF v] by simp
  moreover have "ascii_lower (CHR ''r'') = CHR ''r''" "ascii_lower (CHR ''e'') = CHR ''e''" "ascii_lower (CHR ''l'') = CHR ''l''"
    "ascii_lower (CHR ''='') = CHR ''=''" "ascii_lower (CHR 0x22) = CHR 0x22"
    by (simp_all add: ascii_lower_def byte_def)
  ultimately show ?thesis by (simp add: eq_ignore_ascii_case_def to_ascii_lowercase_def)
qed

lemma next_in_link:
  assumes "link_ok l" "trim part = link_text l"
  shows "next_in parse (part # parts) =
    (if eq_ignore_ascii_case (snd l) ''next'' then (case parse (fst l) of Inr u \<Rightarrow> Some u | Inl _ \<Rightarrow> None)
     else next_in parse parts)"
proof -
  have "trim (fst l) = fst l" using assms(1) trim_visible by (simp add: link_ok_def link_word_def)
  then show ?thesis
    by (simp only: next_in.simps assms(2) split_link [OF assms(1)] option.case prod.case
        url_of_link [OF assms(1)] rel_of_link [OF assms(1)])
qed

definition first_next :: "(string \<Rightarrow> url res) \<Rightarrow> (string \<times> string) list \<Rightarrow> url option" where
  "first_next parse ls =
     (case find (\<lambda>l. eq_ignore_ascii_case (snd l) ''next'') ls of
        Some l \<Rightarrow> (case parse (fst l) of Inr u \<Rightarrow> Some u | Inl _ \<Rightarrow> None)
      | None \<Rightarrow> None)"

lemma next_in_links:
  assumes "list_all link_ok ls" "ls \<noteq> []" "b \<in> {[], '' ''}"
  shows "next_in parse (split_on (CHR '','') (b @ links_text ls)) = first_next parse ls"
  using assms
proof (induction ls arbitrary: b rule: links_text.induct)
  case (2 l)
  have b: "CHR '','' \<notin> set (b @ link_text l)" using "2.prems" link_no_comma [of l] by auto
  then have "split_on (CHR '','') (b @ link_text l) = [b @ link_text l]"
    unfolding split_on_def by (intro split_with_none) auto
  moreover have "trim (b @ link_text l) = link_text l"
    using "2.prems" trim_link [of l] trim_blank [OF link_ascii [of l]] by auto
  ultimately show ?case using "2.prems" next_in_link [of l] by (simp add: first_next_def)
next
  case (3 l k ls)
  have "CHR '','' \<notin> set (b @ link_text l)" using "3.prems" link_no_comma [of l] by auto
  then have "split_on (CHR '','') ((b @ link_text l) @ CHR '','' # '' '' @ links_text (k # ls)) =
      (b @ link_text l) # split_on (CHR '','') ('' '' @ links_text (k # ls))"
    unfolding split_on_def by (intro split_with_append_sep) auto
  moreover have "trim (b @ link_text l) = link_text l"
    using "3.prems" trim_link [of l] trim_blank [OF link_ascii [of l]] by auto
  moreover have "next_in parse (split_on (CHR '','') ('' '' @ links_text (k # ls))) = first_next parse (k # ls)"
    using "3.prems" by (intro "3.IH") auto
  ultimately show ?case using "3.prems" next_in_link [of l] by (simp add: first_next_def)
qed simp

subsection \<open>Signatures\<close>

lemma or_eq_0_iff: "or a b = 0 \<longleftrightarrow> a = 0 \<and> b = 0" for a b :: "8 word"
  by (auto simp: bit_eq_iff bit_simps)

lemma xor_eq_0_iff: "xor a b = 0 \<longleftrightarrow> a = b" for a b :: "8 word"
  by (auto simp: bit_eq_iff bit_simps)

lemma fold_differences:
  "length a = length b \<Longrightarrow>
   fold (\<lambda>(l, r) acc. or acc (xor (word_of_byte l) (word_of_byte r))) (zip a b) acc = 0 \<longleftrightarrow>
     acc = 0 \<and> map word_of_byte a = map word_of_byte b"
  by (induction a b arbitrary: acc rule: list_induct2) (auto simp: or_eq_0_iff xor_eq_0_iff)

lemma word_of_byte_inject: "word_of_byte c = word_of_byte d \<longleftrightarrow> c = d"
proof
  assume "word_of_byte c = word_of_byte d"
  then have "unat (word_of_byte c) = unat (word_of_byte d)" by simp
  then have "byte c = byte d"
    using byte_lt [of c] byte_lt [of d] by (simp add: word_of_byte_def unat_of_nat take_bit_eq_mod)
  then show "c = d" by (simp add: byte_inject)
qed simp

lemma constant_time_eq_iff: "constant_time_eq a b \<longleftrightarrow> a = b"
proof -
  have "map word_of_byte a = map word_of_byte b \<longleftrightarrow> a = b"
    by (rule inj_map_eq_map) (simp add: inj_def word_of_byte_inject)
  then show ?thesis by (auto simp: constant_time_eq_def fold_differences)
qed

text \<open>
  A webhook signature is accepted exactly when it is the signature: the comparison, which
  combines the differences of all bytes, decides equality of the expected text and the
  hexadecimal code of the payload.
\<close>

lemma signature_decides:
  "verify_signature (\<lambda>s. Inr (key s)) mac hex secret payload header = Inr () \<longleftrightarrow>
     expected_signature header = hex (mac (key secret) payload)"
  by (auto simp: verify_signature_def constant_time_eq_iff)

subsection \<open>A small address library\<close>

text \<open>Addresses of a host and a path, for concrete examples.\<close>

definition demo_urls :: url_lib where
  "demo_urls = \<lparr>ul_parse = Inr, ul_scheme = \<lambda>u. ''https'', ul_host = \<lambda>u. Some (takeWhile (\<lambda>c. c \<noteq> CHR ''/'') u),
     ul_port = \<lambda>u. Some 443, ul_path = dropWhile (\<lambda>c. c \<noteq> CHR ''/''), ul_set_path = \<lambda>p u. takeWhile (\<lambda>c. c \<noteq> CHR ''/'') u @ p,
     ul_join = \<lambda>b r. Inr (b @ r), ul_append_pair = \<lambda>k v u. u, ul_path_segments = \<lambda>u. None, ul_query_pairs = \<lambda>u. [],
     ul_fragment = \<lambda>u. None, ul_form_pairs = \<lambda>s. []\<rparr>"

end
