(* ===== verification/ClientProps.thy ===== *)
theory ClientProps imports RestClient LinksProps CatchUp BotIds begin

text \<open>
  Where the client sends its token, what it uploads, and how it follows the pages of a listing.
\<close>

subsection \<open>Calls\<close>

datatype client_call =
    CallMe
  | CallListRooms list_rooms
  | CallGetRoom string
  | CallCreateRoom create_room
  | CallUpdateRoom string update_room
  | CallDeleteRoom string
  | CallListMessages list_messages
  | CallListDirect list_direct_messages
  | CallGetMessage string
  | CallCreateMessage create_message
  | CallCreateWithFile create_message local_file_attachment
  | CallReplyText string string string
  | CallUpdateMessage string update_message
  | CallDeleteMessage string
  | CallListMemberships list_memberships
  | CallGetMembership string
  | CallCreateMembership create_membership
  | CallUpdateMembership string update_membership
  | CallDeleteMembership string
  | CallListWebhooks list_webhooks
  | CallGetWebhook string
  | CallCreateWebhook create_webhook
  | CallUpdateWebhook string update_webhook
  | CallDeleteWebhook string
  | CallNextPage url
  | CallCollectAll nat "message page"

fun run_client_call :: "client \<Rightarrow> client_call \<Rightarrow> sent \<Rightarrow> sent" where
  "run_client_call c CallMe sent = snd (me c sent)"
| "run_client_call c (CallListRooms x) sent = snd (list_rooms_page c x sent)"
| "run_client_call c (CallGetRoom x) sent = snd (get_room c x sent)"
| "run_client_call c (CallCreateRoom x) sent = snd (create_room_call c x sent)"
| "run_client_call c (CallUpdateRoom x y) sent = snd (update_room_call c x y sent)"
| "run_client_call c (CallDeleteRoom x) sent = snd (delete_room c x sent)"
| "run_client_call c (CallListMessages x) sent = snd (list_messages_page c x sent)"
| "run_client_call c (CallListDirect x) sent = snd (list_direct_messages_page c x sent)"
| "run_client_call c (CallGetMessage x) sent = snd (get_message c x sent)"
| "run_client_call c (CallCreateMessage x) sent = snd (create_message_call c x sent)"
| "run_client_call c (CallCreateWithFile x y) sent = snd (create_message_with_file c x y sent)"
| "run_client_call c (CallReplyText x y z) sent = snd (reply_text_call c x y z sent)"
| "run_client_call c (CallUpdateMessage x y) sent = snd (update_message_call c x y sent)"
| "run_client_call c (CallDeleteMessage x) sent = snd (delete_message c x sent)"
| "run_client_call c (CallListMemberships x) sent = snd (list_memberships_page c x sent)"
| "run_client_call c (CallGetMembership x) sent = snd (get_membership c x sent)"
| "run_client_call c (CallCreateMembership x) sent = snd (create_membership_call c x sent)"
| "run_client_call c (CallUpdateMembership x y) sent = snd (update_membership_call c x y sent)"
| "run_client_call c (CallDeleteMembership x) sent = snd (delete_membership c x sent)"
| "run_client_call c (CallListWebhooks x) sent = snd (list_webhooks_page c x sent)"
| "run_client_call c (CallGetWebhook x) sent = snd (get_webhook c x sent)"
| "run_client_call c (CallCreateWebhook x) sent = snd (create_webhook_call c x sent)"
| "run_client_call c (CallUpdateWebhook x y) sent = snd (update_webhook_call c x y sent)"
| "run_client_call c (CallDeleteWebhook x) sent = snd (delete_webhook c x sent)"
| "run_client_call c (CallNextPage x) sent = snd (next_page (cl_env c) (cl_base c) (dc_messages (cl_dec c)) x sent)"
| "run_client_call c (CallCollectAll x y) sent = snd (collect_all (cl_env c) (cl_base c) (dc_messages (cl_dec c)) x y sent)"

subsection \<open>The address of a request\<close>

text \<open>The addresses under a base address.\<close>

definition within_base :: "url_lib \<Rightarrow> url \<Rightarrow> url \<Rightarrow> bool" where
  "within_base ul base u \<longleftrightarrow> ul_scheme ul u = ul_scheme ul base \<and> ul_host ul u = ul_host ul base \<and>
     ul_port ul u = ul_port ul base \<and> starts_with (ul_path ul u) (ul_path ul base)"

text \<open>
  What the \<open>url\<close> crate does with a relative reference of one plain word, or of a plain word, a
  slash and percent-encoded text: the address stays under the directory it is joined to. (An
  encoded segment of two dots leads back to the directory itself, but not above it.)
\<close>

definition encoded_char :: "char \<Rightarrow> bool" where
  "encoded_char c \<longleftrightarrow> is_alphanumeric c \<or> c = CHR ''%''"

definition plain_reference :: "string \<Rightarrow> bool" where
  "plain_reference r \<longleftrightarrow> (\<exists>d s. d \<noteq> [] \<and> list_all is_alphanumeric d \<and> list_all encoded_char s \<and>
     (r = d \<or> r = d @ ''/'' @ s))"

definition joins_below :: "url_lib \<Rightarrow> url \<Rightarrow> bool" where
  "joins_below ul base \<longleftrightarrow> (\<forall>r u. plain_reference r \<longrightarrow> ul_join ul base r = Inr u \<longrightarrow> within_base ul base u)"

definition encodes :: "(string \<Rightarrow> string) \<Rightarrow> bool" where
  "encodes enc \<longleftrightarrow> (\<forall>s. list_all encoded_char (enc s))"

lemma starts_with_refl [simp]: "starts_with p p"
  by (simp add: starts_with_def)

lemma validate_page_url_ok: "validate_page_url ul base u = Inr () \<longleftrightarrow> within_base ul base u"
  by (auto simp: validate_page_url_def within_base_def is_same_or_child_path_def)

text \<open>What an operation may have sent more: addresses under the base only.\<close>

definition stays :: "client \<Rightarrow> ('a \<times> sent) \<Rightarrow> sent \<Rightarrow> bool" where
  "stays c r sent \<longleftrightarrow> (\<exists>more. snd r = sent @ more \<and>
     (\<forall>rq\<in>set more. within_base (re_url (cl_env c)) (cl_base c) (rq_url rq)))"

lemma stays_same [intro]: "stays c (r, sent) sent"
  by (simp add: stays_def)

lemma stays_seq_op:
  assumes "stays c (m sent) sent" "\<And>x s. m sent = (Inr x, s) \<Longrightarrow> stays c (f x s) s"
  shows "stays c (seq_op m f sent) sent"
proof (cases "m sent")
  case (Pair r s)
  show ?thesis
  proof (cases r)
    case (Inl e)
    with Pair assms(1) show ?thesis by (simp add: seq_op_def stays_def)
  next
    case (Inr x)
    with Pair assms(1) assms(2) [of x s] show ?thesis
      by (auto simp: seq_op_def stays_def)
  qed
qed

lemma stays_send:
  "within_base (re_url (cl_env c)) (cl_base c) u \<Longrightarrow> stays c (send_authenticated (cl_env c) m b u sent) sent"
  by (auto simp: send_authenticated_def stays_def Let_def split: sum.split)

lemma stays_decode [intro]:
  "stays c (decode_json env dec r sent) sent" "stays c (decode_page env dec' r sent) sent"
  by (simp_all add: decode_json_def decode_page_def stays_same)

lemma stays_endpoint:
  assumes "joins_below (re_url (cl_env c)) (cl_base c)" "plain_reference p"
    "\<And>u s. within_base (re_url (cl_env c)) (cl_base c) u \<Longrightarrow> stays c (f u s) s"
  shows "stays c (seq_op (lift_res (endpoint (cl_env c) (cl_base c) p)) f sent) sent"
  using assms by (auto intro!: stays_seq_op simp: lift_res_def endpoint_def joins_below_def)

lemma stays_requests:
  assumes "joins_below (re_url (cl_env c)) (cl_base c)" "plain_reference p"
  shows "stays c (get_json (cl_env c) (cl_base c) dec p q sent) sent"
    "stays c (get_page (cl_env c) (cl_base c) dec' p q sent) sent"
    "stays c (send_json (cl_env c) (cl_base c) dec m p b sent) sent"
    "stays c (delete_at (cl_env c) (cl_base c) p sent) sent"
  unfolding get_json_def get_page_def send_json_def delete_at_def
  by (auto intro!: stays_endpoint [OF assms] stays_seq_op stays_send)

lemma stays_next_page: "stays c (next_page (cl_env c) (cl_base c) dec u sent) sent"
  unfolding next_page_def
  by (auto intro!: stays_seq_op stays_send simp: lift_res_def validate_page_url_ok)

lemma stays_collect: "stays c (collect_loop (cl_env c) (cl_base c) dec k items nxt sent) sent"
proof (induction k arbitrary: items nxt sent)
  case 0
  then show ?case by (cases nxt) auto
next
  case (Suc k)
  show ?case
  proof (cases nxt)
    case (Some u)
    obtain r s where r: "next_page (cl_env c) (cl_base c) dec u sent = (r, s)" by force
    with Some Suc.IH [of _ _ s] stays_next_page [of c dec u sent] show ?thesis
      by (cases r) (fastforce simp: stays_def)+
  qed auto
qed

lemma plain_dir: "d \<noteq> [] \<Longrightarrow> list_all is_alphanumeric d \<Longrightarrow> plain_reference d"
  unfolding plain_reference_def by (metis list.pred_inject(1))

lemma plain_in_dir:
  "d \<noteq> [] \<Longrightarrow> list_all is_alphanumeric d \<Longrightarrow> encodes (re_encode (cl_env c)) \<Longrightarrow> plain_reference (in_dir c d i)"
  unfolding plain_reference_def in_dir_def encodes_def by blast

lemma alnum_dirs:
  "list_all is_alphanumeric ''rooms''" "list_all is_alphanumeric ''messages''"
  "list_all is_alphanumeric ''memberships''" "list_all is_alphanumeric ''webhooks''"
  by code_simp+

lemma plain_pairs: "plain_reference ''people/me''" "plain_reference ''messages/direct''"
proof -
  have "list_all is_alphanumeric ''people''" "list_all encoded_char ''me''" "list_all encoded_char ''direct''"
    by code_simp+
  moreover have "''people/me'' = ''people'' @ ''/'' @ ''me''" "''messages/direct'' = ''messages'' @ ''/'' @ ''direct''"
    by simp_all
  ultimately show "plain_reference ''people/me''" "plain_reference ''messages/direct''"
    unfolding plain_reference_def using alnum_dirs by (metis list.distinct(1))+
qed

lemmas client_ops = me_def list_rooms_page_def get_room_def create_room_call_def update_room_call_def delete_room_def
  list_messages_page_def list_direct_messages_page_def get_message_def create_message_call_def reply_text_call_def
  update_message_call_def delete_message_def list_memberships_page_def get_membership_def create_membership_call_def
  update_membership_call_def delete_membership_def list_webhooks_page_def get_webhook_def create_webhook_call_def
  update_webhook_call_def delete_webhook_def

lemma stays_call:
  assumes "joins_below (re_url (cl_env c)) (cl_base c)" "encodes (re_encode (cl_env c))"
  shows "\<exists>more. run_client_call c call sent = sent @ more \<and>
    (\<forall>rq\<in>set more. within_base (re_url (cl_env c)) (cl_base c) (rq_url rq))"
proof -
  note plain = plain_pairs plain_dir [OF _ alnum_dirs(1)] plain_dir [OF _ alnum_dirs(2)]
    plain_dir [OF _ alnum_dirs(3)] plain_dir [OF _ alnum_dirs(4)]
    plain_in_dir [OF _ alnum_dirs(1) assms(2)] plain_in_dir [OF _ alnum_dirs(2) assms(2)]
    plain_in_dir [OF _ alnum_dirs(3) assms(2)] plain_in_dir [OF _ alnum_dirs(4) assms(2)]
  note requests = stays_requests [OF assms(1)]
  have upload: "stays c (create_message_with_file c m f sent) sent" for m f
    unfolding create_message_with_file_def
    by (intro stays_seq_op) (auto simp: lift_res_def intro: requests plain)
  show ?thesis
  proof (cases call)
    case (CallCollectAll n pg)
    then show ?thesis using stays_collect by (simp add: stays_def collect_all_def)
  next
    case (CallNextPage u)
    then show ?thesis using stays_next_page by (simp add: stays_def)
  next
    case (CallCreateWithFile m f)
    then show ?thesis using upload by (simp add: stays_def)
  qed (simp_all add: client_ops, (rule requests [unfolded stays_def], simp add: plain)+)
qed

subsection \<open>All pages of a listing\<close>

text \<open>
  A service that holds the pages \<open>ps\<close>: the address a page names leads to the next one, whose
  response names its successor in a \<open>Link\<close> header.
\<close>

definition page_headers :: "'a page \<Rightarrow> headers" where
  "page_headers p = (case pg_next p of Some u \<Rightarrow> [(''link'', link_text (u, ''next''))] | None \<Rightarrow> [])"

definition answers_page :: "'a list decoder \<Rightarrow> 'a page \<Rightarrow> response res \<Rightarrow> bool" where
  "answers_page dec p a \<longleftrightarrow> (\<exists>r. a = Inr r \<and> is_success (rs_status r) \<and> dec r = Inr (pg_items p) \<and>
     rs_headers r = page_headers p)"

definition serves :: "client \<Rightarrow> 'a list decoder \<Rightarrow> 'a page list \<Rightarrow> bool" where
  "serves c dec ps \<longleftrightarrow>
     (\<forall>n. \<exists>t. re_token (cl_env c) n = Inr t) \<and>
     (\<forall>i u. Suc i < length ps \<longrightarrow> pg_next (ps ! i) = Some u \<longrightarrow>
        link_word u \<and> ul_parse (re_url (cl_env c)) u = Inr u \<and>
        within_base (re_url (cl_env c)) (cl_base c) u \<and>
        (\<forall>n t. answers_page dec (ps ! Suc i)
           (re_answer (cl_env c) n \<lparr>rq_method = GET, rq_url = u, rq_token = t, rq_payload = NoPayload\<rparr>)))"

lemma next_link_page:
  assumes "\<forall>u. pg_next p = Some u \<longrightarrow> link_word u \<and> parse u = Inr u"
  shows "next_link parse (page_headers p) = pg_next p"
proof (cases "pg_next p")
  case (Some u)
  have word: "link_word ''next''" by code_simp
  with Some assms have u: "link_word u" "parse u = Inr u" "link_ok (u, ''next'')" by (simp_all add: link_ok_def)
  have "hdr_to_str (link_text (u, ''next'')) = Some (link_text (u, ''next''))"
    using u(1) by (auto simp: hdr_to_str_def link_text_def link_word_def list_all_iff visible_def byte_def)
  moreover have "to_ascii_lowercase ''link'' = ''link''" "eq_ignore_ascii_case ''next'' ''next''" by code_simp+
  moreover have "parse_next_link parse (link_text (u, ''next'')) = Some u"
    using next_in_links [of "[(u, ''next'')]" "[]" parse] u \<open>eq_ignore_ascii_case ''next'' ''next''\<close>
    by (simp add: parse_next_link_def first_next_def)
  ultimately show ?thesis using Some by (simp add: page_headers_def next_link_def hdr_get_def)
qed (simp add: page_headers_def next_link_def hdr_get_def)

lemma next_page_served:
  assumes "serves c dec ps" "feed_ok ps" "Suc i < length ps" "pg_next (ps ! i) = Some u"
  shows "\<exists>rq. next_page (cl_env c) (cl_base c) dec u sent = (Inr (ps ! Suc i), sent @ [rq]) \<and> rq_url rq = u"
proof -
  obtain t where t: "re_token (cl_env c) (length sent) = Inr t" using assms(1) by (meson serves_def)
  have u: "within_base (re_url (cl_env c)) (cl_base c) u" "answers_page dec (ps ! Suc i) (re_answer (cl_env c) (length sent)
      \<lparr>rq_method = GET, rq_url = u, rq_token = t, rq_payload = NoPayload\<rparr>)"
    using assms(1,3,4) by (auto simp: serves_def)
  have "next_link (ul_parse (re_url (cl_env c))) (page_headers (ps ! Suc i)) = pg_next (ps ! Suc i)"
  proof (rule next_link_page, intro allI impI)
    fix v assume v: "pg_next (ps ! Suc i) = Some v"
    with feed_ok_next [OF assms(2,3)] assms(3) have "Suc (Suc i) < length ps" by fastforce
    with assms(1,3) v show "link_word v \<and> ul_parse (re_url (cl_env c)) v = Inr v" by (simp add: serves_def)
  qed
  with t u show ?thesis
    by (auto simp: next_page_def seq_op_def lift_res_def validate_page_url_ok send_authenticated_def decode_page_def
        answers_page_def validate_page_url_def within_base_def is_same_or_child_path_def)
qed

lemma drop_last: "Suc i = length ps \<Longrightarrow> drop i ps = [ps ! i]"
  by (metis Cons_nth_drop_Suc drop_all lessI order_refl)

lemma collect_loop_served:
  assumes "serves c dec ps" "feed_ok ps" "i < length ps" "length ps \<le> Suc (i + k)"
  shows "\<exists>more. collect_loop (cl_env c) (cl_base c) dec k items (pg_next (ps ! i)) sent =
      (Some (Inr (items @ concat (map pg_items (drop (Suc i) ps)))), sent @ more) \<and>
    map (\<lambda>rq. Some (rq_url rq)) more = butlast (map pg_next (drop i ps))"
  using assms(3,4)
proof (induction k arbitrary: i items sent)
  case 0
  then have "Suc i = length ps" by simp
  with 0 feed_ok_next [OF assms(2)] have "pg_next (ps ! i) = None" by blast
  with \<open>Suc i = length ps\<close> show ?case by (simp add: drop_last)
next
  case (Suc k)
  show ?case
  proof (cases "pg_next (ps ! i)")
    case None
    with Suc.prems feed_ok_next [OF assms(2)] have "Suc i = length ps" by blast
    with None show ?thesis by (simp add: drop_last)
  next
    case (Some u)
    with Suc.prems feed_ok_next [OF assms(2)] have i: "Suc i < length ps" by fastforce
    from next_page_served [OF assms(1,2) i Some] obtain rq where
      rq: "next_page (cl_env c) (cl_base c) dec u sent = (Inr (ps ! Suc i), sent @ [rq])" "rq_url rq = u" by blast
    from Suc.IH [OF i, of "items @ pg_items (ps ! Suc i)" "sent @ [rq]"] Suc.prems obtain more where
      more: "collect_loop (cl_env c) (cl_base c) dec k (items @ pg_items (ps ! Suc i)) (pg_next (ps ! Suc i)) (sent @ [rq]) =
        (Some (Inr ((items @ pg_items (ps ! Suc i)) @ concat (map pg_items (drop (Suc (Suc i)) ps)))), (sent @ [rq]) @ more)"
      "map (\<lambda>rq. Some (rq_url rq)) more = butlast (map pg_next (drop (Suc i) ps))" by auto
    have "drop i ps = ps ! i # drop (Suc i) ps" "drop (Suc i) ps = ps ! Suc i # drop (Suc (Suc i)) ps"
      using i by (simp_all add: Cons_nth_drop_Suc)
    with rq more Some show ?thesis by (intro exI [of _ "rq # more"]) simp
  qed
qed

subsection \<open>Concrete clients\<close>

text \<open>The encoder escapes all but letters and digits.\<close>

definition demo_encode :: "string \<Rightarrow> string" where
  "demo_encode s = concat (map (\<lambda>c. if is_alphanumeric c then [c]
     else [CHR ''%'', hex_digit (byte c div 16), hex_digit (byte c mod 16)]) s)"

definition demo_rest :: rest_env where
  "demo_rest = \<lparr>re_url = demo_urls, re_encode = demo_encode,
     re_http = \<lparr>canonical_reason = \<lambda>_. None, http_date = \<lambda>_. None, parse_json = \<lambda>_. None\<rparr>, re_now = \<lambda>_. 0,
     re_token = \<lambda>_. Inr ''t'', re_answer = \<lambda>n rq.
       Inr \<lparr>rs_status = 200, rs_headers = (if rq_url rq = ''h/v1/p'' then [] else [(''link'', link_text (''h/v1/p'', ''next''))]),
         rs_text = Some ''{}''\<rparr>,
     re_open = \<lambda>_. Inr \<lparr>of_is_file = True, of_len = 2, of_content = Inr ''ab''\<rparr>, re_mime = \<lambda>_. None\<rparr>"

definition demo_client :: client where
  "demo_client = \<lparr>cl_env = demo_rest, cl_dec = \<lparr>dc_person = \<lambda>_. Inl MissingToken, dc_room = \<lambda>_. Inl MissingToken,
     dc_rooms = \<lambda>_. Inl MissingToken, dc_message = \<lambda>_. Inl MissingToken, dc_messages = \<lambda>_. Inr [],
     dc_membership = \<lambda>_. Inl MissingToken, dc_memberships = \<lambda>_. Inl MissingToken, dc_webhook = \<lambda>_. Inl MissingToken,
     dc_webhooks = \<lambda>_. Inl MissingToken\<rparr>, cl_base = ''h/v1/''\<rparr>"

lemma demo_joins: "joins_below demo_urls ''h/v1/''"
  by (auto simp: joins_below_def within_base_def demo_urls_def starts_with_def)

lemma hex_digit_alphanumeric: "n < 16 \<Longrightarrow> is_alphanumeric (hex_digit n)"
  by (auto simp: is_alphanumeric_def is_digit_def hex_digit_def byte_char_of)

lemma demo_encodes: "encodes demo_encode"
proof -
  have "list_all encoded_char (if is_alphanumeric c then [c]
      else [CHR ''%'', hex_digit (byte c div 16), hex_digit (byte c mod 16)])" for c
    using byte_lt [of c] hex_digit_alphanumeric by (simp add: encoded_char_def)
  then have "list_all encoded_char (demo_encode s)" for s
    unfolding demo_encode_def by (induction s) auto
  then show ?thesis by (simp add: encodes_def)
qed

subsection \<open>Properties\<close>

text \<open>
  The bearer token stays at home: whatever the service answers, and whatever page addresses
  its responses or the caller name, every request of any sequence of calls goes to the scheme,
  host and port of the base address, and to a path below its path.
\<close>

theorem token_stays_home:
  assumes "joins_below (re_url (cl_env c)) (cl_base c)" "encodes (re_encode (cl_env c))"
    "rq \<in> set (fold (run_client_call c) calls [])"
  shows "within_base (re_url (cl_env c)) (cl_base c) (rq_url rq)"
proof -
  have "\<forall>rq\<in>set (fold (run_client_call c) calls sent). within_base (re_url (cl_env c)) (cl_base c) (rq_url rq)"
    if "\<forall>rq\<in>set sent. within_base (re_url (cl_env c)) (cl_base c) (rq_url rq)" for sent
    using that
  proof (induction calls arbitrary: sent)
    case (Cons call calls)
    obtain more where "run_client_call c call sent = sent @ more"
      "\<forall>rq\<in>set more. within_base (re_url (cl_env c)) (cl_base c) (rq_url rq)"
      using stays_call [OF assms(1,2)] by blast
    with Cons.prems Cons.IH [of "sent @ more"] show ?case by auto
  qed simp
  from this [of "[]"] assms(3) show ?thesis by auto
qed

lemma token_stays_home_witness:
  "\<exists>rq\<in>set (fold (run_client_call demo_client) [CallNextPage ''evil/v1/'', CallDeleteMessage ''../x''] []).
     within_base demo_urls ''h/v1/'' (rq_url rq)"
proof -
  let ?rq = "\<lparr>rq_method = DELETE, rq_url = ''h/v1/messages/%2E%2E%2Fx'', rq_token = ''t'', rq_payload = NoPayload\<rparr>"
  have enc: "demo_encode ''../x'' = ''%2E%2E%2Fx''" by code_simp
  have "?rq \<in> set (fold (run_client_call demo_client) [CallNextPage ''evil/v1/'', CallDeleteMessage ''../x''] [])"
    by (simp add: demo_client_def demo_rest_def delete_message_def delete_at_def next_page_def seq_op_def lift_res_def
        endpoint_def send_authenticated_def in_dir_def validate_page_url_def is_same_or_child_path_def enc demo_urls_def
        starts_with_def)
  from token_stays_home [OF _ _ this] this demo_joins demo_encodes show ?thesis
    by (intro bexI [of _ ?rq]) (simp_all add: demo_client_def demo_rest_def)
qed

text \<open>
  C25. A listing is collected completely: from a service that holds some pages, each naming the
  next one in its \<open>Link\<close> header, \<open>collect_all\<close> returns the items of all pages in their order,
  and asks once for every page after the first.
\<close>

theorem collect_all_collects:
  assumes "feed_ok ps" "serves c dec ps" "length ps \<le> Suc k"
  shows "\<exists>more. collect_all (cl_env c) (cl_base c) dec k (hd ps) sent =
      (Some (Inr (concat (map pg_items ps))), sent @ more) \<and>
    map (\<lambda>rq. Some (rq_url rq)) more = butlast (map pg_next ps)"
proof -
  have ps: "ps \<noteq> []" "hd ps = ps ! 0" "0 < length ps" using assms(1) by (auto simp: feed_ok_def hd_conv_nth)
  then have "concat (map pg_items ps) = pg_items (ps ! 0) @ concat (map pg_items (drop (Suc 0) ps))"
    by (metis Cons_nth_drop_Suc concat.simps(2) drop0 list.map(2))
  with collect_loop_served [OF assms(2,1) ps(3), of k "pg_items (ps ! 0)" sent] assms(3) ps(2) show ?thesis
    by (simp add: collect_all_def)
qed

definition demo_pages :: "nat page list" where
  "demo_pages = [\<lparr>pg_items = [1, 2], pg_next = Some ''h/v1/p''\<rparr>, \<lparr>pg_items = [2], pg_next = None\<rparr>]"

lemma collect_all_collects_witness:
  "\<exists>sent. collect_all demo_rest ''h/v1/'' (\<lambda>_. Inr [2]) 1 (hd demo_pages) [] = (Some (Inr [1, 2, 2]), sent)"
proof -
  have ok: "feed_ok demo_pages" by (simp add: feed_ok_def demo_pages_def)
  have "link_word ''h/v1/p''" by code_simp
  then have "serves demo_client (\<lambda>_. Inr [2]) demo_pages"
    by (auto simp: serves_def demo_pages_def demo_client_def demo_rest_def answers_page_def page_headers_def is_success_def
        within_base_def demo_urls_def starts_with_def less_Suc_eq)
  from collect_all_collects [OF ok this, of 1 "[]"] show ?thesis
    by (auto simp: demo_client_def demo_pages_def)
qed

lemma limited_Inr:
  "read_limited_local_attachment content n = Inr bytes \<Longrightarrow> content = Inr bytes \<and> length bytes \<le> n"
  by (auto simp: read_limited_local_attachment_def and_then_Inr_iff Let_def min_def split: if_splits)

lemma multipart_Inr:
  assumes "message_multipart_form env m file = Inr form"
  shows "cm_files m = [] \<and> cm_attachments m = [] \<and> length (mp_bytes form) \<le> MAX_LOCAL_FILE_UPLOAD_BYTES \<and>
    mp_file_name form \<noteq> [] \<and> CR \<notin> set (mp_file_name form) \<and> LF \<notin> set (mp_file_name form) \<and>
    re_mime env (mp_media_type form) = None \<and> mp_texts form = message_texts m \<and>
    (\<exists>f. re_open env (lf_path file) = Inr f \<and> of_is_file f \<and> of_content f = Inr (mp_bytes form))"
proof -
  let ?name = "case or_else (lf_file_name file) (Option.bind (path_file_name (lf_path file)) utf8_name) of
      Some n \<Rightarrow> if n = [] then Inl (Other ''local file attachment requires a UTF-8 file name'') else Inr n
    | None \<Rightarrow> Inl (Other ''local file attachment requires a UTF-8 file name'')"
  have name: "?name = Inr n \<Longrightarrow> n \<noteq> []" for n by (auto split: option.splits if_splits)
  from assms obtain n f where form: "cm_files m = []" "cm_attachments m = []" "?name = Inr n"
    "reject_unsafe_local_file_name n = Inr (mp_file_name form)"
    "validate_local_attachment_media_type env (mp_media_type form) = Inr ()" "mp_texts form = message_texts m"
    "re_open env (lf_path file) = Inr f" "of_is_file f"
    "read_limited_local_attachment (of_content f) MAX_LOCAL_FILE_UPLOAD_BYTES = Inr (mp_bytes form)"
    unfolding message_multipart_form_def Let_def by (auto simp: and_then_Inr_iff split: if_splits)
  have "mp_file_name form = n \<and> CR \<notin> set n \<and> LF \<notin> set n"
    using form(4) by (simp add: reject_unsafe_local_file_name_def split: if_splits)
  moreover have "re_mime env (mp_media_type form) = None"
    using form(5) by (simp add: validate_local_attachment_media_type_def split: option.splits)
  ultimately show ?thesis using form(1,2,6,7,8) name [OF form(3)] limited_Inr [OF form(9)] by blast
qed

text \<open>
  An upload is checked before anything is sent: when \<open>create_message_with_file\<close> sends
  something, it is one post, its file is a regular file that was read completely and has at most
  100 MB, and its name is not empty and cannot break the header of its part.
\<close>

theorem upload_is_checked:
  assumes "create_message_with_file c m file sent = (r, s)" "s \<noteq> sent"
  shows "\<exists>rq form. s = sent @ [rq] \<and> rq_method rq = POST \<and> rq_payload rq = FormBody form \<and>
    cm_files m = [] \<and> cm_attachments m = [] \<and> length (mp_bytes form) \<le> MAX_LOCAL_FILE_UPLOAD_BYTES \<and>
    mp_file_name form \<noteq> [] \<and> CR \<notin> set (mp_file_name form) \<and> LF \<notin> set (mp_file_name form) \<and>
    (\<exists>f. re_open (cl_env c) (lf_path file) = Inr f \<and> of_is_file f \<and> of_content f = Inr (mp_bytes form))"
proof (cases "message_multipart_form (cl_env c) m file")
  case (Inr form)
  then have "\<exists>rq. s = sent @ [rq] \<and> rq_method rq = POST \<and> rq_payload rq = FormBody form"
    using assms by (auto simp: create_message_with_file_def lift_res_def send_json_def seq_op_def send_authenticated_def
        decode_json_def Let_def split: sum.splits prod.splits)
  with multipart_Inr [OF Inr] show ?thesis by blast
next
  case (Inl e)
  with assms show ?thesis by (simp add: create_message_with_file_def lift_res_def seq_op_def)
qed

lemma upload_is_checked_witness:
  "\<exists>rq form. snd (create_message_with_file demo_client create_message_default (attachment_new ''dir/a.txt'') []) = [rq] \<and>
     rq_payload rq = FormBody form \<and> length (mp_bytes form) \<le> MAX_LOCAL_FILE_UPLOAD_BYTES"
proof -
  have name: "Option.bind (path_file_name ''dir/a.txt'') utf8_name = Some ''a.txt''" by code_simp
  have "CR \<notin> set ''a.txt''" "LF \<notin> set ''a.txt''" by (simp_all add: CR_def LF_def)
  then obtain form where "message_multipart_form demo_rest create_message_default (attachment_new ''dir/a.txt'') = Inr form"
    by (simp add: message_multipart_form_def create_message_default_def reject_unsafe_local_file_name_def name
        validate_local_attachment_media_type_def demo_rest_def attachment_new_def Let_def read_limited_local_attachment_def)
  moreover have "cl_env demo_client = demo_rest" "ul_join (re_url demo_rest) (cl_base demo_client) ''messages'' = Inr ''h/v1/messages''"
    "re_token demo_rest 0 = Inr ''t''" "\<exists>r. re_answer demo_rest 0 rq = Inr r" for rq
    by (simp_all add: demo_client_def demo_rest_def demo_urls_def)
  ultimately obtain r rq where c: "create_message_with_file demo_client create_message_default (attachment_new ''dir/a.txt'') [] = (r, [rq])"
    by (fastforce simp: create_message_with_file_def lift_res_def seq_op_def send_json_def endpoint_def
        send_authenticated_def decode_json_def Let_def split: sum.splits)
  from upload_is_checked [OF c] c show ?thesis by auto
qed

end
