(* ===== verification/Auth.thy ===== *)
theory Auth imports Links begin

text \<open>
  OAuth (\<open>src/auth.rs\<close>): the configuration and its requests, the tokens the service grants, the
  device flow's answers, and the provider that refreshes a token shortly before it expires.
\<close>

subsection \<open>Configuration\<close>

record oauth_config =
  oc_client_id :: string
  oc_client_secret :: "string option"
  oc_redirect_uri :: "url option"
  oc_scopes :: "string list"
  oc_base_url :: url

definition default_messaging_scopes :: "string list" where
  "default_messaging_scopes = [''spark:messages_read'', ''spark:messages_write'', ''spark:rooms_read'',
     ''spark:memberships_read'', ''spark:people_read'', ''spark:kms'']"

definition oauth_config_new :: "url_lib \<Rightarrow> string \<Rightarrow> oauth_config res" where
  "oauth_config_new ul i =
     and_then (ul_parse ul ''https://webexapis.com/v1/'') (\<lambda>base.
       Inr \<lparr>oc_client_id = i, oc_client_secret = None, oc_redirect_uri = None,
         oc_scopes = default_messaging_scopes, oc_base_url = base\<rparr>)"

definition with_client_secret :: "string \<Rightarrow> oauth_config \<Rightarrow> oauth_config" where
  "with_client_secret s c = c\<lparr>oc_client_secret := Some s\<rparr>"

definition with_redirect_uri :: "url \<Rightarrow> oauth_config \<Rightarrow> oauth_config" where
  "with_redirect_uri u c = c\<lparr>oc_redirect_uri := Some u\<rparr>"

definition with_base_url :: "url_lib \<Rightarrow> url \<Rightarrow> oauth_config \<Rightarrow> oauth_config" where
  "with_base_url ul u c = c\<lparr>oc_base_url := ensure_directory_url ul u\<rparr>"

definition with_scopes :: "string list \<Rightarrow> oauth_config \<Rightarrow> oauth_config" where
  "with_scopes ss c = c\<lparr>oc_scopes := ss\<rparr>"

definition scope_string :: "oauth_config \<Rightarrow> string" where
  "scope_string c = join_with '' '' (oc_scopes c)"

definition oauth_config_debug :: "oauth_config \<Rightarrow> debug_struct" where
  "oauth_config_debug c = (''OAuthConfig'',
     [(''client_id'', DbgStr (oc_client_id c)), (''client_secret'', dbg_opt redacted (oc_client_secret c)),
      (''redirect_uri'', dbg_opt DbgStr (oc_redirect_uri c)), (''scopes'', DbgList (map DbgStr (oc_scopes c))),
      (''base_url'', DbgStr (oc_base_url c))])"

subsection \<open>Tokens\<close>

record token_set =
  ts_access_token :: string
  ts_refresh_token :: "string option"
  ts_token_type :: string
  ts_scopes :: "string list"
  ts_expires_at :: "time option"
  ts_refresh_token_expires_at :: "time option"

definition token_set_debug :: "token_set \<Rightarrow> debug_struct" where
  "token_set_debug t = (''TokenSet'',
     [(''access_token'', redacted (ts_access_token t)), (''refresh_token'', dbg_opt redacted (ts_refresh_token t)),
      (''token_type'', DbgStr (ts_token_type t)), (''scopes'', DbgList (map DbgStr (ts_scopes t))),
      (''expires_at'', dbg_opt DbgTime (ts_expires_at t)),
      (''refresh_token_expires_at'', dbg_opt DbgTime (ts_refresh_token_expires_at t))])"

definition is_expiring_within :: "time \<Rightarrow> duration \<Rightarrow> token_set \<Rightarrow> bool" where
  "is_expiring_within now skew t = (case ts_expires_at t of None \<Rightarrow> False | Some e \<Rightarrow> e \<le> now + int skew)"

text \<open>A granted token as the JSON crate reads it; the defaults of absent fields are filled in.\<close>

record token_response =
  tr_access_token :: string
  tr_refresh_token :: "string option"
  tr_token_type :: string
  tr_scope :: string
  tr_expires_in :: "int option"
  tr_refresh_token_expires_in :: "int option"

text \<open>
  \<open>add now n\<close> is chrono's sum of a time and \<open>n\<close> seconds; \<open>None\<close>: it is out of chrono's
  range, and the task panics.
\<close>

definition later_by :: "(time \<Rightarrow> int \<Rightarrow> time option) \<Rightarrow> time \<Rightarrow> int option \<Rightarrow> time option option" where
  "later_by add now n = (case n of None \<Rightarrow> Some None | Some s \<Rightarrow> map_option Some (add now s))"

definition into_token_set :: "(time \<Rightarrow> int \<Rightarrow> time option) \<Rightarrow> time \<Rightarrow> token_response \<Rightarrow> token_set option" where
  "into_token_set add now r =
     (case (later_by add now (tr_expires_in r), later_by add now (tr_refresh_token_expires_in r)) of
        (Some e, Some re) \<Rightarrow>
          Some \<lparr>ts_access_token = tr_access_token r, ts_refresh_token = tr_refresh_token r,
            ts_token_type = tr_token_type r, ts_scopes = split_whitespace (tr_scope r),
            ts_expires_at = e, ts_refresh_token_expires_at = re\<rparr>
      | _ \<Rightarrow> None)"

record device_authorization =
  da_device_code :: string
  da_user_code :: string
  da_verification_uri :: string
  da_verification_uri_complete :: "string option"
  da_expires_in :: nat
  da_interval :: "nat option"

datatype device_token_status =
    DevicePending "duration option"
  | DeviceSlowDown "duration option"
  | DeviceAuthorized token_set

datatype pkce_method = PkcePlain | PkceS256

fun pkce_as_str :: "pkce_method \<Rightarrow> string" where
  "pkce_as_str PkcePlain = ''plain''"
| "pkce_as_str PkceS256 = ''S256''"

subsection \<open>Requests\<close>

record oauth_request =
  oq_url :: url
  oq_basic_auth :: "(string \<times> string) option"
  oq_form :: "(string \<times> string) list"

text \<open>The service answers the \<open>n\<close>th request; the decoders are the JSON crate's.\<close>

record oauth_env =
  oe_url :: url_lib
  oe_http :: http_env
  oe_add :: "time \<Rightarrow> int \<Rightarrow> time option"
  oe_now :: "nat \<Rightarrow> time"
  oe_answer :: "nat \<Rightarrow> oauth_request \<Rightarrow> response res"
  oe_token :: "response \<Rightarrow> token_response res"
  oe_device :: "response \<Rightarrow> device_authorization res"

definition oauth_endpoint :: "oauth_env \<Rightarrow> oauth_config \<Rightarrow> string \<Rightarrow> url res" where
  "oauth_endpoint env c p = ul_join (oe_url env) (ensure_directory_url (oe_url env) (oc_base_url c)) p"

definition build_authorization_url ::
    "oauth_env \<Rightarrow> oauth_config \<Rightarrow> string \<Rightarrow> (string \<times> pkce_method) option \<Rightarrow> url res" where
  "build_authorization_url env c st pkce =
     and_then (oauth_endpoint env c ''authorize'') (\<lambda>u.
       Inr (fold (\<lambda>(k, v) u. ul_append_pair (oe_url env) k v u)
         ([(''response_type'', ''code''), (''client_id'', oc_client_id c), (''scope'', scope_string c), (''state'', st)] @
          (case oc_redirect_uri c of Some r \<Rightarrow> [(''redirect_uri'', r)] | None \<Rightarrow> []) @
          (case pkce of Some (ch, m) \<Rightarrow> [(''code_challenge'', ch), (''code_challenge_method'', pkce_as_str m)]
           | None \<Rightarrow> [])) u))"

definition authorization_code_form ::
    "oauth_config \<Rightarrow> string \<Rightarrow> string option \<Rightarrow> (string \<times> string) list res" where
  "authorization_code_form c code verifier =
     (case oc_client_secret c of
        None \<Rightarrow> Inl (Other ''client_secret is required for Webex authorization code exchange'')
      | Some s \<Rightarrow>
          Inr ([(''grant_type'', ''authorization_code''), (''client_id'', oc_client_id c), (''code'', code),
              (''client_secret'', s)] @
            (case oc_redirect_uri c of Some r \<Rightarrow> [(''redirect_uri'', r)] | None \<Rightarrow> []) @
            (case verifier of Some v \<Rightarrow> [(''code_verifier'', v)] | None \<Rightarrow> [])))"

definition refresh_form :: "oauth_config \<Rightarrow> string \<Rightarrow> (string \<times> string) list res" where
  "refresh_form c rt =
     (case oc_client_secret c of
        None \<Rightarrow> Inl (Other ''client_secret is required for Webex token refresh'')
      | Some s \<Rightarrow> Inr [(''grant_type'', ''refresh_token''), (''client_id'', oc_client_id c),
          (''refresh_token'', rt), (''client_secret'', s)])"

definition decode_response :: "oauth_env \<Rightarrow> time \<Rightarrow> (response \<Rightarrow> 'a res) \<Rightarrow> response \<Rightarrow> 'a res" where
  "decode_response env now dec r =
     (if is_success (rs_status r) then dec r
      else if rs_status r = 428 then Inl (Api (pending_from_response (oe_http env) now r))
      else Inl (Api (from_response (oe_http env) now r)))"

text \<open>An answer is \<open>None\<close> when the task panics.\<close>

type_synonym oauth_sent = "oauth_request list"

definition post_form ::
    "oauth_env \<Rightarrow> (string \<times> string) option \<Rightarrow> url \<Rightarrow> (string \<times> string) list \<Rightarrow> oauth_sent \<Rightarrow> response res \<times> oauth_sent" where
  "post_form env auth u form sent =
     (let rq = \<lparr>oq_url = u, oq_basic_auth = auth, oq_form = form\<rparr> in
      (oe_answer env (length sent) rq, sent @ [rq]))"

definition grant_token :: "oauth_env \<Rightarrow> time \<Rightarrow> response \<Rightarrow> token_set res option" where
  "grant_token env now r =
     (case decode_response env now (oe_token env) r of
        Inl e \<Rightarrow> Some (Inl e)
      | Inr t \<Rightarrow> map_option Inr (into_token_set (oe_add env) now t))"

definition post_token_form ::
    "oauth_env \<Rightarrow> oauth_config \<Rightarrow> string \<Rightarrow> (string \<times> string) list \<Rightarrow> oauth_sent \<Rightarrow> token_set res option \<times> oauth_sent" where
  "post_token_form env c p form sent =
     (case oauth_endpoint env c p of
        Inl e \<Rightarrow> (Some (Inl e), sent)
      | Inr u \<Rightarrow>
          (case post_form env None u form sent of
             (Inl e, sent) \<Rightarrow> (Some (Inl e), sent)
           | (Inr r, sent) \<Rightarrow> (grant_token env (oe_now env (length sent)) r, sent)))"

definition exchange_authorization_code ::
    "oauth_env \<Rightarrow> oauth_config \<Rightarrow> string \<Rightarrow> string option \<Rightarrow> oauth_sent \<Rightarrow> token_set res option \<times> oauth_sent" where
  "exchange_authorization_code env c code verifier sent =
     (case authorization_code_form c code verifier of
        Inl e \<Rightarrow> (Some (Inl e), sent)
      | Inr form \<Rightarrow> post_token_form env c ''access_token'' form sent)"

definition refresh_token ::
    "oauth_env \<Rightarrow> oauth_config \<Rightarrow> string \<Rightarrow> oauth_sent \<Rightarrow> token_set res option \<times> oauth_sent" where
  "refresh_token env c rt sent =
     (case refresh_form c rt of
        Inl e \<Rightarrow> (Some (Inl e), sent)
      | Inr form \<Rightarrow> post_token_form env c ''access_token'' form sent)"

subsection \<open>The device flow\<close>

definition start_device_authorization ::
    "oauth_env \<Rightarrow> oauth_config \<Rightarrow> oauth_sent \<Rightarrow> device_authorization res \<times> oauth_sent" where
  "start_device_authorization env c sent =
     (case oauth_endpoint env c ''device/authorize'' of
        Inl e \<Rightarrow> (Inl e, sent)
      | Inr u \<Rightarrow>
          (case post_form env None u [(''client_id'', oc_client_id c), (''scope'', scope_string c)] sent of
             (Inl e, sent) \<Rightarrow> (Inl e, sent)
           | (Inr r, sent) \<Rightarrow> (decode_response env (oe_now env (length sent)) (oe_device env) r, sent)))"

definition normalize_device_oauth_error_code :: "string \<Rightarrow> string option" where
  "normalize_device_oauth_error_code v =
     (let n = to_ascii_lowercase (trim v) in
      if n = ''authorization_pending'' \<or> contains_text n ''authorization_pending'' then Some ''authorization_pending''
      else if n = ''slow_down'' \<or> contains_text n ''slow_down'' then Some ''slow_down''
      else None)"

definition oauth_error_code :: "json \<Rightarrow> string option" where
  "oauth_error_code v = find_map normalize_device_oauth_error_code
     (List.map_filter id [str_field ''error'' v, str_field ''errorCode'' v, str_field ''code'' v, str_field ''message'' v,
        str_at [''errors'', ''0'', ''code''] v, str_at [''errors'', ''0'', ''message''] v,
        str_at [''errors'', ''0'', ''description''] v])"

definition decode_device_token_bad_request :: "oauth_env \<Rightarrow> time \<Rightarrow> response \<Rightarrow> device_token_status res" where
  "decode_device_token_bad_request env now r =
     (let body = parse_json (oe_http env) (body_text r);
          code = Option.bind body oauth_error_code;
          wait = parse_retry_after (http_date (oe_http env)) now (rs_headers r) in
      if code = Some ''authorization_pending'' then Inr (DevicePending wait)
      else if code = Some ''slow_down'' then Inr (DeviceSlowDown wait)
      else Inl (Api (from_status_body (oe_http env) now (rs_status r) (rs_headers r) body)))"

definition poll_device_token ::
    "oauth_env \<Rightarrow> oauth_config \<Rightarrow> string \<Rightarrow> oauth_sent \<Rightarrow> device_token_status res option \<times> oauth_sent" where
  "poll_device_token env c code sent =
     (case oc_client_secret c of
        None \<Rightarrow> (Some (Inl (Other ''client_secret is required for Webex Device Token polling'')), sent)
      | Some secret \<Rightarrow>
          (case oauth_endpoint env c ''device/token'' of
             Inl e \<Rightarrow> (Some (Inl e), sent)
           | Inr u \<Rightarrow>
               (case post_form env (Some (oc_client_id c, secret)) u
                   [(''grant_type'', ''urn:ietf:params:oauth:grant-type:device_code''), (''device_code'', code),
                    (''client_id'', oc_client_id c)] sent of
                  (Inl e, sent) \<Rightarrow> (Some (Inl e), sent)
                | (Inr r, sent) \<Rightarrow>
                    (let now = oe_now env (length sent) in
                     (if rs_status r = 428 then
                        Some (Inr (DevicePending (parse_retry_after (http_date (oe_http env)) now (rs_headers r))))
                      else if rs_status r = 400 then Some (decode_device_token_bad_request env now r)
                      else (case grant_token env now r of
                          None \<Rightarrow> None
                        | Some (Inl e) \<Rightarrow> Some (Inl e)
                        | Some (Inr t) \<Rightarrow> Some (Inr (DeviceAuthorized t))),
                      sent)))))"

end
