(* ===== verification/TokenProvider.thy ===== *)
theory TokenProvider imports Auth begin

text \<open>
  \<open>RefreshingTokenProvider\<close> of \<open>src/auth.rs\<close>. Its \<open>access_token\<close> looks at the stored token twice,
  the second time under a lock, so that callers who wait for one refresh do not ask for
  another. A call is a task of its own: its pieces between two waits are the steps here, and
  a task can be dropped at any wait, which frees the lock; a save it is dropped in may have
  got through.
\<close>

subsection \<open>Token stores\<close>

text \<open>
  A store is a state \<open>'s\<close>; \<open>n\<close> is the number of the access, on which a fault may depend. What it
  holds is \<open>view\<close>; a save that fails may have got through or not.
\<close>

locale token_store =
  fixes load :: "nat \<Rightarrow> 's \<Rightarrow> token_set option res"
    and save :: "nat \<Rightarrow> token_set \<Rightarrow> 's \<Rightarrow> unit res \<times> 's"
    and view :: "'s \<Rightarrow> token_set option"
  assumes load_view: "load n s = Inr r \<Longrightarrow> r = view s"
    and save_ok: "save n t s = (Inr (), s') \<Longrightarrow> view s' = Some t"
    and save_failed: "save n t s = (Inl e, s') \<Longrightarrow> view s' \<in> {view s, Some t}"

text \<open>\<open>MemoryTokenStore\<close>.\<close>

type_synonym memory_store = "token_set option"

definition memory_load :: "nat \<Rightarrow> memory_store \<Rightarrow> token_set option res" where
  "memory_load n s = Inr s"

definition memory_save :: "nat \<Rightarrow> token_set \<Rightarrow> memory_store \<Rightarrow> unit res \<times> memory_store" where
  "memory_save n t s = (Inr (), Some t)"

interpretation memory: token_store memory_load memory_save "\<lambda>s. s"
  by unfold_locales (simp_all add: memory_load_def memory_save_def)

subsection \<open>The pieces of a call\<close>

record 's token_provider =
  tp_load :: "nat \<Rightarrow> 's \<Rightarrow> token_set option res"
  tp_save :: "nat \<Rightarrow> token_set \<Rightarrow> 's \<Rightarrow> unit res \<times> 's"
  tp_env :: oauth_env
  tp_config :: oauth_config
  tp_skew :: duration
  tp_now :: "nat \<Rightarrow> time"

text \<open>Looking at the stored token: the call ends, or the token has to be refreshed.\<close>

definition look :: "time \<Rightarrow> duration \<Rightarrow> token_set option res \<Rightarrow> string res + token_set" where
  "look now skew r =
     (case r of
        Inl e \<Rightarrow> Inl (Inl e)
      | Inr None \<Rightarrow> Inl (Inl MissingToken)
      | Inr (Some t) \<Rightarrow> if is_expiring_within now skew t then Inr t else Inl (Inr (ts_access_token t)))"

text \<open>The refresh token stays when the service sends no new one.\<close>

definition keep_refresh_token :: "token_set \<Rightarrow> string \<Rightarrow> token_set \<Rightarrow> token_set" where
  "keep_refresh_token current rt new =
     (if ts_refresh_token new = None
      then new\<lparr>ts_refresh_token := Some rt, ts_refresh_token_expires_at := ts_refresh_token_expires_at current\<rparr>
      else new)"

datatype phase =
    Starting
  | Waiting
  | LookingAgain
  | Refreshing token_set string
  | Answered token_set string "token_set res option"
  | Saving token_set
  | Returned "string res"
  | Aborted

record 's provider_state =
  pv_store :: 's
  pv_holder :: "nat option"
  pv_phase :: "nat \<Rightarrow> phase"
  pv_sent :: oauth_sent
  pv_tick :: nat

definition set_phase :: "nat \<Rightarrow> phase \<Rightarrow> 's provider_state \<Rightarrow> 's provider_state" where
  "set_phase i p st = st\<lparr>pv_phase := (pv_phase st)(i := p), pv_tick := Suc (pv_tick st)\<rparr>"

text \<open>The lock's guard is dropped when the call ends.\<close>

definition leave :: "nat \<Rightarrow> phase \<Rightarrow> 's provider_state \<Rightarrow> 's provider_state" where
  "leave i p st = (set_phase i p st)\<lparr>pv_holder := None\<rparr>"

definition first_look :: "'s token_provider \<Rightarrow> nat \<Rightarrow> 's provider_state \<Rightarrow> 's provider_state" where
  "first_look tp i st =
     (case look (tp_now tp (pv_tick st)) (tp_skew tp) (tp_load tp (pv_tick st) (pv_store st)) of
        Inl r \<Rightarrow> set_phase i (Returned r) st
      | Inr t \<Rightarrow> set_phase i Waiting st)"

definition take_lock :: "nat \<Rightarrow> 's provider_state \<Rightarrow> 's provider_state" where
  "take_lock i st = (set_phase i LookingAgain st)\<lparr>pv_holder := Some i\<rparr>"

definition second_look :: "'s token_provider \<Rightarrow> nat \<Rightarrow> 's provider_state \<Rightarrow> 's provider_state" where
  "second_look tp i st =
     (case look (tp_now tp (pv_tick st)) (tp_skew tp) (tp_load tp (pv_tick st) (pv_store st)) of
        Inl r \<Rightarrow> leave i (Returned r) st
      | Inr t \<Rightarrow>
          (case ts_refresh_token t of
             None \<Rightarrow> leave i (Returned (Inl MissingToken)) st
           | Some rt \<Rightarrow> set_phase i (Refreshing t rt) st))"

definition ask :: "'s token_provider \<Rightarrow> nat \<Rightarrow> token_set \<Rightarrow> string \<Rightarrow> 's provider_state \<Rightarrow> 's provider_state" where
  "ask tp i current rt st =
     (case refresh_token (tp_env tp) (tp_config tp) rt (pv_sent st) of
        (r, s) \<Rightarrow> (set_phase i (Answered current rt r) st)\<lparr>pv_sent := s\<rparr>)"

definition receive ::
    "nat \<Rightarrow> token_set \<Rightarrow> string \<Rightarrow> token_set res option \<Rightarrow> 's provider_state \<Rightarrow> 's provider_state" where
  "receive i current rt r st =
     (case r of
        None \<Rightarrow> leave i Aborted st
      | Some (Inl e) \<Rightarrow> leave i (Returned (Inl e)) st
      | Some (Inr new) \<Rightarrow> set_phase i (Saving (keep_refresh_token current rt new)) st)"

definition store_token :: "'s token_provider \<Rightarrow> nat \<Rightarrow> token_set \<Rightarrow> 's provider_state \<Rightarrow> 's provider_state" where
  "store_token tp i new st =
     (case tp_save tp (pv_tick st) new (pv_store st) of
        (Inl e, s) \<Rightarrow> (leave i (Returned (Inl e)) st)\<lparr>pv_store := s\<rparr>
      | (Inr _, s) \<Rightarrow> (leave i (Returned (Inr (ts_access_token new))) st)\<lparr>pv_store := s\<rparr>)"

definition drop_task :: "nat \<Rightarrow> 's provider_state \<Rightarrow> 's provider_state" where
  "drop_task i st = (if pv_holder st = Some i then leave i Aborted st else set_phase i Aborted st)"

fun running :: "phase \<Rightarrow> bool" where
  "running (Returned r) = False"
| "running Aborted = False"
| "running _ = True"

inductive provider_step :: "'s token_provider \<Rightarrow> 's provider_state \<Rightarrow> 's provider_state \<Rightarrow> bool"
  for tp where
  Look: "pv_phase st i = Starting \<Longrightarrow> provider_step tp st (first_look tp i st)"
| Lock: "pv_phase st i = Waiting \<Longrightarrow> pv_holder st = None \<Longrightarrow> provider_step tp st (take_lock i st)"
| LookAgain: "pv_phase st i = LookingAgain \<Longrightarrow> provider_step tp st (second_look tp i st)"
| Ask: "pv_phase st i = Refreshing current rt \<Longrightarrow> provider_step tp st (ask tp i current rt st)"
| Receive: "pv_phase st i = Answered current rt r \<Longrightarrow> provider_step tp st (receive i current rt r st)"
| Store: "pv_phase st i = Saving new \<Longrightarrow> provider_step tp st (store_token tp i new st)"
| Lose: "pv_phase st i = Saving new \<Longrightarrow>
    provider_step tp st ((drop_task i st)\<lparr>pv_store := snd (tp_save tp (pv_tick st) new (pv_store st))\<rparr>)"
| Drop: "running (pv_phase st i) \<Longrightarrow> provider_step tp st (drop_task i st)"

definition provider_start :: "'s \<Rightarrow> 's provider_state" where
  "provider_start s = \<lparr>pv_store = s, pv_holder = None, pv_phase = \<lambda>i. Starting, pv_sent = [], pv_tick = 0\<rparr>"

inductive provider_run :: "'s token_provider \<Rightarrow> 's provider_state \<Rightarrow> 's provider_state \<Rightarrow> bool"
  for tp where
  run_refl: "provider_run tp st st"
| run_step: "provider_run tp st st' \<Longrightarrow> provider_step tp st' st'' \<Longrightarrow> provider_run tp st st''"

subsection \<open>One call alone\<close>

text \<open>A call that no other one disturbs: its pieces in their order.\<close>

definition access_token :: "'s token_provider \<Rightarrow> nat \<Rightarrow> 's provider_state \<Rightarrow> 's provider_state" where
  "access_token tp i st =
     (let st = first_look tp i st in
      case pv_phase st i of
        Waiting \<Rightarrow>
          (let st = second_look tp i (take_lock i st) in
           case pv_phase st i of
             Refreshing current rt \<Rightarrow>
               (let st = ask tp i current rt st;
                    st = (case pv_phase st i of Answered t rt r \<Rightarrow> receive i t rt r st | _ \<Rightarrow> st) in
                case pv_phase st i of
                  Saving new \<Rightarrow> store_token tp i new st
                | _ \<Rightarrow> st)
           | _ \<Rightarrow> st)
      | _ \<Rightarrow> st)"

end
