(* ===== verification/TokenProps.thy ===== *)
theory TokenProps imports TokenProvider LinksProps begin

text \<open>Refreshing is serial, and never done for a token that has been replaced.\<close>

subsection \<open>The lock\<close>

fun in_lock :: "phase \<Rightarrow> bool" where
  "in_lock LookingAgain = True"
| "in_lock (Refreshing t rt) = True"
| "in_lock (Answered t rt r) = True"
| "in_lock (Saving t) = True"
| "in_lock _ = False"

lemma in_lock_running: "in_lock p \<Longrightarrow> running p"
  by (cases p) simp_all

definition locked_ok :: "'s provider_state \<Rightarrow> bool" where
  "locked_ok st \<longleftrightarrow> (\<forall>i. in_lock (pv_phase st i) \<longrightarrow> pv_holder st = Some i)"

text \<open>What a caller in the lock knows of the stored token while it refreshes it.\<close>

definition found_expiring :: "'s token_provider \<Rightarrow> nat \<Rightarrow> token_set \<Rightarrow> string \<Rightarrow> bool" where
  "found_expiring tp tick t rt \<longleftrightarrow> ts_refresh_token t = Some rt \<and>
     (\<exists>n<tick. is_expiring_within (tp_now tp n) (tp_skew tp) t)"

lemma look_Inr: "look now skew r = Inr t \<longleftrightarrow> r = Inr (Some t) \<and> is_expiring_within now skew t"
  by (auto simp: look_def split: sum.splits option.splits if_splits)

lemma simps_set_phase [simp]:
  "pv_store (set_phase i p st) = pv_store st" "pv_holder (set_phase i p st) = pv_holder st"
  "pv_sent (set_phase i p st) = pv_sent st" "pv_tick (set_phase i p st) = Suc (pv_tick st)"
  "pv_phase (set_phase i p st) = (pv_phase st)(i := p)"
  "pv_store (leave i p st) = pv_store st" "pv_holder (leave i p st) = None"
  "pv_sent (leave i p st) = pv_sent st" "pv_tick (leave i p st) = Suc (pv_tick st)"
  "pv_phase (leave i p st) = (pv_phase st)(i := p)"
  by (simp_all add: set_phase_def leave_def)

locale refreshing_provider = token_store load save view
  for load :: "nat \<Rightarrow> 's \<Rightarrow> token_set option res" and save and view +
  fixes tp :: "'s token_provider"
  assumes provider_load: "tp_load tp = load" and provider_save: "tp_save tp = save"
begin

definition knows :: "'s provider_state \<Rightarrow> bool" where
  "knows st \<longleftrightarrow> (\<forall>i t rt. pv_phase st i = Refreshing t rt \<longrightarrow>
     view (pv_store st) = Some t \<and> found_expiring tp (pv_tick st) t rt)"

definition good_state :: "'s provider_state \<Rightarrow> bool" where
  "good_state st \<longleftrightarrow> locked_ok st \<and> knows st"

lemma found_later: "found_expiring tp n t rt \<Longrightarrow> n \<le> m \<Longrightarrow> found_expiring tp m t rt"
  by (auto simp: found_expiring_def) (meson less_le_trans)

lemma good_move:
  assumes "good_state st" "pv_store st' = pv_store st" "pv_tick st' = Suc (pv_tick st)"
    "pv_phase st' = (pv_phase st)(i := p)" "\<forall>t rt. p \<noteq> Refreshing t rt"
    "pv_holder st' = pv_holder st \<and> (in_lock p \<longrightarrow> pv_holder st = Some i) \<or>
     pv_holder st' = None \<and> \<not> in_lock p \<and> pv_holder st = Some i \<or>
     pv_holder st' = Some i \<and> pv_holder st = None"
  shows "good_state st'"
proof -
  have "locked_ok st'"
    using assms unfolding good_state_def locked_ok_def by auto
  moreover have "knows st'"
    using assms found_later [of "pv_tick st" _ _ "Suc (pv_tick st)"] unfolding good_state_def knows_def by auto
  ultimately show ?thesis by (simp add: good_state_def)
qed

text \<open>Whoever is in the lock is alone there, so the store may change under nobody.\<close>

lemma good_store:
  assumes "good_state st" "in_lock (pv_phase st i)" "pv_tick st' = Suc (pv_tick st)" "\<not> in_lock p"
    "pv_phase st' = (pv_phase st)(i := p)" "pv_holder st' = None"
  shows "good_state st'"
proof -
  have "\<not> in_lock (pv_phase st j)" if "j \<noteq> i" for j
    using assms(1,2) that unfolding good_state_def locked_ok_def by (metis option.inject)
  then have "\<not> in_lock (pv_phase st' j)" for j using assms(4,5) by auto
  then show ?thesis
    unfolding good_state_def locked_ok_def knows_def by (metis in_lock.simps(2))
qed

lemma good_second_look:
  assumes "good_state st" "pv_phase st i = LookingAgain"
  shows "good_state (second_look tp i st)"
proof -
  have holder: "pv_holder st = Some i" using assms by (simp add: good_state_def locked_ok_def)
  show ?thesis
  proof (cases "look (tp_now tp (pv_tick st)) (tp_skew tp) (load (pv_tick st) (pv_store st))")
    case (Inl r)
    with holder assms(1) show ?thesis
      by (intro good_move [OF assms(1), of _ i "Returned r"]) (simp_all add: second_look_def provider_load)
  next
    case (Inr t)
    then have t: "load (pv_tick st) (pv_store st) = Inr (Some t)"
      "is_expiring_within (tp_now tp (pv_tick st)) (tp_skew tp) t" by (simp_all add: look_Inr)
    show ?thesis
    proof (cases "ts_refresh_token t")
      case None
      with Inr holder assms(1) show ?thesis
        by (intro good_move [OF assms(1), of _ i "Returned (Inl MissingToken)"]) (simp_all add: second_look_def provider_load)
    next
      case (Some rt)
      with Inr have "second_look tp i st = set_phase i (Refreshing t rt) st" by (simp add: second_look_def provider_load)
      moreover have "view (pv_store st) = Some t" using load_view [OF t(1)] by simp
      moreover have "found_expiring tp (Suc (pv_tick st)) t rt"
        using Some t(2) by (auto simp: found_expiring_def)
      ultimately show ?thesis
        using assms(1) holder found_later [of "pv_tick st" _ _ "Suc (pv_tick st)"]
        unfolding good_state_def locked_ok_def knows_def by auto
    qed
  qed
qed

lemma good_step:
  assumes good: "good_state st" and step: "provider_step tp st st'"
  shows "good_state st'"
proof -
  note move = good_move [OF good] and alone = good_store [OF good]
  have holder: "in_lock (pv_phase st i) \<Longrightarrow> pv_holder st = Some i" for i
    using good by (simp add: good_state_def locked_ok_def)
  from step show ?thesis
  proof (cases rule: provider_step.cases)
    case (Look i)
    then show ?thesis by (auto simp: first_look_def intro!: move [of _ i] split: sum.split)
  next
    case (Lock i)
    then show ?thesis by (auto simp: take_lock_def intro!: move [of _ i])
  next
    case (LookAgain i)
    then show ?thesis using good good_second_look by simp
  next
    case (Ask i t rt)
    then show ?thesis using holder [of i] by (auto simp: ask_def intro!: move [of _ i] split: prod.split)
  next
    case (Receive i t rt r)
    then show ?thesis
      using holder [of i] by (auto simp: receive_def intro!: move [of _ i] split: option.split sum.split)
  next
    case (Store i new)
    then show ?thesis by (auto simp: store_token_def intro!: alone [of i] split: prod.split sum.split)
  next
    case (Lose i new)
    then show ?thesis using holder [of i] by (auto simp: drop_task_def intro!: alone [of i])
  next
    case (Drop i)
    then show ?thesis using holder [of i] by (auto simp: drop_task_def intro!: move [of _ i])
  qed
qed

lemma good_run: "provider_run tp st st' \<Longrightarrow> good_state st \<Longrightarrow> good_state st'"
  by (induction rule: provider_run.induct) (auto intro: good_step)

lemma good_start: "good_state (provider_start s)"
  by (simp add: good_state_def locked_ok_def knows_def provider_start_def)

end

text \<open>The one step that sends something.\<close>

lemma sends_ask:
  assumes "provider_step tp st st'" "pv_sent st' \<noteq> pv_sent st"
  obtains i t rt where "pv_phase st i = Refreshing t rt" "st' = ask tp i t rt st"
  using assms by (cases rule: provider_step.cases)
    (auto simp: first_look_def take_lock_def second_look_def receive_def store_token_def drop_task_def
      split: sum.splits option.splits prod.splits if_splits)

lemma refresh_sends:
  "snd (refresh_token env c rt sent) \<noteq> sent \<Longrightarrow>
   \<exists>rq. snd (refresh_token env c rt sent) = sent @ [rq] \<and> (''refresh_token'', rt) \<in> set (oq_form rq)"
  by (auto simp: refresh_token_def refresh_form_def post_token_form_def post_form_def Let_def
      split: option.splits sum.splits prod.splits)

subsection \<open>Refreshing\<close>

definition memory_provider ::
    "oauth_env \<Rightarrow> oauth_config \<Rightarrow> duration \<Rightarrow> (nat \<Rightarrow> time) \<Rightarrow> memory_store token_provider" where
  "memory_provider env c skew now = \<lparr>tp_load = memory_load, tp_save = memory_save, tp_env = env, tp_config = c,
     tp_skew = skew, tp_now = now\<rparr>"

interpretation memory_refresh: refreshing_provider memory_load memory_save "\<lambda>s. s" "memory_provider env c skew now"
  by unfold_locales (simp_all add: memory_provider_def)

text \<open>
  C26. Refreshing is serial: whenever the provider, however its calls interleave and whichever of
  them are dropped, asks the service for a new token, it presents the refresh token of the very
  token set that is stored, which was found to be expiring; and no other caller is between its
  second look and its save. So callers who wait for a refresh do not ask for another one, and a
  refresh token that has been replaced is not presented again.
\<close>

theorem refresh_is_serial:
  assumes "provider_run (memory_provider env c skew now) (provider_start s) st"
    "provider_step (memory_provider env c skew now) st st'" "pv_sent st' \<noteq> pv_sent st"
  shows "\<exists>i t rt rq n. pv_phase st i = Refreshing t rt \<and> pv_sent st' = pv_sent st @ [rq] \<and>
    (''refresh_token'', rt) \<in> set (oq_form rq) \<and> pv_store st = Some t \<and> ts_refresh_token t = Some rt \<and>
    n < pv_tick st \<and> is_expiring_within (now n) skew t \<and> (\<forall>j. in_lock (pv_phase st j) \<longrightarrow> j = i)"
proof -
  let ?tp = "memory_provider env c skew now"
  have good: "memory_refresh.good_state env c skew now st"
    using memory_refresh.good_run [OF assms(1) memory_refresh.good_start] .
  obtain i t rt where i: "pv_phase st i = Refreshing t rt" "st' = ask ?tp i t rt st"
    using sends_ask [OF assms(2,3)] .
  then have "pv_sent st' = snd (refresh_token env c rt (pv_sent st))"
    by (simp add: ask_def memory_provider_def split: prod.split)
  with assms(3) refresh_sends [of env c rt "pv_sent st"] obtain rq where
    rq: "pv_sent st' = pv_sent st @ [rq]" "(''refresh_token'', rt) \<in> set (oq_form rq)" by auto
  have "pv_store st = Some t" "found_expiring ?tp (pv_tick st) t rt"
    using good i(1) by (auto simp: memory_refresh.good_state_def memory_refresh.knows_def)
  moreover have "j = i" if "in_lock (pv_phase st j)" for j
    using good that i(1) unfolding memory_refresh.good_state_def locked_ok_def
    by (metis in_lock.simps(2) option.inject)
  ultimately show ?thesis
    using i(1) rq unfolding found_expiring_def by (fastforce simp: memory_provider_def)
qed

definition demo_oauth :: oauth_env where
  "demo_oauth = \<lparr>oe_url = demo_urls, oe_http = \<lparr>canonical_reason = \<lambda>_. None, http_date = \<lambda>_. None, parse_json = \<lambda>_. None\<rparr>,
     oe_add = \<lambda>t n. Some (t + n * int SEC), oe_now = \<lambda>_. 0, oe_answer = \<lambda>n rq. Inl (Other ''offline''),
     oe_token = \<lambda>_. Inl MissingToken, oe_device = \<lambda>_. Inl MissingToken\<rparr>"

definition demo_oauth_config :: oauth_config where
  "demo_oauth_config = \<lparr>oc_client_id = ''id'', oc_client_secret = Some ''s'', oc_redirect_uri = None, oc_scopes = [],
     oc_base_url = ''h/v1/''\<rparr>"

definition demo_token :: token_set where
  "demo_token = \<lparr>ts_access_token = ''old'', ts_refresh_token = Some ''r'', ts_token_type = ''Bearer'', ts_scopes = [],
     ts_expires_at = Some 5, ts_refresh_token_expires_at = None\<rparr>"

definition demo_provider :: "memory_store token_provider" where
  "demo_provider = memory_provider demo_oauth demo_oauth_config 0 (\<lambda>_. 9)"

text \<open>The first two callers find the token expiring; the first one has the lock and asks.\<close>

definition demo_asking :: "memory_store provider_state" where
  "demo_asking = second_look demo_provider 0 (take_lock 0 (first_look demo_provider 1 (first_look demo_provider 0
     (provider_start (Some demo_token)))))"

lemma demo_asking_run: "provider_run demo_provider (provider_start (Some demo_token)) demo_asking"
proof -
  let ?s0 = "provider_start (Some demo_token)"
  have first: "first_look demo_provider i st = set_phase i Waiting st" if "pv_store st = Some demo_token" for i st
    using that by (simp add: first_look_def look_def demo_provider_def memory_provider_def memory_load_def
        is_expiring_within_def demo_token_def)
  have "provider_run demo_provider ?s0 (first_look demo_provider 0 ?s0)"
    by (rule run_step [OF run_refl Look]) (simp add: provider_start_def)
  then have "provider_run demo_provider ?s0 (first_look demo_provider 1 (first_look demo_provider 0 ?s0))"
    by (rule run_step [OF _ Look]) (simp add: provider_start_def first)
  then have "provider_run demo_provider ?s0 (take_lock 0 (first_look demo_provider 1 (first_look demo_provider 0 ?s0)))"
    by (rule run_step [OF _ Lock]) (simp_all add: provider_start_def first)
  then show ?thesis
    unfolding demo_asking_def by (rule run_step [OF _ LookAgain]) (simp add: take_lock_def)
qed

lemma refresh_is_serial_witness:
  "\<exists>i t rt. pv_phase demo_asking i = Refreshing t rt \<and> pv_store demo_asking = Some t \<and>
     (\<forall>j. in_lock (pv_phase demo_asking j) \<longrightarrow> j = i)"
proof -
  have phase: "pv_phase demo_asking 0 = Refreshing demo_token ''r''"
    by (simp add: demo_asking_def second_look_def first_look_def take_lock_def look_def demo_provider_def
        memory_provider_def memory_load_def is_expiring_within_def demo_token_def provider_start_def)
  have dir: "strip_suffix ''/'' (dropWhile (\<lambda>c. c \<noteq> CHR ''/'') ''h/v1/'') \<noteq> None" by code_simp
  have "pv_sent (ask demo_provider 0 demo_token ''r'' demo_asking) = pv_sent demo_asking @
      [\<lparr>oq_url = ''h/v1/access_token'', oq_basic_auth = None, oq_form = [(''grant_type'', ''refresh_token''),
        (''client_id'', ''id''), (''refresh_token'', ''r''), (''client_secret'', ''s'')]\<rparr>]"
    using dir by (simp add: ask_def demo_provider_def memory_provider_def refresh_token_def refresh_form_def
        post_token_form_def post_form_def oauth_endpoint_def ensure_directory_url_def demo_oauth_def demo_oauth_config_def
        demo_urls_def Let_def)
  then have "pv_sent (ask demo_provider 0 demo_token ''r'' demo_asking) \<noteq> pv_sent demo_asking" by simp
  from refresh_is_serial [OF demo_asking_run [unfolded demo_provider_def] _ this [unfolded demo_provider_def]]
    Ask [of demo_asking 0, OF phase, of demo_provider] show ?thesis
    unfolding demo_provider_def by blast
qed

text \<open>A call that nobody disturbs returns a token that is not expiring, or a new one that it has stored.\<close>

lemma access_token_alone:
  assumes "pv_phase st i = Starting" "pv_phase (access_token (memory_provider env c skew now) i st) i = Returned (Inr tok)"
  shows "(\<exists>t. pv_store st = Some t \<and> tok = ts_access_token t \<and> (\<exists>n. \<not> is_expiring_within (now n) skew t)) \<or>
    (\<exists>new. pv_store (access_token (memory_provider env c skew now) i st) = Some new \<and> tok = ts_access_token new \<and>
      ts_refresh_token new \<noteq> None)"
  using assms
  by (auto simp: access_token_def first_look_def second_look_def take_lock_def ask_def receive_def store_token_def look_def
      memory_provider_def memory_load_def memory_save_def keep_refresh_token_def Let_def
      split: sum.splits option.splits if_splits prod.splits)

text \<open>What a debug text shows does not depend on the secrets.\<close>

lemma debug_hides_secrets:
  "token_set_debug (t\<lparr>ts_access_token := a, ts_refresh_token := map_option (\<lambda>_. r) (ts_refresh_token t)\<rparr>) = token_set_debug t"
  "oauth_config_debug (c\<lparr>oc_client_secret := map_option (\<lambda>_. s) (oc_client_secret c)\<rparr>) = oauth_config_debug c"
  "webhook_debug (w\<lparr>wh_secret := map_option (\<lambda>_. s) (wh_secret w)\<rparr>) = webhook_debug w"
  "create_webhook_debug (cw\<lparr>cw_secret := map_option (\<lambda>_. s) (cw_secret cw)\<rparr>) = create_webhook_debug cw"
  "update_webhook_debug (uw\<lparr>uw_secret := map_option (\<lambda>_. s) (uw_secret uw)\<rparr>) = update_webhook_debug uw"
  by (simp_all add: token_set_debug_def oauth_config_debug_def webhook_debug_def create_webhook_debug_def
      update_webhook_debug_def redacted_def dbg_opt_def split: option.split)

end
