(* ===== verification/CliParse.thy ===== *)
theory CliParse imports Resources begin

text \<open>
  The command line of \<open>src/bin/webex-headless.rs\<close>: its commands and how they are parsed. An
  error keeps what its message is made of. The cursor is the list of the arguments not yet
  taken; the chain of \<open>take_flag\<close> and \<open>take_option\<close> of a loop is a list of options, tried in
  its order.
\<close>

subsection \<open>Commands\<close>

record global_options =
  go_access_token :: "string option"
  go_token_file :: "string option"
  go_client_id :: "string option"
  go_client_secret :: "string option"
  go_client_secret_file :: "string option"

definition global_default :: global_options where
  "global_default = \<lparr>go_access_token = None, go_token_file = None, go_client_id = None, go_client_secret = None,
     go_client_secret_file = None\<rparr>"

record auth_device_args =
  ad_client_id :: "string option"
  ad_client_secret :: "string option"
  ad_client_secret_file :: "string option"
  ad_token_file :: "string option"
  ad_access_token_file :: "string option"
  ad_access_token_file_group_readable :: bool
  ad_scopes :: "string list"
  ad_stdout_token :: bool

record auth_refresh_args =
  ar_client_id :: "string option"
  ar_client_secret :: "string option"
  ar_client_secret_file :: "string option"
  ar_token_file :: "string option"
  ar_access_token_file :: "string option"
  ar_access_token_file_group_readable :: bool

record rooms_list_args =
  rl_max :: "nat option"
  rl_room_type :: "string option"
  rl_team_id :: "string option"
  rl_all :: bool

record rooms_resolve_args =
  rr_room_id :: "string option"
  rr_link :: "string option"
  rr_title :: "string option"

record messages_list_args =
  ml_room_id :: string
  ml_parent_id :: "string option"
  ml_max :: "nat option"
  ml_all :: bool

record messages_direct_args =
  md_person_id :: "string option"
  md_person_email :: "string option"
  md_parent_id :: "string option"
  md_all :: bool

datatype message_target = ToRoom string | ToPersonEmail string

datatype message_body = BodyText string | BodyMarkdown string

record file_args =
  fa_path :: string
  fa_media_type :: "string option"
  fa_file_name :: "string option"

record messages_send_args =
  ms_target :: message_target
  ms_body :: message_body
  ms_file :: "file_args option"

record messages_reply_args =
  mr_room_id :: string
  mr_parent_id :: string
  mr_body :: message_body

record poll_messages_args =
  pm_room_id :: string
  pm_interval_seconds :: nat
  pm_page_size :: nat
  pm_emit_existing :: bool

record sidecar_receive_args =
  sr_bind :: string
  sr_path :: string
  sr_health_path :: string
  sr_token :: "string option"
  sr_max_events :: nat
  sr_allow_unauthenticated :: bool
  sr_allow_non_loopback :: bool

datatype cli_command =
    Help
  | AuthDevice auth_device_args
  | AuthRefresh auth_refresh_args
  | Me
  | RoomsList rooms_list_args
  | RoomsGet string
  | RoomsResolve rooms_resolve_args
  | MessagesList messages_list_args
  | MessagesDirect messages_direct_args
  | MessagesGet string
  | MessagesSend messages_send_args
  | MessagesReply messages_reply_args
  | MessagesDelete string
  | PollMessages poll_messages_args
  | SidecarReceive sidecar_receive_args

record cli =
  cli_global :: global_options
  cli_cmd :: cli_command

definition into_attachment :: "file_args \<Rightarrow> local_file_attachment" where
  "into_attachment f =
     (let a = attachment_new (fa_path f);
          a = (case fa_media_type f of Some t \<Rightarrow> with_media_type t a | None \<Rightarrow> a) in
      case fa_file_name f of Some n \<Rightarrow> with_file_name n a | None \<Rightarrow> a)"

subsection \<open>Errors\<close>

datatype cli_error =
    Missing string
  | Unknown string string
  | Unexpected string
  | Required string
  | NotNumber string string string
  | CliMessage string

type_synonym 'a cli_result = "cli_error + 'a"

definition required_value :: "string option \<Rightarrow> string \<Rightarrow> string cli_result" where
  "required_value v name = (case v of Some s \<Rightarrow> Inr s | None \<Rightarrow> Inl (Required name))"

abbreviation U16_MAX :: nat where "U16_MAX \<equiv> 65535"

definition parse_u16 :: "string \<Rightarrow> string \<Rightarrow> nat cli_result" where
  "parse_u16 name v = (case parse_uint U16_MAX v of Some n \<Rightarrow> Inr n | None \<Rightarrow> Inl (NotNumber name ''u16'' v))"

definition parse_u64 :: "string \<Rightarrow> string \<Rightarrow> nat cli_result" where
  "parse_u64 name v = (case parse_uint U64_MAX v of Some n \<Rightarrow> Inr n | None \<Rightarrow> Inl (NotNumber name ''u64'' v))"

definition parse_usize :: "string \<Rightarrow> string \<Rightarrow> nat cli_result" where
  "parse_usize name v = (case parse_uint U64_MAX v of Some n \<Rightarrow> Inr n | None \<Rightarrow> Inl (NotNumber name ''usize'' v))"

text \<open>\<open>is_ascii_whitespace\<close> has no vertical tab.\<close>

definition scope_separator :: "char \<Rightarrow> bool" where
  "scope_separator c \<longleftrightarrow> byte c = 32 \<or> byte c = 9 \<or> byte c = 10 \<or> byte c = 12 \<or> byte c = 13 \<or> c = CHR '',''"

definition parse_scopes :: "string \<Rightarrow> string list" where
  "parse_scopes v = filter (\<lambda>s. s \<noteq> []) (map trim (split_with scope_separator v))"

definition message_body :: "string option \<Rightarrow> string option \<Rightarrow> message_body cli_result" where
  "message_body t m =
     (case (t, m) of
        (Some t, None) \<Rightarrow> Inr (BodyText t)
      | (None, Some m) \<Rightarrow> Inr (BodyMarkdown m)
      | (Some _, Some _) \<Rightarrow> Inl (CliMessage ''use --text or --markdown, not both'')
      | (None, None) \<Rightarrow> Inl (CliMessage ''--text or --markdown is required''))"

definition create_message_from_body :: "message_body \<Rightarrow> create_message" where
  "create_message_from_body b =
     (case b of
        BodyText t \<Rightarrow> create_message_default\<lparr>cm_text := Some t\<rparr>
      | BodyMarkdown m \<Rightarrow> create_message_default\<lparr>cm_markdown := Some m\<rparr>)"

definition create_message_from_send :: "message_target \<Rightarrow> message_body \<Rightarrow> create_message" where
  "create_message_from_send t b =
     (case t of
        ToRoom r \<Rightarrow> (create_message_from_body b)\<lparr>cm_room_id := Some r\<rparr>
      | ToPersonEmail e \<Rightarrow> (create_message_from_body b)\<lparr>cm_to_person_email := Some e\<rparr>)"

subsection \<open>The cursor\<close>

text \<open>\<open>take_option\<close> on the argument at the cursor: no match, a value behind the equals sign, or
  the next argument.\<close>

datatype taken = NotTaken | Inline string | NextValue

definition take_option :: "string \<Rightarrow> string \<Rightarrow> taken" where
  "take_option name arg =
     (if arg = name then NextValue
      else (case strip_prefix (name @ ''='') arg of Some v \<Rightarrow> Inline v | None \<Rightarrow> NotTaken))"

datatype 'a opt = Flag string "'a \<Rightarrow> 'a" | Opt string "string \<Rightarrow> 'a \<Rightarrow> 'a cli_result"

text \<open>The options of a loop, tried in their order on the argument \<open>arg\<close>.\<close>

datatype 'a hit = NoHit | FlagHit "'a \<Rightarrow> 'a" | ValueHit string "string \<Rightarrow> 'a \<Rightarrow> 'a cli_result" | NextHit string "string \<Rightarrow> 'a \<Rightarrow> 'a cli_result"

fun hit_of :: "'a opt list \<Rightarrow> string \<Rightarrow> 'a hit" where
  "hit_of [] arg = NoHit"
| "hit_of (Flag name f # opts) arg = (if arg = name then FlagHit f else hit_of opts arg)"
| "hit_of (Opt name f # opts) arg =
     (case take_option name arg of
        NextValue \<Rightarrow> NextHit name f
      | Inline v \<Rightarrow> ValueHit v f
      | NotTaken \<Rightarrow> hit_of opts arg)"

text \<open>The loop over the remaining arguments; \<open>what\<close> names the command in its error.\<close>

fun parse_options :: "string \<Rightarrow> 'a opt list \<Rightarrow> string list \<Rightarrow> 'a \<Rightarrow> 'a cli_result" where
  "parse_options what opts [] a = Inr a"
| "parse_options what opts [arg] a =
     (case hit_of opts arg of
        NoHit \<Rightarrow> Inl (Unknown (what @ '' option'') arg)
      | FlagHit f \<Rightarrow> Inr (f a)
      | ValueHit v f \<Rightarrow> f v a
      | NextHit name f \<Rightarrow> Inl (Missing name))"
| "parse_options what opts (arg # v # args) a =
     (case hit_of opts arg of
        NoHit \<Rightarrow> Inl (Unknown (what @ '' option'') arg)
      | FlagHit f \<Rightarrow> parse_options what opts (v # args) (f a)
      | ValueHit w f \<Rightarrow> and_then (f w a) (parse_options what opts (v # args))
      | NextHit name f \<Rightarrow> and_then (f v a) (parse_options what opts args))"

declare parse_options.simps(2,3) [simp del]

text \<open>An option that stores its value.\<close>

definition setter :: "string \<Rightarrow> (string \<Rightarrow> 'a \<Rightarrow> 'a) \<Rightarrow> 'a opt" where
  "setter name f = Opt name (\<lambda>v a. Inr (f v a))"

definition required_arg :: "string \<Rightarrow> string list \<Rightarrow> (string \<times> string list) cli_result" where
  "required_arg name args = (case args of [] \<Rightarrow> Inl (Missing name) | a # rest \<Rightarrow> Inr (a, rest))"

definition no_more :: "string list \<Rightarrow> unit cli_result" where
  "no_more args = (case args of [] \<Rightarrow> Inr () | a # _ \<Rightarrow> Inl (Unexpected a))"

subsection \<open>The commands' options\<close>

definition auth_device_opts :: "auth_device_args opt list" where
  "auth_device_opts = [Flag ''--stdout-token'' (\<lambda>a. a\<lparr>ad_stdout_token := True\<rparr>),
     setter ''--client-id'' (\<lambda>v a. a\<lparr>ad_client_id := Some v\<rparr>),
     setter ''--client-secret'' (\<lambda>v a. a\<lparr>ad_client_secret := Some v\<rparr>),
     setter ''--client-secret-file'' (\<lambda>v a. a\<lparr>ad_client_secret_file := Some v\<rparr>),
     setter ''--token-file'' (\<lambda>v a. a\<lparr>ad_token_file := Some v\<rparr>),
     setter ''--access-token-file'' (\<lambda>v a. a\<lparr>ad_access_token_file := Some v\<rparr>),
     Flag ''--access-token-file-group-readable'' (\<lambda>a. a\<lparr>ad_access_token_file_group_readable := True\<rparr>),
     setter ''--scopes'' (\<lambda>v a. a\<lparr>ad_scopes := ad_scopes a @ parse_scopes v\<rparr>),
     setter ''--scope'' (\<lambda>v a. a\<lparr>ad_scopes := ad_scopes a @ parse_scopes v\<rparr>)]"

definition parse_auth_device :: "string list \<Rightarrow> cli_command cli_result" where
  "parse_auth_device args =
     and_then (parse_options ''auth device'' auth_device_opts args
       \<lparr>ad_client_id = None, ad_client_secret = None, ad_client_secret_file = None, ad_token_file = None,
        ad_access_token_file = None, ad_access_token_file_group_readable = False, ad_scopes = [],
        ad_stdout_token = False\<rparr>) (\<lambda>a. Inr (AuthDevice a))"

definition auth_refresh_opts :: "auth_refresh_args opt list" where
  "auth_refresh_opts = [setter ''--client-id'' (\<lambda>v a. a\<lparr>ar_client_id := Some v\<rparr>),
     setter ''--client-secret'' (\<lambda>v a. a\<lparr>ar_client_secret := Some v\<rparr>),
     setter ''--client-secret-file'' (\<lambda>v a. a\<lparr>ar_client_secret_file := Some v\<rparr>),
     setter ''--token-file'' (\<lambda>v a. a\<lparr>ar_token_file := Some v\<rparr>),
     setter ''--access-token-file'' (\<lambda>v a. a\<lparr>ar_access_token_file := Some v\<rparr>),
     Flag ''--access-token-file-group-readable'' (\<lambda>a. a\<lparr>ar_access_token_file_group_readable := True\<rparr>)]"

definition parse_auth_refresh :: "string list \<Rightarrow> cli_command cli_result" where
  "parse_auth_refresh args =
     and_then (parse_options ''auth refresh'' auth_refresh_opts args
       \<lparr>ar_client_id = None, ar_client_secret = None, ar_client_secret_file = None, ar_token_file = None,
        ar_access_token_file = None, ar_access_token_file_group_readable = False\<rparr>) (\<lambda>a. Inr (AuthRefresh a))"

definition parse_auth :: "string list \<Rightarrow> cli_command cli_result" where
  "parse_auth args =
     and_then (required_arg ''auth subcommand'' args) (\<lambda>(sub, args).
       if sub = ''device'' then parse_auth_device args
       else if sub = ''refresh'' then parse_auth_refresh args
       else Inl (Unknown ''auth subcommand'' sub))"

definition rooms_list_opts :: "rooms_list_args opt list" where
  "rooms_list_opts = [Flag ''--all'' (\<lambda>a. a\<lparr>rl_all := True\<rparr>),
     Opt ''--max'' (\<lambda>v a. and_then (parse_u16 ''--max'' v) (\<lambda>n. Inr (a\<lparr>rl_max := Some n\<rparr>))),
     setter ''--type'' (\<lambda>v a. a\<lparr>rl_room_type := Some v\<rparr>),
     setter ''--team-id'' (\<lambda>v a. a\<lparr>rl_team_id := Some v\<rparr>)]"

definition rooms_list_default :: rooms_list_args where
  "rooms_list_default = \<lparr>rl_max = None, rl_room_type = None, rl_team_id = None, rl_all = False\<rparr>"

text \<open>A single optional value.\<close>

definition one_value :: "string \<Rightarrow> string option opt list" where
  "one_value name = [setter name (\<lambda>v a. Some v)]"

definition rooms_resolve_opts :: "rooms_resolve_args opt list" where
  "rooms_resolve_opts = [setter ''--room-id'' (\<lambda>v a. a\<lparr>rr_room_id := Some v\<rparr>),
     setter ''--link'' (\<lambda>v a. a\<lparr>rr_link := Some v\<rparr>),
     setter ''--title'' (\<lambda>v a. a\<lparr>rr_title := Some v\<rparr>)]"

definition parse_rooms :: "string list \<Rightarrow> cli_command cli_result" where
  "parse_rooms args =
     and_then (required_arg ''rooms subcommand'' args) (\<lambda>(sub, args).
       if sub = ''list'' then
         and_then (parse_options ''rooms list'' rooms_list_opts args rooms_list_default) (\<lambda>a. Inr (RoomsList a))
       else if sub = ''get'' then
         and_then (parse_options ''rooms get'' (one_value ''--room-id'') args None) (\<lambda>r.
         and_then (required_value r ''--room-id'') (\<lambda>r. Inr (RoomsGet r)))
       else if sub = ''resolve'' then
         and_then (parse_options ''rooms resolve'' rooms_resolve_opts args
           \<lparr>rr_room_id = None, rr_link = None, rr_title = None\<rparr>) (\<lambda>a. Inr (RoomsResolve a))
       else Inl (Unknown ''rooms subcommand'' sub))"

text \<open>The local variables of the other loops.\<close>

record messages_list_vars =
  vl_room_id :: "string option"
  vl_parent_id :: "string option"
  vl_max :: "nat option"
  vl_all :: bool

record messages_send_vars =
  vs_room_id :: "string option"
  vs_to_person_email :: "string option"
  vs_text :: "string option"
  vs_markdown :: "string option"
  vs_file_path :: "string option"
  vs_media_type :: "string option"
  vs_file_name :: "string option"

record messages_reply_vars =
  vr_room_id :: "string option"
  vr_parent_id :: "string option"
  vr_text :: "string option"
  vr_markdown :: "string option"

record poll_vars =
  vp_room_id :: "string option"
  vp_interval_seconds :: nat
  vp_page_size :: nat
  vp_emit_existing :: bool

definition messages_list_opts :: "messages_list_vars opt list" where
  "messages_list_opts = [Flag ''--all'' (\<lambda>a. a\<lparr>vl_all := True\<rparr>),
     setter ''--room-id'' (\<lambda>v a. a\<lparr>vl_room_id := Some v\<rparr>),
     setter ''--parent-id'' (\<lambda>v a. a\<lparr>vl_parent_id := Some v\<rparr>),
     Opt ''--max'' (\<lambda>v a. and_then (parse_u16 ''--max'' v) (\<lambda>n. Inr (a\<lparr>vl_max := Some n\<rparr>)))]"

definition messages_direct_opts :: "messages_direct_args opt list" where
  "messages_direct_opts = [Flag ''--all'' (\<lambda>a. a\<lparr>md_all := True\<rparr>),
     setter ''--person-id'' (\<lambda>v a. a\<lparr>md_person_id := Some v\<rparr>),
     setter ''--person-email'' (\<lambda>v a. a\<lparr>md_person_email := Some v\<rparr>),
     setter ''--parent-id'' (\<lambda>v a. a\<lparr>md_parent_id := Some v\<rparr>)]"

definition messages_send_opts :: "messages_send_vars opt list" where
  "messages_send_opts = [setter ''--room-id'' (\<lambda>v a. a\<lparr>vs_room_id := Some v\<rparr>),
     setter ''--to-person-email'' (\<lambda>v a. a\<lparr>vs_to_person_email := Some v\<rparr>),
     setter ''--text'' (\<lambda>v a. a\<lparr>vs_text := Some v\<rparr>),
     setter ''--markdown'' (\<lambda>v a. a\<lparr>vs_markdown := Some v\<rparr>),
     setter ''--file'' (\<lambda>v a. a\<lparr>vs_file_path := Some v\<rparr>),
     setter ''--media-type'' (\<lambda>v a. a\<lparr>vs_media_type := Some v\<rparr>),
     setter ''--file-name'' (\<lambda>v a. a\<lparr>vs_file_name := Some v\<rparr>)]"

definition parse_messages_send :: "string list \<Rightarrow> cli_command cli_result" where
  "parse_messages_send args =
     and_then (parse_options ''messages send'' messages_send_opts args
       \<lparr>vs_room_id = None, vs_to_person_email = None, vs_text = None, vs_markdown = None, vs_file_path = None,
        vs_media_type = None, vs_file_name = None\<rparr>) (\<lambda>v.
     and_then (case (vs_room_id v, vs_to_person_email v) of
         (Some r, None) \<Rightarrow> Inr (ToRoom r)
       | (None, Some e) \<Rightarrow> Inr (ToPersonEmail e)
       | (Some _, Some _) \<Rightarrow> Inl (CliMessage ''messages send accepts only one target'')
       | (None, None) \<Rightarrow> Inl (CliMessage ''messages send requires --room-id or --to-person-email'')) (\<lambda>target.
     and_then (message_body (vs_text v) (vs_markdown v)) (\<lambda>body.
     Inr (MessagesSend \<lparr>ms_target = target, ms_body = body,
       ms_file = map_option (\<lambda>p. \<lparr>fa_path = p, fa_media_type = vs_media_type v, fa_file_name = vs_file_name v\<rparr>)
         (vs_file_path v)\<rparr>))))"

definition messages_reply_opts :: "messages_reply_vars opt list" where
  "messages_reply_opts = [setter ''--room-id'' (\<lambda>v a. a\<lparr>vr_room_id := Some v\<rparr>),
     setter ''--parent-id'' (\<lambda>v a. a\<lparr>vr_parent_id := Some v\<rparr>),
     setter ''--text'' (\<lambda>v a. a\<lparr>vr_text := Some v\<rparr>),
     setter ''--markdown'' (\<lambda>v a. a\<lparr>vr_markdown := Some v\<rparr>)]"

definition parse_messages_reply :: "string list \<Rightarrow> cli_command cli_result" where
  "parse_messages_reply args =
     and_then (parse_options ''messages reply'' messages_reply_opts args
       \<lparr>vr_room_id = None, vr_parent_id = None, vr_text = None, vr_markdown = None\<rparr>) (\<lambda>v.
     and_then (required_value (vr_room_id v) ''--room-id'') (\<lambda>r.
     and_then (required_value (vr_parent_id v) ''--parent-id'') (\<lambda>p.
     and_then (message_body (vr_text v) (vr_markdown v)) (\<lambda>body.
     Inr (MessagesReply \<lparr>mr_room_id = r, mr_parent_id = p, mr_body = body\<rparr>)))))"

definition parse_messages :: "string list \<Rightarrow> cli_command cli_result" where
  "parse_messages args =
     and_then (required_arg ''messages subcommand'' args) (\<lambda>(sub, args).
       if sub = ''list'' then
         and_then (parse_options ''messages list'' messages_list_opts args
           \<lparr>vl_room_id = None, vl_parent_id = None, vl_max = None, vl_all = False\<rparr>) (\<lambda>v.
         and_then (required_value (vl_room_id v) ''--room-id'') (\<lambda>r.
         Inr (MessagesList \<lparr>ml_room_id = r, ml_parent_id = vl_parent_id v, ml_max = vl_max v, ml_all = vl_all v\<rparr>)))
       else if sub = ''direct'' then
         and_then (parse_options ''messages direct'' messages_direct_opts args
           \<lparr>md_person_id = None, md_person_email = None, md_parent_id = None, md_all = False\<rparr>) (\<lambda>a.
         if md_person_id a = None \<and> md_person_email a = None then
           Inl (CliMessage ''messages direct requires --person-id or --person-email'')
         else if md_person_id a \<noteq> None \<and> md_person_email a \<noteq> None then
           Inl (CliMessage ''messages direct accepts only one target'')
         else Inr (MessagesDirect a))
       else if sub = ''get'' then
         and_then (parse_options ''messages get'' (one_value ''--message-id'') args None) (\<lambda>m.
         and_then (required_value m ''--message-id'') (\<lambda>m. Inr (MessagesGet m)))
       else if sub = ''send'' then parse_messages_send args
       else if sub = ''reply'' then parse_messages_reply args
       else if sub = ''delete'' then
         and_then (parse_options ''messages delete'' (one_value ''--message-id'') args None) (\<lambda>m.
         and_then (required_value m ''--message-id'') (\<lambda>m. Inr (MessagesDelete m)))
       else Inl (Unknown ''messages subcommand'' sub))"

definition poll_opts :: "poll_vars opt list" where
  "poll_opts = [Flag ''--emit-existing'' (\<lambda>a. a\<lparr>vp_emit_existing := True\<rparr>),
     setter ''--room-id'' (\<lambda>v a. a\<lparr>vp_room_id := Some v\<rparr>),
     Opt ''--interval-seconds'' (\<lambda>v a. and_then (parse_u64 ''--interval-seconds'' v) (\<lambda>n. Inr (a\<lparr>vp_interval_seconds := n\<rparr>))),
     Opt ''--max'' (\<lambda>v a. and_then (parse_u16 ''--max'' v) (\<lambda>n. Inr (a\<lparr>vp_page_size := n\<rparr>)))]"

definition parse_poll :: "string list \<Rightarrow> cli_command cli_result" where
  "parse_poll args =
     and_then (required_arg ''poll subcommand'' args) (\<lambda>(sub, args).
       if sub \<noteq> ''messages'' then Inl (Unknown ''poll subcommand'' sub)
       else
         and_then (parse_options ''poll messages'' poll_opts args
           \<lparr>vp_room_id = None, vp_interval_seconds = 15, vp_page_size = 50, vp_emit_existing = False\<rparr>) (\<lambda>v.
         and_then (required_value (vp_room_id v) ''--room-id'') (\<lambda>r.
         Inr (PollMessages \<lparr>pm_room_id = r, pm_interval_seconds = vp_interval_seconds v,
           pm_page_size = vp_page_size v, pm_emit_existing = vp_emit_existing v\<rparr>))))"

definition sidecar_opts :: "sidecar_receive_args opt list" where
  "sidecar_opts = [Flag ''--allow-unauthenticated'' (\<lambda>a. a\<lparr>sr_allow_unauthenticated := True\<rparr>),
     Flag ''--allow-non-loopback'' (\<lambda>a. a\<lparr>sr_allow_non_loopback := True\<rparr>),
     setter ''--bind'' (\<lambda>v a. a\<lparr>sr_bind := v\<rparr>),
     setter ''--path'' (\<lambda>v a. a\<lparr>sr_path := v\<rparr>),
     setter ''--health-path'' (\<lambda>v a. a\<lparr>sr_health_path := v\<rparr>),
     setter ''--token'' (\<lambda>v a. a\<lparr>sr_token := Some v\<rparr>),
     Opt ''--max-events'' (\<lambda>v a. and_then (parse_usize ''--max-events'' v) (\<lambda>n. Inr (a\<lparr>sr_max_events := n\<rparr>)))]"

definition sidecar_default :: sidecar_receive_args where
  "sidecar_default = \<lparr>sr_bind = ''127.0.0.1:8787'', sr_path = ''/webex/events'', sr_health_path = ''/healthz'',
     sr_token = None, sr_max_events = 0, sr_allow_unauthenticated = False, sr_allow_non_loopback = False\<rparr>"

definition parse_sidecar :: "string list \<Rightarrow> cli_command cli_result" where
  "parse_sidecar args =
     and_then (required_arg ''sidecar subcommand'' args) (\<lambda>(sub, args).
       if sub \<noteq> ''receive'' then Inl (Unknown ''sidecar subcommand'' sub)
       else
         and_then (parse_options ''sidecar receive'' sidecar_opts args sidecar_default) (\<lambda>a.
         if sr_path a = sr_health_path a then
           Inl (CliMessage ''sidecar receive requires --path and --health-path to differ'')
         else Inr (SidecarReceive a)))"

subsection \<open>The command line\<close>

definition global_opts :: "global_options opt list" where
  "global_opts = [setter ''--access-token'' (\<lambda>v a. a\<lparr>go_access_token := Some v\<rparr>),
     setter ''--token-file'' (\<lambda>v a. a\<lparr>go_token_file := Some v\<rparr>),
     setter ''--client-id'' (\<lambda>v a. a\<lparr>go_client_id := Some v\<rparr>),
     setter ''--client-secret'' (\<lambda>v a. a\<lparr>go_client_secret := Some v\<rparr>),
     setter ''--client-secret-file'' (\<lambda>v a. a\<lparr>go_client_secret_file := Some v\<rparr>)]"

definition parse_command :: "global_options \<Rightarrow> string list \<Rightarrow> cli cli_result" where
  "parse_command g args =
     and_then (case args of
         [] \<Rightarrow> Inr Help
       | c # args \<Rightarrow>
           if c = ''auth'' then parse_auth args
           else if c = ''me'' then and_then (no_more args) (\<lambda>_. Inr Me)
           else if c = ''rooms'' then parse_rooms args
           else if c = ''messages'' then parse_messages args
           else if c = ''poll'' then parse_poll args
           else if c = ''sidecar'' then parse_sidecar args
           else if c = ''--help'' \<or> c = ''-h'' then Inr Help
           else Inl (Unknown ''command'' c)) (\<lambda>cmd. Inr \<lparr>cli_global = g, cli_cmd = cmd\<rparr>)"

text \<open>The global options come first, up to an argument that is no option.\<close>

fun parse_cli :: "string list \<Rightarrow> global_options \<Rightarrow> cli cli_result" where
  "parse_cli [] g = parse_command g []"
| "parse_cli [arg] g =
     (if \<not> starts_with arg ''-'' then parse_command g [arg]
      else if arg = ''--help'' \<or> arg = ''-h'' then Inr \<lparr>cli_global = g, cli_cmd = Help\<rparr>
      else (case hit_of global_opts arg of
         NoHit \<Rightarrow> Inl (Unknown ''global option'' arg)
       | FlagHit f \<Rightarrow> parse_command (f g) []
       | ValueHit w f \<Rightarrow> and_then (f w g) (\<lambda>g. parse_command g [])
       | NextHit name f \<Rightarrow> Inl (Missing name)))"
| "parse_cli (arg # v # args) g =
     (if \<not> starts_with arg ''-'' then parse_command g (arg # v # args)
      else if arg = ''--help'' \<or> arg = ''-h'' then Inr \<lparr>cli_global = g, cli_cmd = Help\<rparr>
      else (case hit_of global_opts arg of
         NoHit \<Rightarrow> Inl (Unknown ''global option'' arg)
       | FlagHit f \<Rightarrow> parse_cli (v # args) (f g)
       | ValueHit w f \<Rightarrow> and_then (f w g) (parse_cli (v # args))
       | NextHit name f \<Rightarrow> and_then (f v g) (parse_cli args)))"

end
