(* ===== verification/CliProps.thy ===== *)
theory CliProps imports CliParse begin

text \<open>A command that is written out as arguments is parsed as itself.\<close>

subsection \<open>Writing arguments\<close>

definition opt_arg :: "string \<Rightarrow> string option \<Rightarrow> string list" where
  "opt_arg name v = (case v of Some s \<Rightarrow> [name, s] | None \<Rightarrow> [])"

definition flag_arg :: "string \<Rightarrow> bool \<Rightarrow> string list" where
  "flag_arg name b = (if b then [name] else [])"

definition num_arg :: "string \<Rightarrow> nat option \<Rightarrow> string list" where
  "num_arg name n = opt_arg name (map_option show_nat n)"

fun render_body :: "message_body \<Rightarrow> string list" where
  "render_body (BodyText t) = [''--text'', t]"
| "render_body (BodyMarkdown m) = [''--markdown'', m]"

fun render_target :: "message_target \<Rightarrow> string list" where
  "render_target (ToRoom r) = [''--room-id'', r]"
| "render_target (ToPersonEmail e) = [''--to-person-email'', e]"

definition render_file :: "file_args option \<Rightarrow> string list" where
  "render_file f = (case f of None \<Rightarrow> []
     | Some f \<Rightarrow> [''--file'', fa_path f] @ opt_arg ''--media-type'' (fa_media_type f) @ opt_arg ''--file-name'' (fa_file_name f))"

fun render_command :: "cli_command \<Rightarrow> string list" where
  "render_command Help = [''--help'']"
| "render_command (AuthDevice a) = [''auth'', ''device''] @ flag_arg ''--stdout-token'' (ad_stdout_token a) @
     opt_arg ''--client-id'' (ad_client_id a) @ opt_arg ''--client-secret'' (ad_client_secret a) @
     opt_arg ''--client-secret-file'' (ad_client_secret_file a) @ opt_arg ''--token-file'' (ad_token_file a) @
     opt_arg ''--access-token-file'' (ad_access_token_file a) @
     flag_arg ''--access-token-file-group-readable'' (ad_access_token_file_group_readable a) @
     (if ad_scopes a = [] then [] else [''--scopes'', join_with '','' (ad_scopes a)])"
| "render_command (AuthRefresh a) = [''auth'', ''refresh''] @
     opt_arg ''--client-id'' (ar_client_id a) @ opt_arg ''--client-secret'' (ar_client_secret a) @
     opt_arg ''--client-secret-file'' (ar_client_secret_file a) @ opt_arg ''--token-file'' (ar_token_file a) @
     opt_arg ''--access-token-file'' (ar_access_token_file a) @
     flag_arg ''--access-token-file-group-readable'' (ar_access_token_file_group_readable a)"
| "render_command Me = [''me'']"
| "render_command (RoomsList a) = [''rooms'', ''list''] @ flag_arg ''--all'' (rl_all a) @ num_arg ''--max'' (rl_max a) @
     opt_arg ''--type'' (rl_room_type a) @ opt_arg ''--team-id'' (rl_team_id a)"
| "render_command (RoomsGet r) = [''rooms'', ''get'', ''--room-id'', r]"
| "render_command (RoomsResolve a) = [''rooms'', ''resolve''] @ opt_arg ''--room-id'' (rr_room_id a) @
     opt_arg ''--link'' (rr_link a) @ opt_arg ''--title'' (rr_title a)"
| "render_command (MessagesList a) = [''messages'', ''list'', ''--room-id'', ml_room_id a] @
     opt_arg ''--parent-id'' (ml_parent_id a) @ num_arg ''--max'' (ml_max a) @ flag_arg ''--all'' (ml_all a)"
| "render_command (MessagesDirect a) = [''messages'', ''direct''] @ opt_arg ''--person-id'' (md_person_id a) @
     opt_arg ''--person-email'' (md_person_email a) @ opt_arg ''--parent-id'' (md_parent_id a) @ flag_arg ''--all'' (md_all a)"
| "render_command (MessagesGet m) = [''messages'', ''get'', ''--message-id'', m]"
| "render_command (MessagesSend a) = [''messages'', ''send''] @ render_target (ms_target a) @ render_body (ms_body a) @
     render_file (ms_file a)"
| "render_command (MessagesReply a) = [''messages'', ''reply'', ''--room-id'', mr_room_id a, ''--parent-id'', mr_parent_id a] @
     render_body (mr_body a)"
| "render_command (MessagesDelete m) = [''messages'', ''delete'', ''--message-id'', m]"
| "render_command (PollMessages a) = [''poll'', ''messages'', ''--room-id'', pm_room_id a, ''--interval-seconds'',
     show_nat (pm_interval_seconds a), ''--max'', show_nat (pm_page_size a)] @ flag_arg ''--emit-existing'' (pm_emit_existing a)"
| "render_command (SidecarReceive a) = [''sidecar'', ''receive'', ''--bind'', sr_bind a, ''--path'', sr_path a,
     ''--health-path'', sr_health_path a, ''--max-events'', show_nat (sr_max_events a)] @ opt_arg ''--token'' (sr_token a) @
     flag_arg ''--allow-unauthenticated'' (sr_allow_unauthenticated a) @
     flag_arg ''--allow-non-loopback'' (sr_allow_non_loopback a)"

definition render_global :: "global_options \<Rightarrow> string list" where
  "render_global g = opt_arg ''--access-token'' (go_access_token g) @ opt_arg ''--token-file'' (go_token_file g) @
     opt_arg ''--client-id'' (go_client_id g) @ opt_arg ''--client-secret'' (go_client_secret g) @
     opt_arg ''--client-secret-file'' (go_client_secret_file g)"

definition render_cli :: "cli \<Rightarrow> string list" where
  "render_cli c = render_global (cli_global c) @ render_command (cli_cmd c)"

text \<open>The values that options can express.\<close>

definition at_most :: "nat \<Rightarrow> nat option \<Rightarrow> bool" where
  "at_most mx n \<longleftrightarrow> (case n of Some n \<Rightarrow> n \<le> mx | None \<Rightarrow> True)"

definition scope_ok :: "string \<Rightarrow> bool" where
  "scope_ok s \<longleftrightarrow> s \<noteq> [] \<and> list_all visible s \<and> CHR '','' \<notin> set s"

fun command_ok :: "cli_command \<Rightarrow> bool" where
  "command_ok (AuthDevice a) = list_all scope_ok (ad_scopes a)"
| "command_ok (RoomsList a) = at_most U16_MAX (rl_max a)"
| "command_ok (MessagesList a) = at_most U16_MAX (ml_max a)"
| "command_ok (MessagesDirect a) = (md_person_id a = None \<longleftrightarrow> md_person_email a \<noteq> None)"
| "command_ok (PollMessages a) = (pm_interval_seconds a \<le> U64_MAX \<and> pm_page_size a \<le> U16_MAX)"
| "command_ok (SidecarReceive a) = (sr_path a \<noteq> sr_health_path a \<and> sr_max_events a \<le> U64_MAX)"
| "command_ok _ = True"

subsection \<open>Reading them back\<close>

definition opt_upd :: "(string \<Rightarrow> 'a \<Rightarrow> 'a) \<Rightarrow> string option \<Rightarrow> 'a \<Rightarrow> 'a" where
  "opt_upd f v a = (case v of Some s \<Rightarrow> f s a | None \<Rightarrow> a)"

lemma parse_value: "hit_of opts n = NextHit m f \<Longrightarrow>
    parse_options w opts (n # v # rest) a = and_then (f v a) (parse_options w opts rest)"
  by (simp add: parse_options.simps(3))

lemma parse_flag: "hit_of opts n = FlagHit f \<Longrightarrow> parse_options w opts (n # rest) a = parse_options w opts rest (f a)"
  by (cases rest) (simp_all add: parse_options.simps(2,3))

lemma parse_flag_arg: "hit_of opts n = FlagHit f \<Longrightarrow>
    parse_options w opts (flag_arg n b @ rest) a = parse_options w opts rest (if b then f a else a)"
  using parse_flag [of opts n f w rest a] by (simp add: flag_arg_def)

lemma parse_opt_arg: "hit_of opts n = NextHit m (\<lambda>v a. Inr (f v a)) \<Longrightarrow>
    parse_options w opts (opt_arg n v @ rest) a = parse_options w opts rest (opt_upd f v a)"
  by (cases v) (simp_all add: opt_arg_def opt_upd_def parse_value)

lemma parse_num_arg:
  assumes "hit_of opts n = NextHit m (\<lambda>v a. and_then (parse_u16 k v) (\<lambda>x. Inr (f x a)))" "at_most U16_MAX v"
  shows "parse_options w opts (num_arg n v @ rest) a =
    parse_options w opts rest (case v of Some x \<Rightarrow> f x a | None \<Rightarrow> a)"
  using assms by (cases v) (simp_all add: num_arg_def opt_arg_def at_most_def parse_u16_def parse_uint_show_nat parse_value)

lemmas cursor = setter_def take_option_def strip_prefix_def starts_with_def

lemma split_join:
  assumes "\<forall>s\<in>set ss. \<forall>x\<in>set s. \<not> p x" "p c" "ss \<noteq> []"
  shows "split_with p (join_with [c] ss) = ss"
  using assms
proof (induction ss)
  case (Cons s ss)
  show ?case
  proof (cases ss)
    case Nil
    with Cons.prems show ?thesis by (simp add: join_with_def split_with_none)
  next
    case (Cons t ts)
    then have "join_with [c] (s # ss) = s @ c # join_with [c] ss" by (simp add: join_with_def)
    with Cons Cons.IH Cons.prems show ?thesis by (simp add: split_with_append_sep)
  qed
qed simp

lemma parse_scopes_join: "list_all scope_ok ss \<Longrightarrow> ss \<noteq> [] \<Longrightarrow> parse_scopes (join_with '','' ss) = ss"
proof -
  assume ss: "list_all scope_ok ss" "ss \<noteq> []"
  have "\<not> scope_separator x" if "s \<in> set ss" "x \<in> set s" for s x
  proof -
    have "visible x" "x \<noteq> CHR '',''" using that ss(1) by (auto simp: list_all_iff scope_ok_def)
    then show ?thesis by (auto simp: visible_def scope_separator_def)
  qed
  moreover have "scope_separator (CHR '','')" by (simp add: scope_separator_def)
  ultimately have "split_with scope_separator (join_with '','' ss) = ss" using ss(2) split_join by blast
  moreover have "map trim ss = ss" by (rule map_idI) (use ss(1) in \<open>auto simp: list_all_iff scope_ok_def intro!: trim_visible\<close>)
  moreover have "filter (\<lambda>s. s \<noteq> []) ss = ss" using ss(1) by (auto simp: filter_id_conv list_all_iff scope_ok_def)
  ultimately show ?thesis by (simp add: parse_scopes_def)
qed

lemmas parse_flag_last = parse_flag_arg [where rest = "[]", unfolded append_Nil2]
lemmas parse_opt_last = parse_opt_arg [where rest = "[]", unfolded append_Nil2]

subsection \<open>The tables\<close>

lemma auth_device_hits:
  "hit_of auth_device_opts ''--stdout-token'' = FlagHit (\<lambda>a. a\<lparr>ad_stdout_token := True\<rparr>)"
  "hit_of auth_device_opts ''--client-id'' = NextHit ''--client-id'' (\<lambda>v a. Inr (a\<lparr>ad_client_id := Some v\<rparr>))"
  "hit_of auth_device_opts ''--client-secret'' = NextHit ''--client-secret'' (\<lambda>v a. Inr (a\<lparr>ad_client_secret := Some v\<rparr>))"
  "hit_of auth_device_opts ''--client-secret-file'' = NextHit ''--client-secret-file'' (\<lambda>v a. Inr (a\<lparr>ad_client_secret_file := Some v\<rparr>))"
  "hit_of auth_device_opts ''--token-file'' = NextHit ''--token-file'' (\<lambda>v a. Inr (a\<lparr>ad_token_file := Some v\<rparr>))"
  "hit_of auth_device_opts ''--access-token-file'' = NextHit ''--access-token-file'' (\<lambda>v a. Inr (a\<lparr>ad_access_token_file := Some v\<rparr>))"
  "hit_of auth_device_opts ''--access-token-file-group-readable'' = FlagHit (\<lambda>a. a\<lparr>ad_access_token_file_group_readable := True\<rparr>)"
  "hit_of auth_device_opts ''--scopes'' = NextHit ''--scopes'' (\<lambda>v a. Inr (a\<lparr>ad_scopes := ad_scopes a @ parse_scopes v\<rparr>))"
  "hit_of auth_device_opts ''--scope'' = NextHit ''--scope'' (\<lambda>v a. Inr (a\<lparr>ad_scopes := ad_scopes a @ parse_scopes v\<rparr>))"
  by (simp_all add: auth_device_opts_def cursor)

lemmas auth_device_reads = auth_device_hits(1) [THEN parse_flag_arg]
  auth_device_hits(1) [THEN parse_flag_last]
  auth_device_hits(2) [THEN parse_opt_arg]
  auth_device_hits(2) [THEN parse_opt_last]
  auth_device_hits(2) [THEN parse_value]
  auth_device_hits(3) [THEN parse_opt_arg]
  auth_device_hits(3) [THEN parse_opt_last]
  auth_device_hits(3) [THEN parse_value]
  auth_device_hits(4) [THEN parse_opt_arg]
  auth_device_hits(4) [THEN parse_opt_last]
  auth_device_hits(4) [THEN parse_value]
  auth_device_hits(5) [THEN parse_opt_arg]
  auth_device_hits(5) [THEN parse_opt_last]
  auth_device_hits(5) [THEN parse_value]
  auth_device_hits(6) [THEN parse_opt_arg]
  auth_device_hits(6) [THEN parse_opt_last]
  auth_device_hits(6) [THEN parse_value]
  auth_device_hits(7) [THEN parse_flag_arg]
  auth_device_hits(7) [THEN parse_flag_last]
  auth_device_hits(8) [THEN parse_value]
  auth_device_hits(9) [THEN parse_value]

lemma auth_refresh_hits:
  "hit_of auth_refresh_opts ''--client-id'' = NextHit ''--client-id'' (\<lambda>v a. Inr (a\<lparr>ar_client_id := Some v\<rparr>))"
  "hit_of auth_refresh_opts ''--client-secret'' = NextHit ''--client-secret'' (\<lambda>v a. Inr (a\<lparr>ar_client_secret := Some v\<rparr>))"
  "hit_of auth_refresh_opts ''--client-secret-file'' = NextHit ''--client-secret-file'' (\<lambda>v a. Inr (a\<lparr>ar_client_secret_file := Some v\<rparr>))"
  "hit_of auth_refresh_opts ''--token-file'' = NextHit ''--token-file'' (\<lambda>v a. Inr (a\<lparr>ar_token_file := Some v\<rparr>))"
  "hit_of auth_refresh_opts ''--access-token-file'' = NextHit ''--access-token-file'' (\<lambda>v a. Inr (a\<lparr>ar_access_token_file := Some v\<rparr>))"
  "hit_of auth_refresh_opts ''--access-token-file-group-readable'' = FlagHit (\<lambda>a. a\<lparr>ar_access_token_file_group_readable := True\<rparr>)"
  by (simp_all add: auth_refresh_opts_def cursor)

lemmas auth_refresh_reads = auth_refresh_hits(1) [THEN parse_opt_arg]
  auth_refresh_hits(1) [THEN parse_opt_last]
  auth_refresh_hits(1) [THEN parse_value]
  auth_refresh_hits(2) [THEN parse_opt_arg]
  auth_refresh_hits(2) [THEN parse_opt_last]
  auth_refresh_hits(2) [THEN parse_value]
  auth_refresh_hits(3) [THEN parse_opt_arg]
  auth_refresh_hits(3) [THEN parse_opt_last]
  auth_refresh_hits(3) [THEN parse_value]
  auth_refresh_hits(4) [THEN parse_opt_arg]
  auth_refresh_hits(4) [THEN parse_opt_last]
  auth_refresh_hits(4) [THEN parse_value]
  auth_refresh_hits(5) [THEN parse_opt_arg]
  auth_refresh_hits(5) [THEN parse_opt_last]
  auth_refresh_hits(5) [THEN parse_value]
  auth_refresh_hits(6) [THEN parse_flag_arg]
  auth_refresh_hits(6) [THEN parse_flag_last]

lemma rooms_list_hits:
  "hit_of rooms_list_opts ''--all'' = FlagHit (\<lambda>a. a\<lparr>rl_all := True\<rparr>)"
  "hit_of rooms_list_opts ''--max'' = NextHit ''--max'' (\<lambda>v a. and_then (parse_u16 ''--max'' v) (\<lambda>n. Inr (a\<lparr>rl_max := Some n\<rparr>)))"
  "hit_of rooms_list_opts ''--type'' = NextHit ''--type'' (\<lambda>v a. Inr (a\<lparr>rl_room_type := Some v\<rparr>))"
  "hit_of rooms_list_opts ''--team-id'' = NextHit ''--team-id'' (\<lambda>v a. Inr (a\<lparr>rl_team_id := Some v\<rparr>))"
  by (simp_all add: rooms_list_opts_def cursor)

lemmas rooms_list_reads = rooms_list_hits(1) [THEN parse_flag_arg]
  rooms_list_hits(1) [THEN parse_flag_last]
  rooms_list_hits(2) [THEN parse_num_arg]
  rooms_list_hits(3) [THEN parse_opt_arg]
  rooms_list_hits(3) [THEN parse_opt_last]
  rooms_list_hits(3) [THEN parse_value]
  rooms_list_hits(4) [THEN parse_opt_arg]
  rooms_list_hits(4) [THEN parse_opt_last]
  rooms_list_hits(4) [THEN parse_value]

lemma rooms_resolve_hits:
  "hit_of rooms_resolve_opts ''--room-id'' = NextHit ''--room-id'' (\<lambda>v a. Inr (a\<lparr>rr_room_id := Some v\<rparr>))"
  "hit_of rooms_resolve_opts ''--link'' = NextHit ''--link'' (\<lambda>v a. Inr (a\<lparr>rr_link := Some v\<rparr>))"
  "hit_of rooms_resolve_opts ''--title'' = NextHit ''--title'' (\<lambda>v a. Inr (a\<lparr>rr_title := Some v\<rparr>))"
  by (simp_all add: rooms_resolve_opts_def cursor)

lemmas rooms_resolve_reads = rooms_resolve_hits(1) [THEN parse_opt_arg]
  rooms_resolve_hits(1) [THEN parse_opt_last]
  rooms_resolve_hits(1) [THEN parse_value]
  rooms_resolve_hits(2) [THEN parse_opt_arg]
  rooms_resolve_hits(2) [THEN parse_opt_last]
  rooms_resolve_hits(2) [THEN parse_value]
  rooms_resolve_hits(3) [THEN parse_opt_arg]
  rooms_resolve_hits(3) [THEN parse_opt_last]
  rooms_resolve_hits(3) [THEN parse_value]

lemma messages_list_hits:
  "hit_of messages_list_opts ''--all'' = FlagHit (\<lambda>a. a\<lparr>vl_all := True\<rparr>)"
  "hit_of messages_list_opts ''--room-id'' = NextHit ''--room-id'' (\<lambda>v a. Inr (a\<lparr>vl_room_id := Some v\<rparr>))"
  "hit_of messages_list_opts ''--parent-id'' = NextHit ''--parent-id'' (\<lambda>v a. Inr (a\<lparr>vl_parent_id := Some v\<rparr>))"
  "hit_of messages_list_opts ''--max'' = NextHit ''--max'' (\<lambda>v a. and_then (parse_u16 ''--max'' v) (\<lambda>n. Inr (a\<lparr>vl_max := Some n\<rparr>)))"
  by (simp_all add: messages_list_opts_def cursor)

lemmas messages_list_reads = messages_list_hits(1) [THEN parse_flag_arg]
  messages_list_hits(1) [THEN parse_flag_last]
  messages_list_hits(2) [THEN parse_opt_arg]
  messages_list_hits(2) [THEN parse_opt_last]
  messages_list_hits(2) [THEN parse_value]
  messages_list_hits(3) [THEN parse_opt_arg]
  messages_list_hits(3) [THEN parse_opt_last]
  messages_list_hits(3) [THEN parse_value]
  messages_list_hits(4) [THEN parse_num_arg]

lemma messages_direct_hits:
  "hit_of messages_direct_opts ''--all'' = FlagHit (\<lambda>a. a\<lparr>md_all := True\<rparr>)"
  "hit_of messages_direct_opts ''--person-id'' = NextHit ''--person-id'' (\<lambda>v a. Inr (a\<lparr>md_person_id := Some v\<rparr>))"
  "hit_of messages_direct_opts ''--person-email'' = NextHit ''--person-email'' (\<lambda>v a. Inr (a\<lparr>md_person_email := Some v\<rparr>))"
  "hit_of messages_direct_opts ''--parent-id'' = NextHit ''--parent-id'' (\<lambda>v a. Inr (a\<lparr>md_parent_id := Some v\<rparr>))"
  by (simp_all add: messages_direct_opts_def cursor)

lemmas messages_direct_reads = messages_direct_hits(1) [THEN parse_flag_arg]
  messages_direct_hits(1) [THEN parse_flag_last]
  messages_direct_hits(2) [THEN parse_opt_arg]
  messages_direct_hits(2) [THEN parse_opt_last]
  messages_direct_hits(2) [THEN parse_value]
  messages_direct_hits(3) [THEN parse_opt_arg]
  messages_direct_hits(3) [THEN parse_opt_last]
  messages_direct_hits(3) [THEN parse_value]
  messages_direct_hits(4) [THEN parse_opt_arg]
  messages_direct_hits(4) [THEN parse_opt_last]
  messages_direct_hits(4) [THEN parse_value]

lemma messages_send_hits:
  "hit_of messages_send_opts ''--room-id'' = NextHit ''--room-id'' (\<lambda>v a. Inr (a\<lparr>vs_room_id := Some v\<rparr>))"
  "hit_of messages_send_opts ''--to-person-email'' = NextHit ''--to-person-email'' (\<lambda>v a. Inr (a\<lparr>vs_to_person_email := Some v\<rparr>))"
  "hit_of messages_send_opts ''--text'' = NextHit ''--text'' (\<lambda>v a. Inr (a\<lparr>vs_text := Some v\<rparr>))"
  "hit_of messages_send_opts ''--markdown'' = NextHit ''--markdown'' (\<lambda>v a. Inr (a\<lparr>vs_markdown := Some v\<rparr>))"
  "hit_of messages_send_opts ''--file'' = NextHit ''--file'' (\<lambda>v a. Inr (a\<lparr>vs_file_path := Some v\<rparr>))"
  "hit_of messages_send_opts ''--media-type'' = NextHit ''--media-type'' (\<lambda>v a. Inr (a\<lparr>vs_media_type := Some v\<rparr>))"
  "hit_of messages_send_opts ''--file-name'' = NextHit ''--file-name'' (\<lambda>v a. Inr (a\<lparr>vs_file_name := Some v\<rparr>))"
  by (simp_all add: messages_send_opts_def cursor)

lemmas messages_send_reads = messages_send_hits(1) [THEN parse_opt_arg]
  messages_send_hits(1) [THEN parse_opt_last]
  messages_send_hits(1) [THEN parse_value]
  messages_send_hits(2) [THEN parse_opt_arg]
  messages_send_hits(2) [THEN parse_opt_last]
  messages_send_hits(2) [THEN parse_value]
  messages_send_hits(3) [THEN parse_opt_arg]
  messages_send_hits(3) [THEN parse_opt_last]
  messages_send_hits(3) [THEN parse_value]
  messages_send_hits(4) [THEN parse_opt_arg]
  messages_send_hits(4) [THEN parse_opt_last]
  messages_send_hits(4) [THEN parse_value]
  messages_send_hits(5) [THEN parse_opt_arg]
  messages_send_hits(5) [THEN parse_opt_last]
  messages_send_hits(5) [THEN parse_value]
  messages_send_hits(6) [THEN parse_opt_arg]
  messages_send_hits(6) [THEN parse_opt_last]
  messages_send_hits(6) [THEN parse_value]
  messages_send_hits(7) [THEN parse_opt_arg]
  messages_send_hits(7) [THEN parse_opt_last]
  messages_send_hits(7) [THEN parse_value]

lemma messages_reply_hits:
  "hit_of messages_reply_opts ''--room-id'' = NextHit ''--room-id'' (\<lambda>v a. Inr (a\<lparr>vr_room_id := Some v\<rparr>))"
  "hit_of messages_reply_opts ''--parent-id'' = NextHit ''--parent-id'' (\<lambda>v a. Inr (a\<lparr>vr_parent_id := Some v\<rparr>))"
  "hit_of messages_reply_opts ''--text'' = NextHit ''--text'' (\<lambda>v a. Inr (a\<lparr>vr_text := Some v\<rparr>))"
  "hit_of messages_reply_opts ''--markdown'' = NextHit ''--markdown'' (\<lambda>v a. Inr (a\<lparr>vr_markdown := Some v\<rparr>))"
  by (simp_all add: messages_reply_opts_def cursor)

lemmas messages_reply_reads = messages_reply_hits(1) [THEN parse_opt_arg]
  messages_reply_hits(1) [THEN parse_opt_last]
  messages_reply_hits(1) [THEN parse_value]
  messages_reply_hits(2) [THEN parse_opt_arg]
  messages_reply_hits(2) [THEN parse_opt_last]
  messages_reply_hits(2) [THEN parse_value]
  messages_reply_hits(3) [THEN parse_opt_arg]
  messages_reply_hits(3) [THEN parse_opt_last]
  messages_reply_hits(3) [THEN parse_value]
  messages_reply_hits(4) [THEN parse_opt_arg]
  messages_reply_hits(4) [THEN parse_opt_last]
  messages_reply_hits(4) [THEN parse_value]

lemma poll_hits:
  "hit_of poll_opts ''--emit-existing'' = FlagHit (\<lambda>a. a\<lparr>vp_emit_existing := True\<rparr>)"
  "hit_of poll_opts ''--room-id'' = NextHit ''--room-id'' (\<lambda>v a. Inr (a\<lparr>vp_room_id := Some v\<rparr>))"
  "hit_of poll_opts ''--interval-seconds'' = NextHit ''--interval-seconds'' (\<lambda>v a. and_then (parse_u64 ''--interval-seconds'' v) (\<lambda>n. Inr (a\<lparr>vp_interval_seconds := n\<rparr>)))"
  "hit_of poll_opts ''--max'' = NextHit ''--max'' (\<lambda>v a. and_then (parse_u16 ''--max'' v) (\<lambda>n. Inr (a\<lparr>vp_page_size := n\<rparr>)))"
  by (simp_all add: poll_opts_def cursor)

lemmas poll_reads = poll_hits(1) [THEN parse_flag_arg]
  poll_hits(1) [THEN parse_flag_last]
  poll_hits(2) [THEN parse_opt_arg]
  poll_hits(2) [THEN parse_opt_last]
  poll_hits(2) [THEN parse_value]
  poll_hits(3) [THEN parse_value]
  poll_hits(4) [THEN parse_value]

lemma sidecar_hits:
  "hit_of sidecar_opts ''--allow-unauthenticated'' = FlagHit (\<lambda>a. a\<lparr>sr_allow_unauthenticated := True\<rparr>)"
  "hit_of sidecar_opts ''--allow-non-loopback'' = FlagHit (\<lambda>a. a\<lparr>sr_allow_non_loopback := True\<rparr>)"
  "hit_of sidecar_opts ''--bind'' = NextHit ''--bind'' (\<lambda>v a. Inr (a\<lparr>sr_bind := v\<rparr>))"
  "hit_of sidecar_opts ''--path'' = NextHit ''--path'' (\<lambda>v a. Inr (a\<lparr>sr_path := v\<rparr>))"
  "hit_of sidecar_opts ''--health-path'' = NextHit ''--health-path'' (\<lambda>v a. Inr (a\<lparr>sr_health_path := v\<rparr>))"
  "hit_of sidecar_opts ''--token'' = NextHit ''--token'' (\<lambda>v a. Inr (a\<lparr>sr_token := Some v\<rparr>))"
  "hit_of sidecar_opts ''--max-events'' = NextHit ''--max-events'' (\<lambda>v a. and_then (parse_usize ''--max-events'' v) (\<lambda>n. Inr (a\<lparr>sr_max_events := n\<rparr>)))"
  by (simp_all add: sidecar_opts_def cursor)

lemmas sidecar_reads = sidecar_hits(1) [THEN parse_flag_arg]
  sidecar_hits(1) [THEN parse_flag_last]
  sidecar_hits(2) [THEN parse_flag_arg]
  sidecar_hits(2) [THEN parse_flag_last]
  sidecar_hits(3) [THEN parse_value]
  sidecar_hits(4) [THEN parse_value]
  sidecar_hits(5) [THEN parse_value]
  sidecar_hits(6) [THEN parse_opt_arg]
  sidecar_hits(6) [THEN parse_opt_last]
  sidecar_hits(6) [THEN parse_value]
  sidecar_hits(7) [THEN parse_value]

subsection \<open>The commands\<close>

lemmas parse_defs = parse_command_def parse_auth_def parse_rooms_def parse_messages_def parse_poll_def parse_sidecar_def
  parse_auth_device_def parse_auth_refresh_def parse_messages_send_def parse_messages_reply_def required_arg_def
  required_value_def no_more_def

lemmas opt_upds = opt_upd_def opt_arg_def flag_arg_def

abbreviation reads_back :: "cli_command \<Rightarrow> bool" where
  "reads_back c \<equiv> \<forall>g. parse_command g (render_command c) = Inr \<lparr>cli_global = g, cli_cmd = c\<rparr>"

lemma one_value_reads: "hit_of (one_value n) n = NextHit n (\<lambda>v a. Inr (Some v))"
  by (simp add: one_value_def cursor)

lemma read_single: "reads_back Me" "reads_back (RoomsGet r)" "reads_back (MessagesGet m)" "reads_back (MessagesDelete m)"
  by (simp_all add: parse_defs parse_value [OF one_value_reads])

lemma read_auth_refresh: "reads_back (AuthRefresh a)"
  by (cases a) (simp add: parse_defs auth_refresh_reads, simp add: opt_upd_def split: option.split)

lemma read_auth_device:
  assumes "list_all scope_ok (ad_scopes a)"
  shows "reads_back (AuthDevice a)"
  using assms
  by (cases a) (simp add: parse_defs auth_device_reads parse_scopes_join, simp add: opt_upd_def split: option.split)

lemma read_rooms: "at_most U16_MAX (rl_max a) \<Longrightarrow> reads_back (RoomsList a)" "reads_back (RoomsResolve r)"
  subgoal by (cases a) (simp add: parse_defs rooms_list_reads rooms_list_default_def, simp add: opt_upd_def split: option.split)
  subgoal by (cases r) (simp add: parse_defs rooms_resolve_reads, simp add: opt_upd_def split: option.split)
  done

lemma read_messages_list: "at_most U16_MAX (ml_max a) \<Longrightarrow> reads_back (MessagesList a)"
  by (cases a) (simp add: parse_defs messages_list_reads, simp add: opt_upd_def split: option.split)

lemma read_messages_direct: "(md_person_id a = None \<longleftrightarrow> md_person_email a \<noteq> None) \<Longrightarrow> reads_back (MessagesDirect a)"
  by (cases a) (simp add: parse_defs messages_direct_reads, auto simp: opt_upd_def split: option.split)

lemma read_messages_send: "reads_back (MessagesSend a)"
proof -
  obtain t b f where a: "a = \<lparr>ms_target = t, ms_body = b, ms_file = f\<rparr>" by (cases a)
  show ?thesis
  proof (cases f)
    case None
    with a show ?thesis
      by (cases t; cases b) (simp_all add: parse_defs render_file_def messages_send_reads message_body_def)
  next
    case (Some fa)
    obtain p mt n where "fa = \<lparr>fa_path = p, fa_media_type = mt, fa_file_name = n\<rparr>" by (cases fa)
    with a Some show ?thesis
      by (cases t; cases b)
        (simp_all add: parse_defs render_file_def messages_send_reads message_body_def, simp_all add: opt_upd_def split: option.split)
  qed
qed

lemma read_messages_reply: "reads_back (MessagesReply a)"
proof -
  obtain r p b where a: "a = \<lparr>mr_room_id = r, mr_parent_id = p, mr_body = b\<rparr>" by (cases a)
  then show ?thesis by (cases b) (simp_all add: parse_defs messages_reply_reads message_body_def)
qed

lemma read_poll: "pm_interval_seconds a \<le> U64_MAX \<Longrightarrow> pm_page_size a \<le> U16_MAX \<Longrightarrow> reads_back (PollMessages a)"
  by (cases a) (simp add: parse_defs poll_reads parse_u64_def parse_u16_def parse_uint_show_nat)

lemma read_sidecar:
  "sr_path a \<noteq> sr_health_path a \<Longrightarrow> sr_max_events a \<le> U64_MAX \<Longrightarrow> reads_back (SidecarReceive a)"
  by (cases a)
     (simp add: parse_defs sidecar_reads parse_usize_def parse_uint_show_nat sidecar_default_def, simp add: opt_upd_def split: option.split)

lemma read_command:
  assumes "command_ok c" "c \<noteq> Help"
  shows "reads_back c"
  using assms read_single read_auth_refresh read_auth_device read_rooms read_messages_list read_messages_direct
    read_messages_send read_messages_reply read_poll read_sidecar
  by (cases c) (simp_all only: command_ok.simps, (blast | (elim conjE, rule read_sidecar, assumption+))+)

subsection \<open>Global options\<close>

lemma global_hits:
  "hit_of global_opts ''--access-token'' = NextHit ''--access-token'' (\<lambda>v a. Inr (a\<lparr>go_access_token := Some v\<rparr>))"
  "hit_of global_opts ''--token-file'' = NextHit ''--token-file'' (\<lambda>v a. Inr (a\<lparr>go_token_file := Some v\<rparr>))"
  "hit_of global_opts ''--client-id'' = NextHit ''--client-id'' (\<lambda>v a. Inr (a\<lparr>go_client_id := Some v\<rparr>))"
  "hit_of global_opts ''--client-secret'' = NextHit ''--client-secret'' (\<lambda>v a. Inr (a\<lparr>go_client_secret := Some v\<rparr>))"
  "hit_of global_opts ''--client-secret-file'' = NextHit ''--client-secret-file'' (\<lambda>v a. Inr (a\<lparr>go_client_secret_file := Some v\<rparr>))"
  by (simp_all add: global_opts_def cursor)

lemma parse_global_arg:
  assumes "hit_of global_opts n = NextHit m (\<lambda>v a. Inr (f v a))" "starts_with n ''-''" "n \<noteq> ''--help''" "n \<noteq> ''-h''"
  shows "parse_cli (opt_arg n v @ rest) g = parse_cli rest (opt_upd f v g)"
  using assms by (cases v) (simp_all add: opt_arg_def opt_upd_def)

lemmas global_reads = global_hits(1) [THEN parse_global_arg] global_hits(2) [THEN parse_global_arg]
  global_hits(3) [THEN parse_global_arg] global_hits(4) [THEN parse_global_arg] global_hits(5) [THEN parse_global_arg]

lemma parse_globals: "parse_cli (render_global g @ rest) global_default = parse_cli rest g"
  by (cases g)
     (simp add: render_global_def global_default_def global_reads starts_with_def, simp add: opt_upd_def split: option.split)

lemma parse_cli_command: "args = [] \<or> \<not> starts_with (hd args) ''-'' \<Longrightarrow> parse_cli args g = parse_command g args"
  by (cases "(args, g)" rule: parse_cli.cases) (auto simp: starts_with_def)

lemma render_command_word: "c \<noteq> Help \<Longrightarrow> \<not> starts_with (hd (render_command c)) ''-''"
  by (cases c) (simp_all add: starts_with_def)

text \<open>
  C32. The command line expresses every command: a command and global options whose values are in
  the ranges of their types, written out as arguments, are parsed as themselves, whatever texts
  they carry; also texts that look like options.
\<close>

theorem cli_roundtrip:
  assumes "command_ok (cli_cmd c)"
  shows "parse_cli (render_cli c) global_default = Inr c"
proof (cases "cli_cmd c = Help")
  case True
  then show ?thesis by (cases c) (simp add: render_cli_def parse_globals starts_with_def)
next
  case False
  with read_command [OF assms] render_command_word show ?thesis
    by (cases c) (simp add: render_cli_def parse_globals parse_cli_command)
qed

lemma cli_roundtrip_witness:
  "parse_cli [''--token-file'', ''--help'', ''rooms'', ''list'', ''--max'', ''7'', ''--type'', ''--all''] global_default =
     Inr \<lparr>cli_global = global_default\<lparr>go_token_file := Some ''--help''\<rparr>,
       cli_cmd = RoomsList \<lparr>rl_max = Some 7, rl_room_type = Some ''--all'', rl_team_id = None, rl_all = False\<rparr>\<rparr>"
proof -
  have "show_nat 7 = ''7''" by code_simp
  then show ?thesis
    using cli_roundtrip [of "\<lparr>cli_global = global_default\<lparr>go_token_file := Some ''--help''\<rparr>,
        cli_cmd = RoomsList \<lparr>rl_max = Some 7, rl_room_type = Some ''--all'', rl_team_id = None, rl_all = False\<rparr>\<rparr>"]
    by (simp add: render_cli_def render_global_def global_default_def opt_arg_def flag_arg_def num_arg_def at_most_def)
qed

end
