(* ===== verification/TokenFiles.thy ===== *)
theory TokenFiles imports PathLock Http TokenProvider begin

text \<open>
  The files the command line tool keeps its tokens in (\<open>src/bin/webex-headless.rs\<close>): how their
  paths are compared before anything is written, how a file is replaced, and the token store
  on such a file. The file system is the view the state locks use, and a map from paths to
  files; every fault of a write is an input.
\<close>

subsection \<open>Paths\<close>

text \<open>
  \<open>Path::components\<close>: empty pieces do not count, nor does a dot that does not begin the path.
\<close>

definition components_of :: "string \<Rightarrow> path" where
  "components_of p =
     (let ps = split_on (CHR ''/'') p in
      (if starts_with p ''/'' then [RootDir] else if hd ps = ''.'' then [CurDir] else []) @
      map (\<lambda>s. if s = ''..'' then ParentDir else Normal s) (filter (\<lambda>s. s \<noteq> [] \<and> s \<noteq> ''.'') ps))"

fun component_text :: "component \<Rightarrow> string" where
  "component_text RootDir = ''/''"
| "component_text CurDir = ''.''"
| "component_text ParentDir = ''..''"
| "component_text (Normal n) = n"

text \<open>An error of the tool: its own message, one that quotes a text in its middle, or an error that was boxed.\<close>

datatype run_error = Cli string | CliQuoted string string string | Boxed error

type_synonym 'a run_result = "run_error + 'a"

fun push_lexical_component :: "path \<Rightarrow> component \<Rightarrow> path" where
  "push_lexical_component p CurDir = p"
| "push_lexical_component p ParentDir =
     (case path_parent p of
        Some q \<Rightarrow> q
      | None \<Rightarrow> if is_absolute p then p else p @ [ParentDir])"
| "push_lexical_component p RootDir = [RootDir]"
| "push_lexical_component p (Normal n) = p @ [Normal n]"

definition start_of :: "fs_view \<Rightarrow> path \<Rightarrow> path run_result" where
  "start_of fs p = (if is_absolute p then Inr [] else map_err Boxed (fs_current_dir fs))"

definition lexical_absolute_path :: "fs_view \<Rightarrow> path \<Rightarrow> path run_result" where
  "lexical_absolute_path fs p =
     and_then (start_of fs p) (\<lambda>base. Inr (foldl push_lexical_component base p))"

text \<open>
  One component of \<open>canonical_existing_ancestor_path\<close>: the part of the path that exists is
  resolved, from the first component that does not exist on the rest is kept as it is.
\<close>

fun resolve_component :: "fs_view \<Rightarrow> path \<times> path \<Rightarrow> component \<Rightarrow> path \<times> path" where
  "resolve_component fs (found, rest) RootDir = ([RootDir], [])"
| "resolve_component fs (found, rest) CurDir = (found, rest)"
| "resolve_component fs (found, rest) ParentDir =
     (if rest = [] then (push_lexical_component found ParentDir, rest)
      else (found, push_lexical_component rest ParentDir))"
| "resolve_component fs (found, rest) (Normal n) =
     (if rest = [] then
        (case fs_canonicalize fs (found @ [Normal n]) of
           Inr c \<Rightarrow> (c, rest)
         | Inl _ \<Rightarrow> (found, [Normal n]))
      else (found, rest @ [Normal n]))"

definition canonical_existing_ancestor_path :: "fs_view \<Rightarrow> path \<Rightarrow> path option run_result" where
  "canonical_existing_ancestor_path fs p =
     and_then (start_of fs p) (\<lambda>base.
       case foldl (resolve_component fs) (base, []) p of
         (resolved, unresolved) \<Rightarrow> Inr (Some (foldl push_lexical_component resolved unresolved)))"

definition ascii_case_fold_path_components :: "path \<Rightarrow> string list" where
  "ascii_case_fold_path_components p = map (\<lambda>c. to_ascii_lowercase (lossy (component_text c))) p"

definition path_components_overlap :: "path \<Rightarrow> path \<Rightarrow> bool" where
  "path_components_overlap candidate ancestor =
     (let c = ascii_case_fold_path_components candidate; a = ascii_case_fold_path_components ancestor in
      take (length a) c = a)"

definition paths_overlap_for_token_output :: "path \<Rightarrow> path \<Rightarrow> bool" where
  "paths_overlap_for_token_output l r \<longleftrightarrow> path_components_overlap l r \<or> path_components_overlap r l"

definition canonical_parent_paths_overlap :: "fs_view \<Rightarrow> path \<Rightarrow> path \<Rightarrow> bool run_result" where
  "canonical_parent_paths_overlap fs l r =
     and_then (canonical_existing_ancestor_path fs l) (\<lambda>l.
     and_then (canonical_existing_ancestor_path fs r) (\<lambda>r.
       Inr (case (l, r) of
              (Some l, Some r) \<Rightarrow> paths_overlap_for_token_output l r
            | _ \<Rightarrow> False)))"

definition auth_path_has_non_ascii :: "path \<Rightarrow> bool" where
  "auth_path_has_non_ascii p \<longleftrightarrow> \<not> list_all (\<lambda>c. is_ascii (component_text c)) p"

definition ensure_distinct_auth_paths :: "fs_view \<Rightarrow> path \<Rightarrow> path \<Rightarrow> string \<Rightarrow> string \<Rightarrow> unit run_result" where
  "ensure_distinct_auth_paths fs l r non_ascii equivalent =
     and_then (lexical_absolute_path fs l) (\<lambda>la.
     and_then (lexical_absolute_path fs r) (\<lambda>ra.
       if auth_path_has_non_ascii la \<or> auth_path_has_non_ascii ra then Inl (Cli non_ascii)
       else if paths_overlap_for_token_output la ra then Inl (Cli equivalent)
       else and_then (canonical_parent_paths_overlap fs l r) (\<lambda>same.
         if same then Inl (Cli equivalent) else Inr ())))"

definition ensure_distinct_token_paths :: "fs_view \<Rightarrow> path \<Rightarrow> path option \<Rightarrow> unit run_result" where
  "ensure_distinct_token_paths fs t a =
     (case a of
        None \<Rightarrow> Inr ()
      | Some a \<Rightarrow> ensure_distinct_auth_paths fs t a
          ''--token-file and --access-token-file must use ASCII paths when both are set''
          ''--token-file and --access-token-file must differ'')"

definition ensure_distinct_auth_file_paths ::
    "fs_view \<Rightarrow> path option \<Rightarrow> path option \<Rightarrow> path option \<Rightarrow> unit run_result" where
  "ensure_distinct_auth_file_paths fs t a s =
     and_then (case t of Some t \<Rightarrow> ensure_distinct_token_paths fs t a | None \<Rightarrow> Inr ()) (\<lambda>_.
     case s of
       None \<Rightarrow> Inr ()
     | Some s \<Rightarrow>
         and_then (case t of
             Some t \<Rightarrow> ensure_distinct_auth_paths fs t s
               ''--client-secret-file and token output paths must use ASCII paths when combined''
               ''--client-secret-file must differ from --token-file''
           | None \<Rightarrow> Inr ()) (\<lambda>_.
         case a of
           Some a \<Rightarrow> ensure_distinct_auth_paths fs a s
             ''--client-secret-file and token output paths must use ASCII paths when combined''
             ''--client-secret-file must differ from --access-token-file''
         | None \<Rightarrow> Inr ()))"

subsection \<open>Replacing a file\<close>

record token_file =
  tf_bytes :: string
  tf_mode :: "32 word"

type_synonym files = "path \<Rightarrow> token_file option"

text \<open>
  Where a replacement fails. A process that is killed leaves the files as the fault after its
  last step does.
\<close>

datatype save_stop = AtDirs | AtOpen | AtWrite nat | AtSync | AtRename | AtMode

record save_faults =
  sv_stop :: "(save_stop \<times> error) option"
  sv_removed :: bool

definition access_token_file_mode :: "bool \<Rightarrow> 32 word" where
  "access_token_file_mode group_readable = (if group_readable then 0x1A0 else 0x180)"

text \<open>\<open>with_file_name\<close>: the last component is replaced when it is a name, and appended to otherwise.\<close>

definition temp_name :: "nat \<Rightarrow> path \<Rightarrow> path" where
  "temp_name pid p =
     (case file_name p of
        Some c \<Rightarrow> butlast p @
          [Normal (''.'' @ (if utf8_valid (component_text c) then component_text c else ''token'') @ ''.tmp.'' @ show_nat pid)]
      | None \<Rightarrow> p @ [Normal (''.token.tmp.'' @ show_nat pid)])"

text \<open>
  \<open>umask\<close> holds the bits a new file does not get. A removed temporary file is gone before the
  new one is made, which fails when one is still there.
\<close>

definition save_bytes_file ::
    "32 word \<Rightarrow> nat \<Rightarrow> save_faults \<Rightarrow> path \<Rightarrow> string \<Rightarrow> 32 word \<Rightarrow> files \<Rightarrow> unit res \<times> files" where
  "save_bytes_file umask pid io p bytes mode fs =
     (let tmp = temp_name pid p;
          stops = (\<lambda>s. case sv_stop io of Some (s', e) \<Rightarrow> if s = s' then Some e else None | None \<Rightarrow> None);
          fs1 = (if sv_removed io then fs(tmp := None) else fs);
          made = (\<lambda>b. fs1(tmp := Some \<lparr>tf_bytes = b, tf_mode = and mode (not umask)\<rparr>));
          moved = fs1(tmp := None, p := Some \<lparr>tf_bytes = bytes, tf_mode = and mode (not umask)\<rparr>) in
      case (if path_parent p \<in> {None, Some []} then None else stops AtDirs) of Some e \<Rightarrow> (Inl e, fs) | None \<Rightarrow>
      (case stops AtOpen of Some e \<Rightarrow> (Inl e, fs1) | None \<Rightarrow>
       if fs1 tmp \<noteq> None then (Inl (Io AlreadyExists ''file exists''), fs1) else
      (case sv_stop io of Some (AtWrite k, e) \<Rightarrow> (Inl e, made (take k bytes)) | _ \<Rightarrow>
      (case stops AtSync of Some e \<Rightarrow> (Inl e, made bytes) | None \<Rightarrow>
      (case stops AtRename of Some e \<Rightarrow> (Inl e, made bytes) | None \<Rightarrow>
      (case stops AtMode of Some e \<Rightarrow> (Inl e, moved) | None \<Rightarrow>
       (Inr (), moved(p := Some \<lparr>tf_bytes = bytes, tf_mode = mode\<rparr>))))))))"

subsection \<open>The token store on a file\<close>

text \<open>The JSON crate's codec of a token set is a parameter.\<close>

record token_codec =
  tk_ser :: "token_set \<Rightarrow> string res"
  tk_de :: "string \<Rightarrow> token_set res"

record file_io =
  fi_umask :: "32 word"
  fi_pid :: nat
  fi_read :: "nat \<Rightarrow> error option"
  fi_save :: "nat \<Rightarrow> save_faults"

text \<open>Reading the file in the \<open>n\<close>th access; a file that is not there is an error of its own kind.\<close>

definition read_file :: "file_io \<Rightarrow> nat \<Rightarrow> path \<Rightarrow> files \<Rightarrow> string res" where
  "read_file io n p fs =
     (case fi_read io n of
        Some e \<Rightarrow> Inl e
      | None \<Rightarrow> (case fs p of None \<Rightarrow> Inl (Io NotFound ''no such file'') | Some f \<Rightarrow> Inr (tf_bytes f)))"

definition save_token_file ::
    "token_codec \<Rightarrow> file_io \<Rightarrow> path \<Rightarrow> nat \<Rightarrow> token_set \<Rightarrow> files \<Rightarrow> unit res \<times> files" where
  "save_token_file cd io p n t =
     seq_op (lift_res (tk_ser cd t)) (\<lambda>bytes.
       save_bytes_file (fi_umask io) (fi_pid io) (fi_save io n) p bytes 0x180)"

definition save_access_token_file ::
    "file_io \<Rightarrow> path \<Rightarrow> nat \<Rightarrow> string \<Rightarrow> 32 word \<Rightarrow> files \<Rightarrow> unit res \<times> files" where
  "save_access_token_file io p n t mode = save_bytes_file (fi_umask io) (fi_pid io) (fi_save io n) p t mode"

definition read_token_file :: "token_codec \<Rightarrow> file_io \<Rightarrow> path \<Rightarrow> nat \<Rightarrow> files \<Rightarrow> token_set res" where
  "read_token_file cd io p n fs = and_then (read_file io n p fs) (tk_de cd)"

definition file_load :: "token_codec \<Rightarrow> file_io \<Rightarrow> path \<Rightarrow> nat \<Rightarrow> files \<Rightarrow> token_set option res" where
  "file_load cd io p n fs =
     (case read_file io n p fs of
        Inr bytes \<Rightarrow> and_then (tk_de cd bytes) (\<lambda>t. Inr (Some t))
      | Inl (Io NotFound t) \<Rightarrow> Inr None
      | Inl e \<Rightarrow> Inl e)"

end
