(* ===== verification/CliAuth.thy ===== *)
theory CliAuth imports CliParse TokenFiles begin

text \<open>
  Where the command line tool takes its token from, and its two commands that obtain one
  (\<open>src/bin/webex-headless.rs\<close>): a refresh of the token file and the device login. The state is
  the files, what has been sent to the token endpoint and what has been shown to the user.
\<close>

subsection \<open>Surroundings\<close>

record cli_env =
  ev_var :: "string \<Rightarrow> string option"
  ev_fs :: fs_view
  ev_io :: file_io
  ev_codec :: token_codec
  ev_oauth :: oauth_env
  ev_poll_time :: "nat \<Rightarrow> duration"
  ev_sleep :: "nat \<Rightarrow> duration \<Rightarrow> duration"
  ev_instant_max :: nat

record run_state =
  ru_files :: files
  ru_tick :: nat
  ru_sent :: oauth_sent
  ru_shown :: "string list"

type_synonym 'a run_op = "run_state \<Rightarrow> 'a run_result \<times> run_state"

text \<open>A panic ends the process as an error does; its text is not the tool's.\<close>

definition panicked :: run_error where
  "panicked = Boxed (Other ''panic'')"

definition DURATION_MAX :: nat where
  "DURATION_MAX = U64_MAX * SEC + 999999999"

text \<open>One access to a file; \<open>io n\<close> is what the \<open>n\<close>th access does.\<close>

definition on_files :: "(nat \<Rightarrow> files \<Rightarrow> 'a res \<times> files) \<Rightarrow> 'a run_op" where
  "on_files io st =
     (case io (ru_tick st) (ru_files st) of
        (r, fs) \<Rightarrow> (map_err Boxed r, st\<lparr>ru_files := fs, ru_tick := Suc (ru_tick st)\<rparr>))"

definition reads :: "(nat \<Rightarrow> files \<Rightarrow> 'a res) \<Rightarrow> nat \<Rightarrow> files \<Rightarrow> 'a res \<times> files" where
  "reads f n fs = (f n fs, fs)"

definition show_line :: "string \<Rightarrow> unit run_op" where
  "show_line s st = (Inr (), st\<lparr>ru_shown := ru_shown st @ [s]\<rparr>)"

subsection \<open>Settings\<close>

definition nonblank :: "string option \<Rightarrow> string option" where
  "nonblank v = (case v of Some s \<Rightarrow> if trim s = [] then None else Some s | None \<Rightarrow> None)"

definition nonempty_path :: "string option \<Rightarrow> string option" where
  "nonempty_path v = (case v of Some s \<Rightarrow> if s = [] then None else Some s | None \<Rightarrow> None)"

definition env_or_value :: "cli_env \<Rightarrow> string option \<Rightarrow> string \<Rightarrow> string option" where
  "env_or_value env v name = nonblank (or_else v (ev_var env name))"

definition env_or_path :: "cli_env \<Rightarrow> string option \<Rightarrow> string \<Rightarrow> string option" where
  "env_or_path env v name = nonempty_path (or_else v (ev_var env name))"

definition trim_line_ends :: "string \<Rightarrow> string" where
  "trim_line_ends s = rev (dropWhile (\<lambda>c. c = CR \<or> c = LF) (rev s))"

definition read_client_secret_file :: "cli_env \<Rightarrow> string \<Rightarrow> string run_op" where
  "read_client_secret_file env p =
     seq_op (on_files (reads (\<lambda>n fs. read_file (ev_io env) n (components_of p) fs))) (\<lambda>bytes.
     lift_res (if \<not> utf8_valid bytes then Inl (Boxed (Io OtherKind ''stream did not contain valid UTF-8''))
       else if trim (trim_line_ends bytes) = [] then Inl (Cli (''client secret file '' @ lossy p @ '' is empty''))
       else Inr (trim_line_ends bytes)))"

definition resolve_client_secret :: "cli_env \<Rightarrow> string option \<Rightarrow> string option \<Rightarrow> string option run_op" where
  "resolve_client_secret env v p =
     (let from_file = (\<lambda>p. seq_op (read_client_secret_file env p) (\<lambda>s. lift_res (Inr (Some s)))) in
      case nonblank v of
        Some s \<Rightarrow> lift_res (Inr (Some s))
      | None \<Rightarrow>
          (case nonempty_path p of
             Some p \<Rightarrow> from_file p
           | None \<Rightarrow>
               (case env_or_value env None ''WEBEX_CLIENT_SECRET'' of
                  Some s \<Rightarrow> lift_res (Inr (Some s))
                | None \<Rightarrow>
                    (case env_or_path env None ''WEBEX_CLIENT_SECRET_FILE'' of
                       Some p \<Rightarrow> from_file p
                     | None \<Rightarrow> lift_res (Inr None)))))"

definition effective_client_secret_file_path :: "cli_env \<Rightarrow> string option \<Rightarrow> string option \<Rightarrow> string option" where
  "effective_client_secret_file_path env v p =
     (if nonblank v \<noteq> None then None
      else case nonempty_path p of
        Some p \<Rightarrow> Some p
      | None \<Rightarrow>
          if env_or_value env None ''WEBEX_CLIENT_SECRET'' \<noteq> None then None
          else env_or_path env None ''WEBEX_CLIENT_SECRET_FILE'')"

subsection \<open>The client of a command\<close>

datatype auth_source = AccessToken string | TokenFile string

definition auth_source_from_parts ::
    "string option \<Rightarrow> string option \<Rightarrow> string option \<Rightarrow> string option \<Rightarrow> auth_source run_result" where
  "auth_source_from_parts token p env_p env_token =
     (case (nonblank token, nonempty_path p) of
        (Some _, Some _) \<Rightarrow> Inl (Cli ''use --access-token or --token-file, not both'')
      | (Some t, None) \<Rightarrow> Inr (AccessToken t)
      | (None, Some p) \<Rightarrow> Inr (TokenFile p)
      | (None, None) \<Rightarrow>
          (case nonempty_path env_p of
             Some p \<Rightarrow> Inr (TokenFile p)
           | None \<Rightarrow>
               (case nonblank env_token of
                  Some t \<Rightarrow> Inr (AccessToken t)
                | None \<Rightarrow> Inl (Cli ''set --access-token, --token-file, WEBEX_TOKEN_FILE, or WEBEX_ACCESS_TOKEN''))))"

definition resolve_auth_source :: "cli_env \<Rightarrow> global_options \<Rightarrow> auth_source run_result" where
  "resolve_auth_source env g =
     auth_source_from_parts (go_access_token g) (go_token_file g) (ev_var env ''WEBEX_TOKEN_FILE'')
       (ev_var env ''WEBEX_ACCESS_TOKEN'')"

text \<open>The provider a client is built with: a fixed token, or the refreshing one over a token file.\<close>

datatype client_token = StaticToken string | RefreshingToken oauth_config string

definition oauth_config_with :: "cli_env \<Rightarrow> string \<Rightarrow> string \<Rightarrow> oauth_config run_result" where
  "oauth_config_with env i s =
     and_then (map_err Boxed (oauth_config_new (oe_url (ev_oauth env)) i)) (\<lambda>c. Inr (with_client_secret s c))"

definition build_token_file_client :: "cli_env \<Rightarrow> global_options \<Rightarrow> string \<Rightarrow> client_token run_op" where
  "build_token_file_client env g p =
     seq_op (on_files (reads (read_token_file (ev_codec env) (ev_io env) (components_of p)))) (\<lambda>t.
       case (env_or_value env (go_client_id g) ''WEBEX_CLIENT_ID'', ts_refresh_token t) of
         (Some i, Some _) \<Rightarrow>
           seq_op (resolve_client_secret env (go_client_secret g) (go_client_secret_file g)) (\<lambda>s.
             case s of
               Some s \<Rightarrow> seq_op (lift_res (oauth_config_with env i s)) (\<lambda>c. lift_res (Inr (RefreshingToken c p)))
             | None \<Rightarrow> lift_res (Inr (StaticToken (ts_access_token t))))
       | _ \<Rightarrow> lift_res (Inr (StaticToken (ts_access_token t))))"

definition build_client :: "cli_env \<Rightarrow> global_options \<Rightarrow> client_token run_op" where
  "build_client env g =
     seq_op (lift_res (resolve_auth_source env g)) (\<lambda>src.
       case src of
         AccessToken t \<Rightarrow> lift_res (Inr (StaticToken t))
       | TokenFile p \<Rightarrow> build_token_file_client env g p)"

text \<open>The refreshing provider of such a client; it refreshes five minutes early.\<close>

definition provider_of :: "cli_env \<Rightarrow> (nat \<Rightarrow> time) \<Rightarrow> oauth_config \<Rightarrow> string \<Rightarrow> files token_provider" where
  "provider_of env now c p =
     \<lparr>tp_load = file_load (ev_codec env) (ev_io env) (components_of p),
      tp_save = save_token_file (ev_codec env) (ev_io env) (components_of p),
      tp_env = ev_oauth env, tp_config = c, tp_skew = 300 * SEC, tp_now = now\<rparr>"

subsection \<open>What both login commands need\<close>

definition some_or :: "run_error \<Rightarrow> 'a option \<Rightarrow> 'a run_op" where
  "some_or e v = lift_res (case v of Some x \<Rightarrow> Inr x | None \<Rightarrow> Inl e)"

definition save_outputs ::
    "cli_env \<Rightarrow> string option \<Rightarrow> string option \<Rightarrow> bool \<Rightarrow> token_set \<Rightarrow> unit run_op" where
  "save_outputs env token_file access_file group_readable t =
     seq_op (case token_file of
         Some p \<Rightarrow> on_files (\<lambda>n. save_token_file (ev_codec env) (ev_io env) (components_of p) n t)
       | None \<Rightarrow> lift_res (Inr ())) (\<lambda>_.
     case access_file of
       Some p \<Rightarrow> on_files (\<lambda>n. save_access_token_file (ev_io env) (components_of p) n (ts_access_token t)
         (access_token_file_mode group_readable))
     | None \<Rightarrow> lift_res (Inr ()))"

text \<open>What a command prints; serde and the colours of the JSON are left out.\<close>

datatype login_output =
    OutRefreshed string "string option" token_set
  | OutDevice "string option" "string option" token_set
  | OutToken token_set

definition no_secret :: run_error where
  "no_secret = Cli ''--client-secret, --client-secret-file, WEBEX_CLIENT_SECRET, or WEBEX_CLIENT_SECRET_FILE is required''"

definition no_client_id :: run_error where
  "no_client_id = Cli ''--client-id or WEBEX_CLIENT_ID is required''"

subsection \<open>Refreshing the token file\<close>

definition ask_refresh :: "cli_env \<Rightarrow> oauth_config \<Rightarrow> string \<Rightarrow> token_set run_op" where
  "ask_refresh env c rt st =
     (case refresh_token (ev_oauth env) c rt (ru_sent st) of
        (r, sent) \<Rightarrow>
          (case r of
             None \<Rightarrow> Inl panicked
           | Some (Inl e) \<Rightarrow> Inl (Boxed e)
           | Some (Inr t) \<Rightarrow> Inr t, st\<lparr>ru_sent := sent\<rparr>))"

definition auth_refresh :: "cli_env \<Rightarrow> global_options \<Rightarrow> auth_refresh_args \<Rightarrow> login_output run_op" where
  "auth_refresh env g a =
     (let secret_value = or_else (ar_client_secret a) (go_client_secret g);
          secret_file = or_else (ar_client_secret_file a) (go_client_secret_file g);
          effective = effective_client_secret_file_path env secret_value secret_file;
          access_file = ar_access_token_file a in
      seq_op (some_or (Cli ''auth refresh requires --token-file or WEBEX_TOKEN_FILE'')
        (or_else (ar_token_file a) (or_else (go_token_file g) (ev_var env ''WEBEX_TOKEN_FILE'')))) (\<lambda>p.
      seq_op (lift_res (ensure_distinct_auth_file_paths (ev_fs env) (Some (components_of p))
        (map_option components_of access_file) (map_option components_of effective))) (\<lambda>_.
      seq_op (on_files (reads (read_token_file (ev_codec env) (ev_io env) (components_of p)))) (\<lambda>current.
      seq_op (some_or (Cli ''token file does not contain a refresh token'') (ts_refresh_token current)) (\<lambda>rt.
      seq_op (some_or no_client_id (env_or_value env (or_else (ar_client_id a) (go_client_id g)) ''WEBEX_CLIENT_ID'')) (\<lambda>i.
      seq_op (resolve_client_secret env secret_value secret_file) (\<lambda>s.
      seq_op (some_or no_secret s) (\<lambda>s.
      seq_op (lift_res (oauth_config_with env i s)) (\<lambda>c.
      seq_op (ask_refresh env c rt) (\<lambda>new.
      let new = keep_refresh_token current rt new in
      seq_op (save_outputs env (Some p) access_file (ar_access_token_file_group_readable a) new) (\<lambda>_.
      lift_res (Inr (OutRefreshed p access_file new)))))))))))))"

subsection \<open>The device login\<close>

definition retry_wait :: "duration option \<Rightarrow> duration \<Rightarrow> duration" where
  "retry_wait wait interval = max (case wait of Some d \<Rightarrow> d | None \<Rightarrow> 0) interval"

text \<open>
  The loop that polls for the token, with the number of polls it may still do. The time is that
  of a monotonic clock; the state is the time and the interval of every poll so far, for a
  reader of the model, and what has been sent.
\<close>

fun device_loop ::
    "cli_env \<Rightarrow> oauth_config \<Rightarrow> string \<Rightarrow> nat \<Rightarrow> nat \<Rightarrow> duration \<Rightarrow> nat \<Rightarrow> (nat \<times> duration) list \<Rightarrow> oauth_sent
      \<Rightarrow> token_set run_result option \<times> (nat \<times> duration) list \<times> oauth_sent" where
  "device_loop env c code deadline 0 interval t polls sent = (None, polls, sent)"
| "device_loop env c code deadline (Suc k) interval t polls sent =
     (if deadline \<le> t then (Some (Inl (Cli ''device authorization expired before approval'')), polls, sent)
      else
        let n = length polls; polls = polls @ [(t, interval)]; t = t + ev_poll_time env n in
        (case poll_device_token (ev_oauth env) c code sent of
           (None, sent) \<Rightarrow> (Some (Inl panicked), polls, sent)
         | (Some (Inl e), sent) \<Rightarrow> (Some (Inl (Boxed e)), polls, sent)
         | (Some (Inr (DeviceAuthorized tok)), sent) \<Rightarrow> (Some (Inr tok), polls, sent)
         | (Some (Inr (DevicePending wait)), sent) \<Rightarrow>
             device_loop env c code deadline k interval
               (t + ev_sleep env n (retry_wait wait interval)) polls sent
         | (Some (Inr (DeviceSlowDown wait)), sent) \<Rightarrow>
             if DURATION_MAX < interval + 5 * SEC then (Some (Inl panicked), polls, sent)
             else device_loop env c code deadline k (interval + 5 * SEC)
               (t + ev_sleep env n (retry_wait wait (interval + 5 * SEC))) polls sent))"

definition device_interval :: "device_authorization \<Rightarrow> duration" where
  "device_interval auth = (case da_interval auth of Some i \<Rightarrow> i | None \<Rightarrow> 5) * SEC"

text \<open>The clock is at \<open>0\<close> when the loop begins. No answer: the polls were used up.\<close>

definition await_approval ::
    "cli_env \<Rightarrow> oauth_config \<Rightarrow> nat \<Rightarrow> device_authorization \<Rightarrow> run_state \<Rightarrow> token_set run_result option \<times> run_state" where
  "await_approval env c k auth st =
     (let deadline = da_expires_in auth * SEC in
      if ev_instant_max env < deadline then (Some (Inl panicked), st)
      else case device_loop env c (da_device_code auth) deadline k
             (device_interval auth) 0 [] (ru_sent st) of
        (r, _, sent) \<Rightarrow> (r, st\<lparr>ru_sent := sent\<rparr>))"

definition start_device :: "cli_env \<Rightarrow> oauth_config \<Rightarrow> device_authorization run_op" where
  "start_device env c st =
     (case start_device_authorization (ev_oauth env) c (ru_sent st) of
        (r, sent) \<Rightarrow> (map_err Boxed r, st\<lparr>ru_sent := sent\<rparr>))"

definition show_authorization :: "device_authorization \<Rightarrow> unit run_op" where
  "show_authorization auth =
     seq_op (show_line (''verification_uri='' @ da_verification_uri auth)) (\<lambda>_.
     seq_op (show_line (''user_code='' @ da_user_code auth)) (\<lambda>_.
     case da_verification_uri_complete auth of
       Some u \<Rightarrow> show_line (''verification_uri_complete='' @ u)
     | None \<Rightarrow> lift_res (Inr ())))"

text \<open>Everything before the first poll.\<close>

definition begin_device ::
    "cli_env \<Rightarrow> global_options \<Rightarrow> auth_device_args
      \<Rightarrow> (string option \<times> oauth_config \<times> device_authorization) run_op" where
  "begin_device env g a =
     (let secret_value = or_else (ad_client_secret a) (go_client_secret g);
          secret_file = or_else (ad_client_secret_file a) (go_client_secret_file g);
          effective = effective_client_secret_file_path env secret_value secret_file;
          token_file = or_else (ad_token_file a) (or_else (go_token_file g) (ev_var env ''WEBEX_TOKEN_FILE'')) in
      seq_op (some_or no_client_id (env_or_value env (or_else (ad_client_id a) (go_client_id g)) ''WEBEX_CLIENT_ID'')) (\<lambda>i.
      seq_op (lift_res (if token_file = None \<and> \<not> ad_stdout_token a
        then Inl (Cli ''auth device requires --token-file/WEBEX_TOKEN_FILE or --stdout-token'') else Inr ())) (\<lambda>_.
      seq_op (lift_res (ensure_distinct_auth_file_paths (ev_fs env) (map_option components_of token_file)
        (map_option components_of (ad_access_token_file a)) (map_option components_of effective))) (\<lambda>_.
      seq_op (resolve_client_secret env secret_value secret_file) (\<lambda>s.
      seq_op (some_or no_secret s) (\<lambda>s.
      let scopes = (if ad_scopes a = [] then default_messaging_scopes else ad_scopes a) in
      seq_op (lift_res (oauth_config_with env i s)) (\<lambda>c.
      let c = with_scopes scopes c in
      seq_op (start_device env c) (\<lambda>auth.
      seq_op (show_authorization auth) (\<lambda>_.
      lift_res (Inr (token_file, c, auth)))))))))))"

definition auth_device ::
    "cli_env \<Rightarrow> nat \<Rightarrow> global_options \<Rightarrow> auth_device_args \<Rightarrow> run_state \<Rightarrow> login_output run_result option \<times> run_state" where
  "auth_device env k g a st =
     (case begin_device env g a st of
        (Inl e, st) \<Rightarrow> (Some (Inl e), st)
      | (Inr (token_file, c, auth), st) \<Rightarrow>
          (case await_approval env c k auth st of
             (None, st) \<Rightarrow> (None, st)
           | (Some (Inl e), st) \<Rightarrow> (Some (Inl e), st)
           | (Some (Inr t), st) \<Rightarrow>
               (case save_outputs env token_file (ad_access_token_file a) (ad_access_token_file_group_readable a) t st of
                  (Inl e, st) \<Rightarrow> (Some (Inl e), st)
                | (Inr _, st) \<Rightarrow>
                    (Some (Inr (if ad_stdout_token a then OutToken t
                       else OutDevice token_file (ad_access_token_file a) t)), st))))"

end
