(* ===== verification/TokenFilesProps.thy ===== *)
theory TokenFilesProps imports TokenFiles TokenProps PlainCodec begin

text \<open>Files are replaced as a whole; paths that pass the check name different files.\<close>

subsection \<open>Replacing a file\<close>

lemma temp_name_ne: "temp_name pid p \<noteq> p"
proof (cases "file_name p")
  case (Some c)
  then obtain q n where p: "p = q @ [Normal n]" "c = Normal n"
    by (cases p rule: rev_cases) (auto simp: file_name_def split: component.splits)
  have "\<not> utf8_valid n \<Longrightarrow> n \<noteq> ''.token.tmp.'' @ show_nat pid"
    using is_ascii_utf8_valid [of "''.token.tmp.'' @ show_nat pid"] by (auto simp: is_ascii_show_nat byte_def)
  moreover have "''.'' @ n @ m \<noteq> n" for m by (metis append_assoc append_self_conv2 impossible_Cons le_add1 length_append not_Cons_self2 append_Cons append_Nil)
  ultimately show ?thesis using p Some by (auto simp: temp_name_def)
qed (simp add: temp_name_def)

lemma masked_mode: "and (and mode (not umask)) mode = and mode (not (umask :: 32 word))"
  by (metis and.commute and.left_commute and.idem)

lemma save_cases:
  assumes "save_bytes_file umask pid io p bytes mode fs = (r, fs')"
  shows "(fs' p = fs p \<or> (\<exists>m. fs' p = Some \<lparr>tf_bytes = bytes, tf_mode = m\<rparr> \<and> and m mode = m)) \<and>
    (r = Inr () \<longrightarrow> fs' p = Some \<lparr>tf_bytes = bytes, tf_mode = mode\<rparr> \<and> fs' (temp_name pid p) = None) \<and>
    (\<forall>q. q \<noteq> p \<and> q \<noteq> temp_name pid p \<longrightarrow> fs' q = fs q) \<and>
    (\<forall>f. fs' (temp_name pid p) = Some f \<longrightarrow>
       fs (temp_name pid p) = Some f \<or> prefix (tf_bytes f) bytes \<and> and (tf_mode f) mode = tf_mode f)"
proof (cases "sv_stop io")
  case None
  with assms temp_name_ne [of pid p] show ?thesis by (auto simp: save_bytes_file_def Let_def split: if_splits)
next
  case (Some s)
  obtain st e where s: "s = (st, e)" by (cases s)
  note run = assms Some s temp_name_ne [of pid p] masked_mode [of mode umask]
  show ?thesis
    by (cases st) (use run in \<open>auto simp: save_bytes_file_def Let_def take_is_prefix split: if_splits\<close>)
qed

lemma save_token_cases:
  assumes "save_token_file cd io p n t fs = (r, fs')"
  obtains (unchanged) e where "r = Inl e" "fs' p = fs p"
    | (replaced) bytes m where "tk_ser cd t = Inr bytes" "fs' p = Some \<lparr>tf_bytes = bytes, tf_mode = m\<rparr>"
proof (cases "tk_ser cd t")
  case (Inl e)
  with assms unchanged show ?thesis by (auto simp: save_token_file_def)
next
  case (Inr bytes)
  with assms have "save_bytes_file (fi_umask io) (fi_pid io) (fi_save io n) p bytes 0x180 fs = (r, fs')"
    by (simp add: save_token_file_def)
  from save_cases [OF this] Inr unchanged replaced show ?thesis by (cases r) auto
qed

text \<open>A token file keeps the contract of a token store.\<close>

definition codec_round :: "token_codec \<Rightarrow> bool" where
  "codec_round cd \<longleftrightarrow> (\<forall>t b. tk_ser cd t = Inr b \<longrightarrow> tk_de cd b = Inr t)"

definition file_view :: "token_codec \<Rightarrow> path \<Rightarrow> files \<Rightarrow> token_set option" where
  "file_view cd p fs =
     (case fs p of
        None \<Rightarrow> None
      | Some f \<Rightarrow> (case tk_de cd (tf_bytes f) of Inr t \<Rightarrow> Some t | Inl _ \<Rightarrow> None))"

definition reads_honest :: "file_io \<Rightarrow> bool" where
  "reads_honest io \<longleftrightarrow> (\<forall>n t. fi_read io n \<noteq> Some (Io NotFound t))"

lemma file_token_store:
  assumes "codec_round cd" "reads_honest io"
  shows "token_store (file_load cd io p) (save_token_file cd io p) (file_view cd p)"
proof
  fix n s r assume "file_load cd io p n s = Inr r"
  with assms(2) show "r = file_view cd p s"
    by (auto simp: file_load_def read_file_def file_view_def reads_honest_def and_then_Inr_iff
        split: sum.splits option.splits error.splits io_kind.splits)
next
  fix n t s s' assume "save_token_file cd io p n t s = (Inr (), s')"
  then show "file_view cd p s' = Some t"
    by (cases rule: save_token_cases) (use assms(1) in \<open>auto simp: file_view_def codec_round_def\<close>)
next
  fix n t s e s' assume "save_token_file cd io p n t s = (Inl e, s')"
  then show "file_view cd p s' \<in> {file_view cd p s, Some t}"
    by (cases rule: save_token_cases) (use assms(1) in \<open>auto simp: file_view_def codec_round_def\<close>)
qed

subsection \<open>Paths\<close>

text \<open>
  What the file system does with a path: an absolute path is followed from the root, component by
  component, a relative one from the current directory, and the result is absolute and has
  no dots.
\<close>

definition resolved_form :: "path \<Rightarrow> bool" where
  "resolved_form q \<longleftrightarrow> (\<exists>ns. q = RootDir # map Normal ns)"

definition walks :: "fs_view \<Rightarrow> bool" where
  "walks fs \<longleftrightarrow>
     (\<forall>p q. fs_canonicalize fs p = Inr q \<longrightarrow> resolved_form q) \<and>
     (\<forall>d. fs_current_dir fs = Inr d \<longrightarrow> fs_canonicalize fs d = Inr d \<and>
        (\<forall>p. \<not> is_absolute p \<longrightarrow> fs_canonicalize fs p = fs_canonicalize fs (d @ p))) \<and>
     fs_canonicalize fs [RootDir] = Inr [RootDir] \<and>
     (\<forall>p n q. p \<noteq> [] \<longrightarrow> fs_canonicalize fs (p @ [Normal n]) = Inr q \<longrightarrow>
        (\<exists>r. fs_canonicalize fs p = Inr r \<and> fs_canonicalize fs (r @ [Normal n]) = Inr q)) \<and>
     (\<forall>p q. p \<noteq> [] \<longrightarrow> fs_canonicalize fs (p @ [CurDir]) = Inr q \<longrightarrow> fs_canonicalize fs p = Inr q) \<and>
     (\<forall>p q. p \<noteq> [] \<longrightarrow> fs_canonicalize fs (p @ [ParentDir]) = Inr q \<longrightarrow>
        (\<exists>r. fs_canonicalize fs p = Inr r \<and> q = (if r = [RootDir] then r else butlast r)))"

text \<open>A path as \<open>Path::components\<close> gives it has a root only at its beginning.\<close>

definition rooted_once :: "path \<Rightarrow> bool" where
  "rooted_once p \<longleftrightarrow> RootDir \<notin> set (tl p)"

lemma walksD:
  assumes "walks fs"
  shows "fs_canonicalize fs p = Inr q \<Longrightarrow> resolved_form q"
    and "fs_current_dir fs = Inr d \<Longrightarrow> fs_canonicalize fs d = Inr d"
    and "fs_current_dir fs = Inr d \<Longrightarrow> \<not> is_absolute p \<Longrightarrow> fs_canonicalize fs p = fs_canonicalize fs (d @ p)"
    and "fs_canonicalize fs [RootDir] = Inr [RootDir]"
    and "p \<noteq> [] \<Longrightarrow> fs_canonicalize fs (p @ [Normal n]) = Inr q \<Longrightarrow>
       \<exists>r. fs_canonicalize fs p = Inr r \<and> fs_canonicalize fs (r @ [Normal n]) = Inr q"
    and "p \<noteq> [] \<Longrightarrow> fs_canonicalize fs (p @ [CurDir]) = Inr q \<Longrightarrow> fs_canonicalize fs p = Inr q"
    and "p \<noteq> [] \<Longrightarrow> fs_canonicalize fs (p @ [ParentDir]) = Inr q \<Longrightarrow>
       \<exists>r. fs_canonicalize fs p = Inr r \<and> q = (if r = [RootDir] then r else butlast r)"
proof -
  note rest = assms [unfolded walks_def]
  show "fs_canonicalize fs p = Inr q \<Longrightarrow> resolved_form q" by (rule conjunct1 [OF rest, rule_format])
  note rest = conjunct2 [OF rest]
  show "fs_current_dir fs = Inr d \<Longrightarrow> fs_canonicalize fs d = Inr d"
    by (rule conjunct1 [OF rest, rule_format, THEN conjunct1])
  show "fs_current_dir fs = Inr d \<Longrightarrow> \<not> is_absolute p \<Longrightarrow> fs_canonicalize fs p = fs_canonicalize fs (d @ p)"
    by (rule conjunct1 [OF rest, rule_format, THEN conjunct2, rule_format])
  note rest = conjunct2 [OF rest]
  show "fs_canonicalize fs [RootDir] = Inr [RootDir]" by (rule conjunct1 [OF rest])
  note rest = conjunct2 [OF rest]
  show "p \<noteq> [] \<Longrightarrow> fs_canonicalize fs (p @ [Normal n]) = Inr q \<Longrightarrow>
       \<exists>r. fs_canonicalize fs p = Inr r \<and> fs_canonicalize fs (r @ [Normal n]) = Inr q"
    by (rule conjunct1 [OF rest, rule_format])
  note rest = conjunct2 [OF rest]
  show "p \<noteq> [] \<Longrightarrow> fs_canonicalize fs (p @ [CurDir]) = Inr q \<Longrightarrow> fs_canonicalize fs p = Inr q"
    by (rule conjunct1 [OF rest, rule_format])
  show "p \<noteq> [] \<Longrightarrow> fs_canonicalize fs (p @ [ParentDir]) = Inr q \<Longrightarrow>
       \<exists>r. fs_canonicalize fs p = Inr r \<and> q = (if r = [RootDir] then r else butlast r)"
    by (rule conjunct2 [OF rest, rule_format])
qed

lemma push_parent_resolved:
  assumes "resolved_form r"
  shows "push_lexical_component r ParentDir = (if r = [RootDir] then r else butlast r)"
proof -
  from assms obtain ns where "r = RootDir # map Normal ns" by (auto simp: resolved_form_def)
  then show ?thesis
    by (cases ns rule: rev_cases) (simp_all add: path_parent_def is_absolute_def)
qed

lemma resolve_step:
  assumes "walks fs" "w \<noteq> []" "c \<noteq> RootDir" "fs_canonicalize fs (w @ [c]) = Inr q"
  obtains r where "fs_canonicalize fs w = Inr r" "resolve_component fs (r, []) c = (q, [])"
proof (cases c)
  case RootDir
  with assms(3) show ?thesis by simp
next
  case CurDir
  with walksD(6) [OF assms(1,2)] assms(4) that show ?thesis by simp
next
  case ParentDir
  then obtain r where r: "fs_canonicalize fs w = Inr r" "q = (if r = [RootDir] then r else butlast r)"
    using walksD(7) [OF assms(1,2)] assms(4) by blast
  then show ?thesis using that [OF r(1)] ParentDir push_parent_resolved [OF walksD(1) [OF assms(1) r(1)]] by simp
next
  case (Normal n)
  then obtain r where "fs_canonicalize fs w = Inr r" "fs_canonicalize fs (r @ [Normal n]) = Inr q"
    using walksD(5) [OF assms(1,2)] assms(4) by blast
  with that Normal show ?thesis by simp
qed

lemma resolve_walk:
  assumes "walks fs" "w \<noteq> []" "fs_canonicalize fs w = Inr r" "RootDir \<notin> set cs"
    "fs_canonicalize fs (w @ cs) = Inr q"
  shows "foldl (resolve_component fs) (r, []) cs = (q, [])"
  using assms(4,5)
proof (induction cs arbitrary: q rule: rev_induct)
  case Nil
  with assms(3) show ?case by simp
next
  case (snoc c cs)
  from snoc.prems obtain r' where "fs_canonicalize fs (w @ cs) = Inr r'" "resolve_component fs (r', []) c = (q, [])"
    using resolve_step [OF assms(1), of "w @ cs" c q] assms(2) by auto
  with snoc show ?case by simp
qed

lemma canonical_of_existing:
  assumes "walks fs" "rooted_once p" "fs_canonicalize fs p = Inr q" "is_absolute p \<or> (\<exists>d. fs_current_dir fs = Inr d)"
  shows "canonical_existing_ancestor_path fs p = Inr (Some q)"
proof (cases "is_absolute p")
  case True
  then obtain cs where p: "p = RootDir # cs" by (auto simp: is_absolute_def split: list.splits component.splits)
  have "foldl (resolve_component fs) ([RootDir], []) cs = (q, [])"
    by (rule resolve_walk [OF assms(1) _ walksD(4) [OF assms(1)]]) (use assms p in \<open>simp_all add: rooted_once_def\<close>)
  with p show ?thesis by (simp add: canonical_existing_ancestor_path_def start_of_def is_absolute_def)
next
  case False
  with assms(4) obtain d where d: "fs_current_dir fs = Inr d" by auto
  have c: "fs_canonicalize fs d = Inr d" "fs_canonicalize fs (d @ p) = Inr q"
    using walksD(2,3) [OF assms(1) d] assms(3) False by simp_all
  have "RootDir \<notin> set p" using False assms(2) by (cases p) (auto simp: rooted_once_def is_absolute_def split: component.splits)
  moreover have "d \<noteq> []" using walksD(1) [OF assms(1) c(1)] by (auto simp: resolved_form_def)
  ultimately have "foldl (resolve_component fs) (d, []) p = (q, [])"
    using resolve_walk [OF assms(1) _ c(1) _ c(2)] by simp
  with d False show ?thesis by (simp add: canonical_existing_ancestor_path_def start_of_def)
qed

lemma overlap_prefix: "prefix x y \<or> prefix y x \<Longrightarrow> paths_overlap_for_token_output x y"
  by (auto simp: paths_overlap_for_token_output_def path_components_overlap_def ascii_case_fold_path_components_def
      prefix_def Let_def)

lemma distinct_paths:
  assumes "ensure_distinct_auth_paths fs l r a b = Inr ()" "walks fs" "rooted_once l" "rooted_once r"
    "fs_canonicalize fs l = Inr x" "fs_canonicalize fs r = Inr y"
  shows "\<not> prefix x y \<and> \<not> prefix y x"
proof -
  have here: "is_absolute p \<or> (\<exists>d. fs_current_dir fs = Inr d)" if "p = l \<or> p = r" for p
    using assms(1) that by (auto simp: ensure_distinct_auth_paths_def lexical_absolute_path_def start_of_def
        and_then_Inr_iff split: if_splits)
  have "canonical_existing_ancestor_path fs l = Inr (Some x)" "canonical_existing_ancestor_path fs r = Inr (Some y)"
    using canonical_of_existing here assms by auto
  then have "\<not> paths_overlap_for_token_output x y"
    using assms(1) by (auto simp: ensure_distinct_auth_paths_def canonical_parent_paths_overlap_def and_then_Inr_iff
        split: if_splits)
  then show ?thesis using overlap_prefix by blast
qed

lemma rooted_components: "rooted_once (components_of p)"
proof -
  have in_tl: "x \<in> set (tl xs) \<Longrightarrow> x \<in> set xs" for x and xs :: path by (cases xs) simp_all
  have "RootDir \<notin> set (map (\<lambda>s. if s = ''..'' then ParentDir else Normal s) xs)" for xs by auto
  then show ?thesis by (auto simp: rooted_once_def components_of_def Let_def dest!: in_tl)
qed

subsection \<open>The refresh token\<close>

context refreshing_provider begin

definition refreshable :: "'s provider_state \<Rightarrow> bool" where
  "refreshable st \<longleftrightarrow> (\<exists>t. view (pv_store st) = Some t \<and> ts_refresh_token t \<noteq> None) \<and>
     (\<forall>i new. pv_phase st i = Saving new \<longrightarrow> ts_refresh_token new \<noteq> None)"

lemma refreshable_move:
  assumes "refreshable st" "pv_store st' = pv_store st" "pv_phase st' = (pv_phase st)(i := p)"
    "\<And>new. p = Saving new \<Longrightarrow> ts_refresh_token new \<noteq> None"
  shows "refreshable st'"
  using assms unfolding refreshable_def by auto

lemma refreshable_save:
  assumes "refreshable st" "pv_phase st i = Saving new" "save n new (pv_store st) = (r, s)"
    "pv_store st' = s" "pv_phase st' = (pv_phase st)(i := p)" "\<And>new. p \<noteq> Saving new"
  shows "refreshable st'"
proof -
  have "view s \<in> {view (pv_store st), Some new}"
    using assms(3) by (cases r) (auto dest: save_ok save_failed)
  with assms show ?thesis unfolding refreshable_def by auto
qed

lemma kept_refresh_token: "\<exists>rt'. ts_refresh_token (keep_refresh_token t rt new) = Some rt'"
  by (auto simp: keep_refresh_token_def)

lemma refreshable_step:
  assumes ok: "refreshable st" and step: "provider_step tp st st'"
  shows "refreshable st'"
proof -
  note move = refreshable_move [OF ok]
  from step show ?thesis
  proof (cases rule: provider_step.cases)
    case (Look i)
    then show ?thesis by (auto simp: first_look_def intro!: move [of _ i] split: sum.split)
  next
    case (Lock i)
    then show ?thesis by (auto simp: take_lock_def intro!: move [of _ i])
  next
    case (LookAgain i)
    then show ?thesis by (auto simp: second_look_def intro!: move [of _ i] split: sum.split option.split)
  next
    case (Ask i t rt)
    then show ?thesis by (auto simp: ask_def intro!: move [of _ i] split: prod.split)
  next
    case (Receive i t rt r)
    then show ?thesis
      by (auto simp: receive_def kept_refresh_token intro!: move [of _ i] split: option.split sum.split)
  next
    case (Store i new)
    then show ?thesis
      by (auto simp: store_token_def provider_save intro!: refreshable_save [OF ok] split: prod.split sum.split)
  next
    case (Lose i new)
    then show ?thesis
      by (auto simp: drop_task_def provider_save intro!: refreshable_save [OF ok Lose(2) prod.collapse [symmetric]])
  next
    case (Drop i)
    then show ?thesis by (auto simp: drop_task_def intro!: move [of _ i])
  qed
qed

lemma refreshable_run: "provider_run tp st st' \<Longrightarrow> refreshable st \<Longrightarrow> refreshable st'"
  by (induction rule: provider_run.induct) (auto intro: refreshable_step)

end

definition file_provider ::
    "token_codec \<Rightarrow> file_io \<Rightarrow> path \<Rightarrow> oauth_env \<Rightarrow> oauth_config \<Rightarrow> duration \<Rightarrow> (nat \<Rightarrow> time) \<Rightarrow> files token_provider" where
  "file_provider cd io p env c skew now = \<lparr>tp_load = file_load cd io p, tp_save = save_token_file cd io p,
     tp_env = env, tp_config = c, tp_skew = skew, tp_now = now\<rparr>"

lemma file_refreshing_provider:
  assumes "codec_round cd" "reads_honest io"
  shows "refreshing_provider (file_load cd io p) (save_token_file cd io p) (file_view cd p)
     (file_provider cd io p env c skew now)"
  using file_token_store [OF assms]
  by (simp add: refreshing_provider_def refreshing_provider_axioms_def file_provider_def)

subsection \<open>Examples\<close>

definition demo_canon :: "path \<Rightarrow> path" where
  "demo_canon p = foldl push_lexical_component (if is_absolute p then [] else [RootDir, Normal ''home'']) p"

definition demo_dirs :: fs_view where
  "demo_dirs = \<lparr>fs_current_dir = Inr [RootDir, Normal ''home''], fs_exists = \<lambda>_. True,
     fs_canonicalize = \<lambda>p. Inr (demo_canon p),
     fs_is_symlink = \<lambda>_. False, fs_read_link = \<lambda>_. Inl (Other ''no link''), fs_file_id = \<lambda>_. Inr None\<rparr>"

lemma resolved_push: "resolved_form q \<Longrightarrow> resolved_form (push_lexical_component q c)"
proof (cases c)
  case ParentDir
  assume "resolved_form q"
  then obtain ns where "q = RootDir # map Normal ns" by (auto simp: resolved_form_def)
  with ParentDir show ?thesis
    by (cases ns rule: rev_cases) (auto simp: resolved_form_def path_parent_def is_absolute_def intro: exI [of _ "butlast ns"])
next
  case (Normal n)
  assume "resolved_form q"
  then obtain ns where "q = RootDir # map Normal ns" by (auto simp: resolved_form_def)
  with Normal show ?thesis by (auto simp: resolved_form_def intro: exI [of _ "ns @ [n]"])
qed (auto simp: resolved_form_def)

lemma resolved_fold: "resolved_form q \<Longrightarrow> resolved_form (foldl push_lexical_component q cs)"
  by (induction cs arbitrary: q) (simp_all add: resolved_push)

lemma fold_names: "foldl push_lexical_component q (map Normal ns) = q @ map Normal ns"
  by (induction ns arbitrary: q) simp_all

lemma demo_walks: "walks demo_dirs"
proof -
  let ?c = demo_canon
  note c_def = demo_canon_def
  have abs: "is_absolute (p @ q) = is_absolute p" if "p \<noteq> []" for p q
    using that by (cases p) (simp_all add: is_absolute_def)
  have form: "resolved_form (?c p)" for p
  proof (cases "is_absolute p")
    case True
    then obtain cs where "p = RootDir # cs" by (auto simp: is_absolute_def split: list.splits component.splits)
    then show ?thesis by (auto simp: c_def is_absolute_def resolved_form_def intro!: resolved_fold [unfolded resolved_form_def])
  next
    case False
    have "resolved_form [RootDir, Normal ''home'']" by (auto simp: resolved_form_def intro: exI [of _ "[''home'']"])
    with False show ?thesis using resolved_fold by (simp add: c_def)
  qed
  have again: "?c q = q" if "resolved_form q" for q
    using that by (auto simp: c_def resolved_form_def is_absolute_def fold_names)
  have base: "?c [RootDir, Normal ''home''] = [RootDir, Normal ''home'']" by (simp add: c_def is_absolute_def)
  have root: "?c [RootDir] = [RootDir]" by (simp add: c_def is_absolute_def)
  have name: "?c (p @ [Normal n]) = ?c p @ [Normal n]" "?c (?c p @ [Normal n]) = ?c p @ [Normal n]" if "p \<noteq> []" for p n
  proof -
    show "?c (p @ [Normal n]) = ?c p @ [Normal n]" using that by (simp add: c_def abs)
    obtain ns where q: "?c p = RootDir # map Normal ns" using form [of p] unfolding resolved_form_def by blast
    have "resolved_form (?c p @ [Normal n])"
      unfolding q by (auto simp: resolved_form_def intro: exI [of _ "ns @ [n]"])
    then show "?c (?c p @ [Normal n]) = ?c p @ [Normal n]" by (rule again)
  qed
  have dot: "?c (p @ [CurDir]) = ?c p" if "p \<noteq> []" for p using that by (simp add: c_def abs)
  have up: "?c (p @ [ParentDir]) = (if ?c p = [RootDir] then ?c p else butlast (?c p))" if "p \<noteq> []" for p
    using that push_parent_resolved [OF form [of p]] by (simp add: c_def abs)
  have rel: "?c p = ?c ([RootDir, Normal ''home''] @ p)" if "\<not> is_absolute p" for p
    using that by (simp add: c_def is_absolute_def)
  show ?thesis
    unfolding walks_def demo_dirs_def fs_view.simps sum.inject
  proof (intro conjI allI impI)
    fix p :: path and n q assume p: "p \<noteq> []" and q: "?c (p @ [Normal n]) = q"
    have "?c (?c p @ [Normal n]) = q" using name(2) [OF p, of n] name(1) [OF p, of n] q by metis
    then show "\<exists>r. ?c p = r \<and> ?c (r @ [Normal n]) = q" by blast
  next
    fix p q :: path assume "p \<noteq> []" "?c (p @ [CurDir]) = q"
    with dot show "?c p = q" by simp
  next
    fix p q :: path assume "p \<noteq> []" "?c (p @ [ParentDir]) = q"
    with up show "\<exists>r. ?c p = r \<and> q = (if r = [RootDir] then r else butlast r)" by simp
  qed (use form base root rel in auto)
qed

subsection \<open>Properties\<close>

text \<open>
  C31. A token file is never torn. Whatever fault or kill ends a replacement, and after however
  many bytes, the file holds either what it held before or all the new bytes, with no permission
  that the caller did not ask for; after a success it is the new bytes with exactly the mode, and
  no temporary file is left. A temporary file that is left behind holds a part of the new bytes
  and is no more readable than the file will be. No other file changes.
\<close>

theorem token_file_never_torn:
  assumes "save_bytes_file umask pid io p bytes mode fs = (r, fs')"
  shows "(fs' p = fs p \<or> (\<exists>m. fs' p = Some \<lparr>tf_bytes = bytes, tf_mode = m\<rparr> \<and> and m mode = m)) \<and>
    (r = Inr () \<longrightarrow> fs' p = Some \<lparr>tf_bytes = bytes, tf_mode = mode\<rparr> \<and> fs' (temp_name pid p) = None) \<and>
    (\<forall>q. q \<noteq> p \<and> q \<noteq> temp_name pid p \<longrightarrow> fs' q = fs q) \<and>
    (\<forall>f. fs' (temp_name pid p) = Some f \<longrightarrow>
       fs (temp_name pid p) = Some f \<or> prefix (tf_bytes f) bytes \<and> and (tf_mode f) mode = tf_mode f)"
  by (rule save_cases [OF assms])

definition demo_path :: path where
  "demo_path = [Normal ''tokens'', Normal ''t.json'']"

definition demo_files :: files where
  "demo_files = [demo_path \<mapsto> \<lparr>tf_bytes = ''old'', tf_mode = 0x180\<rparr>]"

text \<open>A write that stops after two bytes.\<close>

lemma token_file_never_torn_witness:
  "\<exists>e. fst (save_bytes_file 0 7 \<lparr>sv_stop = Some (AtWrite 2, Other ''disk full''), sv_removed = True\<rparr> demo_path ''new'' 0x180
       demo_files) = Inl e \<and>
     snd (save_bytes_file 0 7 \<lparr>sv_stop = Some (AtWrite 2, Other ''disk full''), sv_removed = True\<rparr> demo_path ''new'' 0x180
       demo_files) demo_path = Some \<lparr>tf_bytes = ''old'', tf_mode = 0x180\<rparr>"
proof -
  let ?r = "save_bytes_file 0 7 \<lparr>sv_stop = Some (AtWrite 2, Other ''disk full''), sv_removed = True\<rparr> demo_path ''new'' 0x180
       demo_files"
  have r: "fst ?r = Inl (Other ''disk full'')"
    by (simp add: save_bytes_file_def Let_def demo_path_def path_parent_def)
  have "snd ?r demo_path \<noteq> Some \<lparr>tf_bytes = ''new'', tf_mode = m\<rparr>" for m
    using temp_name_ne [of 7 demo_path]
    by (simp add: save_bytes_file_def Let_def demo_files_def)
  with token_file_never_torn [OF prod.collapse [symmetric, of ?r]] r show ?thesis by (auto simp: demo_files_def)
qed

text \<open>
  C30. Two different files of the three that hold tokens and the secret are never the same file,
  and none is a directory on the way to another one: where the check of the paths succeeds, the
  places their names lead to, with all symbolic links followed and for relative paths from the
  current directory, are different, neither is above the other.
\<close>

theorem auth_files_distinct:
  assumes "ensure_distinct_auth_file_paths fs t a s = Inr ()" "walks fs"
    "(l, r) \<in> {(t, a), (t, s), (a, s)}" "l = Some (components_of x)" "r = Some (components_of y)"
    "fs_canonicalize fs (components_of x) = Inr p" "fs_canonicalize fs (components_of y) = Inr q"
  shows "\<not> prefix p q \<and> \<not> prefix q p"
proof -
  from assms(1,3-5) obtain m e where "ensure_distinct_auth_paths fs (components_of x) (components_of y) m e = Inr ()"
    by (auto simp: ensure_distinct_auth_file_paths_def ensure_distinct_token_paths_def and_then_Inr_iff
        split: option.splits)
  from distinct_paths [OF this assms(2) rooted_components rooted_components assms(6,7)] show ?thesis .
qed

lemma auth_files_distinct_witness:
  "\<not> prefix [RootDir, Normal ''home'', Normal ''t'', Normal ''a''] [RootDir, Normal ''home'', Normal ''t'', Normal ''b''] \<and>
   \<not> prefix [RootDir, Normal ''home'', Normal ''t'', Normal ''b''] [RootDir, Normal ''home'', Normal ''t'', Normal ''a'']"
proof (rule auth_files_distinct [of demo_dirs "Some (components_of ''./t/a'')" "Some (components_of ''t/x/../b'')" None
      "Some (components_of ''./t/a'')" "Some (components_of ''t/x/../b'')"])
  show "walks demo_dirs" by (rule demo_walks)
  show "ensure_distinct_auth_file_paths demo_dirs (Some (components_of ''./t/a'')) (Some (components_of ''t/x/../b'')) None = Inr ()"
    by code_simp
  show "fs_canonicalize demo_dirs (components_of ''./t/a'') = Inr [RootDir, Normal ''home'', Normal ''t'', Normal ''a'']"
    by code_simp
  show "fs_canonicalize demo_dirs (components_of ''t/x/../b'') = Inr [RootDir, Normal ''home'', Normal ''t'', Normal ''b'']"
    by code_simp
qed simp_all


definition demo_codec :: token_codec where
  "demo_codec = \<lparr>tk_ser = \<lambda>t. if t = demo_token then Inr ''old'' else Inl (JsonErr ''no codec''),
     tk_de = \<lambda>b. if b = ''old'' then Inr demo_token else Inl (JsonErr ''no token'')\<rparr>"

definition demo_io :: file_io where
  "demo_io = \<lparr>fi_umask = 0x12, fi_pid = 7, fi_read = \<lambda>_. None,
     fi_save = \<lambda>_. \<lparr>sv_stop = Some (AtWrite 1, Other ''disk full''), sv_removed = True\<rparr>\<rparr>"

definition demo_file_provider :: "files token_provider" where
  "demo_file_provider = file_provider demo_codec demo_io demo_path demo_oauth demo_oauth_config 0 (\<lambda>_. 9)"


end
