(* ===== verification/CliAuthProps.thy ===== *)
theory CliAuthProps imports CliAuth TokenFilesProps begin

text \<open>The device login is paced and ends; a refresh never leaves a broken token file behind.\<close>

subsection \<open>The device login\<close>

text \<open>A poll comes a whole interval after the one before, and intervals only grow, by five seconds.\<close>

definition follows :: "nat \<times> duration \<Rightarrow> nat \<times> duration \<Rightarrow> bool" where
  "follows p q \<longleftrightarrow> fst p + snd q \<le> fst q \<and> snd q \<in> {snd p, snd p + 5 * SEC}"

definition paced :: "nat \<Rightarrow> duration \<Rightarrow> nat \<Rightarrow> (nat \<times> duration) list \<Rightarrow> bool" where
  "paced t interval deadline ps \<longleftrightarrow>
     successively follows ps \<and> (\<forall>p\<in>set ps. t \<le> fst p \<and> fst p < deadline \<and> interval \<le> snd p)"

text \<open>What the loop does after a poll: it ends, or it polls again after an interval.\<close>

lemma device_loop_step:
  assumes "t < deadline" "\<forall>n d. d \<le> ev_sleep env n d"
  obtains r sent' where "device_loop env c code deadline (Suc k) interval t polls sent = (Some r, polls @ [(t, interval)], sent')"
  | i' t' sent' where "follows (t, interval) (t', i')" "interval \<le> i'"
      "device_loop env c code deadline (Suc k) interval t polls sent =
       device_loop env c code deadline k i' t' (polls @ [(t, interval)]) sent'"
proof -
  obtain r sent' where poll: "poll_device_token (ev_oauth env) c code sent = (r, sent')" by (meson surj_pair)
  have follow: "follows (t, interval) (t + ev_poll_time env n + ev_sleep env n (retry_wait d i'), i')"
    if "i' \<in> {interval, interval + 5 * SEC}" for n d i'
    using that assms(2) [rule_format, of "retry_wait d i'" n] by (auto simp: follows_def retry_wait_def)
  let ?loop = "device_loop env c code deadline (Suc k) interval t polls sent"
  let ?again = "\<lambda>i' d. device_loop env c code deadline k i'
    (t + ev_poll_time env (length polls) + ev_sleep env (length polls) (retry_wait d i')) (polls @ [(t, interval)]) sent'"
  note loop = device_loop.simps(2) [of env c code deadline k interval t polls sent, unfolded Let_def poll prod.case]
  have "(\<exists>r'. ?loop = (Some r', polls @ [(t, interval)], sent')) \<or>
    (\<exists>i' d. i' \<in> {interval, interval + 5 * SEC} \<and> ?loop = ?again i' d)"
    unfolding loop using assms(1)
    by (auto split: option.split sum.split device_token_status.split)
  then show thesis
  proof (elim disjE exE conjE)
    fix i' d assume i': "i' \<in> {interval, interval + 5 * SEC}" and again: "?loop = ?again i' d"
    from i' have "interval \<le> i'" by auto
    from that(2) [OF follow [OF i'] this again] show thesis .
  qed (use that(1) in blast)
qed

lemma device_loop_polls:
  assumes "device_loop env c code deadline k interval t polls sent = (r, polls', sent')"
    "\<forall>n d. d \<le> ev_sleep env n d"
    "polls = [] \<or> follows (last polls) (t, interval)" "paced t0 i0 deadline polls" "t0 \<le> t" "i0 \<le> interval"
  shows "paced t0 i0 deadline polls' \<and> length polls' \<le> length polls + k"
  using assms(1,3-)
proof (induction k arbitrary: interval t polls sent)
  case (Suc k)
  show ?case
  proof (cases "deadline \<le> t")
    case True
    with Suc.prems show ?thesis by simp
  next
    case False
    then have polls: "paced t0 i0 deadline (polls @ [(t, interval)])"
      using Suc.prems by (auto simp: paced_def successively_append_iff)
    from False have "t < deadline" by simp
    then show ?thesis
    proof (rule device_loop_step [OF _ assms(2), of t deadline c code k interval polls sent])
      fix r s assume "device_loop env c code deadline (Suc k) interval t polls sent = (Some r, polls @ [(t, interval)], s)"
      with Suc.prems(1) polls show ?thesis by simp
    next
      fix i' t' s assume next_poll: "follows (t, interval) (t', i')" "interval \<le> i'"
        "device_loop env c code deadline (Suc k) interval t polls sent =
         device_loop env c code deadline k i' t' (polls @ [(t, interval)]) s"
      then have "t \<le> t'" by (simp add: follows_def)
      then show ?thesis
        using Suc.IH [of i' t' "polls @ [(t, interval)]" s] Suc.prems next_poll polls by simp
    qed
  qed
qed simp

lemma device_loop_ends:
  assumes "\<forall>n d. d \<le> ev_sleep env n d" "i0 \<le> interval" "deadline \<le> t + k * i0"
  shows "fst (device_loop env c code deadline (Suc k) interval t polls sent) \<noteq> None"
  using assms(2-)
proof (induction k arbitrary: interval t polls sent)
  case 0
  then show ?case by simp
next
  case (Suc k)
  show ?case
  proof (cases "deadline \<le> t")
    case True
    then show ?thesis by simp
  next
    case False
    then have "t < deadline" by simp
    then show ?thesis
    proof (rule device_loop_step [OF _ assms(1), of t deadline c code "Suc k" interval polls sent])
      fix i' t' s assume next_poll: "follows (t, interval) (t', i')" "interval \<le> i'"
        "device_loop env c code deadline (Suc (Suc k)) interval t polls sent =
         device_loop env c code deadline (Suc k) i' t' (polls @ [(t, interval)]) s"
      then have "deadline \<le> t' + k * i0" using Suc.prems by (simp add: follows_def)
      with Suc next_poll show ?thesis by simp
    qed simp
  qed
qed

lemma paced_nth:
  assumes "paced t interval deadline ps" "n < length ps"
  shows "t + n * interval \<le> fst (ps ! n)"
  using assms(2)
proof (induction n)
  case 0
  with assms(1) show ?case by (simp add: paced_def)
next
  case (Suc n)
  then have "follows (ps ! n) (ps ! Suc n)"
    using assms(1) by (simp add: paced_def successively_conv_nth)
  moreover have "interval \<le> snd (ps ! Suc n)" using assms(1) Suc.prems by (simp add: paced_def)
  ultimately show ?case using Suc by (simp add: follows_def)
qed

text \<open>
  C29. The device login is paced and ends. Every poll for the token starts before the deadline the
  service named and at least one interval after the one before; the interval is the one the
  service named (five seconds when it named none) and five seconds more from every answer on
  that asks to slow down. So in a lifetime of the code there are at most as many polls as
  intervals, rounded up, and unless the service named an interval of zero the login ends, with a
  token, an error or the expiry, after one more look at the clock.
\<close>

theorem device_login_paced:
  assumes "\<forall>n d. d \<le> ev_sleep env n d" "0 < device_interval auth"
    "device_loop env c (da_device_code auth) (da_expires_in auth * SEC) k (device_interval auth) 0 [] sent = (r, polls, sent')"
  shows "successively (\<lambda>p q. fst p + snd q \<le> fst q \<and> snd q \<in> {snd p, snd p + 5 * SEC}) polls \<and>
    (\<forall>(t, i)\<in>set polls. t < da_expires_in auth * SEC \<and> device_interval auth \<le> i) \<and>
    (length polls - 1) * device_interval auth \<le> da_expires_in auth * SEC \<and>
    (da_expires_in auth * SEC \<le> (k - 1) * device_interval auth \<and> 0 < k \<longrightarrow> r \<noteq> None)"
proof -
  let ?i = "device_interval auth" and ?d = "da_expires_in auth * SEC"
  have paced: "paced 0 ?i ?d polls"
    using device_loop_polls [OF assms(3,1), of 0 ?i] by (simp add: paced_def)
  have "(length polls - 1) * ?i \<le> ?d"
  proof (cases polls rule: rev_cases)
    case (snoc ps p)
    then have "(length polls - 1) * ?i \<le> fst p" "fst p < ?d"
      using paced_nth [OF paced, of "length ps"] paced by (auto simp: paced_def)
    then show ?thesis by simp
  qed simp
  moreover have "r \<noteq> None" if "?d \<le> (k - 1) * ?i" "0 < k"
    using device_loop_ends [OF assms(1) order_refl, of ?d 0 "k - 1" ?i c "da_device_code auth" "[]" sent] that assms(3)
    by simp
  ultimately show ?thesis
    using paced unfolding paced_def follows_def by auto
qed

subsection \<open>Commands as triples\<close>

text \<open>From a state with \<open>P\<close> a command ends with \<open>Q\<close> of its result, or with \<open>E\<close> when it fails.\<close>

definition ends :: "(run_state \<Rightarrow> bool) \<Rightarrow> 'a run_op \<Rightarrow> ('a \<Rightarrow> run_state \<Rightarrow> bool) \<Rightarrow> (run_state \<Rightarrow> bool) \<Rightarrow> bool" where
  "ends P op Q E \<longleftrightarrow> (\<forall>st. P st \<longrightarrow> (case op st of (Inr x, st') \<Rightarrow> Q x st' | (Inl e, st') \<Rightarrow> E st'))"

lemma ends_seq:
  assumes "ends P m R E" "\<And>x. ends (R x) (f x) Q E"
  shows "ends P (seq_op m f) Q E"
  using assms unfolding ends_def seq_op_def
  by (fastforce split: prod.splits sum.splits)

lemma ends_lift: "(\<And>st. P st \<Longrightarrow> case r of Inr x \<Rightarrow> Q x st | Inl e \<Rightarrow> E st) \<Longrightarrow> ends P (lift_res r) Q E"
  by (auto simp: ends_def lift_res_def split: sum.splits)

text \<open>Commands that leave the files alone.\<close>

definition keeps_files :: "'a run_op \<Rightarrow> bool" where
  "keeps_files op \<longleftrightarrow> (\<forall>st r st'. op st = (r, st') \<longrightarrow> ru_files st' = ru_files st)"

lemma keeps_files_lift: "keeps_files (lift_res r)"
  by (auto simp: keeps_files_def lift_res_def)

lemma keeps_files_seq: "keeps_files m \<Longrightarrow> (\<And>x. keeps_files (f x)) \<Longrightarrow> keeps_files (seq_op m f)"
  unfolding keeps_files_def seq_op_def by (fastforce split: prod.splits sum.splits)

lemma keeps_files_read: "keeps_files (on_files (reads f))"
  by (auto simp: keeps_files_def on_files_def reads_def)

lemma keeps_files_secret: "keeps_files (resolve_client_secret env v p)"
  by (auto simp: resolve_client_secret_def read_client_secret_file_def Let_def
      intro!: keeps_files_seq keeps_files_lift keeps_files_read split: option.split)

lemma keeps_files_ask: "keeps_files (ask_refresh env c rt)"
  by (auto simp: keeps_files_def ask_refresh_def split: prod.splits)

lemma keeps_files_some: "keeps_files (some_or e v)"
  by (simp add: some_or_def keeps_files_lift)

lemma ends_keeps: "keeps_files op \<Longrightarrow> ends (\<lambda>st. ru_files st = fs) op (\<lambda>_ st. ru_files st = fs) (\<lambda>st. ru_files st = fs)"
  unfolding ends_def keeps_files_def by (fastforce split: prod.split sum.split)

lemma ends_weaken:
  "ends P op Q E \<Longrightarrow> (\<And>x st. Q x st \<Longrightarrow> Q' x st) \<Longrightarrow> (\<And>st. E st \<Longrightarrow> E' st) \<Longrightarrow> ends P op Q' E'"
  by (fastforce simp: ends_def split: prod.splits sum.splits)

subsection \<open>Saving what was granted\<close>

text \<open>Files other than the named ones and their temporary names are untouched.\<close>

definition only_changes :: "nat \<Rightarrow> path list \<Rightarrow> files \<Rightarrow> files \<Rightarrow> bool" where
  "only_changes pid ps fs fs' \<longleftrightarrow> (\<forall>q. q \<notin> set ps \<and> q \<notin> temp_name pid ` set ps \<longrightarrow> fs' q = fs q)"

lemma save_token_only:
  "save_token_file cd io p n t fs = (r, fs') \<Longrightarrow> only_changes (fi_pid io) [p] fs fs'"
  by (cases "tk_ser cd t") (auto simp: save_token_file_def only_changes_def dest!: save_cases)

lemma distinct_names:
  assumes "ensure_distinct_auth_paths fs l r a b = Inr ()"
  shows "l \<noteq> r"
  using assms by (auto simp: ensure_distinct_auth_paths_def and_then_Inr_iff paths_overlap_for_token_output_def
      path_components_overlap_def split: if_splits)

text \<open>
  A token file keeps a token set with a refresh token; \<open>new\<close> is the one that was granted.
\<close>

lemma save_outputs_files:
  assumes codec: "codec_round (ev_codec env)" and new: "ts_refresh_token new \<noteq> None"
    and old: "file_view (ev_codec env) (components_of p) fs = Some t" "ts_refresh_token t \<noteq> None"
    and apart: "\<forall>a. access = Some a \<longrightarrow> components_of p \<notin> {components_of a, temp_name (fi_pid (ev_io env)) (components_of a)}"
  shows "ends (\<lambda>st. ru_files st = fs) (save_outputs env (Some p) access shared new)
     (\<lambda>_ st. file_view (ev_codec env) (components_of p) (ru_files st) = Some new \<and>
        (\<forall>a. access = Some a \<longrightarrow> ru_files st (components_of a) =
           Some \<lparr>tf_bytes = ts_access_token new, tf_mode = access_token_file_mode shared\<rparr>))
     (\<lambda>st. \<exists>t'. file_view (ev_codec env) (components_of p) (ru_files st) = Some t' \<and> ts_refresh_token t' \<noteq> None)"
    (is "ends _ _ ?Q ?E")
proof -
  let ?io = "ev_io env" and ?cd = "ev_codec env" and ?p = "components_of p"
  have first: "ends (\<lambda>st. ru_files st = fs) (on_files (\<lambda>n. save_token_file ?cd ?io ?p n new))
      (\<lambda>_ st. file_view ?cd ?p (ru_files st) = Some new) ?E"
    unfolding ends_def
  proof (intro allI impI)
    fix st :: run_state assume st: "ru_files st = fs"
    obtain r fs' where s: "save_token_file ?cd ?io ?p (ru_tick st) new fs = (r, fs')" by (meson surj_pair)
    then have "file_view ?cd ?p fs' \<in> {Some t, Some new}" "r = Inr () \<Longrightarrow> file_view ?cd ?p fs' = Some new"
      by (cases rule: save_token_cases; use codec old(1) in \<open>auto simp: file_view_def codec_round_def\<close>)+
    with s st new old(2) show "case on_files (\<lambda>n. save_token_file ?cd ?io ?p n new) st of
        (Inl e, st') \<Rightarrow> ?E st' | (Inr x, st') \<Rightarrow> file_view ?cd ?p (ru_files st') = Some new"
      by (cases r) (auto simp: on_files_def)
  qed
  have second: "ends (\<lambda>st. file_view ?cd ?p (ru_files st) = Some new)
      (case access of
         Some a \<Rightarrow> on_files (\<lambda>n. save_access_token_file ?io (components_of a) n (ts_access_token new) (access_token_file_mode shared))
       | None \<Rightarrow> lift_res (Inr ())) ?Q ?E"
  proof (cases access)
    case None
    then show ?thesis by (auto intro: ends_lift)
  next
    case (Some a)
    have "ends (\<lambda>st. file_view ?cd ?p (ru_files st) = Some new)
        (on_files (\<lambda>n. save_access_token_file ?io (components_of a) n (ts_access_token new) (access_token_file_mode shared))) ?Q ?E"
      unfolding ends_def
    proof (intro allI impI)
      fix st :: run_state assume st: "file_view ?cd ?p (ru_files st) = Some new"
      obtain r fs' where s: "save_access_token_file ?io (components_of a) (ru_tick st) (ts_access_token new)
          (access_token_file_mode shared) (ru_files st) = (r, fs')" by (meson surj_pair)
      from save_cases [OF s [unfolded save_access_token_file_def]] apart Some
      have "fs' ?p = ru_files st ?p"
        "r = Inr () \<Longrightarrow> fs' (components_of a) = Some \<lparr>tf_bytes = ts_access_token new, tf_mode = access_token_file_mode shared\<rparr>"
        by auto
      with s st new Some show "case on_files (\<lambda>n. save_access_token_file ?io (components_of a) n (ts_access_token new)
          (access_token_file_mode shared)) st of (Inl e, st') \<Rightarrow> ?E st' | (Inr x, st') \<Rightarrow> ?Q x st'"
        by (cases r) (auto simp: on_files_def file_view_def)
    qed
    with Some show ?thesis by simp
  qed
  show ?thesis
    unfolding save_outputs_def option.case by (rule ends_seq [OF first second])
qed

lemma ends_seq_keeps:
  assumes "keeps_files m" "\<And>x. ends (\<lambda>st. ru_files st = fs) (f x) Q E" "\<And>st. ru_files st = fs \<Longrightarrow> E st"
  shows "ends (\<lambda>st. ru_files st = fs) (seq_op m f) Q E"
  by (rule ends_seq [OF ends_weaken [OF ends_keeps [OF assms(1)]] assms(2)]) (use assms(3) in auto)

lemma ends_seq_lift:
  assumes "\<And>x. r = Inr x \<Longrightarrow> ends P (f x) Q E" "\<And>st. P st \<Longrightarrow> E st"
  shows "ends P (seq_op (lift_res r) f) Q E"
  using assms by (cases r) (auto simp: ends_def)

lemma ends_seq_value: "ends P (f x) Q E \<Longrightarrow> ends P (seq_op (lift_res (Inr x)) f) Q E"
  by (simp add: ends_def)

lemma distinct_token_access:
  "ensure_distinct_auth_file_paths fs (Some t) (Some a) s = Inr () \<Longrightarrow> t \<noteq> a"
  by (auto simp: ensure_distinct_auth_file_paths_def ensure_distinct_token_paths_def and_then_Inr_iff dest: distinct_names)


subsection \<open>Examples\<close>

definition demo_cli :: cli_env where
  "demo_cli = \<lparr>ev_var = [''WEBEX_CLIENT_ID'' \<mapsto> ''id'', ''WEBEX_CLIENT_SECRET'' \<mapsto> ''s''], ev_fs = demo_dirs, ev_io = demo_io,
     ev_codec = demo_codec, ev_oauth = demo_oauth, ev_poll_time = \<lambda>_. 1, ev_sleep = \<lambda>_ d. d + 1, ev_instant_max = 10 ^ 30\<rparr>"

definition demo_device :: device_authorization where
  "demo_device = \<lparr>da_device_code = ''d'', da_user_code = ''u'', da_verification_uri = ''v'', da_verification_uri_complete = None,
     da_expires_in = 10, da_interval = None\<rparr>"

text \<open>The service is offline, so the first poll fails.\<close>

lemma device_login_paced_witness:
  "fst (device_loop demo_cli demo_oauth_config ''d'' (10 * SEC) 3 (5 * SEC) 0 [] []) \<noteq> None"
proof -
  let ?r = "device_loop demo_cli demo_oauth_config ''d'' (10 * SEC) 3 (5 * SEC) 0 [] []"
  have sel: "da_device_code demo_device = ''d''" "da_expires_in demo_device = 10" "device_interval demo_device = 5 * SEC"
    by (simp_all add: demo_device_def device_interval_def)
  have sleep: "\<forall>n d. d \<le> ev_sleep demo_cli n d" by (simp add: demo_cli_def)
  have run: "device_loop demo_cli demo_oauth_config (da_device_code demo_device) (da_expires_in demo_device * SEC) 3
      (device_interval demo_device) 0 [] [] = (fst ?r, fst (snd ?r), snd (snd ?r))"
    unfolding sel by (simp only: prod.collapse)
  from device_login_paced [OF sleep _ run] show ?thesis unfolding sel by simp
qed

definition demo_refresh_args :: auth_refresh_args where
  "demo_refresh_args = \<lparr>ar_client_id = None, ar_client_secret = None, ar_client_secret_file = None,
     ar_token_file = Some ''tokens/t.json'', ar_access_token_file = Some ''access'', ar_access_token_file_group_readable = True\<rparr>"

definition demo_run :: run_state where
  "demo_run = \<lparr>ru_files = demo_files, ru_tick = 0, ru_sent = [], ru_shown = []\<rparr>"

lemma demo_components: "components_of ''tokens/t.json'' = demo_path"
  by (simp add: demo_path_def) code_simp


end
