(* ===== verification/Spawned.thy ===== *)
theory Spawned imports MultiRoom begin

text \<open>
  The background tasks of \<open>src/realtime.rs\<close>: a poller that is moved into a task, polls at every
  tick of its interval and sends what it finds into a channel, until the receiver is dropped. What
  happens at a tick is an input: whether the receiver is still there when the interval ticks and
  when the poll ends, and how many of the sends it takes.
\<close>

subsection \<open>The loop\<close>

record 'i tick =
  tk_open :: bool
  tk_finished :: bool
  tk_takes :: "nat option"
  tk_answers :: 'i

text \<open>A send fails when the receiver is dropped before there is room for it.\<close>

fun send_all :: "nat option \<Rightarrow> 'a list \<Rightarrow> 'a list \<times> bool" where
  "send_all takes [] = ([], True)"
| "send_all takes (x # xs) =
     (if takes = Some 0 then ([], False)
      else case send_all (map_option (\<lambda>k. k - 1) takes) xs of (ys, alive) \<Rightarrow> (x # ys, alive))"

text \<open>What is received, and the state of the task while it has not returned.\<close>

fun poll_loop :: "('i \<Rightarrow> 's \<Rightarrow> 'a list \<times> 's) \<Rightarrow> 'i tick list \<Rightarrow> 's \<Rightarrow> 'a list \<times> 's option" where
  "poll_loop pass [] s = ([], Some s)"
| "poll_loop pass (t # ts) s =
     (if \<not> tk_open t \<or> \<not> tk_finished t then ([], None)
      else case pass (tk_answers t) s of (xs, s) \<Rightarrow>
        (case send_all (tk_takes t) xs of
           (ys, False) \<Rightarrow> (ys, None)
         | (ys, True) \<Rightarrow> (case poll_loop pass ts s of (zs, r) \<Rightarrow> (ys @ zs, r))))"

subsection \<open>The three tasks\<close>

definition message_pass :: "source \<Rightarrow> poller \<Rightarrow> message res list \<times> poller" where
  "message_pass src p =
     (case poller_poll_once src p of
        (Inr ms, p) \<Rightarrow> (map Inr ms, p)
      | (Inl e, p) \<Rightarrow> ([Inl e], p))"

definition spawn :: "source tick list \<Rightarrow> poller \<Rightarrow> message res list \<times> poller option" where
  "spawn = poll_loop message_pass"

text \<open>The clock, the discovery and the polls of one pass over the rooms.\<close>

record room_answers =
  ra_now :: time
  ra_cutoff :: time
  ra_discovered :: "room list res"
  ra_completions :: "string list \<Rightarrow> completions"

definition multi_pass :: "room_answers \<Rightarrow> multi_poller \<Rightarrow> multi_room_poll res \<times> multi_poller" where
  "multi_pass a = multi_poll_once (ra_now a) (ra_cutoff a) (ra_discovered a) (ra_completions a)"

definition batch_pass :: "room_answers \<Rightarrow> multi_poller \<Rightarrow> multi_room_poll res list \<times> multi_poller" where
  "batch_pass a m = (case multi_pass a m of (r, m) \<Rightarrow> ([r], m))"

definition spawn_batches :: "room_answers tick list \<Rightarrow> multi_poller \<Rightarrow> multi_room_poll res list \<times> multi_poller option" where
  "spawn_batches = poll_loop batch_pass"

definition into_events :: "multi_room_poll \<Rightarrow> room_message res list" where
  "into_events b = mr_events b"

definition room_pass :: "room_answers \<Rightarrow> multi_poller \<Rightarrow> room_message res list \<times> multi_poller" where
  "room_pass a m =
     (case multi_pass a m of
        (Inr b, m) \<Rightarrow> (into_events b, m)
      | (Inl e, m) \<Rightarrow> ([Inl e], m))"

definition spawn_messages :: "room_answers tick list \<Rightarrow> multi_poller \<Rightarrow> room_message res list \<times> multi_poller option" where
  "spawn_messages = poll_loop room_pass"

end
