(* ===== verification/CliRun.thy ===== *)
theory CliRun imports CliAuth RestClient BotFront Spawned "HOL-Library.Option_ord" begin

text \<open>
  How the command line tool executes its commands (\<open>src/bin/webex-headless.rs\<close>): every command
  is one or more operations of the client and one value that is printed. The state is that of the
  login commands and what the client has sent. A listing may go on for ever, so a command has a
  number of pages it may ask for; the answer is missing when they are used up.
\<close>

subsection \<open>Commands that use the client\<close>

record room_resolution =
  rn_room_id :: string
  rn_source :: string
  rn_room :: room

datatype cli_output =
    OutLogin login_output
  | OutPerson person
  | OutRooms "room list"
  | OutRoom room
  | OutResolution room_resolution
  | OutMessages "message list"
  | OutMessage message
  | OutDeleted string
  | OutPolled "message list" "error option"
  | OutEvents "sidecar_event list"

text \<open>An operation of the client as a step of a command.\<close>

type_synonym 'a step = "sent \<Rightarrow> 'a run_result option \<times> sent"

definition call :: "'a rest_op \<Rightarrow> 'a step" where
  "call op sent = (case op sent of (r, sent) \<Rightarrow> (Some (map_err Boxed r), sent))"

definition collected :: "(sent \<Rightarrow> 'a res option \<times> sent) \<Rightarrow> 'a step" where
  "collected op sent = (case op sent of (r, sent) \<Rightarrow> (map_option (map_err Boxed) r, sent))"

definition give :: "'a run_result \<Rightarrow> 'a step" where
  "give r sent = (Some r, sent)"

definition then_do :: "'a step \<Rightarrow> ('a \<Rightarrow> 'b step) \<Rightarrow> 'b step" where
  "then_do m f sent =
     (case m sent of
        (None, sent) \<Rightarrow> (None, sent)
      | (Some (Inl e), sent) \<Rightarrow> (Some (Inl e), sent)
      | (Some (Inr x), sent) \<Rightarrow> f x sent)"

text \<open>The first page, or all of them.\<close>

definition listing :: "client \<Rightarrow> 'a list decoder \<Rightarrow> nat \<Rightarrow> bool \<Rightarrow> 'a page rest_op \<Rightarrow> 'a list step" where
  "listing c dec k all first =
     then_do (call first) (\<lambda>page.
       if all then collected (collect_all (cl_env c) (cl_base c) dec k page) else give (Inr (pg_items page)))"

subsection \<open>Finding a room\<close>

text \<open>The candidates of a link in their order, until one is accessible; otherwise the last error.\<close>

fun try_candidates :: "client \<Rightarrow> string list \<Rightarrow> error option \<Rightarrow> sent \<Rightarrow> (error option + room_resolution) \<times> sent" where
  "try_candidates c [] err sent = (Inl err, sent)"
| "try_candidates c (i # is) err sent =
     (case get_room c i sent of
        (Inr r, sent) \<Rightarrow> (Inr \<lparr>rn_room_id = i, rn_source = ''link'', rn_room = r\<rparr>, sent)
      | (Inl e, sent) \<Rightarrow> try_candidates c is (Some e) sent)"

fun dedup_rooms :: "room list \<Rightarrow> room list" where
  "dedup_rooms (a # b # rs) = (if ro_id a = ro_id b then dedup_rooms (a # rs) else a # dedup_rooms (b # rs))"
| "dedup_rooms rs = rs"

definition match_title :: "string \<Rightarrow> room list \<Rightarrow> room_resolution run_result" where
  "match_title title rooms =
     (case dedup_rooms (sort_key ro_id (filter (\<lambda>r. ro_title r = Some title) rooms)) of
        [] \<Rightarrow> Inl (CliQuoted ''no room matched title '' title [])
      | [r] \<Rightarrow>
          (case ro_id r of
             Some i \<Rightarrow> Inr \<lparr>rn_room_id = i, rn_source = ''title'', rn_room = r\<rparr>
           | None \<Rightarrow> Inl (CliQuoted ''room title '' title '' matched a room with no id''))
      | rs \<Rightarrow> Inl (CliQuoted ''title '' title ('' matched '' @ show_nat (length rs) @ '' rooms; rerun with --room-id'')))"

definition no_title_error :: "rooms_resolve_args \<Rightarrow> string list \<Rightarrow> error option \<Rightarrow> run_error" where
  "no_title_error a candidates err =
     (if nonblank (rr_link a) \<noteq> None then
        (if candidates = [] then Cli ''no room id candidates found in --link''
         else Cli (''no room id candidates from --link resolved to an accessible room'' @
           (case err of Some e \<Rightarrow> ''; last error: '' @ error_display e | None \<Rightarrow> [])))
      else Cli ''rooms resolve requires --room-id, --link, or --title'')"

definition resolve_room ::
    "client \<Rightarrow> (string \<Rightarrow> string) \<Rightarrow> nat \<Rightarrow> rooms_resolve_args \<Rightarrow> room_resolution step" where
  "resolve_room c b64 k a =
     (case nonblank (rr_room_id a) of
        Some i \<Rightarrow> then_do (call (get_room c i)) (\<lambda>r.
          give (Inr \<lparr>rn_room_id = i, rn_source = ''explicit'', rn_room = r\<rparr>))
      | None \<Rightarrow>
          (let candidates = (case rr_link a of
                 Some l \<Rightarrow> room_id_candidates_from_link (re_url (cl_env c)) b64 l | None \<Rightarrow> []) in
           (\<lambda>sent. case try_candidates c candidates None sent of
             (Inr found, sent) \<Rightarrow> (Some (Inr found), sent)
           | (Inl err, sent) \<Rightarrow>
               (case nonblank (rr_title a) of
                  None \<Rightarrow> (Some (Inl (no_title_error a candidates err)), sent)
                | Some title \<Rightarrow>
                    then_do (listing c (dc_rooms (cl_dec c)) k True
                      (list_rooms_page c (list_rooms_default\<lparr>lr_max := Some 100\<rparr>))) (\<lambda>rooms.
                    give (match_title title rooms)) sent))))"

subsection \<open>Executing a command\<close>

definition client_command :: "client \<Rightarrow> (string \<Rightarrow> string) \<Rightarrow> nat \<Rightarrow> cli_command \<Rightarrow> cli_output step" where
  "client_command c b64 k cmd =
     (case cmd of
        Me \<Rightarrow> then_do (call (me c)) (\<lambda>p. give (Inr (OutPerson p)))
      | RoomsList a \<Rightarrow>
          then_do (listing c (dc_rooms (cl_dec c)) k (rl_all a) (list_rooms_page c
            (list_rooms_default\<lparr>lr_max := rl_max a, lr_room_type := rl_room_type a, lr_team_id := rl_team_id a\<rparr>)))
          (\<lambda>rs. give (Inr (OutRooms rs)))
      | RoomsGet i \<Rightarrow> then_do (call (get_room c i)) (\<lambda>r. give (Inr (OutRoom r)))
      | RoomsResolve a \<Rightarrow> then_do (resolve_room c b64 k a) (\<lambda>r. give (Inr (OutResolution r)))
      | MessagesList a \<Rightarrow>
          then_do (listing c (dc_messages (cl_dec c)) k (ml_all a) (list_messages_page c
            ((list_messages_room (ml_room_id a))\<lparr>lm_parent_id := ml_parent_id a, lm_max := ml_max a\<rparr>)))
          (\<lambda>ms. give (Inr (OutMessages ms)))
      | MessagesDirect a \<Rightarrow>
          then_do (listing c (dc_messages (cl_dec c)) k (md_all a) (list_direct_messages_page c
            \<lparr>ld_parent_id = md_parent_id a, ld_person_id = md_person_id a, ld_person_email = md_person_email a\<rparr>))
          (\<lambda>ms. give (Inr (OutMessages ms)))
      | MessagesGet i \<Rightarrow> then_do (call (get_message c i)) (\<lambda>m. give (Inr (OutMessage m)))
      | MessagesSend a \<Rightarrow>
          (let request = create_message_from_send (ms_target a) (ms_body a) in
           then_do (call (case ms_file a of
               Some f \<Rightarrow> create_message_with_file c request (into_attachment f)
             | None \<Rightarrow> create_message_call c request)) (\<lambda>m. give (Inr (OutMessage m))))
      | MessagesReply a \<Rightarrow>
          then_do (call (create_message_call c ((create_message_from_body (mr_body a))
            \<lparr>cm_room_id := Some (mr_room_id a), cm_parent_id := Some (mr_parent_id a)\<rparr>))) (\<lambda>m. give (Inr (OutMessage m)))
      | MessagesDelete i \<Rightarrow> then_do (call (delete_message c i)) (\<lambda>_. give (Inr (OutDeleted i)))
      | _ \<Rightarrow> give (Inl (Cli ''not a command of the client'')))"

subsection \<open>Polling\<close>

definition poll_config :: "poll_messages_args \<Rightarrow> polling_config" where
  "poll_config a = polling_config_default\<lparr>pc_interval := pm_interval_seconds a * SEC, pc_page_size := pm_page_size a,
     pc_emit_existing_on_first_poll := pm_emit_existing a\<rparr>"

text \<open>The messages that are printed, and the error that ends the command.\<close>

fun print_messages :: "message res list \<Rightarrow> message list \<times> error option" where
  "print_messages [] = ([], None)"
| "print_messages (Inl e # rs) = ([], Some e)"
| "print_messages (Inr m # rs) = (case print_messages rs of (ms, e) \<Rightarrow> (m # ms, e))"

definition poll_messages :: "poll_messages_args \<Rightarrow> source tick list \<Rightarrow> message list \<times> error option" where
  "poll_messages a ticks = print_messages (fst (spawn ticks (set_config (poll_config a) (poller_new (pm_room_id a)))))"

subsection \<open>The sidecar receiver\<close>

text \<open>What the resolver answers for an address: whether each of the addresses is a loopback.\<close>

definition validate_loopback_bind :: "bool list res \<Rightarrow> string \<Rightarrow> bool \<Rightarrow> unit run_result" where
  "validate_loopback_bind resolved bind allow =
     and_then (map_err Boxed resolved) (\<lambda>addrs.
       if addrs = [] then Inl (CliQuoted ''bind address '' bind '' did not resolve'')
       else if \<not> allow \<and> \<not> list_all id addrs
       then Inl (Cli ''sidecar bind must resolve only to loopback addresses; use --allow-non-loopback only for explicitly secured deployments'')
       else Inr ())"

definition sidecar_token :: "cli_env \<Rightarrow> sidecar_receive_args \<Rightarrow> string option" where
  "sidecar_token env a = nonempty_path (or_else (sr_token a) (ev_var env ''WEBEX_SIDECAR_TOKEN''))"

definition sidecar_start :: "cli_env \<Rightarrow> bool list res \<Rightarrow> sidecar_receive_args \<Rightarrow> string option run_result" where
  "sidecar_start env resolved a =
     and_then (validate_loopback_bind resolved (sr_bind a) (sr_allow_non_loopback a)) (\<lambda>_.
       if sidecar_token env a = None \<and> \<not> sr_allow_unauthenticated a
       then Inl (Cli ''sidecar receive requires --token/WEBEX_SIDECAR_TOKEN or --allow-unauthenticated'')
       else Inr (sidecar_token env a))"

text \<open>
  One connection of the accept loop, with the number of connections that are being served: it is
  turned away, or it is handled and its event, if its answer could be written, is delivered.
\<close>

definition accept_connection ::
    "json_env \<Rightarrow> sidecar_receive_args \<Rightarrow> string option \<Rightarrow> nat \<Rightarrow> http_request res option \<Rightarrow> bool
      \<Rightarrow> http_response \<times> sidecar_event option" where
  "accept_connection je a token serving request written =
     (if 32 \<le> serving then (json_error (je_ser je) 503 ''too many sidecar connections'', None)
      else case handle_sidecar_connection je (sr_path a) (sr_health_path a) token request of
        (resp, event) \<Rightarrow> (resp, if written then event else None))"

text \<open>The events that are printed, up to the limit; \<open>0\<close> is no limit.\<close>

fun receive_events :: "nat \<Rightarrow> nat \<Rightarrow> sidecar_event list \<Rightarrow> sidecar_event list" where
  "receive_events limit accepted [] = []"
| "receive_events limit accepted (e # es) =
     (if 0 < limit \<and> limit \<le> Suc accepted then [e] else e # receive_events limit (Suc accepted) es)"

text \<open>
  A connection, with the number of connections that are being served when it comes, what is read
  from it and whether the answer can be written; the list is in the order in which they end.
\<close>

record connection =
  cn_serving :: nat
  cn_request :: "http_request res option"
  cn_written :: bool

definition sidecar_receive ::
    "cli_env \<Rightarrow> json_env \<Rightarrow> bool list res \<Rightarrow> unit res \<Rightarrow> connection list \<Rightarrow> sidecar_receive_args \<Rightarrow> sidecar_event list run_result" where
  "sidecar_receive env je resolved bound cns a =
     and_then (sidecar_start env resolved a) (\<lambda>token.
     and_then (map_err Boxed bound) (\<lambda>_.
       Inr (receive_events (sr_max_events a) 0
         (List.map_filter (\<lambda>cn. snd (accept_connection je a token (cn_serving cn) (cn_request cn) (cn_written cn))) cns))))"

subsection \<open>The tool\<close>

text \<open>
  What a run of the tool depends on: \<open>cw_client\<close> is the client on a provider, whose tokens may
  come from the files; \<open>cw_ticks\<close> is what the task of \<open>poll messages\<close> meets, and the rest is
  what \<open>sidecar receive\<close> meets.
\<close>

record cli_world =
  cw_env :: cli_env
  cw_client :: "client_token \<Rightarrow> run_state \<Rightarrow> client"
  cw_base64 :: "string \<Rightarrow> string"
  cw_ticks :: "client \<Rightarrow> source tick list"
  cw_json :: json_env
  cw_resolve :: "string \<Rightarrow> bool list res"
  cw_bind :: "string \<Rightarrow> unit res"
  cw_connections :: "connection list"

definition with_client ::
    "cli_world \<Rightarrow> global_options \<Rightarrow> (client \<Rightarrow> 'a step) \<Rightarrow> run_state \<times> sent \<Rightarrow> 'a run_result option \<times> run_state \<times> sent" where
  "with_client w g f st =
     (case build_client (cw_env w) g (fst st) of
        (Inl e, ru) \<Rightarrow> (Some (Inl e), ru, snd st)
      | (Inr t, ru) \<Rightarrow> (case f (cw_client w t ru) (snd st) of (r, sent) \<Rightarrow> (r, ru, sent)))"

text \<open>\<open>main\<close> answers \<open>Help\<close> itself; the error of a poll comes after what was printed.\<close>

definition execute ::
    "cli_world \<Rightarrow> nat \<Rightarrow> cli \<Rightarrow> run_state \<times> sent \<Rightarrow> cli_output run_result option \<times> run_state \<times> sent" where
  "execute w k c st =
     (case cli_cmd c of
        AuthDevice a \<Rightarrow>
          (case auth_device (cw_env w) k (cli_global c) a (fst st) of
             (r, ru) \<Rightarrow> (map_option (map_sum id OutLogin) r, ru, snd st))
      | AuthRefresh a \<Rightarrow>
          (case auth_refresh (cw_env w) (cli_global c) a (fst st) of
             (r, ru) \<Rightarrow> (Some (map_sum id OutLogin r), ru, snd st))
      | PollMessages a \<Rightarrow>
          with_client w (cli_global c) (\<lambda>cl.
            case poll_messages a (cw_ticks w cl) of (ms, e) \<Rightarrow> give (Inr (OutPolled ms e))) st
      | SidecarReceive a \<Rightarrow>
          (Some (map_sum id OutEvents (sidecar_receive (cw_env w) (cw_json w) (cw_resolve w (sr_bind a))
             (cw_bind w (sr_bind a)) (cw_connections w) a)), st)
      | cmd \<Rightarrow> with_client w (cli_global c) (\<lambda>cl. client_command cl (cw_base64 w) k cmd) st)"

end
