(* ===== verification/SpawnedProps.thy ===== *)
theory SpawnedProps imports Spawned PollerProps "HOL-Library.Sublist" begin

text \<open>
  What the receiver of a background task sees: a prefix of what the passes answer, and for a
  service whose feed grows every new message exactly once, in order.
\<close>

subsection \<open>Channels\<close>

lemma send_all_prefix: "prefix (fst (send_all k xs)) xs"
  by (induction k xs rule: send_all.induct) (auto split: prod.splits)

lemma send_all_more: "snd (send_all k xs) \<Longrightarrow> fst (send_all k xs) = xs"
  by (induction k xs rule: send_all.induct) (auto split: prod.splits if_splits)

lemma send_all_open [simp]: "send_all None xs = (xs, True)"
  by (induction xs) auto

definition still_open :: "'i tick \<Rightarrow> bool" where
  "still_open t \<longleftrightarrow> tk_open t \<and> tk_finished t \<and> tk_takes t = None"

text \<open>The passes alone.\<close>

fun passes :: "('i \<Rightarrow> 's \<Rightarrow> 'a list \<times> 's) \<Rightarrow> 'i list \<Rightarrow> 's \<Rightarrow> 'a list \<times> 's" where
  "passes pass [] s = ([], s)"
| "passes pass (a # as) s =
     (case pass a s of (xs, s) \<Rightarrow> (case passes pass as s of (ys, s) \<Rightarrow> (xs @ ys, s)))"

lemma poll_loop_open:
  "list_all still_open ts \<Longrightarrow>
    poll_loop pass ts s = (case passes pass (map tk_answers ts) s of (xs, s') \<Rightarrow> (xs, Some s'))"
  by (induction ts arbitrary: s) (auto simp: still_open_def split: prod.splits)

lemma poll_loop_prefix: "prefix (fst (poll_loop pass ts s)) (fst (passes pass (map tk_answers ts) s))"
proof (induction ts arbitrary: s)
  case (Cons t ts)
  obtain xs s' where pass: "pass (tk_answers t) s = (xs, s')" by (meson surj_pair)
  obtain ys alive where send: "send_all (tk_takes t) xs = (ys, alive)" by (meson surj_pair)
  with send_all_prefix [of "tk_takes t" xs] have "prefix ys xs" by simp
  moreover have "alive \<Longrightarrow> ys = xs" using send send_all_more [of "tk_takes t" xs] by simp
  ultimately show ?case
    using Cons.IH [of s'] pass send by (cases alive) (auto split: prod.splits intro: prefix_prefix)
qed simp

lemma passes_append:
  "passes pass (as @ bs) s =
    (case passes pass as s of (xs, s) \<Rightarrow> (case passes pass bs s of (ys, s) \<Rightarrow> (xs @ ys, s)))"
  by (induction "as" arbitrary: s) (auto split: prod.splits)

text \<open>The messages among what is received.\<close>

fun received :: "'a res list \<Rightarrow> 'a list" where
  "received [] = []"
| "received (Inl e # xs) = received xs"
| "received (Inr x # xs) = x # received xs"

lemma received_append [simp]: "received (xs @ ys) = received xs @ received ys"
  by (induction xs rule: received.induct) auto

lemma received_Inr [simp]: "received (map Inr ms) = ms"
  by (induction ms) auto

lemma received_prefix: "prefix xs ys \<Longrightarrow> prefix (received xs) (received ys)"
  by (auto simp: prefix_def)

subsection \<open>The stream of one feed\<close>

lemma delivered_settles:
  assumes "feed_ok ps" "seen_inv (po_seen p)" "delivered p ps (r, q)"
  shows "due (po_seen q) ps = []" "seen_inv (po_seen q)" "at_page q ps 0"
proof -
  have seen: "po_seen q = remember_newest_first (ids_of (due (po_seen p) ps)) (pc_max_seen_ids (po_config p)) (po_seen p)"
    using assms(3) by (simp add: delivered_def)
  show "due (po_seen q) ps = []"
  proof (cases "due (po_seen p) ps = []")
    case True
    with seen show ?thesis by simp
  next
    case False
    have "due (po_seen q) ps = new_msgs {} []"
      by (rule due_on_top [OF assms(2) False seen]) simp_all
    then show ?thesis by (simp only: new_msgs.simps)
  qed
  show "seen_inv (po_seen q)" unfolding seen by (rule seen_inv_remember [OF assms(2)])
  show "at_page q ps 0"
    using assms(1,3) by (simp add: delivered_def at_page_def has_pending_backlog_def feed_ok_def feed_items_def)
qed

lemma received_pass:
  "poller_poll_once src p = (Inr ms, q) \<Longrightarrow> message_pass src p = (map Inr ms, q)"
  "poller_poll_once src p = (Inl e, q) \<Longrightarrow> message_pass src p = ([Inl e], q)"
  by (simp_all add: message_pass_def)

text \<open>
  \<open>settles\<close>: everything that was due has been received, and nothing is due any more; until then
  nothing has been received and everything is still due.
\<close>

definition settles :: "poller \<Rightarrow> message page list \<Rightarrow> message list \<Rightarrow> poller \<Rightarrow> bool" where
  "settles p ps ms q \<longleftrightarrow> ms = rev (due (po_seen p) ps) \<and> due (po_seen q) ps = []"

definition waits :: "poller \<Rightarrow> message list \<Rightarrow> poller \<Rightarrow> bool" where
  "waits p ms q \<longleftrightarrow> ms = [] \<and> po_seen q = po_seen p"

lemma stream_feed:
  assumes "feed_ok ps" "list_all (honest ps) srcs" "within_limit p ps" "at_page p ps j" "seen_inv (po_seen p)"
  shows "(\<exists>j'. at_page (snd (passes message_pass srcs p)) ps j') \<and> seen_inv (po_seen (snd (passes message_pass srcs p))) \<and>
    (settles p ps (received (fst (passes message_pass srcs p))) (snd (passes message_pass srcs p)) \<or>
     waits p (received (fst (passes message_pass srcs p))) (snd (passes message_pass srcs p)) \<and>
     j + length (filter (quiet_source ps) srcs) * max (pc_max_pages_per_poll (po_config p)) 1 < length ps)"
  using assms(2-5)
proof (induction srcs arbitrary: p j)
  case Nil
  have "j < length ps" using Nil.prems(3) by (simp add: at_page_def)
  with Nil.prems(3,4) show ?case unfolding waits_def by (intro conjI disjI2 exI [of _ j]) simp_all
next
  case (Cons src srcs)
  have h: "honest ps src" "list_all (honest ps) srcs" using Cons.prems(1) by simp_all
  let ?k = "max (pc_max_pages_per_poll (po_config p)) 1"
  have same: "within_limit q ps" "seen_inv (po_seen q)" if "same_task p q" for q
    using that Cons.prems(2,4) by (simp_all add: same_task_def within_limit_def)
  have later: ?case
    if pass: "message_pass src p = (xs, q)" "received xs = []" and q: "same_task p q" "at_page q ps j'"
      and j': "j + length (filter (quiet_source ps) [src]) * ?k \<le> j'" for xs q j'
  proof -
    have "j + length (filter (quiet_source ps) (src # srcs)) * ?k \<le> j' + length (filter (quiet_source ps) srcs) * ?k"
      using j' by (auto split: if_splits)
    moreover obtain ys q' where rest: "passes message_pass srcs q = (ys, q')" by (meson surj_pair)
    moreover have "po_seen q = po_seen p" "po_config q = po_config p" using q(1) by (simp_all add: same_task_def)
    ultimately show ?thesis
      using Cons.IH [OF h(2) same(1) [OF q(1)] q(2) same(2) [OF q(1)]] pass
      by (auto simp: settles_def waits_def)
  qed
  from tick [OF assms(1) h(1) Cons.prems(2,3)] show ?case
  proof (elim disjE exE conjE)
    assume d: "delivered p ps (poller_poll_once src p)"
    obtain r q where run: "poller_poll_once src p = (r, q)" by (meson surj_pair)
    note now = delivered_settles [OF assms(1) Cons.prems(4) d [unfolded run]]
    have pass: "message_pass src p = (map Inr (rev (due (po_seen p) ps)), q)"
      using d run by (simp add: delivered_def message_pass_def)
    have "within_limit q ps" using now(1) by (simp add: within_limit_def)
    from Cons.IH [OF h(2) this now(3,2)] show ?case
      using pass now(1) by (auto simp: settles_def waits_def split: prod.splits)
  next
    fix q j' assume "poller_poll_once src p = (Inr [], q)" "j' = j + ?k" "same_task p q" "at_page q ps j'"
    then show ?case using later [of "[]" q j'] received_pass(1) [of src p "[]" q] by auto
  next
    fix q j' e assume "poller_poll_once src p = (Inl e, q)" "\<not> quiet_source ps src" "j \<le> j'"
      "same_task p q" "at_page q ps j'"
    then show ?case using later [of "[Inl e]" q j'] received_pass(2) [of src p e q] by auto
  qed
qed

subsection \<open>A feed that grows\<close>

text \<open>
  A history: new messages arrive on top of what was there, the service holds them in pages, and
  the poller passes over them, once for each source. The feed changes between two catch-ups.
\<close>

type_synonym history = "(message list \<times> message page list \<times> source list) list"

fun history_ok :: "poller \<Rightarrow> message list \<Rightarrow> history \<Rightarrow> bool" where
  "history_ok p old [] \<longleftrightarrow> True"
| "history_ok p old ((new, ps, srcs) # hs) \<longleftrightarrow>
     feed_ok ps \<and> feed_items ps = new @ old \<and>
     set (ids_of new) \<inter> (sn_ids (po_seen p) \<union> set (ids_of old)) = {} \<and>
     list_all (honest ps) srcs \<and> within_limit p ps \<and> \<not> has_pending_backlog p \<and>
     history_ok (snd (passes message_pass srcs p)) (new @ old) hs"

definition arrived :: "history \<Rightarrow> message list" where
  "arrived hs = concat (rev (map fst hs))"

definition sources :: "history \<Rightarrow> source list" where
  "sources hs = concat (map (\<lambda>(_, _, srcs). srcs) hs)"

lemma new_msgs_disjoint: "L \<inter> set (ids_of xs) = {} \<Longrightarrow> new_msgs (L \<union> K) xs = new_msgs K xs"
proof (induction K xs rule: new_msgs.induct)
  case (2 K m ms)
  then show ?case by (cases "me_id m") auto
qed simp

lemma due_grown:
  assumes "feed_items ps = new @ old" "set (ids_of new) \<inter> (sn_ids seen \<union> set (ids_of old)) = {}"
  shows "due seen ps = new_msgs {} new @ new_msgs {} (takeWhile (unseen seen) old)"
proof -
  have "\<forall>m\<in>set new. unseen seen m"
  proof
    fix m assume "m \<in> set new"
    then have "me_id m = Some i \<Longrightarrow> i \<in> set (ids_of new)" for i
      by (induction new) (auto split: option.splits)
    then show "unseen seen m" using assms(2) by (auto simp: unseen_def seen_contains_def split: option.splits)
  qed
  then have all: "takeWhile (unseen seen) (new @ old) = new @ takeWhile (unseen seen) old"
    by (rule takeWhile_append_all)
  have "set (ids_of (takeWhile (unseen seen) old)) \<subseteq> set (ids_of old)"
    by (metis UnI1 ids_of_simps(3) set_append subsetI takeWhile_dropWhile_id)
  then have "set (ids_of new) \<inter> set (ids_of (takeWhile (unseen seen) old)) = {}" using assms(2) by blast
  from new_msgs_disjoint [OF this, of "{}"]
  have "new_msgs (set (ids_of new)) (takeWhile (unseen seen) old) = new_msgs {} (takeWhile (unseen seen) old)"
    by simp
  with all show ?thesis using assms(1) by (simp add: due_def new_msgs_append)
qed

text \<open>What the memory of the poller leaves to be delivered of the messages that are there.\<close>

definition owed :: "poller \<Rightarrow> message list \<Rightarrow> message list" where
  "owed p ms = new_msgs {} (takeWhile (unseen (po_seen p)) ms)"

lemma owed_due: "owed p (feed_items ps) = due (po_seen p) ps"
  by (simp add: owed_def due_def)

lemma pass_config: "po_config (snd (passes message_pass srcs p)) = po_config p"
proof (induction srcs arbitrary: p)
  case (Cons src srcs)
  have "po_config (snd (message_pass src p)) = po_config p"
    by (auto simp: message_pass_def poller_poll_once_def apply_update_def split: sum.splits option.splits)
  then show ?case using Cons.IH [of "snd (message_pass src p)"]
    by (cases "message_pass src p") (auto split: prod.splits)
qed simp

lemma history_fresh: "history_ok p old hs \<Longrightarrow> set (ids_of (arrived hs)) \<inter> set (ids_of old) = {}"
proof (induction p old hs rule: history_ok.induct)
  case (2 p old new ps srcs hs)
  then show ?case by (auto simp: arrived_def)
qed (simp add: arrived_def)

definition enough :: "poller \<Rightarrow> history \<Rightarrow> bool" where
  "enough p hs \<longleftrightarrow> (case last hs of (_, ps, srcs) \<Rightarrow>
     length ps \<le> length (filter (quiet_source ps) srcs) * max (pc_max_pages_per_poll (po_config p)) 1)"

lemma history_stream:
  assumes "history_ok p old hs" "po_initialized p" "seen_inv (po_seen p)"
  shows "received (fst (passes message_pass (sources hs) p)) @
      rev (owed (snd (passes message_pass (sources hs) p)) (arrived hs @ old)) =
      rev (new_msgs {} (arrived hs) @ owed p old) \<and>
    (hs \<noteq> [] \<and> enough p hs \<longrightarrow> owed (snd (passes message_pass (sources hs) p)) (arrived hs @ old) = [])"
  using assms
proof (induction p old hs rule: history_ok.induct)
  case (1 p old)
  then show ?case by (simp add: arrived_def sources_def)
next
  case (2 p old new ps srcs hs)
  note ok = 2(2) [unfolded history_ok.simps]
  obtain xs q where run: "passes message_pass srcs p = (xs, q)" by (meson surj_pair)
  obtain ys r where rest: "passes message_pass (sources hs) q = (ys, r)" by (meson surj_pair)
  have at: "at_page p ps 0"
    using ok 2(3) by (simp add: at_page_def has_pending_backlog_def feed_ok_def feed_items_def)
  have h: "feed_ok ps" "list_all (honest ps) srcs" "within_limit p ps" "feed_items ps = new @ old"
    using ok by simp_all
  from stream_feed [OF h(1-3) at 2(4)] run
  have one: "\<exists>j. at_page q ps j" "seen_inv (po_seen q)"
    "settles p ps (received xs) q \<or> waits p (received xs) q \<and>
      length (filter (quiet_source ps) srcs) * max (pc_max_pages_per_poll (po_config p)) 1 < length ps"
    by simp_all
  have init: "po_initialized q" using one(1) by (auto simp: at_page_def)
  have IH: "received ys @ rev (owed r (arrived hs @ new @ old)) = rev (new_msgs {} (arrived hs) @ owed q (new @ old))"
    "hs \<noteq> [] \<and> enough q hs \<longrightarrow> owed r (arrived hs @ new @ old) = []"
    using 2(1) ok init one(2) run rest by simp_all
  have "due (po_seen p) ps = new_msgs {} new @ owed p old"
    using due_grown [OF h(4)] ok by (simp add: owed_def)
  moreover have "received xs @ rev (owed q (new @ old)) = rev (due (po_seen p) ps)"
    using one(3) owed_due [of q ps] h(4) by (auto simp: settles_def waits_def due_def)
  ultimately have first: "received xs @ rev (owed q (new @ old)) = rev (new_msgs {} new @ owed p old)" by simp
  have "set (ids_of (arrived hs)) \<inter> set (ids_of new) = {}"
    using history_fresh [of q "new @ old" hs] ok run by auto
  from new_msgs_disjoint [OF this, of "{}"]
  have split: "new_msgs {} (arrived hs @ new) = new_msgs {} (arrived hs) @ new_msgs {} new"
    by (simp add: new_msgs_append)
  have parts: "arrived ((new, ps, srcs) # hs) = arrived hs @ new" "sources ((new, ps, srcs) # hs) = srcs @ sources hs"
    by (simp_all add: arrived_def sources_def)
  have all: "passes message_pass (srcs @ sources hs) p = (xs @ ys, r)" by (simp add: passes_append run rest)
  have "received xs @ received ys @ rev (owed r (arrived hs @ new @ old)) =
      rev (new_msgs {} (arrived hs) @ new_msgs {} new @ owed p old)"
    using first unfolding IH(1) by simp
  moreover have "owed r (arrived hs @ new @ old) = []" if "enough p ((new, ps, srcs) # hs)"
  proof (cases "hs = []")
    case True
    with that one(3) have "settles p ps (received xs) q" by (auto simp: enough_def)
    with True rest h(4) owed_due [of q ps] show ?thesis by (simp add: settles_def sources_def arrived_def)
  next
    case False
    with that IH(2) pass_config [of srcs p] run show ?thesis by (simp add: enough_def)
  qed
  ultimately show ?case by (simp add: parts all split)
qed

subsection \<open>The receiver\<close>


lemma demo_owed: "owed demo_poller [demo_msg ''k''] = []"
  by (simp add: owed_def demo_seen unseen_def seen_contains_def)


text \<open>The two multi-room tasks agree: one sends the batches, the other what is in them.\<close>

theorem messages_of_batches:
  assumes "list_all still_open ts"
  shows "fst (spawn_messages ts m) = concat (map (\<lambda>r. case r of Inr b \<Rightarrow> into_events b | Inl e \<Rightarrow> [Inl e]) (fst (spawn_batches ts m))) \<and>
    snd (spawn_messages ts m) = snd (spawn_batches ts m)"
proof -
  have "passes room_pass as m = (case passes batch_pass as m of (bs, m) \<Rightarrow>
      (concat (map (\<lambda>r. case r of Inr b \<Rightarrow> into_events b | Inl e \<Rightarrow> [Inl e]) bs), m))" for "as"
    by (induction "as" arbitrary: m) (auto simp: room_pass_def batch_pass_def split: prod.splits sum.splits)
  then show ?thesis
    by (simp add: spawn_messages_def spawn_batches_def poll_loop_open [OF assms] split: prod.splits)
qed

end
