(* ===== verification/CliRunProps.thy ===== *)
theory CliRunProps imports CliRun ClientProps CliAuthProps FrontProps SpawnedProps begin

text \<open>A room is resolved by a title that is unique; no command sends a token elsewhere.\<close>

subsection \<open>Titles\<close>

lemma set_dedup_rooms: "set (dedup_rooms rs) \<subseteq> set rs"
  by (induction rs rule: dedup_rooms.induct) auto

lemma ids_dedup_rooms: "ro_id ` set (dedup_rooms rs) = ro_id ` set rs"
  by (induction rs rule: dedup_rooms.induct) auto

lemma dedup_rooms_eq: "map ro_id (dedup_rooms rs) = remdups_adj (map ro_id rs)"
  by (induction rs rule: dedup_rooms.induct) auto

lemma distinct_dedup_sorted: "sorted (map ro_id rs) \<Longrightarrow> distinct (map ro_id (dedup_rooms rs))"
  by (simp add: dedup_rooms_eq distinct_remdups_adj_sorted)

lemma distinct_singleton: "distinct xs \<Longrightarrow> set xs = {x} \<longleftrightarrow> xs = [x]"
  by (cases xs; cases "tl xs") auto

text \<open>
  A title leads to a room exactly when all rooms with the title have the same id, and there is one.
\<close>

theorem title_resolves_unique_room:
  "(\<exists>res. match_title t rooms = Inr res \<and> rn_room_id res = i) \<longleftrightarrow> ro_id ` {r \<in> set rooms. ro_title r = Some t} = {Some i}"
proof -
  let ?ms = "dedup_rooms (sort_key ro_id (filter (\<lambda>r. ro_title r = Some t) rooms))"
  have ids: "ro_id ` {r \<in> set rooms. ro_title r = Some t} = set (map ro_id ?ms)"
    by (simp add: ids_dedup_rooms)
  have distinct: "distinct (map ro_id ?ms)" by (rule distinct_dedup_sorted) simp
  have "set (map ro_id ?ms) = {Some i} \<longleftrightarrow> map ro_id ?ms = [Some i]"
    by (rule distinct_singleton [OF distinct])
  also have "\<dots> \<longleftrightarrow> (\<exists>r. ?ms = [r] \<and> ro_id r = Some i)" by (auto simp: map_eq_Cons_conv)
  also have "\<dots> \<longleftrightarrow> (\<exists>res. match_title t rooms = Inr res \<and> rn_room_id res = i)"
    by (auto simp: match_title_def split: list.splits option.splits)
  finally show ?thesis using ids by simp
qed

subsection \<open>Where commands send their requests\<close>

lemma stays_then:
  assumes "stays c (m sent) sent" "\<And>x s. stays c (f x s) s"
  shows "stays c (then_do m f sent) sent"
proof -
  obtain r s where m: "m sent = (r, s)" by (meson surj_pair)
  show ?thesis
  proof (cases r)
    case None
    with m assms(1) show ?thesis by (simp add: then_do_def stays_def)
  next
    case (Some r')
    show ?thesis
    proof (cases r')
      case (Inl e)
      with m Some assms(1) show ?thesis by (simp add: then_do_def stays_def)
    next
      case (Inr x)
      with m Some assms(1) assms(2) [of x s] show ?thesis by (auto simp: then_do_def stays_def)
    qed
  qed
qed

lemma stays_give: "stays c (give r sent) sent"
  by (simp add: give_def stays_same)

lemma stays_wrap:
  "stays c (op sent) sent \<Longrightarrow> stays c (call op sent) sent"
  "stays c (op' sent) sent \<Longrightarrow> stays c (collected op' sent) sent"
  by (auto simp: call_def collected_def stays_def split: prod.splits)

lemma stays_candidates:
  assumes "\<And>i s. stays c (get_room c i s) s"
  shows "stays c (try_candidates c is err sent) sent"
proof (induction "is" arbitrary: err sent)
  case (Cons i "is")
  obtain r s where r: "get_room c i sent = (r, s)" by (meson surj_pair)
  with assms [of i sent] Cons.IH [of _ s] show ?case by (cases r) (fastforce simp: stays_def)+
qed (simp add: stays_same)

text \<open>Every operation of the client, as a step of a command.\<close>

lemma stays_client_op:
  assumes "joins_below (re_url (cl_env c)) (cl_base c)" "encodes (re_encode (cl_env c))"
    "run_client_call c cc sent = snd (op sent)"
  shows "stays c (op sent) sent"
  using stays_call [OF assms(1,2), of cc sent] assms(3) by (simp add: stays_def)

lemma stays_listing:
  assumes "stays c (first sent) sent"
  shows "stays c (listing c dec k all first sent) sent"
proof -
  have "stays c (collected (collect_all (cl_env c) (cl_base c) dec k page) s) s" for page s
    using stays_wrap(2) stays_collect by (metis collect_all_def)
  then show ?thesis
    unfolding listing_def by (intro stays_then stays_wrap(1) assms) (auto simp: stays_give)
qed

lemma stays_resolve:
  assumes c: "joins_below (re_url (cl_env c)) (cl_base c)" "encodes (re_encode (cl_env c))"
  shows "stays c (resolve_room c b64 k a sent) sent"
proof (cases "nonblank (rr_room_id a)")
  case (Some i)
  have get: "stays c (get_room c i s) s" for i s by (rule stays_client_op [OF c, of "CallGetRoom i"]) simp
  show ?thesis
    unfolding resolve_room_def Some option.case by (intro stays_then stays_wrap(1) get stays_give)
next
  case None
  have get: "stays c (get_room c i s) s" for i s by (rule stays_client_op [OF c, of "CallGetRoom i"]) simp
  have list_rooms: "stays c (list_rooms_page c q s) s" for q s by (rule stays_client_op [OF c, of "CallListRooms q"]) simp
  let ?cs = "case rr_link a of Some l \<Rightarrow> room_id_candidates_from_link (re_url (cl_env c)) b64 l | None \<Rightarrow> []"
  obtain r s where r: "try_candidates c ?cs None sent = (r, s)" by (meson surj_pair)
  have first: "stays c (r, s) sent" using stays_candidates [OF get, of ?cs None sent] r by simp
  have rest: "stays c (then_do (listing c (dc_rooms (cl_dec c)) k True (list_rooms_page c q)) (\<lambda>rooms. give (match_title t rooms)) s) s"
    for q t by (intro stays_then stays_listing list_rooms stays_give)
  show ?thesis
  proof (cases r)
    case (Inr found)
    with None r first show ?thesis by (simp add: resolve_room_def stays_def Let_def)
  next
    case (Inl err)
    with None r first rest show ?thesis
      by (cases "nonblank (rr_title a)") (fastforce simp: resolve_room_def stays_def Let_def)+
  qed
qed

lemma stays_command:
  assumes c: "joins_below (re_url (cl_env c)) (cl_base c)" "encodes (re_encode (cl_env c))"
  shows "stays c (client_command c b64 k cmd sent) sent"
proof -
  note op = stays_client_op [OF c]
  have ops: "stays c (me c s) s" "stays c (list_rooms_page c q s) s" "stays c (get_room c i s) s"
    "stays c (list_messages_page c qm s) s" "stays c (list_direct_messages_page c qd s) s" "stays c (get_message c i s) s"
    "stays c (create_message_call c m s) s" "stays c (create_message_with_file c m f s) s" "stays c (delete_message c i s) s"
    for s q i qm qd m f
    by (rule op [of CallMe] op [of "CallListRooms q"] op [of "CallGetRoom i"] op [of "CallListMessages qm"]
        op [of "CallListDirect qd"] op [of "CallGetMessage i"] op [of "CallCreateMessage m"]
        op [of "CallCreateWithFile m f"] op [of "CallDeleteMessage i"], simp)+
  note steps = stays_then stays_wrap(1) stays_give stays_listing stays_resolve [OF c] ops
  show ?thesis
    unfolding client_command_def Let_def
    by (cases cmd) (simp_all only: cli_command.case, (intro steps | auto intro: steps split: option.split)+)
qed


definition demo_cli_world :: cli_world where
  "demo_cli_world = \<lparr>cw_env = demo_cli, cw_client = \<lambda>_ _. demo_client, cw_base64 = id, cw_ticks = \<lambda>_. [],
     cw_json = demo_json, cw_resolve = \<lambda>_. Inr [True], cw_bind = \<lambda>_. Inr (), cw_connections = []\<rparr>"

definition demo_get_room :: cli where
  "demo_get_room = \<lparr>cli_global = global_default\<lparr>go_access_token := Some ''t''\<rparr>, cli_cmd = RoomsGet ''../x''\<rparr>"


subsection \<open>Polling\<close>

text \<open>What is printed comes before the first error, so it is a part of the stream that is received.\<close>

lemma printed_prefix: "prefix (fst (print_messages rs)) (received rs)"
  by (induction rs rule: print_messages.induct) (auto split: prod.splits)

theorem polled_messages_received:
  "prefix (fst (poll_messages a ts)) (received (fst (spawn ts (set_config (poll_config a) (poller_new (pm_room_id a))))))"
  by (simp add: poll_messages_def printed_prefix)

subsection \<open>Receiving events\<close>

lemma receive_events_subset: "set (receive_events limit n es) \<subseteq> set es"
  by (induction limit n es rule: receive_events.induct) auto

lemma receive_events_bounded: "0 < limit \<Longrightarrow> n < limit \<Longrightarrow> n + length (receive_events limit n es) \<le> limit"
proof (induction limit n es rule: receive_events.induct)
  case (2 limit n e es)
  then show ?case by (cases "limit \<le> Suc n") auto
qed simp

lemma accepted_event:
  assumes "snd (accept_connection je a tok n req written) = Some ev"
  shows "n < 32 \<and> written \<and> (\<exists>rq. req = Some (Inr rq) \<and> hr_method rq = ''POST'' \<and> hr_path rq = sr_path a \<and>
    hr_path rq \<noteq> sr_health_path a \<and> authorized tok rq \<and> je_event je (hr_body rq) = Inr ev)"
  using assms
  by (auto simp: accept_connection_def handle_sidecar_connection_def handle_sidecar_request_def
      split: if_splits option.splits sum.splits)

text \<open>
  C38. The receiver of the tool is guarded. When \<open>sidecar receive\<close> starts, its address resolves
  to loopback addresses only or the user allowed others, and there is a token or the user allowed
  none. Every event it prints comes from a request that was read completely, posted to the event
  path, with the token when there is one, while fewer than 32 connections were being served, and
  whose answer was written; and it prints no more events than it was asked for.
\<close>

theorem sidecar_receive_guarded:
  assumes "sidecar_receive env je addresses socket cns a = Inr evs"
  shows "(sr_allow_non_loopback a \<or> (\<exists>addrs. addresses = Inr addrs \<and> addrs \<noteq> [] \<and> list_all id addrs)) \<and>
    (sidecar_token env a = None \<longrightarrow> sr_allow_unauthenticated a) \<and>
    (\<forall>ev\<in>set evs. \<exists>cn\<in>set cns. cn_serving cn < 32 \<and> cn_written cn \<and>
       (\<exists>rq. cn_request cn = Some (Inr rq) \<and> hr_method rq = ''POST'' \<and> hr_path rq = sr_path a \<and>
         authorized (sidecar_token env a) rq \<and> je_event je (hr_body rq) = Inr ev)) \<and>
    (0 < sr_max_events a \<longrightarrow> length evs \<le> sr_max_events a)"
proof -
  let ?events = "List.map_filter (\<lambda>cn. snd (accept_connection je a (sidecar_token env a) (cn_serving cn) (cn_request cn)
      (cn_written cn))) cns"
  have start: "sidecar_start env addresses a = Inr (sidecar_token env a)"
    and evs: "evs = receive_events (sr_max_events a) 0 ?events"
    using assms by (auto simp: sidecar_receive_def and_then_Inr_iff sidecar_start_def split: if_splits)
  have "\<exists>cn\<in>set cns. snd (accept_connection je a (sidecar_token env a) (cn_serving cn) (cn_request cn) (cn_written cn)) = Some ev"
    if "ev \<in> set evs" for ev
  proof -
    have "ev \<in> set ?events" using that receive_events_subset [of "sr_max_events a" 0 ?events] evs by blast
    then show ?thesis by (auto simp: map_filter_def)
  qed
  moreover have "length evs \<le> sr_max_events a" if "0 < sr_max_events a"
    using receive_events_bounded [OF that that, of ?events] evs by simp
  moreover have "sr_allow_non_loopback a \<or> (\<exists>addrs. addresses = Inr addrs \<and> addrs \<noteq> [] \<and> list_all id addrs)"
    "sidecar_token env a = None \<longrightarrow> sr_allow_unauthenticated a"
    using start by (cases addresses; auto simp: sidecar_start_def validate_loopback_bind_def and_then_Inr_iff split: if_splits)+
  ultimately show ?thesis using accepted_event by blast
qed

definition demo_receive :: sidecar_receive_args where
  "demo_receive = sidecar_default\<lparr>sr_token := Some ''k1'', sr_max_events := 1\<rparr>"

lemma sidecar_receive_guarded_witness:
  "\<exists>evs. sidecar_receive demo_cli demo_json (Inr [True]) (Inr ())
      [\<lparr>cn_serving = 40, cn_request = None, cn_written = True\<rparr>,
       \<lparr>cn_serving = 0, cn_request = Some (Inr (request_of ''POST'' ''/webex/events'' demo_headers ''{}'')), cn_written = True\<rparr>]
      demo_receive = Inr evs \<and> evs = [demo_event] \<and> length evs \<le> 1"
proof -
  let ?req = "request_of ''POST'' ''/webex/events'' demo_headers ''{}''"
  let ?cns = "[\<lparr>cn_serving = 40, cn_request = None, cn_written = True\<rparr>,
       \<lparr>cn_serving = 0, cn_request = Some (Inr ?req), cn_written = True\<rparr>]"
  have "bm_get (hr_headers ?req) ''authorization'' = Some ''Bearer k1''" by code_simp
  then have auth: "authorized (Some ''k1'') ?req" by (simp add: authorized_def)
  have req: "hr_method ?req = ''POST''" "hr_path ?req = ''/webex/events''" by (simp_all add: request_of_def)
  have a: "sr_token demo_receive = Some ''k1''" "sr_max_events demo_receive = 1" "sr_path demo_receive = ''/webex/events''"
    "sr_health_path demo_receive = ''/healthz''"
    by (simp_all add: demo_receive_def sidecar_default_def)
  have tok: "sidecar_token demo_cli demo_receive = Some ''k1''"
    by (simp add: sidecar_token_def a nonempty_path_def or_else_def)
  have one: "snd (accept_connection demo_json demo_receive (Some ''k1'') 0 (Some (Inr ?req)) True) = Some demo_event"
    by (simp add: accept_connection_def handle_sidecar_connection_def handle_sidecar_request_def a req auth)
      (simp add: demo_json_def)
  have none: "snd (accept_connection demo_json demo_receive (Some ''k1'') 40 None True) = None"
    by (simp add: accept_connection_def)
  have "sidecar_receive demo_cli demo_json (Inr [True]) (Inr ()) ?cns demo_receive = Inr [demo_event]"
    by (simp add: sidecar_receive_def sidecar_start_def validate_loopback_bind_def tok map_filter_simps one none a)
  with sidecar_receive_guarded [OF this] a show ?thesis by simp
qed

end
