(* ===== verification/SqliteCache.thy ===== *)
theory SqliteCache imports StateStore TokenFiles begin

text \<open>
  The SQLite index over the state log (\<open>SqliteStateCache\<close> in \<open>src/state.rs\<close>, behind a feature
  flag): three tables that are rebuilt from a snapshot in one transaction, the queries on them,
  and the checks on the way to the database file. What SQLite does with the statements of the
  source is the model; its failures and what the file system answers are inputs.
\<close>

subsection \<open>The tables\<close>

text \<open>A table that does not exist is \<open>None\<close>; a table has a primary key, so it is a sorted map.\<close>

record database =
  db_metadata :: "(string, string) bmap option"
  db_processed :: "string bset option"
  db_checkpoints :: "(string, string) bmap option"

definition sqlite_error :: "string \<Rightarrow> error" where
  "sqlite_error t = Other (''sqlite state cache error: '' @ t)"

type_synonym 'a sql_op = "database \<Rightarrow> 'a res \<times> database"

definition no_table :: "string \<Rightarrow> error" where
  "no_table t = sqlite_error (''no such table: '' @ t)"

definition sql_create :: "unit sql_op" where
  "sql_create db =
     (Inr (), \<lparr>db_metadata = or_else (db_metadata db) (Some []), db_processed = or_else (db_processed db) (Some []),
        db_checkpoints = or_else (db_checkpoints db) (Some [])\<rparr>)"

definition sql_delete_all :: "unit sql_op" where
  "sql_delete_all db =
     (case (db_processed db, db_checkpoints db, db_metadata db) of
        (Some _, Some _, Some _) \<Rightarrow> (Inr (), \<lparr>db_metadata = Some [], db_processed = Some [], db_checkpoints = Some []\<rparr>)
      | (None, _, _) \<Rightarrow> (Inl (no_table ''processed_messages''), db)
      | (_, None, _) \<Rightarrow> (Inl (no_table ''room_checkpoints''), db)
      | _ \<Rightarrow> (Inl (no_table ''metadata''), db))"

definition sql_insert_metadata :: "string \<Rightarrow> string \<Rightarrow> unit sql_op" where
  "sql_insert_metadata k v db =
     (case db_metadata db of
        None \<Rightarrow> (Inl (no_table ''metadata''), db)
      | Some t \<Rightarrow>
          if bm_get t k \<noteq> None then (Inl (sqlite_error ''UNIQUE constraint failed: metadata.key''), db)
          else (Inr (), db\<lparr>db_metadata := Some (bm_insert k v t)\<rparr>))"

definition sql_insert_processed :: "string \<Rightarrow> unit sql_op" where
  "sql_insert_processed m db =
     (case db_processed db of
        None \<Rightarrow> (Inl (no_table ''processed_messages''), db)
      | Some t \<Rightarrow>
          if bs_member t m then (Inl (sqlite_error ''UNIQUE constraint failed: processed_messages.message_id''), db)
          else (Inr (), db\<lparr>db_processed := Some (bs_insert m t)\<rparr>))"

definition sql_insert_checkpoint :: "string \<Rightarrow> string \<Rightarrow> unit sql_op" where
  "sql_insert_checkpoint r j db =
     (case db_checkpoints db of
        None \<Rightarrow> (Inl (no_table ''room_checkpoints''), db)
      | Some t \<Rightarrow>
          if bm_get t r \<noteq> None then (Inl (sqlite_error ''UNIQUE constraint failed: room_checkpoints.room_id''), db)
          else (Inr (), db\<lparr>db_checkpoints := Some (bm_insert r j t)\<rparr>))"

subsection \<open>The cache\<close>

text \<open>
  \<open>sq_fails what\<close> is the failure of a step of a transaction that SQLite reports for reasons of its
  own: a full disk, a locked file. Beginning and committing are steps too.
\<close>

datatype sql_step = BeginTx | Clear | Schema | Message string | Checkpoint string | Commit

record checkpoint_codec =
  ck_ser :: "room_checkpoint \<Rightarrow> string res"
  ck_de :: "string \<Rightarrow> room_checkpoint res"

definition sql_run :: "(sql_step \<Rightarrow> error option) \<Rightarrow> sql_step \<Rightarrow> unit sql_op \<Rightarrow> unit sql_op" where
  "sql_run fails s op db = (case fails s of Some e \<Rightarrow> (Inl e, db) | None \<Rightarrow> op db)"

fun insert_messages :: "(sql_step \<Rightarrow> error option) \<Rightarrow> string list \<Rightarrow> unit sql_op" where
  "insert_messages fails [] db = (Inr (), db)"
| "insert_messages fails (m # ms) db =
     seq_op (sql_run fails (Message m) (sql_insert_processed m)) (\<lambda>_. insert_messages fails ms) db"

fun insert_checkpoints :: "(sql_step \<Rightarrow> error option) \<Rightarrow> checkpoint_codec \<Rightarrow> room_checkpoint list \<Rightarrow> unit sql_op" where
  "insert_checkpoints fails cd [] db = (Inr (), db)"
| "insert_checkpoints fails cd (c # cs) db =
     seq_op (lift_res (ck_ser cd c)) (\<lambda>j.
     seq_op (sql_run fails (Checkpoint (rc_room_id c)) (sql_insert_checkpoint (rc_room_id c) j)) (\<lambda>_.
       insert_checkpoints fails cd cs)) db"

text \<open>A transaction that is dropped before it is committed is rolled back.\<close>

definition in_transaction :: "(sql_step \<Rightarrow> error option) \<Rightarrow> unit sql_op \<Rightarrow> unit sql_op" where
  "in_transaction fails body db =
     (case fails BeginTx of
        Some e \<Rightarrow> (Inl e, db)
      | None \<Rightarrow>
          (case body db of
             (Inl e, _) \<Rightarrow> (Inl e, db)
           | (Inr _, db') \<Rightarrow> (case fails Commit of Some e \<Rightarrow> (Inl e, db) | None \<Rightarrow> (Inr (), db'))))"

definition rebuild_from_snapshot ::
    "(sql_step \<Rightarrow> error option) \<Rightarrow> checkpoint_codec \<Rightarrow> state_snapshot \<Rightarrow> unit sql_op" where
  "rebuild_from_snapshot fails cd s =
     in_transaction fails
       (seq_op (sql_run fails Clear sql_delete_all) (\<lambda>_.
        seq_op (sql_run fails Schema (sql_insert_metadata ''schema_version'' ''1'')) (\<lambda>_.
        seq_op (insert_messages fails (processed_message_ids s)) (\<lambda>_.
        insert_checkpoints fails cd (map snd (room_checkpoints s))))))"

text \<open>
  The log is read under its lock; \<open>locked\<close> is the resolved path whose lock was acquired, or the
  error of resolving or locking it.
\<close>

definition rebuild_from_locked_jsonl ::
    "(sql_step \<Rightarrow> error option) \<Rightarrow> checkpoint_codec \<Rightarrow> codec \<Rightarrow> string res \<Rightarrow> io_faults \<Rightarrow> time \<Rightarrow> state_file \<Rightarrow> database
      \<Rightarrow> unit res \<times> state_file \<times> database" where
  "rebuild_from_locked_jsonl fails ck cd locked io now file db =
     (case locked of
        Inl e \<Rightarrow> (Inl e, file, db)
      | Inr path \<Rightarrow>
          (case repair_incomplete_tail cd path now io file of
             (Inl e, file) \<Rightarrow> (Inl e, file, db)
           | (Inr _, file) \<Rightarrow>
               (case snapshot_load_at cd path now io file of
                  Inl e \<Rightarrow> (Inl e, file, db)
                | Inr s \<Rightarrow> (case rebuild_from_snapshot fails ck s db of (r, db) \<Rightarrow> (r, file, db)))))"

subsection \<open>Queries\<close>

definition cache_contains :: "string \<Rightarrow> database \<Rightarrow> bool res" where
  "cache_contains m db =
     and_then (ensure_message_id m) (\<lambda>_.
       case db_processed db of
         None \<Rightarrow> Inl (no_table ''processed_messages'')
       | Some t \<Rightarrow> Inr (bs_member t m))"

definition cache_processed_count :: "database \<Rightarrow> nat res" where
  "cache_processed_count db =
     (case db_processed db of None \<Rightarrow> Inl (no_table ''processed_messages'') | Some t \<Rightarrow> Inr (length t))"

definition cache_checkpoint :: "checkpoint_codec \<Rightarrow> string \<Rightarrow> database \<Rightarrow> room_checkpoint option res" where
  "cache_checkpoint cd r db =
     (if trim r = [] then Inl (Other ''room checkpoint id is empty'')
      else case db_checkpoints db of
        None \<Rightarrow> Inl (no_table ''room_checkpoints'')
      | Some t \<Rightarrow>
          (case bm_get t r of
             None \<Rightarrow> Inr None
           | Some j \<Rightarrow> and_then (ck_de cd j) (\<lambda>c. Inr (Some c))))"

fun decode_checkpoints :: "checkpoint_codec \<Rightarrow> string list \<Rightarrow> room_checkpoint list res" where
  "decode_checkpoints cd [] = Inr []"
| "decode_checkpoints cd (j # js) = and_then (ck_de cd j) (\<lambda>c. and_then (decode_checkpoints cd js) (\<lambda>cs. Inr (c # cs)))"

definition cache_checkpoints :: "checkpoint_codec \<Rightarrow> database \<Rightarrow> room_checkpoint list res" where
  "cache_checkpoints cd db =
     (case db_checkpoints db of
        None \<Rightarrow> Inl (no_table ''room_checkpoints'')
      | Some t \<Rightarrow> decode_checkpoints cd (map snd t))"

end
