(* ===== verification/SqliteProps.thy ===== *)
theory SqliteProps imports SqliteCache StoreProps begin

text \<open>A rebuilt cache answers what the log says; a rebuild that fails changes nothing.\<close>

lemma bs_insert_last: "\<forall>y\<in>set s. y < x \<Longrightarrow> bs_insert x s = s @ [x]"
  by (induction s) (auto dest: less_asym)

lemma bm_insert_last: "\<forall>e\<in>set t. fst e < k \<Longrightarrow> bm_insert k v t = t @ [(k, v)]"
  by (induction t) (auto dest: less_asym)

subsection \<open>Inserting a snapshot\<close>

lemma insert_messages_sorted:
  assumes "db_processed db = Some t" "bs_inv (t @ ms)" "insert_messages fails ms db = (r, db')" "r = Inr ()"
  shows "db' = db\<lparr>db_processed := Some (t @ ms)\<rparr>"
  using assms
proof (induction ms arbitrary: t db)
  case (Cons m ms)
  have m: "\<forall>y\<in>set t. y < m" "m \<notin> set t" using Cons.prems(2) by (auto simp: bs_inv_def sorted_wrt_append)
  show ?case
  proof (cases "fails (Message m)")
    case None
    with Cons.prems(1) m have "sql_run fails (Message m) (sql_insert_processed m) db = (Inr (), db\<lparr>db_processed := Some (t @ [m])\<rparr>)"
      by (simp add: sql_run_def sql_insert_processed_def bs_insert_last)
    with Cons.prems Cons.IH [of "db\<lparr>db_processed := Some (t @ [m])\<rparr>" "t @ [m]"] show ?thesis by simp
  next
    case (Some e)
    with Cons.prems show ?thesis by (simp add: sql_run_def)
  qed
qed simp

definition json_of :: "checkpoint_codec \<Rightarrow> room_checkpoint \<Rightarrow> string" where
  "json_of cd c = projr (ck_ser cd c)"

definition keyed :: "(string, room_checkpoint) bmap \<Rightarrow> bool" where
  "keyed m \<longleftrightarrow> (\<forall>(k, c)\<in>set m. rc_room_id c = k)"

definition json_table :: "checkpoint_codec \<Rightarrow> (string, room_checkpoint) bmap \<Rightarrow> (string, string) bmap" where
  "json_table cd m = map (\<lambda>(k, c). (k, json_of cd c)) m"

lemma insert_checkpoints_sorted:
  assumes "db_checkpoints db = Some t" "bm_inv (t @ json_table cd m)" "keyed m"
    "insert_checkpoints fails cd (map snd m) db = (r, db')" "r = Inr ()"
  shows "db' = db\<lparr>db_checkpoints := Some (t @ json_table cd m)\<rparr> \<and> (\<forall>(k, c)\<in>set m. ck_ser cd c = Inr (json_of cd c))"
  using assms
proof (induction m arbitrary: t db)
  case (Cons e m)
  obtain k c where e: "e = (k, c)" by (cases e)
  with Cons.prems(3) have k: "rc_room_id c = k" by (simp add: keyed_def)
  have below: "\<forall>e\<in>set t. fst e < k" using Cons.prems(2) e by (auto simp: bm_inv_def json_table_def sorted_wrt_append)
  then have fresh: "bm_get t k = None" by (auto simp: map_of_eq_None_iff)
  show ?case
  proof (cases "ck_ser cd c")
    case (Inl err)
    with Cons.prems e show ?thesis by simp
  next
    case (Inr j)
    then have j: "json_of cd c = j" by (simp add: json_of_def)
    show ?thesis
    proof (cases "fails (Checkpoint k)")
      case None
      have "sql_run fails (Checkpoint k) (sql_insert_checkpoint k j) db = (Inr (), db\<lparr>db_checkpoints := Some (t @ [(k, j)])\<rparr>)"
        using None Cons.prems(1) fresh bm_insert_last [OF below] by (simp add: sql_run_def sql_insert_checkpoint_def)
      with Cons.prems Cons.IH [of "db\<lparr>db_checkpoints := Some (t @ [(k, j)])\<rparr>" "t @ [(k, j)]"] Inr j k e show ?thesis
        by (simp add: keyed_def json_table_def)
    next
      case (Some err)
      with Cons.prems Inr k e show ?thesis by (simp add: sql_run_def)
    qed
  qed
qed (simp add: json_table_def)

text \<open>No primary key is inserted twice: without a fault, a snapshot goes in.\<close>

lemma insert_messages_total:
  assumes "\<forall>st. fails st = None" "db_processed db = Some t" "bs_inv (t @ ms)"
  shows "\<exists>db'. insert_messages fails ms db = (Inr (), db')"
  using assms(2,3)
proof (induction ms arbitrary: t db)
  case (Cons m ms)
  have m: "\<forall>y\<in>set t. y < m" "m \<notin> set t" using Cons.prems(2) by (auto simp: bs_inv_def sorted_wrt_append)
  with Cons.prems(1) assms(1) have "sql_run fails (Message m) (sql_insert_processed m) db = (Inr (), db\<lparr>db_processed := Some (t @ [m])\<rparr>)"
    by (simp add: sql_run_def sql_insert_processed_def bs_insert_last)
  with Cons.prems Cons.IH [of "db\<lparr>db_processed := Some (t @ [m])\<rparr>" "t @ [m]"] show ?case by simp
qed simp

lemma insert_checkpoints_total:
  assumes "\<forall>st. fails st = None" "\<forall>c. \<exists>j. ck_ser cd c = Inr j"
    "db_checkpoints db = Some t" "bm_inv (t @ json_table cd m)" "keyed m"
  shows "\<exists>db'. insert_checkpoints fails cd (map snd m) db = (Inr (), db')"
  using assms(3-)
proof (induction m arbitrary: t db)
  case (Cons e m)
  obtain k c where e: "e = (k, c)" by (cases e)
  with Cons.prems(3) have k: "rc_room_id c = k" by (simp add: keyed_def)
  have below: "\<forall>e\<in>set t. fst e < k" using Cons.prems(2) e by (auto simp: bm_inv_def json_table_def sorted_wrt_append)
  then have fresh: "bm_get t k = None" by (auto simp: map_of_eq_None_iff)
  obtain j where j: "ck_ser cd c = Inr j" using assms(2) by blast
  then have json: "json_of cd c = j" by (simp add: json_of_def)
  have "sql_run fails (Checkpoint k) (sql_insert_checkpoint k j) db = (Inr (), db\<lparr>db_checkpoints := Some (t @ [(k, j)])\<rparr>)"
    using assms(1) Cons.prems(1) fresh bm_insert_last [OF below] by (simp add: sql_run_def sql_insert_checkpoint_def)
  with Cons.prems Cons.IH [of "db\<lparr>db_checkpoints := Some (t @ [(k, j)])\<rparr>" "t @ [(k, j)]"] j json k e show ?case
    by (simp add: keyed_def json_table_def)
qed simp

text \<open>The tables of a snapshot.\<close>

definition indexes :: "checkpoint_codec \<Rightarrow> state_snapshot \<Rightarrow> database \<Rightarrow> bool" where
  "indexes cd s db \<longleftrightarrow> db_processed db = Some (processed_message_ids s) \<and>
     db_checkpoints db = Some (json_table cd (room_checkpoints s)) \<and>
     (\<forall>(k, c)\<in>set (room_checkpoints s). ck_ser cd c = Inr (json_of cd c))"

lemma table_inv: "snap_inv s \<Longrightarrow> bm_inv (json_table cd (room_checkpoints s))"
  by (auto simp: snap_inv_def json_table_def bm_inv_def comp_def case_prod_beta)

text \<open>The tables of an opened cache exist.\<close>

definition initialized_db :: "database \<Rightarrow> bool" where
  "initialized_db db \<longleftrightarrow> db_metadata db \<noteq> None \<and> db_processed db \<noteq> None \<and> db_checkpoints db \<noteq> None"

lemma rebuild_succeeds:
  assumes "snap_inv s" "keyed (room_checkpoints s)" "\<forall>st. fails st = None" "\<forall>c. \<exists>j. ck_ser cd c = Inr j" "initialized_db db"
  shows "\<exists>db'. rebuild_from_snapshot fails cd s db = (Inr (), db')"
proof -
  let ?db0 = "\<lparr>db_metadata = Some [(''schema_version'', ''1'')], db_processed = Some [], db_checkpoints = Some []\<rparr>"
  obtain db1 where msgs: "insert_messages fails (processed_message_ids s) ?db0 = (Inr (), db1)"
    using insert_messages_total [OF assms(3), of ?db0 "[]"] assms(1) by (auto simp: snap_inv_def)
  then have "db1 = ?db0\<lparr>db_processed := Some (processed_message_ids s)\<rparr>"
    using insert_messages_sorted [of ?db0 "[]" "processed_message_ids s" fails "Inr ()" db1] assms(1)
    by (simp add: snap_inv_def)
  then obtain db2 where "insert_checkpoints fails cd (map snd (room_checkpoints s)) db1 = (Inr (), db2)"
    using insert_checkpoints_total [OF assms(3,4), of db1 "[]" "room_checkpoints s"] assms(2) table_inv [OF assms(1)]
    by auto
  with msgs assms(3,5) show ?thesis
    by (auto simp: rebuild_from_snapshot_def in_transaction_def sql_run_def sql_delete_all_def sql_insert_metadata_def
        seq_op_def initialized_db_def)
qed

lemma rebuild_indexes:
  assumes "snap_inv s" "keyed (room_checkpoints s)" "rebuild_from_snapshot fails cd s db = (r, db')"
  shows "(r = Inr () \<longrightarrow> indexes cd s db') \<and> (\<forall>e. r = Inl e \<longrightarrow> db' = db)"
proof -
  note table = table_inv [OF assms(1), of cd]
  have body: "indexes cd s db2"
    if run: "seq_op (sql_run fails Clear sql_delete_all) (\<lambda>_.
        seq_op (sql_run fails Schema (sql_insert_metadata ''schema_version'' ''1'')) (\<lambda>_.
        seq_op (insert_messages fails (processed_message_ids s)) (\<lambda>_.
        insert_checkpoints fails cd (map snd (room_checkpoints s))))) db = (Inr (), db2)" for db2
  proof -
    let ?db0 = "\<lparr>db_metadata = Some [(''schema_version'', ''1'')], db_processed = Some [], db_checkpoints = Some []\<rparr>"
    from run obtain db1 where msgs: "insert_messages fails (processed_message_ids s) ?db0 = (Inr (), db1)"
      and cps: "insert_checkpoints fails cd (map snd (room_checkpoints s)) db1 = (Inr (), db2)"
      by (auto simp: seq_op_Inr_iff sql_run_def sql_delete_all_def sql_insert_metadata_def
          split: option.splits if_splits)
    then have db1: "db1 = ?db0\<lparr>db_processed := Some (processed_message_ids s)\<rparr>"
      using insert_messages_sorted [of ?db0 "[]" "processed_message_ids s" fails "Inr ()" db1] assms(1)
      by (simp add: snap_inv_def)
    then show ?thesis
      using insert_checkpoints_sorted [of db1 "[]" cd "room_checkpoints s" fails "Inr ()" db2] cps table assms(2)
      by (simp add: indexes_def)
  qed
  show ?thesis
    using assms(3) body
    by (auto simp: rebuild_from_snapshot_def in_transaction_def split: option.splits prod.splits sum.splits)
qed

subsection \<open>Querying it\<close>

definition checkpoints_round :: "checkpoint_codec \<Rightarrow> bool" where
  "checkpoints_round cd \<longleftrightarrow> (\<forall>c j. ck_ser cd c = Inr j \<longrightarrow> ck_de cd j = Inr c)"

lemma decode_table:
  assumes "checkpoints_round cd" "\<forall>(k, c)\<in>set m. ck_ser cd c = Inr (json_of cd c)"
  shows "decode_checkpoints cd (map snd (json_table cd m)) = Inr (map snd m)"
  using assms(2) assms(1) by (induction m) (auto simp: json_table_def checkpoints_round_def)

lemma get_json_table: "bm_get (json_table cd m) k = map_option (json_of cd) (bm_get m k)"
  by (induction m) (auto simp: json_table_def)

lemma indexed_checkpoint:
  assumes "indexes cd s db" "checkpoints_round cd" "trim r \<noteq> []"
  shows "cache_checkpoint cd r db = Inr (room_checkpoint_of s r)"
proof (cases "bm_get (room_checkpoints s) r")
  case None
  with assms show ?thesis
    by (simp add: cache_checkpoint_def indexes_def get_json_table room_checkpoint_of_def)
next
  case (Some c)
  then have "ck_ser cd c = Inr (json_of cd c)" using assms(1) by (fastforce simp: indexes_def dest: map_of_SomeD)
  with assms Some show ?thesis
    by (simp add: cache_checkpoint_def indexes_def get_json_table room_checkpoint_of_def checkpoints_round_def)
qed

subsection \<open>The snapshots of a log\<close>

lemma keyed_apply_event: "apply_event now s ev = Inr s' \<Longrightarrow> keyed (room_checkpoints s) \<Longrightarrow> keyed (room_checkpoints s')"
proof (cases ev)
  case (RoomCheckpointEvent c t)
  assume "apply_event now s ev = Inr s'" and keyed: "keyed (room_checkpoints s)"
  with RoomCheckpointEvent have s': "room_checkpoints s' = bm_insert (rc_room_id c) c (room_checkpoints s)"
    by (auto split: if_splits)
  have "keyed (bm_insert (rc_room_id c) c m)" if "keyed m" for m
    using that by (induction "rc_room_id c" c m rule: bm_insert.induct) (auto simp: keyed_def)
  with s' keyed show ?thesis by simp
qed (auto simp: and_then_Inr_iff split: if_splits)

lemma keyed_apply_record: "apply_record now s r = Inr s' \<Longrightarrow> keyed (room_checkpoints s) \<Longrightarrow> keyed (room_checkpoints s')"
  by (auto simp: apply_record_def and_then_Inr_iff prune_expired_attempts_def split: if_splits dest: keyed_apply_event)

lemma keyed_replay: "replay now s rs = Inr s' \<Longrightarrow> keyed (room_checkpoints s) \<Longrightarrow> keyed (room_checkpoints s')"
  by (induction rs arbitrary: s) (auto simp: and_then_Inr_iff dest: keyed_apply_record)

lemma snapshot_indexable:
  assumes "list_all record_ok rs"
  shows "snap_inv (snapshot_of now rs)" "keyed (room_checkpoints (snapshot_of now rs))"
proof -
  note run = replay_snapshot_of [OF assms, of now]
  show "snap_inv (snapshot_of now rs)" using snap_inv_replay [OF run] by simp
  show "keyed (room_checkpoints (snapshot_of now rs))"
    using keyed_replay [OF run] by (simp add: empty_snapshot_def keyed_def)
qed

subsection \<open>The cache and the log\<close>

text \<open>
  C34. The cache is an index of the log. A rebuild from the log that succeeds, whatever the tables
  held before and however the file ends, makes every query answer what the log says at that
  instant: which messages are processed, how many, and which checkpoint each room has, in the
  order of the rooms. A rebuild that fails, in whichever statement, leaves the tables as they were,
  and the log stands for the same records in both cases. On the tables of an opened cache a
  rebuild in which nothing fails succeeds: no row violates a key.
\<close>

theorem cache_follows_log:
  assumes "log_is env file rs" "checkpoints_round cd"
    "rebuild_from_locked_jsonl fails cd (se_codec env) locked io now file db = (r, file', db')"
  shows "log_is env file' rs \<and>
    (r = Inr () \<longrightarrow>
       (\<forall>m. trim m \<noteq> [] \<longrightarrow> cache_contains m db' = Inr (contains_processed_message (snapshot_of now rs) m)) \<and>
       cache_processed_count db' = Inr (length (processed_message_ids (snapshot_of now rs))) \<and>
       (\<forall>room. trim room \<noteq> [] \<longrightarrow> cache_checkpoint cd room db' = Inr (room_checkpoint_of (snapshot_of now rs) room)) \<and>
       cache_checkpoints cd db' = Inr (map snd (room_checkpoints (snapshot_of now rs)))) \<and>
    (\<forall>e. r = Inl e \<longrightarrow> db' = db) \<and>
    (initialized_db db \<and> (\<exists>path. locked = Inr path) \<and> (\<forall>st. fails st = None) \<and> io_read io = None \<and> io_trunc io = None \<and> io_reload io = None \<and>
       (\<forall>c. \<exists>j. ck_ser cd c = Inr j) \<longrightarrow> r = Inr ())"
proof (cases locked)
  case (Inl e)
  with assms show ?thesis by (auto simp: rebuild_from_locked_jsonl_def)
next
  case path: (Inr path)
  obtain r0 f where rep: "repair_incomplete_tail (se_codec env) path now io file = (r0, f)" by (meson surj_pair)
  note log = repair_log [OF assms(1) rep]
  have same: "file' = f" using assms(3) rep path
    by (auto simp: rebuild_from_locked_jsonl_def split: sum.splits prod.splits)
  let ?s = "snapshot_of now rs"
  have answers: "(\<forall>m. trim m \<noteq> [] \<longrightarrow> cache_contains m d = Inr (contains_processed_message ?s m)) \<and>
       cache_processed_count d = Inr (length (processed_message_ids ?s)) \<and>
       (\<forall>room. trim room \<noteq> [] \<longrightarrow> cache_checkpoint cd room d = Inr (room_checkpoint_of ?s room)) \<and>
       cache_checkpoints cd d = Inr (map snd (room_checkpoints ?s))" if "indexes cd ?s d" for d
    using that indexed_checkpoint [OF that assms(2)] decode_table [OF assms(2)]
    by (simp add: indexes_def cache_contains_def ensure_message_id_def contains_processed_message_def
        cache_processed_count_def cache_checkpoints_def)
  show ?thesis
  proof (cases r0)
    case (Inl e)
    with assms(3) rep log same path show ?thesis by (auto simp: rebuild_from_locked_jsonl_def)
  next
    case (Inr u)
    note reload = sealed_load [of env f rs io path now]
    show ?thesis
    proof (cases "snapshot_load_at (se_codec env) path now io f")
      case (Inl e)
      with assms(3) rep log same path \<open>r0 = Inr u\<close> reload show ?thesis by (auto simp: rebuild_from_locked_jsonl_def)
    next
      case (Inr s)
      have "io_reload io = None" using Inr by (auto simp: snapshot_load_at_def split: option.splits)
      then have "s = ?s" using sealed_load [of env f rs io path now] Inr log \<open>r0 = Inr u\<close> by simp
      then have "rebuild_from_snapshot fails cd ?s db = (r, db')"
        using assms(3) rep path \<open>r0 = Inr u\<close> Inr by (simp add: rebuild_from_locked_jsonl_def split: prod.splits)
      note run = this and good = snapshot_indexable [OF log_is_ok [OF assms(1)], of now]
      have "r = Inr ()" if "initialized_db db" "\<forall>st. fails st = None" "\<forall>c. \<exists>j. ck_ser cd c = Inr j"
        using rebuild_succeeds [OF good, of fails cd db] that run by auto
      with rebuild_indexes [OF good run] answers log same show ?thesis by blast
    qed
  qed
qed

text \<open>A codec of checkpoints, from the one of the log's records.\<close>

definition demo_checkpoints :: checkpoint_codec where
  "demo_checkpoints = \<lparr>ck_ser = \<lambda>c. Inr (show_nat (nat_of_checkpoint c)),
     ck_de = \<lambda>j. Inr (checkpoint_of_nat (digits_val j))\<rparr>"

text \<open>The log of the store's example, in which the message has been processed.\<close>

lemma cache_follows_log_witness:
  "\<exists>file' db'. rebuild_from_locked_jsonl (\<lambda>_. None) demo_checkpoints (se_codec demo_env) (Inr ''s'') no_faults 1
      (sy_file (sys_step demo_env (sys_step demo_env demo_sys (demo_begin 0 0)) demo_mark))
      \<lparr>db_metadata = Some [(''schema_version'', ''0'')], db_processed = Some [''old''], db_checkpoints = Some []\<rparr> =
      (Inr (), file', db') \<and> cache_contains ''m'' db' = Inr True"
proof -
  let ?file = "sy_file (sys_step demo_env (sys_step demo_env demo_sys (demo_begin 0 0)) demo_mark)"
  let ?db = "\<lparr>db_metadata = Some [(''schema_version'', ''0'')], db_processed = Some [''old''], db_checkpoints = Some []\<rparr>"
  let ?rs = "[new_record (AttemptLeased ''m'' (attempt_id_of 0 7 1) 5), new_record (ProcessedMessage ''m'' 1)]"
  have "sys_log demo_env (sys_step demo_env (sys_step demo_env demo_sys (demo_begin 0 0)) demo_mark) ?rs"
    using reply_no_faults(2) [OF demo_started_log demo_good, of demo_mark]
    by (simp add: demo_mark_def verdict_defs log_view_def demo_lease_def new_record_def)
  then have log: "log_is demo_env ?file ?rs" by (simp add: sys_log_def)
  have round: "checkpoints_round demo_checkpoints" by (simp add: checkpoints_round_def demo_checkpoints_def)
  obtain r file' db' where run: "rebuild_from_locked_jsonl (\<lambda>_. None) demo_checkpoints (se_codec demo_env) (Inr ''s'') no_faults 1 ?file ?db
      = (r, file', db')" by (metis surj_pair)
  note all = cache_follows_log [OF log round run]
  have "r = Inr ()" using all by (simp add: initialized_db_def demo_checkpoints_def no_faults_def)
  moreover have "contains_processed_message (snapshot_of 1 ?rs) ''m''"
    using snapshot_of_views(1) [OF log_is_ok [OF log], of 1 "''m''"] by (simp add: log_view_def new_record_def)
  ultimately show ?thesis using run all by auto
qed

end
