(* ===== verification/Syscalls.thy ===== *)
theory Syscalls imports TokenFiles begin

text \<open>
  What a program asks of a Unix file system that other processes change at any time. Every call is
  one event of a trace; what it answers is a parameter, which may depend on everything that
  happened before. A handle is a number; a file is known by its device and inode.
\<close>

datatype node_kind = Regular | Directory | Symlink | Special

record metadata =
  mt_kind :: node_kind
  mt_uid :: nat
  mt_mode :: "32 word"
  mt_id :: "nat \<times> nat"

datatype open_how = ForRead | ForReadNoFollow | ForWrite | CreateNew "32 word"

datatype os_event =
    Failed
  | Answered
  | Looked path metadata
  | Opened path open_how nat
  | Checked nat metadata
  | ChangedMode nat "32 word"
  | ChangedModeAt path "32 word"
  | MadeDirs path
  | OpenedDatabase path
  | ReadContents nat
  | WroteContents nat string
  | Moved path path
  | Removed path

type_synonym trace = "os_event list"

record os =
  os_current_dir :: "path res"
  os_lstat :: "path \<Rightarrow> metadata res"
  os_exists :: "path \<Rightarrow> bool"
  os_open :: "open_how \<Rightarrow> path \<Rightarrow> nat res"
  os_fstat :: "nat \<Rightarrow> metadata res"
  os_fchmod :: "nat \<Rightarrow> 32 word \<Rightarrow> unit res"
  os_chmod :: "path \<Rightarrow> 32 word \<Rightarrow> unit res"
  os_mkdirs :: "path \<Rightarrow> unit res"
  os_read :: "nat \<Rightarrow> string res"
  os_write :: "nat \<Rightarrow> string \<Rightarrow> unit res"
  os_sync :: "nat \<Rightarrow> unit res"
  os_rename :: "path \<Rightarrow> path \<Rightarrow> unit res"
  os_remove :: "path \<Rightarrow> unit res"
  os_database :: "path \<Rightarrow> unit res"

type_synonym kernel = "trace \<Rightarrow> os"
type_synonym 'a sys = "trace \<Rightarrow> 'a res \<times> trace"

definition os_call :: "kernel \<Rightarrow> (os \<Rightarrow> 'a res) \<Rightarrow> ('a \<Rightarrow> os_event) \<Rightarrow> 'a sys" where
  "os_call k f ev tr =
     (case f (k tr) of
        Inl e \<Rightarrow> (Inl e, tr @ [Failed])
      | Inr x \<Rightarrow> (Inr x, tr @ [ev x]))"

definition symlink_metadata :: "kernel \<Rightarrow> path \<Rightarrow> metadata sys" where
  "symlink_metadata k p = os_call k (\<lambda>s. os_lstat s p) (Looked p)"

definition open_file :: "kernel \<Rightarrow> open_how \<Rightarrow> path \<Rightarrow> nat sys" where
  "open_file k how p = os_call k (\<lambda>s. os_open s how p) (Opened p how)"

definition file_metadata :: "kernel \<Rightarrow> nat \<Rightarrow> metadata sys" where
  "file_metadata k h = os_call k (\<lambda>s. os_fstat s h) (Checked h)"

definition set_file_mode :: "kernel \<Rightarrow> nat \<Rightarrow> 32 word \<Rightarrow> unit sys" where
  "set_file_mode k h m = os_call k (\<lambda>s. os_fchmod s h m) (\<lambda>_. ChangedMode h m)"

definition set_path_mode :: "kernel \<Rightarrow> path \<Rightarrow> 32 word \<Rightarrow> unit sys" where
  "set_path_mode k p m = os_call k (\<lambda>s. os_chmod s p m) (\<lambda>_. ChangedModeAt p m)"

definition create_dir_all :: "kernel \<Rightarrow> path \<Rightarrow> unit sys" where
  "create_dir_all k p = os_call k (\<lambda>s. os_mkdirs s p) (\<lambda>_. MadeDirs p)"

definition current_dir :: "kernel \<Rightarrow> path sys" where
  "current_dir k = os_call k os_current_dir (\<lambda>_. Answered)"

text \<open>\<open>match \<dots> { Err(error) if error.kind() == NotFound \<Rightarrow> \<dots> }\<close>: another way to go on for one kind.\<close>

definition unless_kind :: "io_kind \<Rightarrow> 'a sys \<Rightarrow> ('a \<Rightarrow> 'b sys) \<Rightarrow> 'b sys \<Rightarrow> 'b sys" where
  "unless_kind kind m f otherwise tr =
     (case m tr of
        (Inr x, tr) \<Rightarrow> f x tr
      | (Inl (Io kind' t), tr) \<Rightarrow> if kind' = kind then otherwise tr else (Inl (Io kind' t), tr)
      | (Inl e, tr) \<Rightarrow> (Inl e, tr))"

fun each :: "('a \<Rightarrow> unit sys) \<Rightarrow> 'a list \<Rightarrow> unit sys" where
  "each f [] = lift_res (Inr ())"
| "each f (x # xs) = seq_op (f x) (\<lambda>_. each f xs)"

text \<open>The text of a path, as \<open>display\<close> shows it.\<close>

definition path_text :: "path \<Rightarrow> string" where
  "path_text p =
     (case p of
        RootDir # cs \<Rightarrow> ''/'' @ join_with ''/'' (map component_text cs)
      | _ \<Rightarrow> join_with ''/'' (map component_text p))"

definition path_display :: "path \<Rightarrow> string" where
  "path_display p = lossy (path_text p)"

subsection \<open>Reasoning about traces\<close>

definition runs :: "(trace \<Rightarrow> bool) \<Rightarrow> 'a sys \<Rightarrow> ('a res \<Rightarrow> trace \<Rightarrow> bool) \<Rightarrow> bool" where
  "runs P m Q \<longleftrightarrow> (\<forall>tr r tr'. P tr \<longrightarrow> m tr = (r, tr') \<longrightarrow> Q r tr')"

lemma runsD: "runs P m Q \<Longrightarrow> P tr \<Longrightarrow> m tr = (r, tr') \<Longrightarrow> Q r tr'"
  by (simp add: runs_def)

lemma runs_lift: "(\<And>tr. P tr \<Longrightarrow> Q r tr) \<Longrightarrow> runs P (lift_res r) Q"
  by (simp add: runs_def lift_res_def)

lemma runs_seq:
  assumes "runs P m R" "\<And>x. runs (R (Inr x)) (f x) Q" "\<And>e tr. R (Inl e) tr \<Longrightarrow> Q (Inl e) tr"
  shows "runs P (seq_op m f) Q"
  using assms unfolding runs_def seq_op_def by (fastforce split: prod.splits sum.splits)

lemma runs_unless:
  assumes "runs P m R" "\<And>x. runs (R (Inr x)) (f x) Q" "runs (\<lambda>tr. \<exists>e. R (Inl e) tr) g Q"
    "\<And>e tr. R (Inl e) tr \<Longrightarrow> Q (Inl e) tr"
  shows "runs P (unless_kind kind m f g) Q"
proof -
  have "Q r tr'" if "P tr" "unless_kind kind m f g tr = (r, tr')" for tr r tr'
  proof -
    obtain r0 tr0 where m: "m tr = (r0, tr0)" by (meson surj_pair)
    with assms(1) that(1) have R: "R r0 tr0" by (auto simp: runs_def)
    show ?thesis
    proof (cases r0)
      case (Inr x)
      with R m that(2) assms(2) [of x] show ?thesis by (auto simp: unless_kind_def runs_def)
    next
      case (Inl e)
      with R have "\<exists>e. R (Inl e) tr0" by blast
      with Inl R m that(2) assms(3,4) show ?thesis
        by (cases e) (auto simp: unless_kind_def runs_def split: if_splits)
    qed
  qed
  then show ?thesis by (simp add: runs_def)
qed

lemma runs_call:
  assumes "\<And>x tr. P tr \<Longrightarrow> f (k tr) = Inr x \<Longrightarrow> Q (Inr x) (tr @ [ev x])" "\<And>e tr. P tr \<Longrightarrow> Q (Inl e) (tr @ [Failed])"
  shows "runs P (os_call k f ev) Q"
  using assms by (auto simp: runs_def os_call_def split: sum.splits)

lemma runs_pre: "runs P m Q \<Longrightarrow> (\<And>tr. P' tr \<Longrightarrow> P tr) \<Longrightarrow> runs P' m Q"
  by (auto simp: runs_def)

lemma runs_post: "runs P m Q \<Longrightarrow> (\<And>r tr. Q r tr \<Longrightarrow> Q' r tr) \<Longrightarrow> runs P m Q'"
  by (auto simp: runs_def)

end
