(* ===== verification/SqliteOpen.thy ===== *)
theory SqliteOpen imports SqliteCache Syscalls begin

text \<open>
  The way to the database file (\<open>SqliteStateCache::open\<close> in \<open>src/state.rs\<close>): the path is made
  absolute, its directories are checked, made and checked again, the file is checked or created
  for its owner only, and only then the database is opened. \<open>uid\<close> is the effective user.
\<close>

definition reject_sqlite_uri_path :: "path \<Rightarrow> unit res" where
  "reject_sqlite_uri_path p =
     (if to_ascii_lowercase (take 5 (path_display p)) = ''file:''
      then Inl (Other (''sqlite state cache path '' @ path_display p @ '' must not use a file: URI''))
      else Inr ())"

definition stable_sqlite_cache_path :: "kernel \<Rightarrow> path \<Rightarrow> path sys" where
  "stable_sqlite_cache_path k p =
     seq_op (lift_res (reject_sqlite_uri_path p)) (\<lambda>_.
       if is_absolute p then lift_res (Inr p)
       else seq_op (current_dir k) (\<lambda>d. lift_res (Inr (path_join d p))))"

subsection \<open>Checks\<close>

definition trusted_owner :: "nat \<Rightarrow> metadata \<Rightarrow> bool" where
  "trusted_owner uid mt \<longleftrightarrow> mt_uid mt = 0 \<or> mt_uid mt = uid"

definition ensure_sqlite_cache_trusted_owner :: "nat \<Rightarrow> path \<Rightarrow> metadata \<Rightarrow> unit res" where
  "ensure_sqlite_cache_trusted_owner uid p mt =
     (if \<not> trusted_owner uid mt
      then Inl (Other (''sqlite state cache path '' @ path_display p @ '' is not owned by root or the current user''))
      else Inr ())"

definition ensure_sqlite_cache_regular_file :: "nat \<Rightarrow> path \<Rightarrow> metadata \<Rightarrow> unit res" where
  "ensure_sqlite_cache_regular_file uid p mt =
     (if mt_kind mt = Symlink then Inl (Other (''sqlite state cache path '' @ path_display p @ '' is a symbolic link''))
      else if mt_kind mt \<noteq> Regular then Inl (Other (''sqlite state cache path '' @ path_display p @ '' is not a regular file''))
      else ensure_sqlite_cache_trusted_owner uid p mt)"

text \<open>Writable for the group or the world, and no sticky bit.\<close>

definition loose_mode :: "32 word \<Rightarrow> bool" where
  "loose_mode m \<longleftrightarrow> and m 0x12 \<noteq> 0 \<and> and m 0x200 = 0"

definition validate_sqlite_cache_parent_dir :: "nat \<Rightarrow> path \<Rightarrow> metadata \<Rightarrow> unit res" where
  "validate_sqlite_cache_parent_dir uid p mt =
     (if mt_kind mt = Symlink then Inl (Other (''sqlite state cache parent '' @ path_display p @ '' is a symbolic link''))
      else if mt_kind mt \<noteq> Directory then Inl (Other (''sqlite state cache parent '' @ path_display p @ '' is not a directory''))
      else and_then (ensure_sqlite_cache_trusted_owner uid p mt) (\<lambda>_.
        if loose_mode (mt_mode mt)
        then Inl (Other (''sqlite state cache parent '' @ path_display p @ '' is group/world-writable without sticky bit''))
        else Inr ()))"

subsection \<open>The directories\<close>

definition sqlite_cache_parent_path :: "path \<Rightarrow> path option" where
  "sqlite_cache_parent_path p =
     (case path_parent p of
        Some (c # cs) \<Rightarrow> Some (c # cs)
      | _ \<Rightarrow> if is_absolute p then None else Some [CurDir])"

text \<open>Every prefix of the path; a dot inside it is no component.\<close>

fun push_chain :: "path \<Rightarrow> component list \<Rightarrow> path list" where
  "push_chain p [] = []"
| "push_chain p (c # cs) = (p @ [c]) # push_chain (p @ [c]) cs"

definition parent_chain_of :: "path \<Rightarrow> path list" where
  "parent_chain_of p = push_chain [] (case p of [] \<Rightarrow> [] | c # cs \<Rightarrow> c # filter (\<lambda>c. c \<noteq> CurDir) cs)"

definition sqlite_cache_parent_chain :: "kernel \<Rightarrow> path \<Rightarrow> path list sys" where
  "sqlite_cache_parent_chain k parent =
     (if is_absolute parent then lift_res (Inr (parent_chain_of parent))
      else seq_op (current_dir k) (\<lambda>d. lift_res (Inr (parent_chain_of (path_join d parent)))))"

definition validate_existing_sqlite_cache_parent_dirs :: "kernel \<Rightarrow> nat \<Rightarrow> path \<Rightarrow> unit sys" where
  "validate_existing_sqlite_cache_parent_dirs k uid parent =
     seq_op (sqlite_cache_parent_chain k parent) (\<lambda>dirs.
       each (\<lambda>d. unless_kind NotFound (symlink_metadata k d)
         (\<lambda>mt. lift_res (validate_sqlite_cache_parent_dir uid d mt)) (lift_res (Inr ()))) dirs)"

definition create_sqlite_cache_parent_dir :: "kernel \<Rightarrow> path \<Rightarrow> unit sys" where
  "create_sqlite_cache_parent_dir k parent = create_dir_all k parent"

definition validate_sqlite_cache_parent_dirs :: "kernel \<Rightarrow> nat \<Rightarrow> path \<Rightarrow> unit sys" where
  "validate_sqlite_cache_parent_dirs k uid parent =
     seq_op (sqlite_cache_parent_chain k parent) (\<lambda>dirs.
       each (\<lambda>d. seq_op (symlink_metadata k d) (\<lambda>mt. lift_res (validate_sqlite_cache_parent_dir uid d mt))) dirs)"

definition prepare_sqlite_cache_parent :: "kernel \<Rightarrow> nat \<Rightarrow> path \<Rightarrow> unit sys" where
  "prepare_sqlite_cache_parent k uid p =
     (case sqlite_cache_parent_path p of
        None \<Rightarrow> lift_res (Inr ())
      | Some parent \<Rightarrow>
          seq_op (validate_existing_sqlite_cache_parent_dirs k uid parent) (\<lambda>_.
          seq_op (create_sqlite_cache_parent_dir k parent) (\<lambda>_.
            validate_sqlite_cache_parent_dirs k uid parent)))"

subsection \<open>The file\<close>

definition set_sqlite_cache_file_handle_private :: "kernel \<Rightarrow> nat \<Rightarrow> unit sys" where
  "set_sqlite_cache_file_handle_private k h =
     seq_op (file_metadata k h) (\<lambda>mt.
       if and (mt_mode mt) 0x1FF \<noteq> 0x180 then set_file_mode k h 0x180 else lift_res (Inr ()))"

text \<open>When reading is refused, writing is tried; when that fails too, the first error counts.\<close>

definition open_either :: "kernel \<Rightarrow> path \<Rightarrow> nat sys" where
  "open_either k p tr =
     (case open_file k ForRead p tr of
        (Inr h, tr) \<Rightarrow> (Inr h, tr)
      | (Inl read_error, tr) \<Rightarrow> (case open_file k ForWrite p tr of (r, tr) \<Rightarrow> (map_err (\<lambda>_. read_error) r, tr)))"

definition set_existing_sqlite_cache_file_private :: "kernel \<Rightarrow> nat \<Rightarrow> path \<Rightarrow> unit sys" where
  "set_existing_sqlite_cache_file_private k uid p =
     seq_op (open_either k p) (\<lambda>h.
     seq_op (symlink_metadata k p) (\<lambda>named.
     seq_op (lift_res (ensure_sqlite_cache_regular_file uid p named)) (\<lambda>_.
     seq_op (file_metadata k h) (\<lambda>opened.
       if mt_id opened \<noteq> mt_id named
       then lift_res (Inl (Other (''sqlite state cache path '' @ path_display p @ '' changed while opening'')))
       else set_sqlite_cache_file_handle_private k h))))"

definition create_sqlite_cache_file :: "kernel \<Rightarrow> nat \<Rightarrow> path \<Rightarrow> unit sys" where
  "create_sqlite_cache_file k uid p =
     unless_kind AlreadyExists (open_file k (CreateNew 0x180) p) (set_sqlite_cache_file_handle_private k)
       (seq_op (symlink_metadata k p) (\<lambda>mt.
        seq_op (lift_res (ensure_sqlite_cache_regular_file uid p mt)) (\<lambda>_.
          set_existing_sqlite_cache_file_private k uid p)))"

definition prepare_sqlite_cache_file :: "kernel \<Rightarrow> nat \<Rightarrow> path \<Rightarrow> unit sys" where
  "prepare_sqlite_cache_file k uid p =
     seq_op (lift_res (reject_sqlite_uri_path p)) (\<lambda>_.
     seq_op (prepare_sqlite_cache_parent k uid p) (\<lambda>_.
       unless_kind NotFound (symlink_metadata k p)
         (\<lambda>mt. seq_op (lift_res (ensure_sqlite_cache_regular_file uid p mt)) (\<lambda>_.
            set_existing_sqlite_cache_file_private k uid p))
         (create_sqlite_cache_file k uid p)))"

definition open_sqlite_cache_connection :: "kernel \<Rightarrow> nat \<Rightarrow> path \<Rightarrow> unit sys" where
  "open_sqlite_cache_connection k uid p =
     seq_op (lift_res (reject_sqlite_uri_path p)) (\<lambda>_.
     seq_op (os_call k (\<lambda>s. os_database s p) (\<lambda>_. OpenedDatabase p)) (\<lambda>_.
       set_existing_sqlite_cache_file_private k uid p))"

text \<open>\<open>db\<close> is what the database holds, and \<open>fails\<close> whether creating the tables fails.\<close>

definition sqlite_open :: "kernel \<Rightarrow> nat \<Rightarrow> error option \<Rightarrow> database \<Rightarrow> path \<Rightarrow> database sys" where
  "sqlite_open k uid fails db p =
     seq_op (stable_sqlite_cache_path k p) (\<lambda>p.
     seq_op (prepare_sqlite_cache_file k uid p) (\<lambda>_.
     seq_op (open_sqlite_cache_connection k uid p) (\<lambda>_.
       lift_res (case fails of Some e \<Rightarrow> Inl e | None \<Rightarrow> and_then (fst (sql_create db)) (\<lambda>_. Inr (snd (sql_create db)))))))"

end
