(* ===== verification/SqliteOpenProps.thy ===== *)
theory SqliteOpenProps imports SqliteOpen "HOL-Library.Sublist" begin

text \<open>
  Opening the cache touches nothing but the user's own file below safe directories, whatever other
  processes do to the file system in between.
\<close>

definition trusted_file :: "nat \<Rightarrow> metadata \<Rightarrow> bool" where
  "trusted_file uid mt \<longleftrightarrow> mt_kind mt = Regular \<and> trusted_owner uid mt"

definition safe_dir :: "nat \<Rightarrow> metadata \<Rightarrow> bool" where
  "safe_dir uid mt \<longleftrightarrow> mt_kind mt = Directory \<and> trusted_owner uid mt \<and> \<not> loose_mode (mt_mode mt)"

text \<open>The handle was made by creating the file, or is the trusted file that the path itself names.\<close>

definition own_handle :: "nat \<Rightarrow> path \<Rightarrow> nat \<Rightarrow> trace \<Rightarrow> bool" where
  "own_handle uid p h tr \<longleftrightarrow> Opened p (CreateNew 0x180) h \<in> set tr \<or>
     (\<exists>named opened. Looked p named \<in> set tr \<and> trusted_file uid named \<and> Checked h opened \<in> set tr \<and> mt_id opened = mt_id named)"

definition safe_dirs :: "nat \<Rightarrow> path list \<Rightarrow> trace \<Rightarrow> bool" where
  "safe_dirs uid dirs tr \<longleftrightarrow> (\<forall>d\<in>set dirs. \<exists>mt. Looked d mt \<in> set tr \<and> safe_dir uid mt)"

text \<open>What is known before the database is opened.\<close>

definition cache_ready :: "nat \<Rightarrow> path \<Rightarrow> trace \<Rightarrow> bool" where
  "cache_ready uid p tr \<longleftrightarrow>
     (\<forall>parent. sqlite_cache_parent_path p = Some parent \<longrightarrow> safe_dirs uid (parent_chain_of parent) tr) \<and>
     (\<exists>h. own_handle uid p h tr)"

definition sound :: "nat \<Rightarrow> path \<Rightarrow> trace \<Rightarrow> bool" where
  "sound uid p tr \<longleftrightarrow>
     (\<forall>h m. ChangedMode h m \<in> set tr \<longrightarrow> m = 0x180 \<and> own_handle uid p h tr) \<and>
     (\<forall>before q. prefix (before @ [OpenedDatabase q]) tr \<longrightarrow> q = p \<and> cache_ready uid p before) \<and>
     (\<forall>q m. ChangedModeAt q m \<notin> set tr)"

definition lasting :: "(trace \<Rightarrow> bool) \<Rightarrow> bool" where
  "lasting F \<longleftrightarrow> (\<forall>tr e. F tr \<longrightarrow> F (tr @ [e]))"

lemma lasting_intros:
  "lasting (\<lambda>_. True)"
  "lasting (\<lambda>tr. e \<in> set tr)"
  "lasting (\<lambda>tr. own_handle uid p h tr)"
  "lasting (\<lambda>tr. safe_dirs uid dirs tr)"
  "lasting F \<Longrightarrow> lasting G \<Longrightarrow> lasting (\<lambda>tr. F tr \<and> G tr)"
  by (auto simp: lasting_def own_handle_def safe_dirs_def)

lemma own_handle_later: "own_handle uid p h tr \<Longrightarrow> own_handle uid p h (tr @ [e])"
  by (auto simp: own_handle_def)

text \<open>One more event: a change of mode needs its own handle, the database needs everything.\<close>

lemma sound_event:
  assumes "sound uid p tr" "\<And>h m. e = ChangedMode h m \<Longrightarrow> m = 0x180 \<and> own_handle uid p h tr"
    "\<And>q. e = OpenedDatabase q \<Longrightarrow> q = p \<and> cache_ready uid p tr" "\<And>q m. e \<noteq> ChangedModeAt q m"
  shows "sound uid p (tr @ [e])"
proof -
  have "ChangedModeAt q m \<notin> set (tr @ [e])" for q m using assms(1) assms(4) [of q m] by (auto simp: sound_def)
  then show ?thesis using assms(1-3) own_handle_later unfolding sound_def prefix_snoc by auto
qed

subsection \<open>System calls\<close>

text \<open>
  \<open>safely F\<close>: the trace is sound and \<open>F\<close> is known; a call that changes nothing keeps both and adds
  what it answers.
\<close>

definition safely :: "nat \<Rightarrow> path \<Rightarrow> (trace \<Rightarrow> bool) \<Rightarrow> trace \<Rightarrow> bool" where
  "safely uid p F tr \<longleftrightarrow> sound uid p tr \<and> F tr"

definition gives :: "nat \<Rightarrow> path \<Rightarrow> (trace \<Rightarrow> bool) \<Rightarrow> ('a \<Rightarrow> trace \<Rightarrow> bool) \<Rightarrow> 'a res \<Rightarrow> trace \<Rightarrow> bool" where
  "gives uid p F G r tr \<longleftrightarrow> safely uid p F tr \<and> (\<forall>x. r = Inr x \<longrightarrow> G x tr)"

definition neutral :: "os_event \<Rightarrow> bool" where
  "neutral e \<longleftrightarrow> (case e of ChangedMode _ _ \<Rightarrow> False | OpenedDatabase _ \<Rightarrow> False | ChangedModeAt _ _ \<Rightarrow> False | _ \<Rightarrow> True)"

lemma safely_neutral: "lasting F \<Longrightarrow> safely uid p F tr \<Longrightarrow> neutral e \<Longrightarrow> safely uid p F (tr @ [e])"
  unfolding safely_def lasting_def by (auto intro!: sound_event simp: neutral_def)

lemma runs_neutral:
  assumes "lasting F" "\<And>x. neutral (ev x)" "\<And>x tr. G x (tr @ [ev x])"
  shows "runs (safely uid p F) (os_call k f ev) (gives uid p F G)"
  by (rule runs_call) (use assms in \<open>auto simp: gives_def neutral_def intro!: safely_neutral\<close>)

lemma runs_asks:
  assumes "lasting F"
  shows "runs (safely uid p F) (symlink_metadata k q) (gives uid p F (\<lambda>mt tr. Looked q mt \<in> set tr))"
    and "runs (safely uid p F) (file_metadata k h) (gives uid p F (\<lambda>mt tr. Checked h mt \<in> set tr))"
    and "runs (safely uid p F) (open_file k how q) (gives uid p F (\<lambda>h tr. Opened q how h \<in> set tr))"
    and "runs (safely uid p F) (create_dir_all k q) (gives uid p F (\<lambda>_ _. True))"
    and "runs (safely uid p F) (current_dir k) (gives uid p F (\<lambda>_ _. True))"
  unfolding symlink_metadata_def file_metadata_def open_file_def create_dir_all_def current_dir_def
  by (rule runs_neutral; use assms in \<open>simp add: neutral_def\<close>)+

text \<open>Going on after a call.\<close>

lemma runs_then:
  assumes "runs (safely uid p F) m (gives uid p F G)" "\<And>x. runs (safely uid p (\<lambda>tr. F tr \<and> G x tr)) (f x) (gives uid p (\<lambda>tr. F tr \<and> G x tr) H)"
  shows "runs (safely uid p F) (seq_op m f) (gives uid p F H)"
proof (rule runs_seq [OF assms(1)])
  show "runs (gives uid p F G (Inr x)) (f x) (gives uid p F H)" for x
    by (rule runs_pre [OF runs_post [OF assms(2) [of x]]]) (simp_all add: gives_def safely_def)
qed (simp add: gives_def)

lemma runs_or_else:
  assumes "runs (safely uid p F) m (gives uid p F G)" "\<And>x. runs (safely uid p (\<lambda>tr. F tr \<and> G x tr)) (f x) (gives uid p (\<lambda>tr. F tr \<and> G x tr) H)"
    "runs (safely uid p F) g (gives uid p F H)"
  shows "runs (safely uid p F) (unless_kind kind m f g) (gives uid p F H)"
proof (rule runs_unless [OF assms(1)])
  show "runs (gives uid p F G (Inr x)) (f x) (gives uid p F H)" for x
    by (rule runs_pre [OF runs_post [OF assms(2) [of x]]]) (simp_all add: gives_def safely_def)
  show "runs (\<lambda>tr. \<exists>e. gives uid p F G (Inl e) tr) g (gives uid p F H)"
    by (rule runs_pre [OF assms(3)]) (auto simp: gives_def)
qed (simp add: gives_def)

lemma runs_check:
  assumes "\<And>x tr. r = Inr x \<Longrightarrow> F tr \<Longrightarrow> G x tr"
  shows "runs (safely uid p F) (lift_res r) (gives uid p F G)"
  by (rule runs_lift) (use assms in \<open>auto simp: gives_def safely_def\<close>)

lemma gives_mono:
  "gives uid p F G r tr \<Longrightarrow> (\<And>tr. F tr \<Longrightarrow> F' tr) \<Longrightarrow> (\<And>x tr. F tr \<Longrightarrow> G x tr \<Longrightarrow> G' x tr) \<Longrightarrow> gives uid p F' G' r tr"
  by (auto simp: gives_def safely_def)

lemma runs_weaken:
  assumes "runs (safely uid p F') m (gives uid p F' G')" "\<And>tr. F tr \<Longrightarrow> F' tr"
    "\<And>tr. F' tr \<Longrightarrow> F tr" "\<And>x tr. F' tr \<Longrightarrow> G' x tr \<Longrightarrow> G x tr"
  shows "runs (safely uid p F) m (gives uid p F G)"
  using assms unfolding runs_def gives_def safely_def by blast

subsection \<open>The file\<close>

lemma regular_trusted: "ensure_sqlite_cache_regular_file uid p mt = Inr x \<Longrightarrow> trusted_file uid mt"
  by (auto simp: ensure_sqlite_cache_regular_file_def ensure_sqlite_cache_trusted_owner_def trusted_file_def
      split: if_splits)

lemma parent_safe: "validate_sqlite_cache_parent_dir uid p mt = Inr x \<Longrightarrow> safe_dir uid mt"
  by (auto simp: validate_sqlite_cache_parent_dir_def ensure_sqlite_cache_trusted_owner_def and_then_Inr_iff safe_dir_def
      split: if_splits)

lemma runs_mode:
  assumes "lasting F" "\<And>tr. F tr \<Longrightarrow> own_handle uid p h tr"
  shows "runs (safely uid p F) (set_file_mode k h 0x180) (gives uid p F (\<lambda>_ _. True))"
  unfolding set_file_mode_def
proof (rule runs_call)
  fix x tr assume "safely uid p F tr"
  then show "gives uid p F (\<lambda>_ _. True) (Inr x) (tr @ [ChangedMode h 0x180])"
    using assms unfolding gives_def safely_def lasting_def by (auto intro!: sound_event)
next
  fix e tr assume "safely uid p F tr"
  then show "gives uid p F (\<lambda>_ _. True) (Inl e) (tr @ [Failed])"
    using safely_neutral [OF assms(1)] by (simp add: gives_def neutral_def)
qed

lemma runs_private:
  assumes "lasting F" "\<And>tr. F tr \<Longrightarrow> own_handle uid p h tr"
  shows "runs (safely uid p F) (set_sqlite_cache_file_handle_private k h) (gives uid p F (\<lambda>_ tr. own_handle uid p h tr))"
  unfolding set_sqlite_cache_file_handle_private_def
proof (rule runs_then [OF runs_asks(2) [OF assms(1)]])
  fix mt
  let ?F = "\<lambda>tr. F tr \<and> Checked h mt \<in> set tr"
  have F: "lasting ?F" by (intro lasting_intros assms(1))
  show "runs (safely uid p ?F)
      (if and (mt_mode mt) 0x1FF \<noteq> 0x180 then set_file_mode k h 0x180 else lift_res (Inr ()))
      (gives uid p ?F (\<lambda>_ tr. own_handle uid p h tr))"
  proof (cases "and (mt_mode mt) 0x1FF = 0x180")
    case True
    show ?thesis unfolding True using assms(2) by (auto intro!: runs_check)
  next
    case False
    from runs_mode [OF F, of uid p h k] assms(2) False show ?thesis
      by (auto elim!: runs_post simp: gives_def safely_def)
  qed
qed

lemma runs_open_either:
  assumes "lasting F"
  shows "runs (safely uid p F) (open_either k q) (gives uid p F (\<lambda>_ _. True))"
proof -
  have "gives uid p F (\<lambda>_ _. True) r tr'" if "safely uid p F tr" "open_either k q tr = (r, tr')" for tr r tr'
  proof -
    obtain r1 tr1 where one: "open_file k ForRead q tr = (r1, tr1)" by (meson surj_pair)
    from runsD [OF runs_asks(3) [OF assms] that(1) one] have h1: "safely uid p F tr1" by (simp add: gives_def)
    obtain r2 tr2 where two: "open_file k ForWrite q tr1 = (r2, tr2)" by (meson surj_pair)
    from runsD [OF runs_asks(3) [OF assms] h1 two] have "safely uid p F tr2" by (simp add: gives_def)
    with h1 one two that(2) show ?thesis by (cases r1) (auto simp: open_either_def gives_def)
  qed
  then show ?thesis by (simp add: runs_def)
qed

lemma runs_existing:
  assumes "lasting F"
  shows "runs (safely uid p F) (set_existing_sqlite_cache_file_private k uid p) (gives uid p F (\<lambda>_ tr. \<exists>h. own_handle uid p h tr))"
  unfolding set_existing_sqlite_cache_file_private_def
proof (rule runs_then [OF runs_open_either [OF assms]], rule runs_then [OF runs_asks(1)], intro lasting_intros assms)
  fix h named
  let ?F = "\<lambda>tr. (F tr \<and> True) \<and> Looked p named \<in> set tr"
  have F: "lasting ?F" by (intro lasting_intros assms)
  show "runs (safely uid p ?F)
      (seq_op (lift_res (ensure_sqlite_cache_regular_file uid p named)) (\<lambda>_.
       seq_op (file_metadata k h) (\<lambda>opened.
         if mt_id opened \<noteq> mt_id named
         then lift_res (Inl (Other (''sqlite state cache path '' @ path_display p @ '' changed while opening'')))
         else set_sqlite_cache_file_handle_private k h)))
      (gives uid p ?F (\<lambda>_ tr. \<exists>h. own_handle uid p h tr))"
  proof (cases "ensure_sqlite_cache_regular_file uid p named")
    case (Inl e)
    then show ?thesis by (simp add: runs_def seq_op_def lift_res_def gives_def)
  next
    case (Inr u)
    note trusted = regular_trusted [OF Inr]
    have eq: "seq_op (lift_res (Inr u)) g = g u" for g :: "unit \<Rightarrow> 'b sys" by (rule ext) simp
    show ?thesis unfolding Inr eq
    proof (rule runs_then [OF runs_asks(2) [OF F]])
      fix opened
      let ?G = "\<lambda>tr. ?F tr \<and> Checked h opened \<in> set tr"
      have G: "lasting ?G" by (intro lasting_intros assms)
      show "runs (safely uid p ?G)
          (if mt_id opened \<noteq> mt_id named
           then lift_res (Inl (Other (''sqlite state cache path '' @ path_display p @ '' changed while opening'')))
           else set_sqlite_cache_file_handle_private k h) (gives uid p ?G (\<lambda>_ tr. \<exists>h. own_handle uid p h tr))"
      proof (cases "mt_id opened = mt_id named")
        case True
        have "own_handle uid p h tr" if "?G tr" for tr
          using that trusted True by (auto simp: own_handle_def)
        from runs_private [OF G this, of k] have "runs (safely uid p ?G) (set_sqlite_cache_file_handle_private k h)
            (gives uid p ?G (\<lambda>_ tr. \<exists>h. own_handle uid p h tr))"
          by (rule runs_post) (auto simp: gives_def)
        with True show ?thesis by (simp only: simp_thms if_False)
      next
        case False
        then show ?thesis by (auto intro!: runs_check)
      qed
    qed
  qed
qed

lemma runs_lift_then:
  assumes "\<And>x. r = Inr x \<Longrightarrow> runs (safely uid p F) (f x) (gives uid p F G)"
  shows "runs (safely uid p F) (seq_op (lift_res r) f) (gives uid p F G)"
proof (cases r)
  case (Inl e)
  then show ?thesis by (simp add: runs_def gives_def)
next
  case (Inr x)
  with assms [OF Inr] show ?thesis by (simp add: runs_def)
qed

text \<open>What is learnt on the way may be forgotten.\<close>

lemma runs_forget:
  assumes "runs (safely uid p (\<lambda>tr. F tr \<and> E tr)) m (gives uid p (\<lambda>tr. F tr \<and> E tr) G)"
  shows "runs (safely uid p (\<lambda>tr. F tr \<and> E tr)) m (gives uid p F G)"
  by (rule runs_post [OF assms]) (simp add: gives_def safely_def)

lemma runs_create:
  assumes "lasting F"
  shows "runs (safely uid p F) (create_sqlite_cache_file k uid p) (gives uid p F (\<lambda>_ tr. \<exists>h. own_handle uid p h tr))"
  unfolding create_sqlite_cache_file_def
proof (rule runs_or_else [OF runs_asks(3) [OF assms]])
  fix h
  let ?F = "\<lambda>tr. F tr \<and> Opened p (CreateNew 0x180) h \<in> set tr"
  have F: "lasting ?F" by (intro lasting_intros assms)
  have "own_handle uid p h tr" if "?F tr" for tr using that by (simp add: own_handle_def)
  from runs_private [OF F this, of k] show "runs (safely uid p ?F) (set_sqlite_cache_file_handle_private k h)
      (gives uid p ?F (\<lambda>_ tr. \<exists>h. own_handle uid p h tr))"
    by (rule runs_post) (auto simp: gives_def)
next
  show "runs (safely uid p F)
      (seq_op (symlink_metadata k p) (\<lambda>mt.
        seq_op (lift_res (ensure_sqlite_cache_regular_file uid p mt)) (\<lambda>_. set_existing_sqlite_cache_file_private k uid p)))
      (gives uid p F (\<lambda>_ tr. \<exists>h. own_handle uid p h tr))"
    by (rule runs_then [OF runs_asks(1) [OF assms]], rule runs_lift_then, rule runs_existing) (intro lasting_intros assms)
qed

subsection \<open>The directories\<close>

lemma runs_each_known:
  assumes "lasting F" "\<And>F d. lasting F \<Longrightarrow> runs (safely uid p F) (f d) (gives uid p F (\<lambda>_. K d))" "\<And>d. lasting (K d)"
  shows "runs (safely uid p F) (each f ds) (gives uid p F (\<lambda>_ tr. \<forall>d\<in>set ds. K d tr))"
  using assms(1)
proof (induction ds arbitrary: F)
  case Nil
  show ?case by (auto intro!: runs_check)
next
  case (Cons d ds)
  have F: "lasting (\<lambda>tr. F tr \<and> K d tr)" by (intro lasting_intros Cons.prems assms(3))
  have "runs (safely uid p (\<lambda>tr. F tr \<and> K d tr)) (each f ds)
      (gives uid p (\<lambda>tr. F tr \<and> K d tr) (\<lambda>_ tr. \<forall>d\<in>set (d # ds). K d tr))"
    by (rule runs_post [OF Cons.IH [OF F]]) (auto simp: gives_def safely_def)
  with assms(2) [OF Cons.prems] show ?case
    unfolding each.simps by (rule runs_then)
qed

lemma runs_chain:
  assumes "lasting F" "is_absolute parent"
  shows "runs (safely uid p F) (sqlite_cache_parent_chain k parent) (gives uid p F (\<lambda>dirs _. dirs = parent_chain_of parent))"
  unfolding sqlite_cache_parent_chain_def using assms(2) by (auto intro!: runs_check)

lemma runs_dirs:
  assumes "lasting F" "is_absolute parent"
  shows "runs (safely uid p F) (validate_sqlite_cache_parent_dirs k uid parent)
    (gives uid p F (\<lambda>_ tr. safe_dirs uid (parent_chain_of parent) tr))"
  unfolding validate_sqlite_cache_parent_dirs_def
proof (rule runs_then [OF runs_chain [OF assms]])
  fix dirs
  let ?F = "\<lambda>tr. F tr \<and> dirs = parent_chain_of parent"
  let ?K = "\<lambda>d tr. \<exists>mt. Looked d mt \<in> set tr \<and> safe_dir uid mt"
  have F: "lasting ?F" using assms(1) by (simp add: lasting_def)
  have one: "runs (safely uid p G) (seq_op (symlink_metadata k d) (\<lambda>mt. lift_res (validate_sqlite_cache_parent_dir uid d mt)))
      (gives uid p G (\<lambda>_. ?K d))" if "lasting G" for G d
    by (rule runs_then [OF runs_asks(1) [OF that]]) (auto intro!: runs_check dest: parent_safe)
  have "lasting (?K d)" for d by (auto simp: lasting_def)
  from runs_each_known [OF F one this]
  show "runs (safely uid p ?F)
      (each (\<lambda>d. seq_op (symlink_metadata k d) (\<lambda>mt. lift_res (validate_sqlite_cache_parent_dir uid d mt))) dirs)
      (gives uid p ?F (\<lambda>_ tr. safe_dirs uid (parent_chain_of parent) tr))"
    by (rule runs_post) (auto simp: gives_def safely_def safe_dirs_def)
qed

lemma runs_existing_dirs:
  assumes "lasting F" "is_absolute parent"
  shows "runs (safely uid p F) (validate_existing_sqlite_cache_parent_dirs k uid parent) (gives uid p F (\<lambda>_ _. True))"
  unfolding validate_existing_sqlite_cache_parent_dirs_def
proof (rule runs_then [OF runs_chain [OF assms]])
  fix dirs
  let ?F = "\<lambda>tr. F tr \<and> dirs = parent_chain_of parent"
  have F: "lasting ?F" using assms(1) by (simp add: lasting_def)
  have one: "runs (safely uid p G) (unless_kind NotFound (symlink_metadata k d)
      (\<lambda>mt. lift_res (validate_sqlite_cache_parent_dir uid d mt)) (lift_res (Inr ()))) (gives uid p G (\<lambda>_ _. True))"
    if "lasting G" for G d
    by (rule runs_or_else [OF runs_asks(1) [OF that]]) (auto intro!: runs_check)
  from runs_each_known [OF F one]
  show "runs (safely uid p ?F) (each (\<lambda>d. unless_kind NotFound (symlink_metadata k d)
         (\<lambda>mt. lift_res (validate_sqlite_cache_parent_dir uid d mt)) (lift_res (Inr ()))) dirs)
      (gives uid p ?F (\<lambda>_ _. True))"
    by (rule runs_post) (auto simp: lasting_def gives_def)
qed

lemma absolute_parent: "is_absolute p \<Longrightarrow> sqlite_cache_parent_path p = Some parent \<Longrightarrow> is_absolute parent"
  by (cases p; cases "butlast p") (auto simp: sqlite_cache_parent_path_def path_parent_def is_absolute_def
      split: if_splits list.splits component.splits)

definition dirs_known :: "nat \<Rightarrow> path \<Rightarrow> trace \<Rightarrow> bool" where
  "dirs_known uid p tr \<longleftrightarrow> (\<forall>parent. sqlite_cache_parent_path p = Some parent \<longrightarrow> safe_dirs uid (parent_chain_of parent) tr)"

lemma lasting_dirs: "lasting (dirs_known uid p)"
  by (auto simp: lasting_def dirs_known_def safe_dirs_def)

lemma runs_parent:
  assumes "lasting F" "is_absolute p"
  shows "runs (safely uid p F) (prepare_sqlite_cache_parent k uid p) (gives uid p F (\<lambda>_. dirs_known uid p))"
proof (cases "sqlite_cache_parent_path p")
  case None
  then show ?thesis by (auto simp: prepare_sqlite_cache_parent_def dirs_known_def intro!: runs_check)
next
  case (Some parent)
  note abs = absolute_parent [OF assms(2) Some]
  have F: "lasting (\<lambda>tr. F tr \<and> True)" "lasting (\<lambda>tr. (F tr \<and> True) \<and> True)" by (intro lasting_intros assms(1))+
  have "runs (safely uid p F)
      (seq_op (validate_existing_sqlite_cache_parent_dirs k uid parent) (\<lambda>_.
       seq_op (create_sqlite_cache_parent_dir k parent) (\<lambda>_. validate_sqlite_cache_parent_dirs k uid parent)))
      (gives uid p F (\<lambda>_ tr. safe_dirs uid (parent_chain_of parent) tr))"
    unfolding create_sqlite_cache_parent_dir_def
    by (rule runs_then [OF runs_existing_dirs [OF assms(1) abs]], rule runs_then [OF runs_asks(4) [OF F(1)]],
        rule runs_dirs [OF F(2) abs])
  then show ?thesis
    unfolding prepare_sqlite_cache_parent_def Some option.case
    by (rule runs_post) (auto simp: gives_def dirs_known_def Some)
qed

subsection \<open>Opening\<close>

lemma absolute_join: "is_absolute d \<Longrightarrow> is_absolute (path_join d q)"
  by (cases d) (auto simp: path_join_def is_absolute_def split: list.splits component.splits)

definition file_known :: "nat \<Rightarrow> path \<Rightarrow> trace \<Rightarrow> bool" where
  "file_known uid p tr \<longleftrightarrow> (\<exists>h. own_handle uid p h tr)"

lemma lasting_file: "lasting (file_known uid p)"
  by (auto simp: lasting_def file_known_def own_handle_def)

lemma runs_prepare:
  assumes "lasting F" "is_absolute p"
  shows "runs (safely uid p F) (prepare_sqlite_cache_file k uid p) (gives uid p F (\<lambda>_ tr. dirs_known uid p tr \<and> file_known uid p tr))"
  unfolding prepare_sqlite_cache_file_def
proof (rule runs_lift_then, rule runs_then [OF runs_parent [OF assms]])
  fix u :: unit
  let ?F = "\<lambda>tr. F tr \<and> dirs_known uid p tr"
  have F: "lasting ?F" by (intro lasting_intros lasting_dirs assms(1))
  have existing: "runs (safely uid p (\<lambda>tr. ?F tr \<and> Looked p mt \<in> set tr))
      (seq_op (lift_res (ensure_sqlite_cache_regular_file uid p mt)) (\<lambda>_. set_existing_sqlite_cache_file_private k uid p))
      (gives uid p (\<lambda>tr. ?F tr \<and> Looked p mt \<in> set tr) (\<lambda>_ tr. \<exists>h. own_handle uid p h tr))" for mt
    by (rule runs_lift_then, rule runs_existing) (intro lasting_intros lasting_dirs assms(1))
  have "runs (safely uid p ?F) (unless_kind NotFound (symlink_metadata k p)
       (\<lambda>mt. seq_op (lift_res (ensure_sqlite_cache_regular_file uid p mt)) (\<lambda>_.
          set_existing_sqlite_cache_file_private k uid p))
       (create_sqlite_cache_file k uid p)) (gives uid p ?F (\<lambda>_ tr. \<exists>h. own_handle uid p h tr))"
    by (rule runs_or_else [OF runs_asks(1) [OF F] existing runs_create [OF F]])
  then show "runs (safely uid p ?F) (unless_kind NotFound (symlink_metadata k p)
       (\<lambda>mt. seq_op (lift_res (ensure_sqlite_cache_regular_file uid p mt)) (\<lambda>_.
          set_existing_sqlite_cache_file_private k uid p))
       (create_sqlite_cache_file k uid p)) (gives uid p ?F (\<lambda>_ tr. dirs_known uid p tr \<and> file_known uid p tr))"
    by (rule runs_post) (simp add: gives_def safely_def file_known_def)
qed

lemma runs_connection:
  assumes "lasting F" "\<And>tr. F tr \<Longrightarrow> cache_ready uid p tr"
  shows "runs (safely uid p F) (open_sqlite_cache_connection k uid p) (gives uid p F (\<lambda>_ tr. OpenedDatabase p \<in> set tr))"
  unfolding open_sqlite_cache_connection_def
proof (rule runs_lift_then, rule runs_then)
  show "runs (safely uid p F) (os_call k (\<lambda>s. os_database s p) (\<lambda>_. OpenedDatabase p))
      (gives uid p F (\<lambda>_ tr. OpenedDatabase p \<in> set tr))"
  proof (rule runs_call)
    fix x tr assume "safely uid p F tr"
    then show "gives uid p F (\<lambda>_ tr. OpenedDatabase p \<in> set tr) (Inr x) (tr @ [OpenedDatabase p])"
      using assms unfolding gives_def safely_def lasting_def by (auto intro!: sound_event)
  next
    fix e tr assume "safely uid p F tr"
    then show "gives uid p F (\<lambda>_ tr. OpenedDatabase p \<in> set tr) (Inl e) (tr @ [Failed])"
      using safely_neutral [OF assms(1)] by (simp add: gives_def neutral_def)
  qed
next
  fix u :: unit
  have "lasting (\<lambda>tr. F tr \<and> OpenedDatabase p \<in> set tr)" by (intro lasting_intros assms(1))
  from runs_existing [OF this] show "runs (safely uid p (\<lambda>tr. F tr \<and> OpenedDatabase p \<in> set tr))
      (set_existing_sqlite_cache_file_private k uid p)
      (gives uid p (\<lambda>tr. F tr \<and> OpenedDatabase p \<in> set tr) (\<lambda>_ tr. OpenedDatabase p \<in> set tr))"
    by (rule runs_post) (simp add: gives_def safely_def)
qed

lemma runs_open_at:
  assumes "is_absolute p"
  shows "runs (safely uid p (\<lambda>_. True))
    (seq_op (prepare_sqlite_cache_file k uid p) (\<lambda>_. seq_op (open_sqlite_cache_connection k uid p) (\<lambda>_. lift_res out)))
    (gives uid p (\<lambda>_. True) (\<lambda>d tr. OpenedDatabase p \<in> set tr \<and> out = Inr d))"
proof (rule runs_then [OF runs_prepare [OF lasting_intros(1) assms]])
  fix u :: unit
  let ?F = "\<lambda>tr. True \<and> dirs_known uid p tr \<and> file_known uid p tr"
  have F: "lasting ?F" by (intro lasting_intros lasting_dirs lasting_file)
  have "cache_ready uid p tr" if "?F tr" for tr
    using that by (simp add: cache_ready_def dirs_known_def file_known_def)
  from runs_connection [OF F this]
  show "runs (safely uid p ?F) (seq_op (open_sqlite_cache_connection k uid p) (\<lambda>_. lift_res out))
      (gives uid p ?F (\<lambda>d tr. OpenedDatabase p \<in> set tr \<and> out = Inr d))"
    by (rule runs_then) (auto intro!: runs_check)
qed

text \<open>
  C37. Opening the cache is safe against other processes. Whatever the file system answers, and
  however it changes between any two system calls: the mode of a file is only ever set to be
  private, and only on a handle of a file that was created for this, or of a regular file of root
  or the user that the path itself names (not through a symbolic link) at that moment; the
  database is opened at no other path, and only after every directory above it was seen to be a
  real directory of root or the user that nobody else may write (or sticky). When opening
  succeeds, the database was opened there, the path is no URI, and all tables exist.
\<close>

theorem cache_opens_own_file:
  assumes "\<forall>tr d. os_current_dir (k tr) = Inr d \<longrightarrow> is_absolute d"
    and "sqlite_open k uid fails db p0 [] = (r, tr)"
  shows "\<exists>p. (\<forall>h m. ChangedMode h m \<in> set tr \<longrightarrow> m = 0x180 \<and> own_handle uid p h tr) \<and>
    (\<forall>before q. prefix (before @ [OpenedDatabase q]) tr \<longrightarrow> q = p \<and>
       (\<forall>parent. sqlite_cache_parent_path p = Some parent \<longrightarrow>
          (\<forall>d\<in>set (parent_chain_of parent). \<exists>mt. Looked d mt \<in> set before \<and> safe_dir uid mt)) \<and>
       (\<exists>h. own_handle uid p h before)) \<and>
    (\<forall>q m. ChangedModeAt q m \<notin> set tr) \<and>
    (\<forall>d. r = Inr d \<longrightarrow> OpenedDatabase p \<in> set tr \<and> reject_sqlite_uri_path p0 = Inr () \<and>
       db_metadata d \<noteq> None \<and> db_processed d \<noteq> None \<and> db_checkpoints d \<noteq> None)"
proof -
  let ?out = "case fails of Some e \<Rightarrow> Inl e | None \<Rightarrow> and_then (fst (sql_create db)) (\<lambda>_. Inr (snd (sql_create db)))"
  have tables: "db_metadata d \<noteq> None \<and> db_processed d \<noteq> None \<and> db_checkpoints d \<noteq> None" if "?out = Inr d" for d
    using that by (auto simp: sql_create_def or_else_def split: option.splits)
  obtain r1 tr1 where path: "stable_sqlite_cache_path k p0 [] = (r1, tr1)" by (meson surj_pair)
  have start: "tr1 = [] \<or> tr1 = [Failed] \<or> tr1 = [Answered]"
    using path by (auto simp: stable_sqlite_cache_path_def seq_op_def lift_res_def current_dir_def os_call_def
        split: sum.splits if_splits prod.splits)
  then have sound1: "sound uid p tr1" for p by (auto simp: sound_def prefix_Cons)
  show ?thesis
  proof (cases r1)
    case (Inl e)
    with path assms(2) sound1 have sound: "sound uid undefined tr" and none: "\<forall>d. r \<noteq> Inr d" by (auto simp: sqlite_open_def)
    from sound [unfolded sound_def cache_ready_def safe_dirs_def] none show ?thesis
      by (intro exI [of _ undefined]) (elim conjE, intro conjI; (assumption | blast))
  next
    case (Inr p)
    have abs: "is_absolute p" "reject_sqlite_uri_path p0 = Inr ()"
      using path Inr assms(1)
      by (auto simp: stable_sqlite_cache_path_def seq_op_def lift_res_def current_dir_def os_call_def absolute_join
          split: sum.splits if_splits prod.splits)
    from path Inr assms(2)
    have "seq_op (prepare_sqlite_cache_file k uid p) (\<lambda>_. seq_op (open_sqlite_cache_connection k uid p) (\<lambda>_. lift_res ?out)) tr1 = (r, tr)"
      by (simp add: sqlite_open_def)
    from runsD [OF runs_open_at [OF abs(1), of uid] _ this] sound1 [of p]
    have "sound uid p tr" "\<And>d. r = Inr d \<Longrightarrow> OpenedDatabase p \<in> set tr \<and> ?out = Inr d"
      by (auto simp: safely_def gives_def)
    note sound = this(1) [unfolded sound_def cache_ready_def safe_dirs_def]
    have "\<forall>d. r = Inr d \<longrightarrow> OpenedDatabase p \<in> set tr \<and> reject_sqlite_uri_path p0 = Inr () \<and>
       db_metadata d \<noteq> None \<and> db_processed d \<noteq> None \<and> db_checkpoints d \<noteq> None"
      using \<open>\<And>d. r = Inr d \<Longrightarrow> OpenedDatabase p \<in> set tr \<and> ?out = Inr d\<close> tables abs(2) by blast
    with sound show ?thesis by (intro exI [of _ p]) (elim conjE, intro conjI; assumption)
  qed
qed

text \<open>The user's file, readable for everyone until the cache is opened.\<close>

definition demo_node :: "node_kind \<Rightarrow> nat \<Rightarrow> 32 word \<Rightarrow> metadata" where
  "demo_node kind uid m = \<lparr>mt_kind = kind, mt_uid = uid, mt_mode = m, mt_id = (1, 7)\<rparr>"

definition demo_kernel :: kernel where
  "demo_kernel tr = \<lparr>os_current_dir = Inr [RootDir],
     os_lstat = \<lambda>p. Inr (if p = [RootDir, Normal ''c''] then demo_node Regular 5 0x1A4 else demo_node Directory 0 0x1ED),
     os_exists = \<lambda>_. True, os_open = \<lambda>_ _. Inr 3, os_fstat = \<lambda>_. Inr (demo_node Regular 5 0x1A4), os_fchmod = \<lambda>_ _. Inr (),
     os_chmod = \<lambda>_ _. Inr (), os_mkdirs = \<lambda>_. Inr (), os_read = \<lambda>_. Inr [], os_write = \<lambda>_ _. Inr (),
     os_sync = \<lambda>_. Inr (), os_rename = \<lambda>_ _. Inr (), os_remove = \<lambda>_. Inr (), os_database = \<lambda>_. Inr ()\<rparr>"

lemma cache_opens_own_file_witness:
  "\<exists>d tr. sqlite_open demo_kernel 5 None \<lparr>db_metadata = None, db_processed = None, db_checkpoints = None\<rparr>
      [RootDir, Normal ''c''] [] = (Inr d, tr) \<and> ChangedMode 3 0x180 \<in> set tr \<and> db_processed d \<noteq> None"
proof -
  let ?db = "\<lparr>db_metadata = None, db_processed = None, db_checkpoints = None\<rparr>" and ?p = "[RootDir, Normal ''c'']"
  have os: "os_lstat (demo_kernel tr) p = Inr (if p = ?p then demo_node Regular 5 0x1A4 else demo_node Directory 0 0x1ED)"
    "os_open (demo_kernel tr) how p = Inr 3" "os_fstat (demo_kernel tr) 3 = Inr (demo_node Regular 5 0x1A4)"
    "os_fchmod (demo_kernel tr) 3 m = Inr ()" "os_mkdirs (demo_kernel tr) p = Inr ()" "os_database (demo_kernel tr) p = Inr ()"
    for tr p how m by (simp_all add: demo_kernel_def)
  have node: "mt_kind (demo_node kind uid m) = kind" "mt_uid (demo_node kind uid m) = uid" "mt_mode (demo_node kind uid m) = m"
    "mt_id (demo_node kind uid m) = (1, 7)" for kind uid m by (simp_all add: demo_node_def)
  have uri: "reject_sqlite_uri_path ?p = Inr ()" by code_simp
  have parent: "sqlite_cache_parent_path ?p = Some [RootDir]" by code_simp
  have chain: "parent_chain_of [RootDir] = [[RootDir]]" by code_simp
  have mode: "\<not> loose_mode 0x1ED" "and (0x1A4 :: 32 word) 0x1FF \<noteq> 0x180" by code_simp+
  have regular: "ensure_sqlite_cache_regular_file 5 ?p (demo_node Regular 5 0x1A4) = Inr ()"
    by (simp add: ensure_sqlite_cache_regular_file_def ensure_sqlite_cache_trusted_owner_def trusted_owner_def node)
  have dir: "validate_sqlite_cache_parent_dir 5 [RootDir] (demo_node Directory 0 0x1ED) = Inr ()"
    by (simp add: validate_sqlite_cache_parent_dir_def ensure_sqlite_cache_trusted_owner_def trusted_owner_def node mode)
  have abs: "is_absolute ?p" "is_absolute [RootDir]" by (simp_all add: is_absolute_def)
  have call: "os_call k f ev tr = (Inr x, tr @ [ev x])" if "f (k tr) = Inr x" for k :: kernel and f ev tr and x :: 'b
    using that by (simp add: os_call_def)
  note calls = symlink_metadata_def open_file_def file_metadata_def set_file_mode_def create_dir_all_def call os
  have priv: "\<exists>more. set_existing_sqlite_cache_file_private demo_kernel 5 ?p tr = (Inr (), tr @ more) \<and> ChangedMode 3 0x180 \<in> set more" for tr
    by (simp add: set_existing_sqlite_cache_file_private_def set_sqlite_cache_file_handle_private_def open_either_def calls node regular mode)
  have dirs: "\<exists>more. prepare_sqlite_cache_parent demo_kernel 5 ?p tr = (Inr (), tr @ more)" for tr
    by (simp add: prepare_sqlite_cache_parent_def parent validate_existing_sqlite_cache_parent_dirs_def sqlite_cache_parent_chain_def abs
        chain unless_kind_def lift_res_def create_sqlite_cache_parent_dir_def validate_sqlite_cache_parent_dirs_def calls dir seq_op_def)
  obtain more1 where 1: "prepare_sqlite_cache_parent demo_kernel 5 ?p [] = (Inr (), [] @ more1)" using dirs by blast
  obtain more2 where 2: "set_existing_sqlite_cache_file_private demo_kernel 5 ?p (more1 @ [Looked ?p (demo_node Regular 5 0x1A4)]) =
      (Inr (), (more1 @ [Looked ?p (demo_node Regular 5 0x1A4)]) @ more2)" "ChangedMode 3 0x180 \<in> set more2" using priv by blast
  let ?tr = "((more1 @ [Looked ?p (demo_node Regular 5 0x1A4)]) @ more2) @ [OpenedDatabase ?p]"
  obtain more3 where 3: "set_existing_sqlite_cache_file_private demo_kernel 5 ?p ?tr = (Inr (), ?tr @ more3)" using priv by blast
  have "\<exists>d. sqlite_open demo_kernel 5 None ?db ?p [] = (Inr d, ?tr @ more3)"
    using 1 2(1) 3
    by (simp add: sqlite_open_def stable_sqlite_cache_path_def uri abs prepare_sqlite_cache_file_def unless_kind_def calls regular
        open_sqlite_cache_connection_def sql_create_def lift_res_def)
  then obtain d where run: "sqlite_open demo_kernel 5 None ?db ?p [] = (Inr d, ?tr @ more3)" by blast
  have "\<forall>tr d. os_current_dir (demo_kernel tr) = Inr d \<longrightarrow> is_absolute d"
    by (simp add: demo_kernel_def is_absolute_def)
  from cache_opens_own_file [OF this run] run 2(2) show ?thesis by auto
qed

end
