(* ===== verification/BotMain.thy ===== *)
theory BotMain imports BotFront RestClient CliParse TokenProvider begin

text \<open>
  How the account bot starts and serves (\<open>src/examples/account_bot.rs\<close>): its configuration from
  the environment, the source of its tokens, the store it begins with, and the loop that accepts
  connections. The environment, the name resolver, the files and the order in which connections
  come and end are inputs.
\<close>

subsection \<open>Environment variables\<close>

text \<open>A variable that is not Unicode counts as missing.\<close>

type_synonym vars = "string \<Rightarrow> string option"

definition env_optional :: "vars \<Rightarrow> string \<Rightarrow> string option" where
  "env_optional vars name =
     (case vars name of
        None \<Rightarrow> None
      | Some v \<Rightarrow> if trim v = [] then None else Some (trim v))"

definition env_or :: "vars \<Rightarrow> string \<Rightarrow> string \<Rightarrow> string" where
  "env_or vars name fallback = (case env_optional vars name of Some v \<Rightarrow> v | None \<Rightarrow> fallback)"

definition env_bool :: "vars \<Rightarrow> string \<Rightarrow> bool" where
  "env_bool vars name \<longleftrightarrow> vars name = Some ''1''"

text \<open>\<open>usize\<close> has 64 bits, so the two number parsers agree.\<close>

definition env_u64 :: "vars \<Rightarrow> string \<Rightarrow> nat \<Rightarrow> nat" where
  "env_u64 vars name fallback =
     (case Option.bind (vars name) (parse_uint U64_MAX) of Some n \<Rightarrow> n | None \<Rightarrow> fallback)"

definition env_usize :: "vars \<Rightarrow> string \<Rightarrow> nat \<Rightarrow> nat" where
  "env_usize vars name fallback =
     (case Option.bind (vars name) (parse_uint U64_MAX) of Some n \<Rightarrow> n | None \<Rightarrow> fallback)"

definition env_set :: "vars \<Rightarrow> string \<Rightarrow> string bset" where
  "env_set vars name =
     (case vars name of
        None \<Rightarrow> []
      | Some v \<Rightarrow> fold bs_insert (filter (\<lambda>s. s \<noteq> []) (map trim (split_with scope_separator v))) [])"

subsection \<open>Configuration\<close>

record account_bot_config = bot_config +
  ac_bind :: string
  ac_allow_non_loopback :: bool
  ac_max_concurrent_requests :: nat
  ac_max_concurrent_connections :: nat
  ac_request_read_timeout :: duration
  ac_handler_timeout :: duration
  ac_webex_request_timeout :: duration
  ac_state_file :: string
  ac_max_processed_ids :: nat

definition validate_http_path :: "string \<Rightarrow> string \<Rightarrow> unit res" where
  "validate_http_path name p =
     (if starts_with p ''/'' then Inr () else Inl (Other (name @ '' must start with '' @ [CHR 0x27] @ ''/'' @ [CHR 0x27])))"

definition validate_account_bot_paths :: "string \<Rightarrow> string \<Rightarrow> unit res" where
  "validate_account_bot_paths event_path health_path =
     and_then (validate_http_path ''WEBEX_ACCOUNT_BOT_PATH'' event_path) (\<lambda>_.
     and_then (validate_http_path ''WEBEX_ACCOUNT_BOT_HEALTH_PATH'' health_path) (\<lambda>_.
       if event_path = health_path
       then Inl (Other ''WEBEX_ACCOUNT_BOT_PATH must differ from WEBEX_ACCOUNT_BOT_HEALTH_PATH'')
       else Inr ()))"

definition seconds_from :: "vars \<Rightarrow> string \<Rightarrow> nat \<Rightarrow> duration" where
  "seconds_from vars name fallback = max (env_u64 vars name fallback) 1 * SEC"

definition config_from_env :: "vars \<Rightarrow> account_bot_config res" where
  "config_from_env vars =
     (let expected = (case vars ''WEBEX_SIDECAR_TOKEN'' of
            Some t \<Rightarrow> if trim t = [] then None else Some t | None \<Rightarrow> None);
          allow_unauthenticated = (env_bool vars ''WEBEX_ACCOUNT_BOT_ALLOW_UNAUTHENTICATED'' \<or>
            env_bool vars ''WEBEX_SIDECAR_ALLOW_UNAUTHENTICATED'') in
      if expected = None \<and> \<not> allow_unauthenticated then
        Inl (Other ''WEBEX_SIDECAR_TOKEN is required; set WEBEX_ACCOUNT_BOT_ALLOW_UNAUTHENTICATED=1 only for local unsafe testing'')
      else
        (let requests = max (env_usize vars ''WEBEX_ACCOUNT_BOT_MAX_CONCURRENT_REQUESTS'' 16) 1;
             connections = max (max (env_usize vars ''WEBEX_ACCOUNT_BOT_MAX_CONCURRENT_CONNECTIONS'' 64) requests) 1;
             cfg = \<lparr>bc_event_path = env_or vars ''WEBEX_ACCOUNT_BOT_PATH'' ''/webex/events'',
               bc_health_path = env_or vars ''WEBEX_ACCOUNT_BOT_HEALTH_PATH'' ''/healthz'',
               bc_expected_forward_token = expected,
               bc_mock = env_bool vars ''WEBEX_ACCOUNT_BOT_MOCK'',
               bc_max_events = env_usize vars ''WEBEX_ACCOUNT_BOT_MAX_EVENTS'' 0,
               bc_attempt_lease = seconds_from vars ''WEBEX_ACCOUNT_BOT_ATTEMPT_LEASE_SECS'' 30,
               bc_in_flight_wait = env_u64 vars ''WEBEX_ACCOUNT_BOT_IN_FLIGHT_WAIT_SECS'' 8 * SEC,
               bc_allowed_room_ids = env_set vars ''WEBEX_ACCOUNT_BOT_ROOM_IDS'',
               bc_reply_prefix = env_or vars ''WEBEX_ACCOUNT_BOT_REPLY_PREFIX'' ''ack'',
               bc_self_person_id = env_optional vars ''WEBEX_ACCOUNT_BOT_SELF_PERSON_ID'',
               ac_bind = env_or vars ''WEBEX_ACCOUNT_BOT_BIND'' ''127.0.0.1:8787'',
               ac_allow_non_loopback = env_bool vars ''WEBEX_ACCOUNT_BOT_ALLOW_NON_LOOPBACK'',
               ac_max_concurrent_requests = requests,
               ac_max_concurrent_connections = connections,
               ac_request_read_timeout = seconds_from vars ''WEBEX_ACCOUNT_BOT_REQUEST_READ_TIMEOUT_SECS'' 10,
               ac_handler_timeout = seconds_from vars ''WEBEX_ACCOUNT_BOT_HANDLER_TIMEOUT_SECS'' 8,
               ac_webex_request_timeout = seconds_from vars ''WEBEX_ACCOUNT_BOT_WEBEX_REQUEST_TIMEOUT_SECS'' 30,
               ac_state_file = env_or vars ''WEBEX_ACCOUNT_BOT_STATE_FILE'' ''.codex-tmp/account-bot/processed-message-ids.txt'',
               ac_max_processed_ids = max (env_usize vars ''WEBEX_ACCOUNT_BOT_MAX_PROCESSED_IDS'' 10000) 1\<rparr> in
         and_then (validate_account_bot_paths (bc_event_path cfg) (bc_health_path cfg)) (\<lambda>_. Inr cfg)))"

text \<open>
  What the resolver answers for an address: whether each of the addresses is a loopback.
  \<open>quoted\<close> is the debug text of the address.
\<close>

definition loopback_only :: "error \<Rightarrow> error \<Rightarrow> bool list res \<Rightarrow> bool \<Rightarrow> unit res" where
  "loopback_only unresolved exposed answer allow =
     and_then answer (\<lambda>addrs.
       if addrs = [] then Inl unresolved
       else if \<not> allow \<and> \<not> list_all id addrs then Inl exposed
       else Inr ())"

definition validate_loopback_bind :: "bool list res \<Rightarrow> string \<Rightarrow> bool \<Rightarrow> unit res" where
  "validate_loopback_bind answer quoted =
     loopback_only (Other (''bind address '' @ quoted @ '' did not resolve''))
       (Other ''WEBEX_ACCOUNT_BOT_BIND must resolve only to loopback addresses; set WEBEX_ACCOUNT_BOT_ALLOW_NON_LOOPBACK=1 only for explicitly secured deployments'')
       answer"

subsection \<open>Where the tokens come from\<close>

datatype token_source = StaticToken string | TokenFile string

definition provider_from_env :: "vars \<Rightarrow> token_source res" where
  "provider_from_env vars =
     (case or_else (env_optional vars ''WEBEX_ACCESS_TOKEN_FILE'') (env_optional vars ''WEBEX_TOKEN_FILE'') of
        Some p \<Rightarrow> Inr (TokenFile p)
      | None \<Rightarrow>
          (case env_optional vars ''WEBEX_ACCESS_TOKEN'' of
             Some t \<Rightarrow> Inr (StaticToken t)
           | None \<Rightarrow> Inl MissingToken))"

text \<open>\<open>raw\<close>: the bytes of the file, or the error of reading them; \<open>de\<close> is the JSON crate's parser.\<close>

definition load_access_token_file :: "(string \<Rightarrow> token_set res) \<Rightarrow> string res \<Rightarrow> string res" where
  "load_access_token_file de raw =
     and_then (and_then raw (\<lambda>bytes. read_to_string (Some bytes))) (\<lambda>text.
       if trim text = [] then Inl MissingToken
       else if \<not> starts_with (trim text) [CHR 0x7B] then Inr (trim text)
       else and_then (de (trim text)) (\<lambda>t.
         if trim (ts_access_token t) = [] then Inl MissingToken else Inr (trim (ts_access_token t))))"

definition reloading_access_token :: "(string \<Rightarrow> token_set res) \<Rightarrow> (string \<Rightarrow> string res) \<Rightarrow> token_source \<Rightarrow> string res" where
  "reloading_access_token de files src =
     (case src of
        StaticToken t \<Rightarrow> Inr t
      | TokenFile p \<Rightarrow> load_access_token_file de (files p))"

subsection \<open>Starting\<close>

text \<open>
  What a start depends on: \<open>bo_rest\<close> is what the HTTP client with a request timeout does, and
  \<open>bo_token_files\<close> reads a file for the \<open>n\<close>th request.
\<close>

record boot =
  bo_vars :: vars
  bo_quoted :: "string \<Rightarrow> string"
  bo_resolve :: "string \<Rightarrow> bool list res"
  bo_listen :: "string \<Rightarrow> unit res"
  bo_rest :: "duration \<Rightarrow> rest_env res"
  bo_decoders :: decoders
  bo_token_set :: "string \<Rightarrow> token_set res"
  bo_token_files :: "nat \<Rightarrow> string \<Rightarrow> string res"
  bo_read_fault :: "error option"
  bo_write :: persist_fault
  bo_now :: nat

definition build_webex_client_from_env :: "boot \<Rightarrow> duration \<Rightarrow> client res" where
  "build_webex_client_from_env b request_timeout =
     and_then (provider_from_env (bo_vars b)) (\<lambda>src.
     and_then (bo_rest b request_timeout) (\<lambda>env.
     and_then (client_builder_new env) (\<lambda>builder.
       build_webex_client (bo_decoders b) (with_token_provider
         (\<lambda>n. reloading_access_token (bo_token_set b) (bo_token_files b n) src) (http_client env builder)))))"

text \<open>\<open>AccountBot::new\<close>; the resolved id is put into the configuration the handler reads.\<close>

definition own_person_id :: "account_bot_config \<Rightarrow> client option \<Rightarrow> string option rest_op" where
  "own_person_id cfg client =
     (case (bc_self_person_id cfg, client) of
        (Some i, _) \<Rightarrow> lift_res (Inr (Some i))
      | (None, Some c) \<Rightarrow> seq_op (me c) (\<lambda>p. lift_res (Inr (pe_id p)))
      | (None, None) \<Rightarrow> lift_res (Inr None))"

definition open_processed :: "boot \<Rightarrow> account_bot_config \<Rightarrow> disk \<Rightarrow> processed_store res \<times> disk" where
  "open_processed b cfg d =
     (case bot_load (bo_read_fault b) (ac_max_processed_ids cfg) (bo_now b) d of
        Inl e \<Rightarrow> (Inl e, d)
      | Inr s \<Rightarrow> (case verify_persistable (bo_write b) (s, d) of (r, _, d) \<Rightarrow> (and_then r (\<lambda>_. Inr s), d)))"

definition account_bot_new :: "boot \<Rightarrow> account_bot_config \<Rightarrow> disk \<Rightarrow> (account_bot_config \<times> bot_state) res \<times> disk" where
  "account_bot_new b cfg d =
     (case and_then (if bc_mock cfg then Inr None
         else and_then (build_webex_client_from_env b (ac_webex_request_timeout cfg)) (\<lambda>c. Inr (Some c)))
       (\<lambda>client. fst (own_person_id cfg client [])) of
        Inl e \<Rightarrow> (Inl e, d)
      | Inr self \<Rightarrow>
          (case open_processed b cfg d of
             (Inl e, d) \<Rightarrow> (Inl e, d)
           | (Inr s, d) \<Rightarrow>
               (Inr (cfg\<lparr>bc_self_person_id := self\<rparr>,
                  \<lparr>bt_store = (s, d), bt_persist_failed = False, bt_slots = 0, bt_completed = 0, bt_sent = [],
                   bt_tick = 0\<rparr>), d)))"

definition bot_main :: "boot \<Rightarrow> disk \<Rightarrow> (account_bot_config \<times> bot_state) res \<times> disk" where
  "bot_main b d =
     (case and_then (config_from_env (bo_vars b)) (\<lambda>cfg.
         and_then (validate_loopback_bind (bo_resolve b (ac_bind cfg)) (bo_quoted b (ac_bind cfg)) (ac_allow_non_loopback cfg)) (\<lambda>_.
         and_then (bo_listen b (ac_bind cfg)) (\<lambda>_. Inr cfg))) of
        Inl e \<Rightarrow> (Inl e, d)
      | Inr cfg \<Rightarrow> account_bot_new b cfg d)"

subsection \<open>Serving\<close>

text \<open>A connection that is handled: what is read from it and what the handler meets.\<close>

record bot_connection =
  bn_world :: world
  bn_busy :: bool
  bn_late :: bool
  bn_permit :: bool
  bn_request :: "http_request res option"

text \<open>
  What the loop waits for: a connection or the error of accepting one, a connection task that
  ends, and a notification.
\<close>

datatype http_event = Accept "unit res" | Joined bot_connection | Notified

record server =
  sv_bot :: bot_state
  sv_accepted :: nat
  sv_running :: nat
  sv_answers :: "http_response list"

text \<open>
  The work of one task, at the point where it ends: its answer, and its event if it counts. The
  permit of its connection is free again.
\<close>

definition end_task :: "json_env \<Rightarrow> account_bot_config \<Rightarrow> bot_connection \<Rightarrow> server \<Rightarrow> server" where
  "end_task je cfg cn sv =
     (case handle_connection je (bot_config.truncate cfg) (bn_world cn) (bn_busy cn) (bn_late cn) (bn_permit cn)
         (sv_accepted sv) (bn_request cn) (sv_bot sv) of
        (r, st) \<Rightarrow>
          sv\<lparr>sv_bot := st, sv_accepted := fst (write_final_response (bot_config.truncate cfg) r (sv_accepted sv)),
             sv_running := sv_running sv - 1, sv_answers := sv_answers sv @ [hp_response r]\<rparr>)"

definition accept_stream :: "json_env \<Rightarrow> account_bot_config \<Rightarrow> server \<Rightarrow> server" where
  "accept_stream je cfg sv =
     (if sv_running sv < ac_max_concurrent_connections cfg then sv\<lparr>sv_running := Suc (sv_running sv)\<rparr>
      else sv\<lparr>sv_answers := sv_answers sv @ [busy_response (je_ser je) (retry_after_for_lease (bc_in_flight_wait cfg))]\<rparr>)"

definition server_done :: "account_bot_config \<Rightarrow> server \<Rightarrow> bool" where
  "server_done cfg sv \<longleftrightarrow>
     max_events_reached (bc_max_events cfg) (bt_slots (sv_bot sv)) (bt_completed (sv_bot sv)) (sv_accepted sv)"

text \<open>After the loop the tasks that still run are awaited.\<close>

fun drain_tasks :: "json_env \<Rightarrow> account_bot_config \<Rightarrow> http_event list \<Rightarrow> server \<Rightarrow> unit res option \<times> server" where
  "drain_tasks je cfg evs sv =
     (if sv_running sv = 0 then (Some (Inr ()), sv)
      else case evs of
        [] \<Rightarrow> (None, sv)
      | Joined cn # evs \<Rightarrow> drain_tasks je cfg evs (end_task je cfg cn sv)
      | _ # evs \<Rightarrow> drain_tasks je cfg evs sv)"

declare drain_tasks.simps [simp del]

text \<open>The answer is missing while the server runs.\<close>

fun run_http_loop :: "json_env \<Rightarrow> account_bot_config \<Rightarrow> http_event list \<Rightarrow> server \<Rightarrow> unit res option \<times> server" where
  "run_http_loop je cfg evs sv =
     (if server_done cfg sv then drain_tasks je cfg evs sv
      else case evs of
        [] \<Rightarrow> (None, sv)
      | Accept (Inl e) # evs \<Rightarrow> (Some (Inl e), sv)
      | Accept (Inr _) # evs \<Rightarrow> run_http_loop je cfg evs (accept_stream je cfg sv)
      | Joined cn # evs \<Rightarrow>
          run_http_loop je cfg evs (if sv_running sv = 0 then sv else end_task je cfg cn sv)
      | Notified # evs \<Rightarrow> run_http_loop je cfg evs sv)"

declare run_http_loop.simps [simp del]

end
