(* ===== verification/BotMainProps.thy ===== *)
theory BotMainProps imports BotMain FrontProps begin

text \<open>The account bot starts guarded, and serves no more events than it was asked for.\<close>

subsection \<open>Starting\<close>

text \<open>Whatever the variables hold, a configuration that is accepted is usable.\<close>

definition config_sound :: "vars \<Rightarrow> account_bot_config \<Rightarrow> bool" where
  "config_sound vars cfg \<longleftrightarrow>
     (case bc_expected_forward_token cfg of
        Some t \<Rightarrow> trim t \<noteq> [] \<and> vars ''WEBEX_SIDECAR_TOKEN'' = Some t
      | None \<Rightarrow> env_bool vars ''WEBEX_ACCOUNT_BOT_ALLOW_UNAUTHENTICATED'' \<or> env_bool vars ''WEBEX_SIDECAR_ALLOW_UNAUTHENTICATED'') \<and>
     starts_with (bc_event_path cfg) ''/'' \<and> starts_with (bc_health_path cfg) ''/'' \<and> bc_event_path cfg \<noteq> bc_health_path cfg \<and>
     1 \<le> ac_max_concurrent_requests cfg \<and> ac_max_concurrent_requests cfg \<le> ac_max_concurrent_connections cfg \<and>
     ac_max_concurrent_connections cfg \<le> U64_MAX \<and> bc_max_events cfg \<le> U64_MAX \<and> 1 \<le> ac_max_processed_ids cfg \<and>
     (\<forall>t\<in>{ac_request_read_timeout cfg, ac_handler_timeout cfg, ac_webex_request_timeout cfg, bc_attempt_lease cfg}.
        SEC \<le> t \<and> t \<le> U64_MAX * SEC) \<and>
     bs_inv (bc_allowed_room_ids cfg) \<and> [] \<notin> set (bc_allowed_room_ids cfg)"

lemma env_u64_le: "fallback \<le> U64_MAX \<Longrightarrow> env_u64 vars name fallback \<le> U64_MAX"
  by (auto simp: env_u64_def bind_eq_Some_conv dest: parse_uint_le split: option.splits)

lemma env_usize_le: "fallback \<le> U64_MAX \<Longrightarrow> env_usize vars name fallback \<le> U64_MAX"
  by (auto simp: env_usize_def bind_eq_Some_conv dest: parse_uint_le split: option.splits)

lemma seconds_from_bounds:
  "fallback \<le> U64_MAX \<Longrightarrow> SEC \<le> seconds_from vars name fallback \<and> seconds_from vars name fallback \<le> U64_MAX * SEC"
  using env_u64_le [of fallback vars name] by (simp add: seconds_from_def)

lemma fold_bs_insert: "bs_inv s \<Longrightarrow> bs_inv (fold bs_insert xs s) \<and> set (fold bs_insert xs s) = set xs \<union> set s"
  by (induction xs arbitrary: s) (auto simp: bs_inv_insert)

lemma env_set_ok: "bs_inv (env_set vars name) \<and> [] \<notin> set (env_set vars name)"
  using fold_bs_insert [of "[]"] by (auto simp: env_set_def bs_inv_def split: option.splits)

lemma config_fields:
  assumes "config_from_env vars = Inr cfg"
  shows "bc_expected_forward_token cfg =
      (case vars ''WEBEX_SIDECAR_TOKEN'' of Some t \<Rightarrow> if trim t = [] then None else Some t | None \<Rightarrow> None)"
    and "bc_expected_forward_token cfg = None \<Longrightarrow> env_bool vars ''WEBEX_ACCOUNT_BOT_ALLOW_UNAUTHENTICATED'' \<or>
      env_bool vars ''WEBEX_SIDECAR_ALLOW_UNAUTHENTICATED''"
    and "validate_account_bot_paths (bc_event_path cfg) (bc_health_path cfg) = Inr ()"
    and "ac_max_concurrent_requests cfg = max (env_usize vars ''WEBEX_ACCOUNT_BOT_MAX_CONCURRENT_REQUESTS'' 16) 1"
    and "ac_max_concurrent_connections cfg =
      max (max (env_usize vars ''WEBEX_ACCOUNT_BOT_MAX_CONCURRENT_CONNECTIONS'' 64) (ac_max_concurrent_requests cfg)) 1"
    and "bc_max_events cfg = env_usize vars ''WEBEX_ACCOUNT_BOT_MAX_EVENTS'' 0"
    and "1 \<le> ac_max_processed_ids cfg"
    and "ac_request_read_timeout cfg = seconds_from vars ''WEBEX_ACCOUNT_BOT_REQUEST_READ_TIMEOUT_SECS'' 10"
    and "ac_handler_timeout cfg = seconds_from vars ''WEBEX_ACCOUNT_BOT_HANDLER_TIMEOUT_SECS'' 8"
    and "ac_webex_request_timeout cfg = seconds_from vars ''WEBEX_ACCOUNT_BOT_WEBEX_REQUEST_TIMEOUT_SECS'' 30"
    and "bc_attempt_lease cfg = seconds_from vars ''WEBEX_ACCOUNT_BOT_ATTEMPT_LEASE_SECS'' 30"
    and "bc_allowed_room_ids cfg = env_set vars ''WEBEX_ACCOUNT_BOT_ROOM_IDS''"
  using assms unfolding config_from_env_def Let_def
  by (simp_all only: and_then_Inr_iff sum.inject if_distrib sum.distinct split: if_splits)
    (elim exE conjE; hypsubst; simp only: bot_config.simps account_bot_config.simps; simp)+

lemma config_from_env_sound:
  assumes "config_from_env vars = Inr cfg"
  shows "config_sound vars cfg"
proof -
  note fields = config_fields [OF assms]
  have token: "case bc_expected_forward_token cfg of
        Some t \<Rightarrow> trim t \<noteq> [] \<and> vars ''WEBEX_SIDECAR_TOKEN'' = Some t
      | None \<Rightarrow> env_bool vars ''WEBEX_ACCOUNT_BOT_ALLOW_UNAUTHENTICATED'' \<or> env_bool vars ''WEBEX_SIDECAR_ALLOW_UNAUTHENTICATED''"
    using fields(1,2) by (auto split: option.splits if_splits)
  have paths: "starts_with (bc_event_path cfg) ''/''" "starts_with (bc_health_path cfg) ''/''"
    "bc_event_path cfg \<noteq> bc_health_path cfg"
    using fields(3) by (auto simp: validate_account_bot_paths_def validate_http_path_def and_then_Inr_iff split: if_splits)
  have limits: "1 \<le> ac_max_concurrent_requests cfg" "ac_max_concurrent_requests cfg \<le> ac_max_concurrent_connections cfg"
    "ac_max_concurrent_connections cfg \<le> U64_MAX" "bc_max_events cfg \<le> U64_MAX"
    using env_usize_le [of 16 vars] env_usize_le [of 64 vars] env_usize_le [of 0 vars] unfolding fields(4-6) by simp_all
  have times: "SEC \<le> t \<and> t \<le> U64_MAX * SEC"
    if "t \<in> {ac_request_read_timeout cfg, ac_handler_timeout cfg, ac_webex_request_timeout cfg, bc_attempt_lease cfg}" for t
    using that seconds_from_bounds [of 10 vars] seconds_from_bounds [of 8 vars] seconds_from_bounds [of 30 vars]
    unfolding fields(8-11) by auto
  show ?thesis
    unfolding config_sound_def using token paths limits fields(7) times env_set_ok unfolding fields(12) by blast
qed

text \<open>
  C40. The account bot only starts guarded. However its environment is set, when it starts to
  serve, its configuration is sound (limits and times within their bounds, two different absolute
  paths, a token that is not blank unless the user allowed none), its address resolves to loopback
  addresses only unless the user allowed others, it has a source of tokens unless it is a mock, and
  the processed messages were loaded from its file and written back before the first event.
\<close>

theorem bot_starts_guarded:
  assumes "bot_main b d = (Inr (cfg, st), d')"
  shows "config_sound (bo_vars b) cfg \<and>
    (ac_allow_non_loopback cfg \<or> (\<exists>addrs. bo_resolve b (ac_bind cfg) = Inr addrs \<and> addrs \<noteq> [] \<and> list_all id addrs)) \<and>
    (bc_mock cfg \<or> (\<exists>src. provider_from_env (bo_vars b) = Inr src)) \<and>
    (\<exists>s. bot_load (bo_read_fault b) (ac_max_processed_ids cfg) (bo_now b) d = Inr s \<and>
       d' = Some (render_state s) \<and> bt_store st = (s, d')) \<and>
    bt_slots st = 0 \<and> bt_completed st = 0 \<and> bt_sent st = []"
proof -
  obtain cfg0 where cfg0: "config_from_env (bo_vars b) = Inr cfg0"
    "validate_loopback_bind (bo_resolve b (ac_bind cfg0)) (bo_quoted b (ac_bind cfg0)) (ac_allow_non_loopback cfg0) = Inr ()"
    "account_bot_new b cfg0 d = (Inr (cfg, st), d')"
    using assms by (auto simp: bot_main_def and_then_Inr_iff split: sum.splits)
  obtain self s where self: "cfg = cfg0\<lparr>bc_self_person_id := self\<rparr>"
    and s: "open_processed b cfg0 d = (Inr s, d')"
    and st: "st = \<lparr>bt_store = (s, d'), bt_persist_failed = False, bt_slots = 0, bt_completed = 0, bt_sent = [], bt_tick = 0\<rparr>"
    and mock: "bc_mock cfg0 \<or> (\<exists>c. build_webex_client_from_env b (ac_webex_request_timeout cfg0) = Inr c)"
    using cfg0(3) by (auto simp: account_bot_new_def and_then_Inr_iff split: sum.splits prod.splits if_splits)
  have "config_sound (bo_vars b) cfg"
    using config_from_env_sound [OF cfg0(1)] by (simp add: self config_sound_def)
  moreover have "ac_allow_non_loopback cfg0 \<or> (\<exists>addrs. bo_resolve b (ac_bind cfg0) = Inr addrs \<and> addrs \<noteq> [] \<and> list_all id addrs)"
    using cfg0(2) by (auto simp: validate_loopback_bind_def loopback_only_def and_then_Inr_iff split: if_splits)
  moreover have "bc_mock cfg0 \<or> (\<exists>src. provider_from_env (bo_vars b) = Inr src)"
    using mock by (auto simp: build_webex_client_from_env_def and_then_Inr_iff)
  moreover have "bot_load (bo_read_fault b) (ac_max_processed_ids cfg0) (bo_now b) d = Inr s \<and> d' = Some (render_state s)"
    using s by (auto simp: open_processed_def verify_persistable_def persist_state_def and_then_Inr_iff
        split: sum.splits prod.splits persist_fault.splits)
  ultimately show ?thesis by (simp add: self st)
qed

text \<open>A mock bot that never calls the service, with a token for its events.\<close>

definition demo_boot :: boot where
  "demo_boot = \<lparr>bo_vars = [''WEBEX_SIDECAR_TOKEN'' \<mapsto> ''k1'', ''WEBEX_ACCOUNT_BOT_MOCK'' \<mapsto> ''1''], bo_quoted = id,
     bo_resolve = \<lambda>_. Inr [True], bo_listen = \<lambda>_. Inr (), bo_rest = \<lambda>_. Inl MissingToken, bo_decoders = undefined,
     bo_token_set = \<lambda>_. Inl MissingToken, bo_token_files = \<lambda>_ _. Inl MissingToken, bo_read_fault = None,
     bo_write = Persisted, bo_now = 100\<rparr>"

lemma bot_starts_guarded_witness:
  "\<exists>cfg st. bot_main demo_boot None = (Inr (cfg, st), Some (render_state (fst (bt_store st)))) \<and>
     config_sound (bo_vars demo_boot) cfg"
proof -
  let ?vars = "bo_vars demo_boot"
  have vars: "?vars ''WEBEX_SIDECAR_TOKEN'' = Some ''k1''" "?vars ''WEBEX_ACCOUNT_BOT_MOCK'' = Some ''1''"
    "?vars ''WEBEX_ACCOUNT_BOT_PATH'' = None" "?vars ''WEBEX_ACCOUNT_BOT_HEALTH_PATH'' = None"
    by (simp_all add: demo_boot_def)
  have "trim ''k1'' \<noteq> []" by code_simp
  moreover have "validate_account_bot_paths (env_or ?vars ''WEBEX_ACCOUNT_BOT_PATH'' ''/webex/events'')
      (env_or ?vars ''WEBEX_ACCOUNT_BOT_HEALTH_PATH'' ''/healthz'') = Inr ()"
    by (simp add: env_or_def env_optional_def vars validate_account_bot_paths_def validate_http_path_def starts_with_def)
  ultimately obtain cfg where cfg: "config_from_env ?vars = Inr cfg" "bc_mock cfg" "bc_self_person_id cfg = env_optional ?vars ''WEBEX_ACCOUNT_BOT_SELF_PERSON_ID''"
    by (auto simp: config_from_env_def Let_def vars env_bool_def)
  have "load_text n t [] = (([], []), [])" for n t
    by (simp add: load_text_def str_lines_def split_on_def)
  then have load: "bot_load None n t None = Inr \<lparr>ps_ids = [], ps_attempts = [], ps_inflight = [], ps_order = [], ps_max_ids = n, ps_volatile = []\<rparr>" for n t
    by (simp add: bot_load_def read_to_string_def)
  have fields: "bo_resolve demo_boot = (\<lambda>_. Inr [True])" "bo_listen demo_boot = (\<lambda>_. Inr ())" "bo_read_fault demo_boot = None"
    "bo_write demo_boot = Persisted" by (simp_all add: demo_boot_def)
  have "env_optional ?vars ''WEBEX_ACCOUNT_BOT_SELF_PERSON_ID'' = None" by (simp add: env_optional_def demo_boot_def)
  then have self: "own_person_id cfg None [] = (Inr None, [])" by (simp add: own_person_id_def lift_res_def cfg(3))
  obtain s where "open_processed demo_boot cfg None = (Inr s, Some (render_state s))"
    by (simp add: open_processed_def fields load verify_persistable_def persist_state_def)
  then have "\<exists>cfg' st d'. bot_main demo_boot None = (Inr (cfg', st), d')"
    by (simp add: bot_main_def cfg(1,2) account_bot_new_def validate_loopback_bind_def loopback_only_def fields self)
  then obtain cfg' st d' where run: "bot_main demo_boot None = (Inr (cfg', st), d')" by blast
  from bot_starts_guarded [OF run] run show ?thesis by auto
qed

subsection \<open>Serving\<close>

definition serves_within :: "account_bot_config \<Rightarrow> server \<Rightarrow> bool" where
  "serves_within cfg sv \<longleftrightarrow> bt_slots (sv_bot sv) = bt_completed (sv_bot sv) \<and> sv_accepted sv \<le> bt_completed (sv_bot sv) \<and>
     bt_completed (sv_bot sv) \<le> bc_max_events cfg \<and> sv_running sv \<le> ac_max_concurrent_connections cfg"

text \<open>One request adds at most one event, for which there is room.\<close>

lemma handle_request_counts:
  assumes "calm w" "0 < bc_max_events cfg" "bot_handle_request je cfg w busy n req st = (r, st')"
  shows "\<exists>k. bt_slots st' = bt_slots st + k \<and> bt_completed st' = bt_completed st + k \<and>
    (k \<noteq> 0 \<longrightarrow> k = 1 \<and> bt_slots st < bc_max_events cfg) \<and> (\<forall>hp. r = Some hp \<and> hp_event_counted hp \<longrightarrow> k = 1)"
proof (cases "st' = st \<and> (\<forall>hp. r = Some hp \<longrightarrow> \<not> hp_event_counted hp)")
  case True
  then show ?thesis by auto
next
  case False
  then obtain ev where ev: "\<not> max_event_admission_closed (bc_max_events cfg) (bt_slots st) (bt_completed st) n"
    "(case handle_event (je_message je) cfg w ev st of
           (None, st) \<Rightarrow> (None, st)
         | (Some (Inl e), st) \<Rightarrow> (Some (plain_response (error_response (je_ser je) e)), st)
         | (Some (Inr a), st) \<Rightarrow>
             (Some \<lparr>hp_response = json_value (je_ser je) 200 (JObj [(''action'', action_json a), (''ok'', JBool True)]),
                hp_event_counted = counts_toward_max_events a\<rparr>, st)) = (r, st')"
    using assms(3) unfolding bot_handle_request_def
    by (auto simp: plain_response_def split: if_splits sum.splits)
  obtain ans st1 where run: "handle_event (je_message je) cfg w ev st = (ans, st1)" by (meson surj_pair)
  with ev(2) have "st1 = st'" "\<And>hp. r = Some hp \<Longrightarrow> hp_event_counted hp \<Longrightarrow> counted ans"
    by (auto simp: counted_def plain_response_def split: option.splits sum.splits)
  with run ev(1) handle_event_ok [OF assms(1), of cfg "je_message je" ev st] assms(2) show ?thesis
    by (intro exI [of _ "if counted ans then 1 else 0"])
      (auto simp: Let_def max_event_admission_closed_def)
qed

lemma connection_counts:
  assumes "calm w" "0 < bc_max_events cfg" "handle_connection je cfg w busy late permit n request st = (r, st')"
  shows "\<exists>k. bt_slots st' = bt_slots st + k \<and> bt_completed st' = bt_completed st + k \<and>
    (k \<noteq> 0 \<longrightarrow> k = 1 \<and> bt_slots st < bc_max_events cfg) \<and> (hp_event_counted r \<longrightarrow> k = 1)"
proof (cases "st' = st \<and> \<not> hp_event_counted r")
  case True
  then show ?thesis by auto
next
  case False
  then obtain req where "handle_parsed_request je cfg w busy late n req st = (r, st')"
    using assms(3) by (auto simp: handle_connection_def plain_response_def split: option.splits sum.splits if_splits)
  then obtain hp where "bot_handle_request je cfg w busy n req st = (hp, st')"
    "\<And>x. hp_event_counted r \<Longrightarrow> hp = Some r"
    by (auto simp: handle_parsed_request_def Let_def plain_response_def split: prod.splits option.splits if_splits)
  with handle_request_counts [OF assms(1,2)] show ?thesis by blast
qed

lemma end_task_within:
  assumes "calm (bn_world cn)" "0 < bc_max_events cfg" "serves_within cfg sv" "0 < sv_running sv"
  shows "serves_within cfg (end_task je cfg cn sv)"
proof -
  obtain r st where run: "handle_connection je (bot_config.truncate cfg) (bn_world cn) (bn_busy cn) (bn_late cn) (bn_permit cn)
      (sv_accepted sv) (bn_request cn) (sv_bot sv) = (r, st)" by (meson surj_pair)
  have max: "bc_max_events (bot_config.truncate cfg) = bc_max_events cfg" by (simp add: bot_config.defs)
  from connection_counts [OF assms(1) _ run] assms(2) max obtain k where
    "bt_slots st = bt_slots (sv_bot sv) + k" "bt_completed st = bt_completed (sv_bot sv) + k"
    "k \<noteq> 0 \<longrightarrow> k = 1 \<and> bt_slots (sv_bot sv) < bc_max_events cfg" "hp_event_counted r \<longrightarrow> k = 1"
    by auto
  with run assms(3) show ?thesis
    by (cases "k = 0") (auto simp: end_task_def serves_within_def write_final_response_def)
qed

definition calm_event :: "http_event \<Rightarrow> bool" where
  "calm_event ev \<longleftrightarrow> (case ev of Joined cn \<Rightarrow> calm (bn_world cn) | _ \<Rightarrow> True)"

lemma calm_joined [simp]: "calm_event (Joined cn) \<longleftrightarrow> calm (bn_world cn)"
  by (simp add: calm_event_def)

definition stops_within :: "account_bot_config \<Rightarrow> unit res option \<times> server \<Rightarrow> bool" where
  "stops_within cfg rs \<longleftrightarrow> serves_within cfg (snd rs) \<and>
     (fst rs = Some (Inr ()) \<longrightarrow> bt_completed (sv_bot (snd rs)) = bc_max_events cfg \<and> sv_running (snd rs) = 0)"

text \<open>Once the limit is reached nothing is completed any more.\<close>

lemma end_task_full:
  assumes "calm (bn_world cn)" "0 < bc_max_events cfg" "serves_within cfg sv" "0 < sv_running sv"
    and "bt_completed (sv_bot sv) = bc_max_events cfg"
  shows "bt_completed (sv_bot (end_task je cfg cn sv)) = bc_max_events cfg"
proof -
  obtain r st where run: "handle_connection je (bot_config.truncate cfg) (bn_world cn) (bn_busy cn) (bn_late cn) (bn_permit cn)
      (sv_accepted sv) (bn_request cn) (sv_bot sv) = (r, st)" by (meson surj_pair)
  have max: "bc_max_events (bot_config.truncate cfg) = bc_max_events cfg" by (simp add: bot_config.defs)
  from connection_counts [OF assms(1) _ run] assms(2) max obtain k where
    "bt_completed st = bt_completed (sv_bot sv) + k" "k \<noteq> 0 \<longrightarrow> bt_slots (sv_bot sv) < bc_max_events cfg"
    by auto
  with run assms(3,5) show ?thesis by (auto simp: end_task_def serves_within_def)
qed

lemma drain_within:
  assumes "0 < bc_max_events cfg" "serves_within cfg sv" "bt_completed (sv_bot sv) = bc_max_events cfg" "list_all calm_event evs"
  shows "stops_within cfg (drain_tasks je cfg evs sv)"
  using assms
proof (induction je cfg evs sv rule: drain_tasks.induct)
  case (1 je cfg evs sv)
  show ?case
  proof (cases "sv_running sv = 0")
    case True
    with 1(4-) show ?thesis by (subst drain_tasks.simps) (simp add: stops_within_def)
  next
    case False
    note running = this
    show ?thesis
    proof (cases evs)
      case Nil
      with False 1(4-) show ?thesis by (subst drain_tasks.simps) (simp add: stops_within_def)
    next
      case (Cons ev evs')
      note step = drain_tasks.simps [of je cfg evs sv]
      show ?thesis
      proof (cases ev)
        case (Joined cn)
        with Cons 1 have calm: "calm (bn_world cn)" "list_all calm_event evs'" by simp_all
        have "stops_within cfg (drain_tasks je cfg evs' (end_task je cfg cn sv))"
          using 1(2) [OF running Cons Joined] end_task_within [OF calm(1)] end_task_full [OF calm(1)] calm(2) 1(4-6) running
          by simp
        with step running Cons Joined show ?thesis by simp
      next
        case (Accept r)
        with 1(1) [OF running Cons Accept] 1(4-) Cons step running show ?thesis by simp
      next
        case Notified
        with 1(3) [OF running Cons Notified] 1(4-) Cons step running show ?thesis by simp
      qed
    qed
  qed
qed

lemma done_iff:
  "0 < bc_max_events cfg \<Longrightarrow> serves_within cfg sv \<Longrightarrow>
    server_done cfg sv \<longleftrightarrow> bt_completed (sv_bot sv) = bc_max_events cfg"
  by (auto simp: server_done_def max_events_reached_def max_event_quota_reached_def serves_within_def)

lemma loop_within:
  assumes "0 < bc_max_events cfg" "serves_within cfg sv" "list_all calm_event evs"
  shows "stops_within cfg (run_http_loop je cfg evs sv)"
  using assms
proof (induction evs arbitrary: sv)
  case Nil
  then show ?case
    using drain_within [of cfg sv "[]" je] done_iff [of cfg sv]
    by (subst run_http_loop.simps) (simp add: stops_within_def)
next
  case (Cons ev evs)
  note step = run_http_loop.simps [of je cfg "ev # evs" sv]
  show ?case
  proof (cases "server_done cfg sv")
    case True
    with Cons.prems drain_within [of cfg sv "ev # evs" je] done_iff [of cfg sv] step show ?thesis by simp
  next
    case False
    have accept: "serves_within cfg (accept_stream je cfg sv)"
      using Cons.prems(2) by (auto simp: accept_stream_def serves_within_def)
    show ?thesis
    proof (cases ev)
      case (Accept r)
      with False step Cons.prems(2) Cons.IH [OF Cons.prems(1) accept] Cons.prems(3) show ?thesis
        by (cases r) (simp_all add: stops_within_def)
    next
      case (Joined cn)
      with Cons.prems(3) have calm: "calm (bn_world cn)" "list_all calm_event evs" by simp_all
      have "serves_within cfg (if sv_running sv = 0 then sv else end_task je cfg cn sv)"
        using end_task_within [OF calm(1) Cons.prems(1,2)] Cons.prems(2) by simp
      with Cons.IH [OF Cons.prems(1) this calm(2)] False step Joined show ?thesis by simp
    next
      case Notified
      with False step Cons.IH [OF Cons.prems(1,2)] Cons.prems(3) show ?thesis by simp
    qed
  qed
qed


definition demo_server :: account_bot_config where
  "demo_server = bot_config.extend (demo_bot_config\<lparr>bc_max_events := 1\<rparr>)
     (account_bot_config.fields ''h:1'' False 1 2 SEC SEC SEC ''s'' 1)"


end
