(* ===== verification/ReceiverMain.thy ===== *)
theory ReceiverMain imports BotMain begin

text \<open>
  The loop of \<open>src/examples/sidecar_receiver.rs\<close>, which serves one connection after the other:
  its start from environment variables, and what it prints and answers.
\<close>

definition receiver_bind_check :: "bool list res \<Rightarrow> string \<Rightarrow> bool \<Rightarrow> unit res" where
  "receiver_bind_check answer quoted =
     loopback_only (Other (''WEBEX_SIDECAR_BIND='' @ quoted @ '' did not resolve''))
       (Other ''WEBEX_SIDECAR_BIND must resolve only to loopback addresses; set WEBEX_SIDECAR_ALLOW_NON_LOOPBACK=1 only for an explicitly secured deployment'')
       answer"

definition var_or :: "vars \<Rightarrow> string \<Rightarrow> string \<Rightarrow> string" where
  "var_or vars name fallback = (case vars name of Some v \<Rightarrow> v | None \<Rightarrow> fallback)"

definition receiver_token :: "vars \<Rightarrow> string option res" where
  "receiver_token vars =
     (case vars ''WEBEX_SIDECAR_TOKEN'' of
        Some (c # cs) \<Rightarrow> Inr (Some (c # cs))
      | _ \<Rightarrow>
          if vars ''WEBEX_SIDECAR_ALLOW_UNAUTHENTICATED'' = Some ''1'' then Inr None
          else Inl (Other ''WEBEX_SIDECAR_TOKEN is required; set WEBEX_SIDECAR_ALLOW_UNAUTHENTICATED=1 only for local unsafe testing''))"

text \<open>
  A connection: what is read from it, where nothing is the timeout, and whether the answer can be
  written. The event of a request is printed while it is handled, before the answer is written.
\<close>

record receiver_connection =
  rc_request :: "http_request res option"
  rc_written :: bool

definition receiver_answer :: "json_env \<Rightarrow> string \<Rightarrow> string option \<Rightarrow> http_request res option \<Rightarrow> http_response" where
  "receiver_answer je path token request =
     (case request of
        Some (Inr req) \<Rightarrow> receiver_handle_request je path token req
      | Some (Inl e) \<Rightarrow> json_error (je_ser je) 400 (error_display e)
      | None \<Rightarrow> json_error (je_ser je) 408 ''request timeout'')"

definition printed_event :: "json_env \<Rightarrow> http_request res option \<Rightarrow> http_response \<Rightarrow> sidecar_event list" where
  "printed_event je request resp =
     (case request of
        Some (Inr req) \<Rightarrow> if hs_status resp = 200 then (case je_event je (hr_body req) of Inr ev \<Rightarrow> [ev] | Inl _ \<Rightarrow> []) else []
      | _ \<Rightarrow> [])"

text \<open>
  The events that are printed, the answers that are written, and how the loop ended; it ends when
  a connection cannot be accepted or enough events were accepted, else it waits for connections.
\<close>

fun receiver_loop ::
    "json_env \<Rightarrow> string \<Rightarrow> string option \<Rightarrow> nat \<Rightarrow> nat \<Rightarrow> receiver_connection res list
      \<Rightarrow> sidecar_event list \<times> http_response list \<times> unit res option" where
  "receiver_loop je path token limit accepted [] = ([], [], None)"
| "receiver_loop je path token limit accepted (Inl e # cns) = ([], [], Some (Inl e))"
| "receiver_loop je path token limit accepted (Inr cn # cns) =
     (let resp = receiver_answer je path token (rc_request cn); evs = printed_event je (rc_request cn) resp in
      if \<not> rc_written cn then
        (case receiver_loop je path token limit accepted cns of (es, rs, r) \<Rightarrow> (evs @ es, rs, r))
      else if hs_status resp = 200 then
        if 0 < limit \<and> limit \<le> Suc accepted then (evs, [resp], Some (Inr ()))
        else (case receiver_loop je path token limit (Suc accepted) cns of (es, rs, r) \<Rightarrow> (evs @ es, resp # rs, r))
      else (case receiver_loop je path token limit accepted cns of (es, rs, r) \<Rightarrow> (evs @ es, resp # rs, r)))"

definition receiver_main ::
    "vars \<Rightarrow> (string \<Rightarrow> bool list res) \<Rightarrow> (string \<Rightarrow> string) \<Rightarrow> (string \<Rightarrow> unit res) \<Rightarrow> json_env \<Rightarrow> receiver_connection res list
      \<Rightarrow> (sidecar_event list \<times> http_response list \<times> unit res option) res" where
  "receiver_main vars resolve quoted listen je cns =
     (let bind = var_or vars ''WEBEX_SIDECAR_BIND'' ''127.0.0.1:8787'' in
      and_then (receiver_bind_check (resolve bind) (quoted bind) (vars ''WEBEX_SIDECAR_ALLOW_NON_LOOPBACK'' = Some ''1'')) (\<lambda>_.
      and_then (receiver_token vars) (\<lambda>token.
      and_then (listen bind) (\<lambda>_.
        Inr (receiver_loop je (var_or vars ''WEBEX_SIDECAR_PATH'' ''/webex/events'') token
          (env_usize vars ''WEBEX_SIDECAR_MAX_EVENTS'' 0) 0 cns)))))"

subsection \<open>What it prints\<close>

lemma printed_is_authorized:
  assumes "ev \<in> set (printed_event je request (receiver_answer je path token request))"
  shows "\<exists>rq. request = Some (Inr rq) \<and> hr_method rq = ''POST'' \<and> hr_path rq = path \<and> authorized token rq \<and>
    je_event je (hr_body rq) = Inr ev"
proof (cases request)
  case None
  with assms show ?thesis by (simp add: printed_event_def)
next
  case (Some answer)
  show ?thesis
  proof (cases answer)
    case (Inl e)
    with Some assms show ?thesis by (simp add: printed_event_def)
  next
    case (Inr rq)
    note req = Some [unfolded Inr]
    have ok: "hs_status (receiver_handle_request je path token rq) = 200"
    proof (rule ccontr)
      assume "hs_status (receiver_handle_request je path token rq) \<noteq> 200"
      with assms show False unfolding req by (simp add: printed_event_def receiver_answer_def)
    qed
    have ev: "je_event je (hr_body rq) = Inr ev"
      using assms unfolding req by (cases "je_event je (hr_body rq)") (simp_all add: printed_event_def receiver_answer_def ok)
    have "hr_method rq = ''POST'' \<and> hr_path rq = path \<and> authorized token rq"
    proof (rule ccontr)
      assume "\<not> ?thesis"
      with ok show False
        by (cases "hr_method rq = ''POST''"; cases "hr_path rq = path")
          (simp_all add: receiver_handle_request_def json_error_def json_value_def)
    qed
    with req ev show ?thesis by blast
  qed
qed

lemma receiver_loop_prints:
  "ev \<in> set (fst (receiver_loop je path token limit accepted cns)) \<Longrightarrow>
     \<exists>cn rq. Inr cn \<in> set cns \<and> rc_request cn = Some (Inr rq) \<and> hr_method rq = ''POST'' \<and> hr_path rq = path \<and>
       authorized token rq \<and> je_event je (hr_body rq) = Inr ev"
proof (induction je path token limit accepted cns rule: receiver_loop.induct)
  case (3 je path token limit accepted cn cns)
  then show ?case
    by (fastforce simp: Let_def split: if_splits prod.splits dest: printed_is_authorized)
qed auto

lemma receiver_loop_counts:
  "0 < limit \<Longrightarrow> accepted < limit \<Longrightarrow>
     accepted + length (filter (\<lambda>r. hs_status r = 200) (fst (snd (receiver_loop je path token limit accepted cns)))) \<le> limit"
proof (induction je path token limit accepted cns rule: receiver_loop.induct)
  case (3 je path token limit accepted cn cns)
  then show ?case by (auto simp: Let_def split: prod.splits if_splits)
qed auto

lemma receiver_main_guarded:
  assumes "receiver_main vars resolve quoted listen je cns = Inr (evs, answers, r)" "ev \<in> set evs"
  shows "vars ''WEBEX_SIDECAR_ALLOW_UNAUTHENTICATED'' = Some ''1'' \<or>
    (\<exists>token cn rq. vars ''WEBEX_SIDECAR_TOKEN'' = Some token \<and> token \<noteq> [] \<and> Inr cn \<in> set cns \<and>
       rc_request cn = Some (Inr rq) \<and> authorized (Some token) rq \<and> je_event je (hr_body rq) = Inr ev)"
proof -
  obtain token where token: "receiver_token vars = Inr token" and
    evs: "ev \<in> set (fst (receiver_loop je (var_or vars ''WEBEX_SIDECAR_PATH'' ''/webex/events'') token
      (env_usize vars ''WEBEX_SIDECAR_MAX_EVENTS'' 0) 0 cns))"
    using assms by (auto simp: receiver_main_def Let_def and_then_Inr_iff)
  from receiver_loop_prints [OF evs] token show ?thesis
    by (auto simp: receiver_token_def split: option.splits list.splits if_splits)
qed

end
