(* ===== verification/SmokeTool.thy ===== *)
theory SmokeTool imports CliRun Syscalls begin

text \<open>
  The smoke test of the library (\<open>src/examples/smoke.rs\<close>): its environment file, its cache of the
  token with the checks of the file and its directory, the device login without a deadline, and the
  calls it makes. The kernel, the services and the JSON crate are parameters.
\<close>

subsection \<open>The environment file\<close>

definition QUOTE :: char where "QUOTE = CHR 0x22"
definition APOSTROPHE :: char where "APOSTROPHE = CHR 0x27"

definition unquote :: "string \<Rightarrow> string" where
  "unquote v =
     (if 2 \<le> length v \<and> (hd v = QUOTE \<and> last v = QUOTE \<or> hd v = APOSTROPHE \<and> last v = APOSTROPHE)
      then butlast (tl v) else v)"

definition read_env_line :: "string \<Rightarrow> (string, string) bmap \<Rightarrow> (string, string) bmap" where
  "read_env_line l values =
     (if trim l = [] \<or> starts_with (trim l) ''#'' then values
      else case split_once (CHR ''='') (trim l) of
        None \<Rightarrow> values
      | Some (k, v) \<Rightarrow> bm_insert (trim k) (unquote (trim v)) values)"

definition read_env :: "string \<Rightarrow> (string, string) bmap" where
  "read_env contents = fold read_env_line (str_lines contents) []"

definition env_file_optional :: "(string, string) bmap \<Rightarrow> string \<Rightarrow> string option" where
  "env_file_optional env key =
     (case bm_get env key of
        None \<Rightarrow> None
      | Some v \<Rightarrow> if trim v = [] then None else Some (trim v))"

definition env_file_required :: "(string, string) bmap \<Rightarrow> string \<Rightarrow> string res" where
  "env_file_required env key =
     (case env_file_optional env key of
        Some v \<Rightarrow> Inr v
      | None \<Rightarrow> Inl (Other (key @ '' is required in .env.webex-test'')))"

subsection \<open>Scopes\<close>

definition scope_matches :: "string \<Rightarrow> string \<Rightarrow> bool" where
  "scope_matches actual requested \<longleftrightarrow>
     actual = requested \<or> actual = ''spark:all'' \<and> starts_with requested ''spark:'' \<and> requested \<noteq> ''spark:kms''"

definition token_has_requested_scopes :: "token_set \<Rightarrow> string list \<Rightarrow> bool" where
  "token_has_requested_scopes t requested =
     list_all (\<lambda>r. list_ex (\<lambda>actual. scope_matches actual r) (ts_scopes t)) requested"

definition smoke_parse_scopes :: "string \<Rightarrow> string list" where
  "smoke_parse_scopes v = filter (\<lambda>s. s \<noteq> []) (map trim (split_with scope_separator v))"

subsection \<open>The token cache\<close>

definition validate_owned_regular_file :: "nat \<Rightarrow> path \<Rightarrow> metadata \<Rightarrow> unit res" where
  "validate_owned_regular_file uid p mt =
     (if mt_kind mt \<noteq> Regular then
        Inl (Other (''refusing to read token cache at '' @ path_display p @ '' because it is not a regular file''))
      else if mt_uid mt \<noteq> uid then
        Inl (Other (''refusing to read token cache at '' @ path_display p @ '' because it is not owned by the current user''))
      else Inr ())"

definition harden_owned_directory :: "kernel \<Rightarrow> nat \<Rightarrow> path \<Rightarrow> unit sys" where
  "harden_owned_directory k uid p =
     seq_op (symlink_metadata k p) (\<lambda>mt.
       if mt_kind mt \<noteq> Directory then
         lift_res (Inl (Other (''refusing to use token cache directory '' @ path_display p @ '' because it is not a directory'')))
       else if mt_uid mt \<noteq> uid then
         lift_res (Inl (Other (''refusing to use token cache directory '' @ path_display p @ '' because it is not owned by the current user'')))
       else set_path_mode k p 0x1C0)"

definition harden_parent :: "kernel \<Rightarrow> nat \<Rightarrow> path \<Rightarrow> unit sys" where
  "harden_parent k uid p =
     (case path_parent p of Some d \<Rightarrow> harden_owned_directory k uid d | None \<Rightarrow> lift_res (Inr ()))"

definition read_to_end :: "kernel \<Rightarrow> nat \<Rightarrow> string sys" where
  "read_to_end k h =
     seq_op (os_call k (\<lambda>s. os_read s h) (\<lambda>_. ReadContents h)) (\<lambda>bytes. lift_res (BotStore.read_to_string (Some bytes)))"

definition read_token_cache :: "kernel \<Rightarrow> nat \<Rightarrow> path \<Rightarrow> string option sys" where
  "read_token_cache k uid p =
     unless_kind NotFound (symlink_metadata k p) (\<lambda>named.
       seq_op (lift_res (validate_owned_regular_file uid p named)) (\<lambda>_.
       seq_op (harden_parent k uid p) (\<lambda>_.
       seq_op (open_file k ForReadNoFollow p) (\<lambda>h.
       seq_op (file_metadata k h) (\<lambda>opened.
       seq_op (lift_res (validate_owned_regular_file uid p opened)) (\<lambda>_.
       seq_op (set_file_mode k h 0x180) (\<lambda>_.
       seq_op (read_to_end k h) (\<lambda>text. lift_res (Inr (Some text))))))))))
     (lift_res (Inr None))"

text \<open>\<open>Path::extension\<close> and \<open>with_extension\<close>: what follows the last dot that does not begin the name.\<close>

definition split_extension :: "string \<Rightarrow> string \<times> string option" where
  "split_extension n =
     (let tail = rev (takeWhile (\<lambda>c. c \<noteq> CHR ''.'') (rev n)); stem = take (length n - length tail - 1) n in
      if length tail = length n \<or> stem = [] then (n, None) else (stem, Some tail))"

definition path_extension :: "path \<Rightarrow> string option" where
  "path_extension p = (case file_name p of Some (Normal n) \<Rightarrow> snd (split_extension n) | _ \<Rightarrow> None)"

definition path_with_extension :: "path \<Rightarrow> string \<Rightarrow> path" where
  "path_with_extension p ext =
     (case file_name p of
        Some (Normal n) \<Rightarrow> butlast p @ [Normal (if ext = [] then fst (split_extension n) else fst (split_extension n) @ ''.'' @ ext)]
      | _ \<Rightarrow> p)"

definition cache_temp_path :: "nat \<Rightarrow> path \<Rightarrow> path" where
  "cache_temp_path pid p =
     path_with_extension p ((case path_extension p of Some e \<Rightarrow> if utf8_valid e then e else ''json'' | None \<Rightarrow> ''json'') @
       ''.tmp.'' @ show_nat pid)"

definition write_token_cache :: "kernel \<Rightarrow> nat \<Rightarrow> nat \<Rightarrow> path \<Rightarrow> string \<Rightarrow> unit sys" where
  "write_token_cache k uid pid p contents =
     (let tmp = cache_temp_path pid p in
      seq_op (case path_parent p of
          Some d \<Rightarrow> seq_op (create_dir_all k d) (\<lambda>_. harden_owned_directory k uid d)
        | None \<Rightarrow> lift_res (Inr ())) (\<lambda>_.
      seq_op (os_call k (\<lambda>s. Inr (os_exists s tmp)) (\<lambda>_. Answered)) (\<lambda>there.
      seq_op (if there then os_call k (\<lambda>s. os_remove s tmp) (\<lambda>_. Removed tmp) else lift_res (Inr ())) (\<lambda>_.
      seq_op (open_file k (CreateNew 0x180) tmp) (\<lambda>h.
      seq_op (os_call k (\<lambda>s. os_write s h contents) (\<lambda>_. WroteContents h contents)) (\<lambda>_.
      seq_op (os_call k (\<lambda>s. os_sync s h) (\<lambda>_. Answered)) (\<lambda>_.
      seq_op (set_path_mode k tmp 0x180) (\<lambda>_.
      seq_op (os_call k (\<lambda>s. os_rename s tmp p) (\<lambda>_. Moved tmp p)) (\<lambda>_.
        set_path_mode k p 0x180)))))))))"

subsection \<open>Logging in\<close>

record smoke_env =
  sm_kernel :: kernel
  sm_uid :: nat
  sm_pid :: nat
  sm_oauth :: oauth_env
  sm_codec :: token_codec
  sm_now :: time

definition token_cache_path :: path where
  "token_cache_path = [Normal ''.codex-tmp'', Normal ''webex-smoke'', Normal ''token.json'']"

text \<open>
  The polls have no deadline, so the loop has a number of polls it may do; \<open>waits\<close> are the sleeps
  so far. No answer: the polls were used up. An interval that overflows panics.
\<close>

fun smoke_poll ::
    "smoke_env \<Rightarrow> oauth_config \<Rightarrow> string \<Rightarrow> nat \<Rightarrow> duration \<Rightarrow> duration list \<Rightarrow> oauth_sent
      \<Rightarrow> token_set run_result option \<times> duration list \<times> oauth_sent" where
  "smoke_poll env c code 0 interval waits sent = (None, waits, sent)"
| "smoke_poll env c code (Suc n) interval waits sent =
     (case poll_device_token (sm_oauth env) c code sent of
        (None, sent) \<Rightarrow> (Some (Inl panicked), waits, sent)
      | (Some (Inl e), sent) \<Rightarrow> (Some (Inl (Boxed e)), waits, sent)
      | (Some (Inr (DeviceAuthorized t)), sent) \<Rightarrow> (Some (Inr t), waits, sent)
      | (Some (Inr (DevicePending wait)), sent) \<Rightarrow>
          smoke_poll env c code n interval (waits @ [retry_wait wait interval]) sent
      | (Some (Inr (DeviceSlowDown wait)), sent) \<Rightarrow>
          if DURATION_MAX < interval + 5 * SEC then (Some (Inl panicked), waits, sent)
          else smoke_poll env c code n (interval + 5 * SEC) (waits @ [retry_wait wait (interval + 5 * SEC)]) sent)"

definition authorize :: "smoke_env \<Rightarrow> nat \<Rightarrow> oauth_config \<Rightarrow> oauth_sent \<Rightarrow> token_set run_result option \<times> oauth_sent" where
  "authorize env n c sent =
     (case start_device_authorization (sm_oauth env) c sent of
        (Inl e, sent) \<Rightarrow> (Some (Inl (Boxed e)), sent)
      | (Inr auth, sent) \<Rightarrow>
          (case smoke_poll env c (da_device_code auth) n (device_interval auth) [] sent of (r, _, sent) \<Rightarrow> (r, sent)))"

text \<open>The token of the cache when it is fresh and has the scopes.\<close>

definition cached_token :: "smoke_env \<Rightarrow> string list \<Rightarrow> token_set option sys" where
  "cached_token env requested =
     seq_op (read_token_cache (sm_kernel env) (sm_uid env) token_cache_path) (\<lambda>contents.
       case contents of
         None \<Rightarrow> lift_res (Inr None)
       | Some text \<Rightarrow>
           seq_op (lift_res (tk_de (sm_codec env) text)) (\<lambda>t.
             lift_res (Inr (if \<not> is_expiring_within (sm_now env) (300 * SEC) t \<and> token_has_requested_scopes t requested
               then Some t else None))))"

definition load_or_authorize ::
    "smoke_env \<Rightarrow> nat \<Rightarrow> oauth_config \<Rightarrow> trace \<times> oauth_sent \<Rightarrow> token_set run_result option \<times> trace \<times> oauth_sent" where
  "load_or_authorize env n c st =
     (case cached_token env (oc_scopes c) (fst st) of
        (Inl e, tr) \<Rightarrow> (Some (Inl (Boxed e)), tr, snd st)
      | (Inr (Some t), tr) \<Rightarrow> (Some (Inr t), tr, snd st)
      | (Inr None, tr) \<Rightarrow>
          (case authorize env n c (snd st) of
             (Some (Inr t), sent) \<Rightarrow>
               (case seq_op (lift_res (tk_ser (sm_codec env) t))
                   (write_token_cache (sm_kernel env) (sm_uid env) (sm_pid env) token_cache_path) tr of
                  (Inl e, tr) \<Rightarrow> (Some (Inl (Boxed e)), tr, sent)
                | (Inr _, tr) \<Rightarrow> (Some (Inr t), tr, sent))
           | (r, sent) \<Rightarrow> (r, tr, sent)))"

subsection \<open>The calls\<close>

fun first_accessible :: "client \<Rightarrow> string list \<Rightarrow> sent \<Rightarrow> string option \<times> sent" where
  "first_accessible c [] sent = (None, sent)"
| "first_accessible c (i # is) sent =
     (case get_room c i sent of
        (Inr _, sent) \<Rightarrow> (Some i, sent)
      | (Inl _, sent) \<Rightarrow> first_accessible c is sent)"

text \<open>\<open>q\<close> gives the debug text of a string.\<close>

definition unique_titled :: "(string \<Rightarrow> string) \<Rightarrow> string \<Rightarrow> room list \<Rightarrow> string res" where
  "unique_titled q title rooms =
     (case remdups_adj (sort (List.map_filter ro_id (filter (\<lambda>r. ro_title r = Some title) rooms))) of
        [i] \<Rightarrow> Inr i
      | [] \<Rightarrow> Inl (Other (''no room matched WEBEX_TEST_ROOM_TITLE='' @ q title))
      | is \<Rightarrow> Inl (Other (''WEBEX_TEST_ROOM_TITLE='' @ q title @
          '' matched '' @ show_nat (length is) @ '' rooms; set WEBEX_TEST_ROOM_ID'')))"

definition resolve_room_id ::
    "client \<Rightarrow> (string \<Rightarrow> string) \<Rightarrow> (string \<Rightarrow> string) \<Rightarrow> nat
      \<Rightarrow> string option \<Rightarrow> string option \<Rightarrow> string option \<Rightarrow> string step" where
  "resolve_room_id c b64 q n explicit link title =
     (case nonblank explicit of
        Some i \<Rightarrow> give (Inr i)
      | None \<Rightarrow>
          (\<lambda>sent. case first_accessible c (case link of
               Some l \<Rightarrow> room_id_candidates_from_link (re_url (cl_env c)) b64 l | None \<Rightarrow> []) sent of
             (Some i, sent) \<Rightarrow> (Some (Inr i), sent)
           | (None, sent) \<Rightarrow>
               (case nonblank title of
                  None \<Rightarrow> (Some (Inl (Boxed (Other ''set WEBEX_TEST_ROOM_ID or WEBEX_TEST_ROOM_TITLE''))), sent)
                | Some t \<Rightarrow>
                    then_do (listing c (dc_rooms (cl_dec c)) n True
                      (list_rooms_page c (list_rooms_default\<lparr>lr_max := Some 100\<rparr>))) (\<lambda>rooms.
                    give (map_err Boxed (unique_titled q t rooms))) sent)))"

record smoke_report =
  sk_authorized_as :: string
  sk_memberships :: nat
  sk_messages :: nat
  sk_direct :: "(nat + nat) option"

text \<open>The direct messages are skipped when the service refuses them: \<open>Inl\<close> is its status.\<close>

definition direct_smoke :: "client \<Rightarrow> string option \<Rightarrow> (nat + nat) option step" where
  "direct_smoke c email =
     (case email of
        None \<Rightarrow> give (Inr None)
      | Some e \<Rightarrow>
          (\<lambda>sent. case list_direct_messages_page c \<lparr>ld_parent_id = None, ld_person_id = None, ld_person_email = Some e\<rparr> sent of
             (Inr page, sent) \<Rightarrow> (Some (Inr (Some (Inr (length (pg_items page))))), sent)
           | (Inl (Api a), sent) \<Rightarrow> (Some (Inr (Some (Inl (ae_status a)))), sent)
           | (Inl e, sent) \<Rightarrow> (Some (Inl (Boxed e)), sent)))"

definition smoke_calls ::
    "client \<Rightarrow> (string \<Rightarrow> string) \<Rightarrow> (string \<Rightarrow> string) \<Rightarrow> nat \<Rightarrow> (string, string) bmap \<Rightarrow> smoke_report step" where
  "smoke_calls c b64 q n env =
     then_do (call (me c)) (\<lambda>self.
     then_do (resolve_room_id c b64 q n (env_file_optional env ''WEBEX_TEST_ROOM_ID'')
       (env_file_optional env ''WEBEX_TEST_ROOM_LINK'') (env_file_optional env ''WEBEX_TEST_ROOM_TITLE'')) (\<lambda>room.
     then_do (call (list_memberships_page c ((list_memberships_room room)\<lparr>lb_max := Some 10\<rparr>))) (\<lambda>memberships.
     then_do (call (list_messages_page c ((list_messages_room room)\<lparr>lm_max := Some 10\<rparr>))) (\<lambda>messages.
     then_do (call (create_message_call c (create_message_text room ''webex-headless-messenger smoke test''))) (\<lambda>smoke.
     then_do (give (case me_id smoke of
         Some i \<Rightarrow> Inr i | None \<Rightarrow> Inl (Boxed (Other ''message response had no id'')))) (\<lambda>smoke_id.
     then_do (call (reply_text_call c room smoke_id ''smoke test reply'')) (\<lambda>_.
     then_do (direct_smoke c (env_file_optional env ''WEBEX_TEST_PERSON_EMAIL'')) (\<lambda>direct.
       give (Inr \<lparr>sk_authorized_as = (case (pe_display_name self, pe_emails self) of
             (Some n, _) \<Rightarrow> n | (None, e # _) \<Rightarrow> e | (None, []) \<Rightarrow> ''<unknown>''),
           sk_memberships = length (pg_items memberships), sk_messages = length (pg_items messages),
           sk_direct = direct\<rparr>)))))))))"

definition smoke_config :: "url_lib \<Rightarrow> string option \<Rightarrow> (string, string) bmap \<Rightarrow> oauth_config res" where
  "smoke_config ul scopes_var env =
     and_then (env_file_required env ''WEBEX_CLIENT_ID'') (\<lambda>i.
     and_then (env_file_required env ''WEBEX_CLIENT_SECRET'') (\<lambda>s.
     and_then (oauth_config_new ul i) (\<lambda>c.
       let scopes = (case or_else scopes_var (env_file_optional env ''WEBEX_TEST_SCOPES'') of
             Some v \<Rightarrow> smoke_parse_scopes v | None \<Rightarrow> []) in
       Inr (if scopes = [] then with_client_secret s c else with_scopes scopes (with_client_secret s c)))))"

text \<open>
  \<open>main\<close>: the configuration, the token, then the calls with a client that always presents the token.
  \<open>polls\<close> and \<open>pages\<close> bound the loops that have no end of their own.
\<close>

definition smoke_client :: "rest_env res \<Rightarrow> decoders \<Rightarrow> string \<Rightarrow> client res" where
  "smoke_client rest dec token =
     and_then rest (\<lambda>env. and_then (client_builder_new env) (\<lambda>b.
       build_webex_client dec (with_token_provider (static_token_provider token) b)))"

definition smoke_main ::
    "smoke_env \<Rightarrow> nat \<Rightarrow> nat \<Rightarrow> url_lib \<Rightarrow> rest_env res \<Rightarrow> decoders \<Rightarrow> (string \<Rightarrow> string) \<Rightarrow> (string \<Rightarrow> string)
      \<Rightarrow> string res \<Rightarrow> string option
      \<Rightarrow> trace \<times> oauth_sent \<times> sent \<Rightarrow> smoke_report run_result option \<times> trace \<times> oauth_sent \<times> sent" where
  "smoke_main env polls pages ul rest dec b64 q env_file scopes_var st =
     (case and_then env_file (\<lambda>text. and_then (smoke_config ul scopes_var (read_env text)) (\<lambda>c. Inr (read_env text, c))) of
        Inl e \<Rightarrow> (Some (Inl (Boxed e)), st)
      | Inr (vars, c) \<Rightarrow>
          (case load_or_authorize env polls c (fst st, fst (snd st)) of
             (Some (Inr t), tr, asked) \<Rightarrow>
               (case smoke_client rest dec (ts_access_token t) of
                  Inl e \<Rightarrow> (Some (Inl (Boxed e)), tr, asked, snd (snd st))
                | Inr client \<Rightarrow>
                    (case smoke_calls client b64 q pages vars (snd (snd st)) of (r, sent) \<Rightarrow> (r, tr, asked, sent)))
           | (Some (Inl e), tr, asked) \<Rightarrow> (Some (Inl e), tr, asked, snd (snd st))
           | (None, tr, asked) \<Rightarrow> (None, tr, asked, snd (snd st))))"

end
