(* ===== verification/SmokeProps.thy ===== *)
theory SmokeProps imports SmokeTool CliAuthProps "HOL-Library.Sublist" begin

text \<open>
  What the smoke test does with its token cache, whatever other processes do to the file system in
  between: the token is only read from and written to a file and a directory of the user's own.
\<close>

definition hardened :: "nat \<Rightarrow> path \<Rightarrow> trace \<Rightarrow> bool" where
  "hardened uid p tr \<longleftrightarrow> (\<forall>d. path_parent p = Some d \<longrightarrow>
     (\<exists>mt. Looked d mt \<in> set tr \<and> mt_kind mt = Directory \<and> mt_uid mt = uid) \<and> ChangedModeAt d 0x1C0 \<in> set tr)"

definition own_file_open :: "nat \<Rightarrow> path \<Rightarrow> nat \<Rightarrow> trace \<Rightarrow> bool" where
  "own_file_open uid p h tr \<longleftrightarrow> Opened p ForReadNoFollow h \<in> set tr \<and>
     (\<exists>mt. Checked h mt \<in> set tr \<and> mt_kind mt = Regular \<and> mt_uid mt = uid)"

text \<open>What has to have happened before an event.\<close>

definition allowed :: "nat \<Rightarrow> nat \<Rightarrow> path \<Rightarrow> trace \<Rightarrow> os_event \<Rightarrow> bool" where
  "allowed uid pid p tr e = (case e of
       ReadContents h \<Rightarrow> own_file_open uid p h tr \<and> ChangedMode h 0x180 \<in> set tr \<and> hardened uid p tr
     | WroteContents h text \<Rightarrow> Opened (cache_temp_path pid p) (CreateNew 0x180) h \<in> set tr \<and> hardened uid p tr
     | ChangedMode h m \<Rightarrow> m = 0x180 \<and> own_file_open uid p h tr
     | Moved a b \<Rightarrow> a = cache_temp_path pid p \<and> b = p \<and> (\<exists>h text. WroteContents h text \<in> set tr)
     | Removed q \<Rightarrow> q = cache_temp_path pid p
     | OpenedDatabase q \<Rightarrow> False
     | _ \<Rightarrow> True)"

definition guarded :: "nat \<Rightarrow> nat \<Rightarrow> path \<Rightarrow> trace \<Rightarrow> bool" where
  "guarded uid pid p tr \<longleftrightarrow> (\<forall>before e. prefix (before @ [e]) tr \<longrightarrow> allowed uid pid p before e)"

lemma guarded_Nil [simp]: "guarded uid pid p []"
  by (simp add: guarded_def)

lemma guarded_snoc [simp]: "guarded uid pid p (tr @ [e]) \<longleftrightarrow> guarded uid pid p tr \<and> allowed uid pid p tr e"
  by (auto simp: guarded_def prefix_snoc)

lemma owned_file: "validate_owned_regular_file uid p mt = Inr u \<Longrightarrow> mt_kind mt = Regular \<and> mt_uid mt = uid"
  by (simp add: validate_owned_regular_file_def split: if_splits)

text \<open>One call: it fails and leaves a mark that is always allowed, or answers.\<close>

lemma os_call_cases:
  assumes "os_call k f ev tr = (r, tr')"
  obtains e where "r = Inl e" "tr' = tr @ [Failed]" | x where "r = Inr x" "tr' = tr @ [ev x]" "f (k tr) = Inr x"
proof (cases "f (k tr)")
  case (Inl e)
  with assms show thesis by (intro that(1) [of e]) (simp_all add: os_call_def)
next
  case (Inr x)
  with assms show thesis by (intro that(2) [of x]) (simp_all add: os_call_def)
qed

lemmas smoke_calls_defs = symlink_metadata_def open_file_def file_metadata_def set_file_mode_def set_path_mode_def
  create_dir_all_def read_to_end_def

lemma harden_ok:
  assumes "guarded uid pid p tr" "path_parent p = Some d" "harden_owned_directory k uid d tr = (r, tr')"
  shows "guarded uid pid p tr'" "set tr \<subseteq> set tr'" "r = Inr u \<Longrightarrow> hardened uid p tr'"
  using assms
  by (auto simp: harden_owned_directory_def seq_op_def smoke_calls_defs lift_res_def hardened_def allowed_def
      simp del: append_assoc split: prod.splits sum.splits if_splits elim!: os_call_cases)

lemma harden_parent_ok:
  assumes "guarded uid pid p tr" "harden_parent k uid p tr = (r, tr')"
  shows "guarded uid pid p tr'" "set tr \<subseteq> set tr'" "r = Inr u \<Longrightarrow> hardened uid p tr'"
  using harden_ok [OF assms(1)] assms
  by (auto simp: harden_parent_def lift_res_def hardened_def split: option.splits)

text \<open>Reading and writing. The handle is checked after it was opened, before its mode changes.\<close>

definition read_opened :: "kernel \<Rightarrow> nat \<Rightarrow> path \<Rightarrow> string option sys" where
  "read_opened k uid p =
     seq_op (open_file k ForReadNoFollow p) (\<lambda>h.
     seq_op (file_metadata k h) (\<lambda>opened.
     seq_op (lift_res (validate_owned_regular_file uid p opened)) (\<lambda>_.
     seq_op (set_file_mode k h 0x180) (\<lambda>_.
     seq_op (read_to_end k h) (\<lambda>text. lift_res (Inr (Some text)))))))"

definition contents_read :: "kernel \<Rightarrow> string \<Rightarrow> trace \<Rightarrow> bool" where
  "contents_read k text tr \<longleftrightarrow> (\<exists>before h. tr = before @ [ReadContents h] \<and> os_read (k before) h = Inr text)"

lemma contents_readI: "os_read (k before) h = Inr text \<Longrightarrow> contents_read k text (before @ [ReadContents h])"
  by (auto simp: contents_read_def)

lemma hardened_later: "hardened uid p tr \<Longrightarrow> hardened uid p (tr @ [e])"
  by (auto simp: hardened_def)

lemma read_opened_ok:
  assumes "guarded uid pid p tr" "hardened uid p tr" "read_opened k uid p tr = (r, tr')"
  shows "guarded uid pid p tr'" "\<forall>text. r = Inr (Some text) \<longrightarrow> contents_read k text tr'"
    "(WroteContents h text \<in> set tr') = (WroteContents h text \<in> set tr)"
  using assms
  by (auto simp: read_opened_def seq_op_def BotStore.read_to_string_def smoke_calls_defs lift_res_def allowed_def own_file_open_def hardened_later
      simp del: append_assoc split: prod.splits sum.splits if_splits elim!: os_call_cases dest!: owned_file intro!: contents_readI)

lemma harden_parent_text:
  "harden_parent k uid p tr = (r, tr') \<Longrightarrow> (WroteContents h text \<in> set tr') = (WroteContents h text \<in> set tr)"
  by (auto simp: harden_parent_def harden_owned_directory_def seq_op_def smoke_calls_defs lift_res_def
      split: option.splits prod.splits sum.splits if_splits elim!: os_call_cases)

lemma read_token_cache_opened:
  "read_token_cache k uid p = unless_kind NotFound (symlink_metadata k p) (\<lambda>named.
     seq_op (lift_res (validate_owned_regular_file uid p named)) (\<lambda>_.
     seq_op (harden_parent k uid p) (\<lambda>_. read_opened k uid p))) (lift_res (Inr None))"
  by (simp add: read_token_cache_def read_opened_def)

lemma read_cache_ok:
  assumes "guarded uid pid p tr" "read_token_cache k uid p tr = (r, tr')"
  shows "guarded uid pid p tr' \<and> (\<forall>text. r = Inr (Some text) \<longrightarrow> contents_read k text tr') \<and>
    (\<forall>h text. (WroteContents h text \<in> set tr') = (WroteContents h text \<in> set tr))"
proof -
  obtain r0 tr0 where look: "symlink_metadata k p tr = (r0, tr0)" by (meson surj_pair)
  then have g: "guarded uid pid p tr0" and w: "(WroteContents h t \<in> set tr0) = (WroteContents h t \<in> set tr)" for h t
    using assms(1) by (auto simp: smoke_calls_defs allowed_def elim!: os_call_cases)
  show ?thesis
  proof (cases "\<exists>mt. r0 = Inr mt \<and> validate_owned_regular_file uid p mt = Inr ()")
    case False
    with look g w assms(2) show ?thesis
      by (auto simp: read_token_cache_opened unless_kind_def lift_res_def seq_op_def split: sum.splits error.splits if_splits)
  next
    case True
    then obtain mt where mt: "r0 = Inr mt" "validate_owned_regular_file uid p mt = Inr ()" by blast
    obtain r1 tr1 where parent: "harden_parent k uid p tr0 = (r1, tr1)" by (meson surj_pair)
    note ok = harden_parent_ok [OF g parent] and same = harden_parent_text [OF parent]
    have run: "(case (r1, tr1) of (Inl e, tr) \<Rightarrow> (Inl e, tr) | (Inr _, tr) \<Rightarrow> read_opened k uid p tr) = (r, tr')"
      using assms(2) look mt parent
      by (simp add: read_token_cache_opened unless_kind_def seq_op_def lift_res_def)
    show ?thesis
    proof (cases r1)
      case (Inl e)
      with run ok(1) same w show ?thesis by auto
    next
      case (Inr u)
      with run have "read_opened k uid p tr1 = (r, tr')" by simp
      from read_opened_ok [OF ok(1) ok(3) this] Inr same w show ?thesis by blast
    qed
  qed
qed

definition write_created :: "kernel \<Rightarrow> path \<Rightarrow> path \<Rightarrow> string \<Rightarrow> unit sys" where
  "write_created k tmp p contents =
     seq_op (open_file k (CreateNew 0x180) tmp) (\<lambda>h.
     seq_op (os_call k (\<lambda>s. os_write s h contents) (\<lambda>_. WroteContents h contents)) (\<lambda>_.
     seq_op (os_call k (\<lambda>s. os_sync s h) (\<lambda>_. Answered)) (\<lambda>_.
     seq_op (set_path_mode k tmp 0x180) (\<lambda>_.
     seq_op (os_call k (\<lambda>s. os_rename s tmp p) (\<lambda>_. Moved tmp p)) (\<lambda>_.
       set_path_mode k p 0x180)))))"

definition replaced :: "path \<Rightarrow> path \<Rightarrow> string \<Rightarrow> trace \<Rightarrow> bool" where
  "replaced tmp p contents tr \<longleftrightarrow>
     Moved tmp p \<in> set tr \<and> (\<exists>h. Opened tmp (CreateNew 0x180) h \<in> set tr \<and> WroteContents h contents \<in> set tr)"

lemma write_created_ok:
  assumes "guarded uid pid p tr" "hardened uid p tr" "write_created k (cache_temp_path pid p) p contents tr = (r, tr')"
  shows "guarded uid pid p tr'" "r = Inr u \<Longrightarrow> replaced (cache_temp_path pid p) p contents tr'"
  using assms
  by (auto simp: write_created_def seq_op_def smoke_calls_defs lift_res_def allowed_def hardened_later replaced_def ex_disj_distrib
      simp del: append_assoc split: prod.splits sum.splits if_splits elim!: os_call_cases)

lemma write_parent_ok:
  assumes "guarded uid pid p tr"
    "(case path_parent p of Some d \<Rightarrow> seq_op (create_dir_all k d) (\<lambda>_. harden_owned_directory k uid d)
      | None \<Rightarrow> lift_res (Inr ())) tr = (r, tr')"
  shows "guarded uid pid p tr'" "r = Inr u \<Longrightarrow> hardened uid p tr'"
proof -
  have "guarded uid pid p tr' \<and> (r = Inr u \<longrightarrow> hardened uid p tr')"
  proof (cases "path_parent p")
    case None
    with assms show ?thesis by (simp add: lift_res_def hardened_def)
  next
    case (Some d)
    obtain r0 tr0 where made: "create_dir_all k d tr = (r0, tr0)" by (meson surj_pair)
    then have g: "guarded uid pid p tr0"
      using assms(1) by (auto simp: smoke_calls_defs allowed_def elim!: os_call_cases)
    with harden_ok [OF g Some, of k] made assms(2) Some show ?thesis
      by (cases r0) (auto simp: seq_op_def)
  qed
  then show "guarded uid pid p tr'" "r = Inr u \<Longrightarrow> hardened uid p tr'" by auto
qed

lemma write_token_cache_created:
  "write_token_cache k uid pid p contents =
     seq_op (case path_parent p of Some d \<Rightarrow> seq_op (create_dir_all k d) (\<lambda>_. harden_owned_directory k uid d)
       | None \<Rightarrow> lift_res (Inr ())) (\<lambda>_.
     seq_op (os_call k (\<lambda>s. Inr (os_exists s (cache_temp_path pid p))) (\<lambda>_. Answered)) (\<lambda>there.
     seq_op (if there then os_call k (\<lambda>s. os_remove s (cache_temp_path pid p)) (\<lambda>_. Removed (cache_temp_path pid p))
       else lift_res (Inr ())) (\<lambda>_. write_created k (cache_temp_path pid p) p contents)))"
  by (simp add: write_token_cache_def write_created_def Let_def)

text \<open>What holds of the trace so far is enough for every later step: the composition of steps.\<close>

lemma seq_ok:
  assumes "seq_op m f tr = (r, tr')" "P tr"
    "\<And>r0 tr0. m tr = (r0, tr0) \<Longrightarrow> G tr0 \<and> (\<forall>x. r0 = Inr x \<longrightarrow> H tr0)"
    "\<And>x tr0. m tr = (Inr x, tr0) \<Longrightarrow> G tr0 \<Longrightarrow> H tr0 \<Longrightarrow> f x tr0 = (r, tr') \<Longrightarrow> G tr' \<and> (\<forall>y. r = Inr y \<longrightarrow> K tr')"
  shows "G tr' \<and> (\<forall>y. r = Inr y \<longrightarrow> K tr')"
proof -
  obtain r0 tr0 where m: "m tr = (r0, tr0)" by (meson surj_pair)
  with assms show ?thesis by (cases r0) (auto simp: seq_op_def)
qed

lemma write_cache_ok:
  assumes "guarded uid pid p tr" "write_token_cache k uid pid p contents tr = (r, tr')"
  shows "guarded uid pid p tr' \<and> (\<forall>u. r = Inr u \<longrightarrow> replaced (cache_temp_path pid p) p contents tr')"
  using assms(2) unfolding write_token_cache_created
proof (rule seq_ok [where H = "hardened uid p"])
  show "guarded uid pid p tr" by (rule assms(1))
next
  fix u tr0
  assume g: "guarded uid pid p tr0" and h: "hardened uid p tr0"
    and run: "seq_op (os_call k (\<lambda>s. Inr (os_exists s (cache_temp_path pid p))) (\<lambda>_. Answered)) (\<lambda>there.
     seq_op (if there then os_call k (\<lambda>s. os_remove s (cache_temp_path pid p)) (\<lambda>_. Removed (cache_temp_path pid p))
       else lift_res (Inr ())) (\<lambda>_. write_created k (cache_temp_path pid p) p contents)) tr0 = (r, tr')"
  let ?tr = "tr0 @ [Answered]"
  from g h have tr: "guarded uid pid p ?tr" "hardened uid p ?tr" by (simp_all add: allowed_def hardened_later)
  from run have "seq_op (if os_exists (k tr0) (cache_temp_path pid p)
      then os_call k (\<lambda>s. os_remove s (cache_temp_path pid p)) (\<lambda>_. Removed (cache_temp_path pid p))
      else lift_res (Inr ())) (\<lambda>_. write_created k (cache_temp_path pid p) p contents) ?tr = (r, tr')"
    by (subst (asm) seq_op_def) (simp add: os_call_def)
  then show "guarded uid pid p tr' \<and> (\<forall>u. r = Inr u \<longrightarrow> replaced (cache_temp_path pid p) p contents tr')"
  proof (rule seq_ok [where H = "hardened uid p"])
    show "guarded uid pid p ?tr" by (rule tr)
    show "guarded uid pid p tr1 \<and> (\<forall>x. r1 = Inr x \<longrightarrow> hardened uid p tr1)"
      if "(if os_exists (k tr0) (cache_temp_path pid p)
        then os_call k (\<lambda>s. os_remove s (cache_temp_path pid p)) (\<lambda>_. Removed (cache_temp_path pid p))
        else lift_res (Inr ())) ?tr = (r1, tr1)" for r1 tr1
      using that tr
      by (auto simp: lift_res_def allowed_def hardened_later simp del: append_assoc split: if_splits elim!: os_call_cases)
  qed (use write_created_ok in blast)
qed (use write_parent_ok [OF assms(1)] in blast)

subsection \<open>The token\<close>

text \<open>The token of the cache: what the private file held, fresh and with the scopes.\<close>

definition token_from_cache :: "smoke_env \<Rightarrow> string list \<Rightarrow> token_set \<Rightarrow> trace \<Rightarrow> bool" where
  "token_from_cache env requested t tr \<longleftrightarrow>
     (\<exists>text. contents_read (sm_kernel env) text tr \<and> tk_de (sm_codec env) text = Inr t) \<and>
     (\<forall>h text. WroteContents h text \<notin> set tr) \<and>
     (\<forall>e. ts_expires_at t = Some e \<longrightarrow> sm_now env + int (300 * SEC) < e) \<and>
     (\<forall>q\<in>set requested. \<exists>a\<in>set (ts_scopes t). scope_matches a q)"

lemma cached_token_ok:
  assumes "cached_token env requested [] = (r, tr)"
  shows "guarded (sm_uid env) (sm_pid env) token_cache_path tr \<and> (\<forall>t. r = Inr (Some t) \<longrightarrow> token_from_cache env requested t tr)"
proof -
  obtain r0 tr0 where run: "read_token_cache (sm_kernel env) (sm_uid env) token_cache_path [] = (r0, tr0)" by (meson surj_pair)
  from read_cache_ok [OF guarded_Nil run, where pid = "sm_pid env"] assms run show ?thesis
    by (auto simp: cached_token_def seq_op_def lift_res_def token_from_cache_def is_expiring_within_def
        token_has_requested_scopes_def list_all_iff list_ex_iff split: sum.splits option.splits if_splits)
qed

text \<open>
  C12. The token the smoke test presents was read from its cache or granted by the service, whatever
  other processes do to the file system. The cache is only read through a handle that does not
  follow links and that was checked, after it was opened, to be a regular file of the user, made
  private, below a directory of the user's own made private; the token it holds is only taken when
  it stays valid for 300 seconds and has every requested scope. A granted token is written through
  a file that is created private and then renamed to the cache; nothing else is written, moved or
  removed.
\<close>

theorem token_cache_guarded:
  assumes "load_or_authorize env n c ([], sent) = (r, tr, sent')"
  shows "guarded (sm_uid env) (sm_pid env) token_cache_path tr \<and>
    (\<forall>t. r = Some (Inr t) \<longrightarrow> token_from_cache env (oc_scopes c) t tr \<and> sent' = sent \<or>
      authorize env n c sent = (Some (Inr t), sent') \<and>
      (\<exists>text. tk_ser (sm_codec env) t = Inr text \<and> replaced (cache_temp_path (sm_pid env) token_cache_path) token_cache_path text tr))"
proof -
  obtain r0 tr0 where cached: "cached_token env (oc_scopes c) [] = (r0, tr0)" by (meson surj_pair)
  note ok = cached_token_ok [OF cached]
  show ?thesis
  proof (cases r0)
    case (Inl e)
    with cached ok assms show ?thesis by (auto simp: load_or_authorize_def)
  next
    case (Inr found)
    show ?thesis
    proof (cases found)
      case (Some t)
      with Inr cached ok assms show ?thesis by (auto simp: load_or_authorize_def)
    next
      case None
      obtain r1 sent1 where auth: "authorize env n c sent = (r1, sent1)" by (meson surj_pair)
      show ?thesis
      proof (cases "\<exists>t text. r1 = Some (Inr t) \<and> tk_ser (sm_codec env) t = Inr text")
        case False
        with None Inr cached ok auth assms show ?thesis
          by (auto simp: load_or_authorize_def seq_op_def lift_res_def split: option.splits sum.splits)
      next
        case True
        then obtain t s where granted: "r1 = Some (Inr t)" "tk_ser (sm_codec env) t = Inr s" by blast
        obtain r2 tr2 where wrote: "write_token_cache (sm_kernel env) (sm_uid env) (sm_pid env) token_cache_path s tr0 = (r2, tr2)"
          by (meson surj_pair)
        from write_cache_ok [OF conjunct1 [OF ok] wrote] granted None Inr cached auth wrote assms show ?thesis
          by (cases r2) (auto simp: load_or_authorize_def)
      qed
    qed
  qed
qed

definition smoke_node :: "node_kind \<Rightarrow> metadata" where
  "smoke_node kind = \<lparr>mt_kind = kind, mt_uid = 5, mt_mode = 0x1A4, mt_id = (1, 7)\<rparr>"

definition smoke_kernel :: kernel where
  "smoke_kernel tr = \<lparr>os_current_dir = Inr [RootDir],
     os_lstat = \<lambda>p. Inr (smoke_node (if p = token_cache_path then Regular else Directory)),
     os_exists = \<lambda>_. True, os_open = \<lambda>_ _. Inr 3, os_fstat = \<lambda>_. Inr (smoke_node Regular), os_fchmod = \<lambda>_ _. Inr (),
     os_chmod = \<lambda>_ _. Inr (), os_mkdirs = \<lambda>_. Inr (), os_read = \<lambda>_. Inr ''old'', os_write = \<lambda>_ _. Inr (),
     os_sync = \<lambda>_. Inr (), os_rename = \<lambda>_ _. Inr (), os_remove = \<lambda>_. Inr (), os_database = \<lambda>_. Inr ()\<rparr>"

definition demo_smoke :: smoke_env where
  "demo_smoke = \<lparr>sm_kernel = smoke_kernel, sm_uid = 5, sm_pid = 7, sm_oauth = demo_oauth, sm_codec = demo_codec, sm_now = - (10 ^ 12)\<rparr>"

lemma token_cache_guarded_witness:
  "\<exists>tr. load_or_authorize demo_smoke 0 demo_oauth_config ([], []) = (Some (Inr demo_token), tr, []) \<and>
     token_from_cache demo_smoke (oc_scopes demo_oauth_config) demo_token tr"
proof -
  have os: "os_lstat (smoke_kernel tr) p = Inr (smoke_node (if p = token_cache_path then Regular else Directory))"
    "os_open (smoke_kernel tr) how p = Inr 3" "os_fstat (smoke_kernel tr) h = Inr (smoke_node Regular)"
    "os_fchmod (smoke_kernel tr) h m = Inr ()" "os_chmod (smoke_kernel tr) p m = Inr ()" "os_read (smoke_kernel tr) h = Inr ''old''"
    for tr p how h m by (simp_all add: smoke_kernel_def)
  have node: "mt_kind (smoke_node kind) = kind" "mt_uid (smoke_node kind) = 5" for kind by (simp_all add: smoke_node_def)
  have sel: "sm_kernel demo_smoke = smoke_kernel" "sm_uid demo_smoke = 5" "sm_codec demo_smoke = demo_codec" "sm_now demo_smoke = - (10 ^ 12)"
    "oc_scopes demo_oauth_config = []"
    by (simp_all add: demo_smoke_def demo_oauth_config_def)
  have parent: "path_parent token_cache_path = Some (butlast token_cache_path)" "butlast token_cache_path \<noteq> token_cache_path"
    by code_simp+
  have utf8: "BotStore.read_to_string (Some ''old'') = Inr ''old''" by code_simp
  have call: "os_call k f ev tr = (Inr x, tr @ [ev x])" if "f (k tr) = Inr x" for k :: kernel and f ev tr and x :: 'b
    using that by (simp add: os_call_def)
  have "\<exists>tr. read_token_cache smoke_kernel 5 token_cache_path [] = (Inr (Some ''old''), tr)"
    by (simp add: read_token_cache_def unless_kind_def seq_op_def lift_res_def smoke_calls_defs call os node parent utf8
        validate_owned_regular_file_def harden_parent_def harden_owned_directory_def)
  then obtain tr where "read_token_cache smoke_kernel 5 token_cache_path [] = (Inr (Some ''old''), tr)" by blast
  then have "load_or_authorize demo_smoke 0 demo_oauth_config ([], []) = (Some (Inr demo_token), tr, [])"
    by (simp add: load_or_authorize_def cached_token_def seq_op_def lift_res_def sel demo_codec_def is_expiring_within_def
        token_has_requested_scopes_def demo_token_def)
  with token_cache_guarded [OF this] show ?thesis by (auto simp: authorize_def split: prod.splits sum.splits)
qed

end
