(* ===== verification/Restart.thy ===== *)
theory Restart imports StoreProps MultiRoomProps begin

text \<open>
  A restart of an application that follows the documentation: the events of a pass are handled,
  the checkpoints of the pass are saved in the state log, the process ends at any time later, and
  a new process loads the log and gives its checkpoints to a new poller of all rooms.
\<close>

subsection \<open>The checkpoints in the log\<close>

lemma log_room_append: "log_room r (rs @ rs') = foldl (room_step r) (log_room r rs) (map sr_event rs')"
  by (simp add: log_room_def)

lemma log_room_id: "log_room r rs = Some c \<Longrightarrow> rc_room_id c = r"
proof (induction rs arbitrary: c rule: rev_induct)
  case (snoc x rs)
  then show ?case by (cases "sr_event x") (auto simp: log_room_append split: if_splits)
qed (simp add: log_room_def)

abbreviation save_record :: "time \<Rightarrow> room_checkpoint \<Rightarrow> state_record" where
  "save_record now q \<equiv> new_record (RoomCheckpointEvent q now)"

lemma log_room_saved:
  assumes "c \<in> set cs" "\<forall>q\<in>set cs. rc_room_id q = rc_room_id c \<longrightarrow> q = c"
  shows "log_room (rc_room_id c) (rs @ map (save_record now) cs) = Some c"
  using assms
proof (induction cs rule: rev_induct)
  case (snoc q cs)
  show ?case
  proof (cases "rc_room_id q = rc_room_id c")
    case True
    with snoc.prems(2) have "q = c" by simp
    then show ?thesis by (simp add: log_room_append)
  next
    case False
    with snoc have "log_room (rc_room_id c) (rs @ map (save_record now) cs) = Some c" by auto
    with False show ?thesis by (simp add: log_room_append)
  qed
qed simp

lemma append_checkpoints_log:
  assumes "fresh env now rs c" "codec_good (se_codec env)" "append_checkpoints env now cks c = (Inr (), c')"
  shows "sealed env (cx_file c') (rs @ map (save_record now \<circ> fst) cks)"
  using assms(1,3)
proof (induction cks arbitrary: rs c)
  case Nil
  then show ?case by (simp add: fresh_def lift_res_def)
next
  case (Cons x cks)
  obtain q io where x: "x = (q, io)" by (cases x)
  obtain res c1 where app: "append_after_current_snapshot_unlocked env io now (save_record now q) c = (res, c1)" by fastforce
  with Cons.prems(2) x have res: "res = Inr ()" and rest: "append_checkpoints env now cks c1 = (Inr (), c')"
    by (auto simp: seq_op_def split: sum.splits)
  have "trim (rc_room_id q) \<noteq> []"
    using app res by (auto simp: append_after_current_snapshot_unlocked_def apply_record_def new_record_def)
  then have "record_ok (save_record now q)" by simp
  from append_log [OF _ _ this assms(2) app, of rs] Cons.prems(1) res
  have "fresh env now (rs @ [save_record now q]) c1" by (simp add: fresh_def)
  from Cons.IH [OF this rest] x show ?case by simp
qed

lemma save_room_checkpoints_log:
  assumes "log_is env (cx_file c) rs" "codec_good (se_codec env)"
    and "save_room_checkpoints env io cks now c = (Inr (), c')"
  shows "sealed env (cx_file c') (rs @ map (save_record now \<circ> fst) cks)"
proof -
  obtain res c1 where r: "refresh_at_unlocked env io now c = (res, c1)" by fastforce
  with assms(3) have "res = Inr ()" "append_checkpoints env now cks c1 = (Inr (), c')"
    by (auto simp: save_room_checkpoints_def seq_op_def split: sum.splits)
  with refresh_log [OF assms(1) r] append_checkpoints_log [OF _ assms(2), of now rs c1 cks c'] show ?thesis
    by (simp add: fresh_def)
qed

text \<open>Only another checkpoint of the room changes what the log says of it.\<close>

definition spares_room :: "string \<Rightarrow> call \<Rightarrow> bool" where
  "spares_room r k \<longleftrightarrow> (case ca_cmd k of SaveRoom q \<Rightarrow> rc_room_id q \<noteq> r | _ \<Rightarrow> True)"

lemma verdict_spares_room:
  assumes "verdict env now cmd n rs = (res, new, n')" "\<forall>q. cmd = SaveRoom q \<longrightarrow> rc_room_id q \<noteq> r"
  shows "log_room r (rs @ new) = log_room r rs"
  using assms
  by (cases cmd)
    (auto simp: verdict_defs log_room_append and_then_Inr_iff split: if_splits mview.splits sum.splits)

definition room_saved :: "store_env \<Rightarrow> system \<Rightarrow> room_checkpoint \<Rightarrow> bool" where
  "room_saved env s c \<longleftrightarrow> codec_good (se_codec env) \<and> (\<exists>rs. sys_log env s rs \<and> log_room (rc_room_id c) rs = Some c)"

lemma room_saved_step:
  assumes "room_saved env s c" "spares_room (rc_room_id c) k"
  shows "room_saved env (sys_step env s k) c"
proof -
  obtain rs where rs: "sys_log env s rs" "log_room (rc_room_id c) rs = Some c" and cd: "codec_good (se_codec env)"
    using assms(1) by (auto simp: room_saved_def)
  obtain r new n' where v: "verdict env (ca_now k) (ca_cmd k) (sy_next s) rs = (r, new, n')"
    by (metis prod_cases3)
  have "log_room (rc_room_id c) (rs @ new) = Some c"
    using verdict_spares_room [OF v, of "rc_room_id c"] rs(2) assms(2) by (cases "ca_cmd k") (auto simp: spares_room_def)
  with call_log [OF rs(1) cd v] rs(2) cd show ?thesis by (auto simp: room_saved_def)
qed

lemma room_saved_run:
  "room_saved env s c \<Longrightarrow> \<forall>k\<in>set ks. spares_room (rc_room_id c) k \<Longrightarrow> room_saved env (run_calls env s ks) c"
  by (induction ks arbitrary: s) (simp_all add: room_saved_step)

lemma room_saved_load:
  assumes "room_saved env s c"
  shows "\<exists>snap file. load_at env no_faults now (sy_file s) = (Inr snap, file) \<and>
    room_checkpoint_of snap (rc_room_id c) = Some c \<and> bm_inv (room_checkpoints snap) \<and>
    (\<forall>(k, q)\<in>set (room_checkpoints snap). rc_room_id q = k)"
proof -
  obtain rs where rs: "log_is env (sy_file s) rs" "log_room (rc_room_id c) rs = Some c"
    using assms by (auto simp: room_saved_def sys_log_def)
  have "list_all record_ok rs" by (rule log_is_ok [OF rs(1)])
  then have view: "shows_view now (\<lambda>m. log_view m rs) (\<lambda>q. log_room q rs) (snapshot_of now rs)"
    using shows_view_log [OF replay_snapshot_of] by blast
  then have inv: "bm_inv (room_checkpoints (snapshot_of now rs))" by (simp add: shows_view_def snap_inv_def)
  have "rc_room_id q = k" if "(k, q) \<in> set (room_checkpoints (snapshot_of now rs))" for k q
  proof -
    have "bm_get (room_checkpoints (snapshot_of now rs)) k = Some q"
      using that bm_inv_distinct [OF inv] by simp
    then show ?thesis using view log_room_id [of k rs q] by (simp add: shows_view_def room_checkpoint_of_def)
  qed
  moreover obtain res f where rep: "repair_incomplete_tail (se_codec env) (se_path env) now no_faults (sy_file s) = (res, f)"
    by fastforce
  moreover have "res = Inr ()" "sealed env f rs" using repair_log [OF rs(1) rep] by (simp_all add: no_faults_def)
  moreover have "snapshot_load_at (se_codec env) (se_path env) now no_faults f = Inr (snapshot_of now rs)"
    using sealed_load [OF \<open>sealed env f rs\<close>] by (simp add: no_faults_def)
  ultimately show ?thesis using rs(2) view inv by (auto simp: load_at_def shows_view_def)
qed

subsection \<open>The pollers of the new process\<close>

definition restarted :: "multi_config \<Rightarrow> state_snapshot \<Rightarrow> multi_poller" where
  "restarted cfg snap = with_room_checkpoints (snapshot_room_checkpoints snap) (with_config cfg multi_poller_new)"

lemma fold_checkpoints_get:
  assumes "distinct (map rc_room_id cs)" "bm_inv acc"
  shows "bm_inv (fold (\<lambda>c. bm_insert (rc_room_id c) (g c)) cs acc) \<and>
    bm_get (fold (\<lambda>c. bm_insert (rc_room_id c) (g c)) cs acc) r =
      (case find (\<lambda>c. rc_room_id c = r) cs of Some c \<Rightarrow> Some (g c) | None \<Rightarrow> bm_get acc r)"
  using assms
proof (induction cs arbitrary: acc)
  case (Cons c cs)
  then have "bm_inv (bm_insert (rc_room_id c) (g c) acc)" by (simp add: inv_intros)
  note IH = Cons.IH [OF _ this]
  have "find (\<lambda>c'. rc_room_id c' = r) cs = None" if "rc_room_id c = r"
    using that Cons.prems(1) by (force simp: find_None_iff image_iff)
  with IH Cons.prems(1) show ?case by (auto simp: get_simps split: option.splits)
qed simp

lemma find_unique:
  assumes "x \<in> set xs" "P x" "\<forall>y\<in>set xs. P y \<longrightarrow> y = x"
  shows "find P xs = Some x"
proof (cases "find P xs")
  case None
  with assms(1,2) show ?thesis by (simp add: find_None_iff)
next
  case (Some y)
  then have "y \<in> set xs" "P y" by (auto simp: find_Some_iff)
  with Some assms(3) show ?thesis by simp
qed

lemma retain_all [simp]: "bm_retain (\<lambda>k _. True) m = m"
  by (simp add: bm_retain_def split_def)

lemma restarted_checkpoint:
  assumes "room_checkpoint_of snap r = Some c" "bm_inv (room_checkpoints snap)"
    "\<forall>(k, q)\<in>set (room_checkpoints snap). rc_room_id q = k"
  shows "bm_get (mp_rooms (restarted cfg snap)) k = None \<and> bm_get (mp_inactive_rooms (restarted cfg snap)) k = None \<and>
    bm_get (mp_checkpoints (restarted cfg snap)) r = Some (rc_seen_message_ids c, rc_initialize_empty c) \<and>
    mp_config (restarted cfg snap) = cfg"
proof -
  let ?cs = "snapshot_room_checkpoints snap"
  have ids: "map rc_room_id ?cs = map fst (room_checkpoints snap)"
    using assms(3) by (auto simp: snapshot_room_checkpoints_def)
  then have dist: "distinct (map rc_room_id ?cs)" using bm_inv_distinct [OF assms(2)] by simp
  have "(r, c) \<in> set (room_checkpoints snap)" using assms(1) by (auto simp: room_checkpoint_of_def dest: map_of_SomeD)
  then have c: "c \<in> set ?cs" "rc_room_id c = r" using assms(3) by (force simp: snapshot_room_checkpoints_def)+
  moreover have "\<forall>y\<in>set ?cs. rc_room_id y = r \<longrightarrow> y = c"
    using dist c by (metis distinct_map inj_onD)
  ultimately have "find (\<lambda>q. rc_room_id q = r) ?cs = Some c" by (intro find_unique)
  with fold_checkpoints_get [OF dist, of "[]" "\<lambda>c. (rc_seen_message_ids c, rc_initialize_empty c)" r]
  show ?thesis
    by (simp add: restarted_def with_room_checkpoints_def Let_def with_config_def multi_poller_new_def reseed_rooms_def
        get_simps bm_contains_def)
qed

lemma restarted_inv: "multi_inv (restarted cfg snap)"
  unfolding restarted_def by (intro multi_inv_with_checkpoints multi_inv_with_config multi_inv_new)

text \<open>Two pollers that answer every pass alike: they differ at most in the seed a reconfiguration uses.\<close>

definition same_poller :: "poller \<Rightarrow> poller \<Rightarrow> bool" where
  "same_poller p q \<longleftrightarrow> p\<lparr>po_seed_seen_message_ids := None\<rparr> = q\<lparr>po_seed_seen_message_ids := None\<rparr>"

lemma same_poller_fields:
  assumes "same_poller p q"
  shows "po_room_id p = po_room_id q" "po_config p = po_config q" "po_seen p = po_seen q" "po_backlog_next p = po_backlog_next q"
    "po_pending_fresh p = po_pending_fresh q" "po_pending_seen_ids p = po_pending_seen_ids q" "po_initialized p = po_initialized q"
  using assms by (cases p; cases q; simp add: same_poller_def)+

lemma same_poller_pages:
  assumes "same_poller p q"
  shows "poll_pages src p k n page ms ids local = poll_pages src q k n page ms ids local"
proof (induction k arbitrary: n page ms ids local)
  case (Suc k)
  show ?case unfolding poll_pages.simps same_poller_fields [OF assms] Suc.IH ..
qed simp

lemma same_poller_poll:
  assumes "same_poller p q"
  shows "fst (poller_poll_once src p) = fst (poller_poll_once src q)"
    "same_poller (snd (poller_poll_once src p)) (snd (poller_poll_once src q))"
proof -
  have eq: "poll_once_transaction_before src p before = poll_once_transaction_before src q before" for before
    by (simp only: poll_once_transaction_before_def first_request_def same_poller_pages [OF assms] same_poller_fields [OF assms])
  show "fst (poller_poll_once src p) = fst (poller_poll_once src q)"
    unfolding poller_poll_once_def eq by (simp split: sum.splits option.splits prod.splits)
  have "same_poller (apply_update u p) (apply_update u q)" for u
    using same_poller_fields [OF assms] by (simp add: same_poller_def apply_update_def)
  with assms show "same_poller (snd (poller_poll_once src p)) (snd (poller_poll_once src q))"
    unfolding poller_poll_once_def eq by (simp split: sum.splits option.splits prod.splits)
qed

text \<open>What a poller answers to a sequence of passes.\<close>

fun pass_answers :: "source list \<Rightarrow> poller \<Rightarrow> message list res list" where
  "pass_answers [] p = []"
| "pass_answers (src # srcs) p = fst (poller_poll_once src p) # pass_answers srcs (snd (poller_poll_once src p))"

lemma same_poller_answers: "same_poller p q \<Longrightarrow> pass_answers srcs p = pass_answers srcs q"
  by (induction srcs arbitrary: p q) (simp_all add: same_poller_poll)

subsection \<open>Saving the checkpoints of a pass\<close>

definition save_call ::
    "store_env \<Rightarrow> nat \<Rightarrow> io_faults \<Rightarrow> (room_checkpoint \<times> io_faults) list \<Rightarrow> time \<Rightarrow> system \<Rightarrow> unit res \<times> system" where
  "save_call env h io cks now s =
     (case save_room_checkpoints env io cks now (handle_ctx s h) of (r, c) \<Rightarrow>
        (r, \<lparr>sy_snapshots = (sy_snapshots s)(h := cx_snapshot c), sy_file = cx_file c, sy_next = cx_next_attempt c\<rparr>))"

lemma save_call_saved:
  assumes "store_inv env s" "save_call env h io cks now s = (Inr (), s')"
    and "c \<in> set (map fst cks)" "\<forall>q\<in>set (map fst cks). rc_room_id q = rc_room_id c \<longrightarrow> q = c"
  shows "room_saved env s' c"
proof -
  obtain rs where rs: "log_is env (cx_file (handle_ctx s h)) rs" and cd: "codec_good (se_codec env)"
    using assms(1) by (auto simp: store_inv_def sys_log_def handle_ctx_def)
  obtain x where x: "save_room_checkpoints env io cks now (handle_ctx s h) = (Inr (), x)" "sy_file s' = cx_file x"
    using assms(2) by (auto simp: save_call_def split: prod.splits)
  have "sealed env (cx_file x) (rs @ map (save_record now) (map fst cks))"
    using save_room_checkpoints_log [OF rs cd x(1)] by simp
  with log_room_saved [OF assms(3,4), of rs now] x(2) cd sealed_log_is show ?thesis
    unfolding room_saved_def sys_log_def by metis
qed

text \<open>Without faults, checkpoints of proper rooms are saved.\<close>

lemma append_checkpoints_ok:
  assumes "fresh env now rs c" "codec_good (se_codec env)"
    and "\<forall>(q, io)\<in>set cks. trim (rc_room_id q) \<noteq> [] \<and> io_write io = None"
  shows "\<exists>c'. append_checkpoints env now cks c = (Inr (), c')"
  using assms(1,3)
proof (induction cks arbitrary: rs c)
  case Nil
  then show ?case by (simp add: lift_res_def)
next
  case (Cons x cks)
  obtain q io where x: "x = (q, io)" by (cases x)
  obtain res c1 where app: "append_after_current_snapshot_unlocked env io now (save_record now q) c = (res, c1)" by fastforce
  have ok: "record_ok (save_record now q)" using Cons.prems(2) x by simp
  from append_log [OF _ _ ok assms(2) app, of rs] Cons.prems x
  have "res = Inr ()" "fresh env now (rs @ [save_record now q]) c1"
    by (auto simp: fresh_def split: if_splits)
  with Cons.IH [OF this(2)] Cons.prems(2) app x show ?case by (auto simp: seq_op_def)
qed

lemma save_call_ok:
  assumes "store_inv env s" "\<forall>(q, io)\<in>set cks. trim (rc_room_id q) \<noteq> [] \<and> io_write io = None"
  shows "\<exists>s'. save_call env h no_faults cks now s = (Inr (), s')"
proof -
  obtain rs where rs: "log_is env (cx_file (handle_ctx s h)) rs" and cd: "codec_good (se_codec env)"
    using assms(1) by (auto simp: store_inv_def sys_log_def handle_ctx_def)
  obtain res c1 where r: "refresh_at_unlocked env no_faults now (handle_ctx s h) = (res, c1)" by fastforce
  with refresh_ok [OF rs, of no_faults now] have res: "res = Inr ()" by (auto simp: no_faults_def)
  with refresh_log [OF rs r] have "fresh env now rs c1" by (simp add: fresh_def)
  from append_checkpoints_ok [OF this cd assms(2)] r res show ?thesis
    by (auto simp: save_call_def save_room_checkpoints_def seq_op_def split: prod.splits)
qed

subsection \<open>The whole way\<close>

lemma checkpoint_ids: "rc_seen_message_ids (checkpoint_from_seen r s) = sn_order s"
  by (simp add: checkpoint_from_seen_def checkpoint_known_empty_def checkpoint_new_def)

lemma resumed_poller:
  assumes "poller_inv p" "po_initialized p" "\<not> has_pending_backlog p" "c = checkpoint_from_seen r (po_seen p)"
    and "po_room_id p = r" "po_config p = cfg"
  shows "same_poller (new_room_poller cfg r (Some (rc_seen_message_ids c, rc_initialize_empty c))) p"
proof -
  have seen: "seen_inv (po_seen p)" "length (sn_order (po_seen p)) \<le> max (pc_max_seen_ids cfg) 1"
    using assms(1,6) by (simp_all add: poller_inv_def)
  have "new_room_poller cfg r (Some (rc_seen_message_ids c, rc_initialize_empty c)) = seeded_poller cfg r (po_seen p)"
    using poller_from_checkpoint [OF seen assms(4)] by (simp add: new_room_poller_def Let_def)
  with assms(2,3,5,6) show ?thesis
    by (cases p) (simp add: same_poller_def seeded_poller_def has_pending_backlog_def)
qed

lemma restart_poller:
  assumes "room_saved env s c" "ro_id room = Some (rc_room_id c)" "room \<in> set rooms"
  shows "\<exists>snap f e. load_at env no_faults now (sy_file s) = (Inr snap, f) \<and>
    bm_get (mp_rooms (snd (refresh_rooms t (Inr rooms) (restarted cfg snap)))) (rc_room_id c) = Some e \<and>
    en_poller e = new_room_poller (mc_room_polling cfg) (rc_room_id c) (Some (rc_seen_message_ids c, rc_initialize_empty c))"
proof -
  obtain snap f where load: "load_at env no_faults now (sy_file s) = (Inr snap, f)"
    and snap: "room_checkpoint_of snap (rc_room_id c) = Some c" "bm_inv (room_checkpoints snap)"
      "\<forall>(k, q)\<in>set (room_checkpoints snap). rc_room_id q = k"
    using room_saved_load [OF assms(1), of now] by auto
  let ?m = "(restarted cfg snap)\<lparr>mp_last_room_discovery := Some t\<rparr>"
  have inv: "multi_inv ?m" using restarted_inv [of cfg snap] by (simp add: multi_inv_def)
  note m = restarted_checkpoint [OF snap, of cfg]
  have key: "rc_room_id c \<in> room_keys rooms" using assms(2,3) by (auto simp: room_keys_def)
  have "bm_get (mp_rooms (apply_discovery rooms ?m)) (rc_room_id c) = Some \<lparr>en_room = latest_room rooms (rc_room_id c),
      en_poller = poller_for (mc_room_polling (mp_config ?m)) ?m (rc_room_id c)\<rparr>"
    using apply_discovery_spec [OF inv refl, of rooms] key by simp
  with m load show ?thesis by (simp add: refresh_rooms_def Let_def poller_for_def)
qed

end
