(* ===== verification/BotRestart.thy ===== *)
theory BotRestart imports BotMainProps begin

text \<open>A reply of the account bot is remembered in its file, from which the next process starts.\<close>

definition persisted :: "string \<Rightarrow> store_state \<Rightarrow> bool" where
  "persisted i s \<longleftrightarrow> store_ok (fst s) \<and> i \<in> set (ps_ids (fst s)) \<and> snd s = Some (render_state (fst s))"

lemma complete_persisted:
  "complete_at Persisted i now s = (Inr (), absorb_volatile (completed i now (fst s)),
     Some (render_state (absorb_volatile (completed i now (fst s)))))"
proof -
  have "complete_at Persisted i now (fst s, snd s) = (Inr (), absorb_volatile (completed i now (fst s)),
      Some (render_state (absorb_volatile (completed i now (fst s)))))"
    unfolding complete_eq by (simp add: persist_def persist_state_def)
  then show ?thesis by simp
qed

lemma remember_persists:
  assumes "store_ok (fst s)" "good_id i" "i \<notin> set (ps_ids (fst s))"
    "length (ps_volatile (fst s)) < ps_max_ids (fst s)"
  shows "fst (remember_or_volatile i Persisted now later s) = Inr () \<and> persisted i (snd (remember_or_volatile i Persisted now later s))"
proof -
  let ?t = "absorb_volatile (completed i now (fst s))"
  have "i \<in> set (ps_ids ?t)"
    by (rule recent_absorb [OF completed_ok [OF assms(1,2)] recent_completed [OF assms]])
  moreover have "store_ok ?t" by (rule absorb_ok [OF completed_ok [OF assms(1,2)]])
  ultimately show ?thesis by (simp add: complete_persisted remember_or_volatile_def persisted_def)
qed

lemma persists_after_call:
  assumes "alone w" "\<forall>n. wk_fault w n = Persisted" "begun i st" "good_id i" "if_id im = i"
  shows "persisted i (bt_store (snd (remember_after_reply_or_retry_after cfg w im i st)))"
proof -
  let ?run = "remember_or_volatile i (wk_fault w (bt_tick st)) (wk_now w (bt_tick st)) (wk_later w (bt_tick st)) (bt_store st)"
  have "1 \<le> ps_max_ids (fst (bt_store st))" using assms(3) by (simp add: begun_def store_ok_def)
  then have "fst ?run = Inr () \<and> persisted i (snd ?run)"
    using remember_persists [of "bt_store st" i] assms by (simp add: begun_def)
  then show ?thesis
    by (cases ?run)
      (auto simp: remember_after_reply_or_retry_after_def finish_error_def flight_remember_after_reply_def
        alone_call [OF assms(1)] set_failed_def assms(5))
qed

lemma worker_persists:
  assumes "alone w" "\<forall>n. wk_fault w n = Persisted" "begun i st" "good_id i" "if_id im = i"
    and "maybe_accepted (wk_create_message w (create_message_reply_text r p t))"
  shows "persisted i (bt_store (snd (send_reply_worker cfg w im i r p t sl st)))"
proof -
  let ?st = "send_request (create_message_reply_text r p t) st"
  have b: "begun i ?st" using assms(3) by (simp add: begun_def send_request_def)
  note rem = persists_after_call [OF assms(1,2) b assms(4)]
  show ?thesis
  proof (cases "wk_create_message w (create_message_reply_text r p t)")
    case (Inr reply)
    then show ?thesis using rem [OF assms(5), of cfg] by (simp add: send_reply_worker_def)
  next
    case (Inl e)
    then have e: "create_message_error_could_have_been_accepted e" using assms(6) by (simp add: maybe_accepted_def)
    then have "\<not> is_webex_api_status e 404" "\<not> (case e of Api _ \<Rightarrow> True | _ \<Rightarrow> False)"
      by (cases e; simp add: create_message_error_could_have_been_accepted_def is_webex_api_status_def)+
    then show ?thesis
      using Inl e rem [of "mark_reply_started im" cfg] assms(5) by (simp add: send_reply_worker_def mark_reply_started_def)
  qed
qed

lemma reply_persisted:
  assumes "alone w" "\<forall>n. wk_fault w n = Persisted" "store_ok (fst (bt_store st))"
    and "parse (se_data ev) = Some m" "bm_id m = Some i" "good_id i"
    and "bt_sent (snd (handle_event parse cfg w ev st)) \<noteq> bt_sent st" "\<forall>req. maybe_accepted (wk_create_message w req)"
  shows "persisted i (bt_store (snd (handle_event parse cfg w ev st)))"
proof -
  have run: "snd (handle_event parse cfg w ev st) = snd (handle_message cfg w i m st)"
    using assms(4,5,7) by (auto simp: handle_event_def split: if_splits)
  have "via_worker cfg w i st (snd (handle_message cfg w i m st))" by (rule via_handle [OF assms(1,3,6)])
  then obtain im r p t sl st0 where wk: "if_id im = i" "begun i st0"
    "snd (handle_event parse cfg w ev st) = snd (send_reply_worker cfg w im i r p t sl st0)"
    using assms(7) run unfolding via_worker_def by auto
  show ?thesis
    unfolding wk(3) by (rule worker_persists [OF assms(1,2) wk(2) assms(6) wk(1)]) (use assms(8) in blast)
qed

text \<open>The next process starts from the file.\<close>

lemma main_loads:
  assumes "bot_main b d = (Inr (cfg, st), d')" "bo_read_fault b = None"
  shows "\<exists>s. bot_load None (ac_max_processed_ids cfg) (bo_now b) d = Inr s \<and> fst (bt_store st) = s \<and> bt_sent st = []"
proof -
  obtain cfg0 where "account_bot_new b cfg0 d = (Inr (cfg, st), d')"
    using assms(1) by (auto simp: bot_main_def split: sum.splits)
  then show ?thesis
    by (auto simp: account_bot_new_def open_processed_def verify_persistable_def and_then_Inr_iff assms(2)
        split: sum.splits prod.splits)
qed

lemma persisted_loads:
  assumes "persisted i s" "bot_main b (snd s) = (Inr (cfg, st), d)" "bo_read_fault b = None"
    and "ac_max_processed_ids cfg = ps_max_ids (fst s)"
  shows "remembers (fst (bt_store st)) i \<and> bt_sent st = []"
proof -
  have "bot_load None (ac_max_processed_ids cfg) (bo_now b) (snd s) = Inr (reloaded (bo_now b) (fst s))"
    using load_render [of "fst s"] assms(1,4) by (simp add: persisted_def)
  with main_loads [OF assms(2,3)] assms(1) show ?thesis by (auto simp: persisted_def remembers_def reloaded_def)
qed

text \<open>A bot that keeps two messages, and starts whatever its file holds.\<close>

definition demo_reboot :: boot where
  "demo_reboot = demo_boot\<lparr>bo_vars := [''WEBEX_SIDECAR_TOKEN'' \<mapsto> ''k1'', ''WEBEX_ACCOUNT_BOT_MOCK'' \<mapsto> ''1'',
     ''WEBEX_ACCOUNT_BOT_MAX_PROCESSED_IDS'' \<mapsto> ''2'']\<rparr>"

lemma demo_reboot_starts:
  assumes "bot_load None 2 (bo_now demo_reboot) d = Inr s"
  shows "\<exists>cfg st. bot_main demo_reboot d = (Inr (cfg, st), Some (render_state s)) \<and> ac_max_processed_ids cfg = 2"
proof -
  let ?vars = "bo_vars demo_reboot"
  have vars: "?vars ''WEBEX_SIDECAR_TOKEN'' = Some ''k1''" "?vars ''WEBEX_ACCOUNT_BOT_MOCK'' = Some ''1''"
    "?vars ''WEBEX_ACCOUNT_BOT_PATH'' = None" "?vars ''WEBEX_ACCOUNT_BOT_HEALTH_PATH'' = None"
    "?vars ''WEBEX_ACCOUNT_BOT_MAX_PROCESSED_IDS'' = Some ''2''"
    by (simp_all add: demo_reboot_def)
  have "show_nat 2 = ''2''" by code_simp
  then have two: "parse_uint U64_MAX ''2'' = Some 2" using parse_uint_show_nat [of 2 U64_MAX] by simp
  have "trim ''k1'' \<noteq> []" by code_simp
  moreover have "validate_account_bot_paths (env_or ?vars ''WEBEX_ACCOUNT_BOT_PATH'' ''/webex/events'')
      (env_or ?vars ''WEBEX_ACCOUNT_BOT_HEALTH_PATH'' ''/healthz'') = Inr ()"
    by (simp add: env_or_def env_optional_def vars validate_account_bot_paths_def validate_http_path_def starts_with_def)
  moreover have "env_usize ?vars ''WEBEX_ACCOUNT_BOT_MAX_PROCESSED_IDS'' 10000 = 2" by (simp add: env_usize_def vars two)
  ultimately obtain cfg where cfg: "config_from_env ?vars = Inr cfg" "bc_mock cfg" "ac_max_processed_ids cfg = 2"
      "bc_self_person_id cfg = env_optional ?vars ''WEBEX_ACCOUNT_BOT_SELF_PERSON_ID''"
    by (auto simp: config_from_env_def Let_def vars env_bool_def)
  have fields: "bo_resolve demo_reboot = (\<lambda>_. Inr [True])" "bo_listen demo_reboot = (\<lambda>_. Inr ())" "bo_read_fault demo_reboot = None"
    "bo_write demo_reboot = Persisted" by (simp_all add: demo_reboot_def demo_boot_def)
  have "env_optional ?vars ''WEBEX_ACCOUNT_BOT_SELF_PERSON_ID'' = None" by (simp add: env_optional_def demo_reboot_def)
  then have self: "own_person_id cfg None [] = (Inr None, [])" by (simp add: own_person_id_def lift_res_def cfg(4))
  have "open_processed demo_reboot cfg d = (Inr s, Some (render_state s))"
    by (simp add: open_processed_def fields cfg(3) assms verify_persistable_def persist_state_def)
  then show ?thesis
    by (simp add: bot_main_def cfg(1,2,3) account_bot_new_def validate_loopback_bind_def loopback_only_def fields self)
qed

lemma worker_max:
  assumes "alone w" "\<forall>n. wk_fault w n = Persisted" "wk_create_message w (create_message_reply_text r p t) = Inr x" "if_id im = i"
  shows "ps_max_ids (fst (bt_store (snd (send_reply_worker cfg w im i r p t sl st)))) = ps_max_ids (fst (bt_store st))"
  using assms
  by (simp add: send_reply_worker_def remember_after_reply_or_retry_after_def finish_error_def flight_remember_after_reply_def
      alone_call remember_or_volatile_def set_failed_def send_request_def complete_persisted)

lemma demo_max:
  "ps_max_ids (fst (bt_store (snd (handle_event (\<lambda>_. Some demo_bot_message) demo_bot_config
     (demo_world\<lparr>wk_fault := \<lambda>_. Persisted\<rparr>) demo_event demo_bot)))) = 2"
proof -
  let ?w = "demo_world\<lparr>wk_fault := \<lambda>_. Persisted\<rparr>"
  have w: "alone ?w" "\<forall>n. wk_fault ?w n = Persisted" "wk_create_message ?w req = Inr demo_reply" for req
    by (simp_all add: alone_def demo_world_def)
  have "ps_max_ids (fst (bt_store (snd (case send_reply_worker cfg ?w im i r p t sl st of (Inl e, st) \<Rightarrow> (Inl e, st)
      | (Inr out, st) \<Rightarrow> (Inr (g out), st))))) = ps_max_ids (fst (bt_store st))" if "if_id im = i"
    for cfg im i r p t sl st and g :: "reply_outcome \<Rightarrow> bot_action"
    using worker_max [OF w(1,2) w(3) that, of cfg r p t sl st] by (auto split: prod.splits sum.splits)
  moreover have "bc_max_events demo_bot_config = 5" "bc_allowed_room_ids demo_bot_config = []"
    "bc_mock demo_bot_config = False" "bc_self_person_id demo_bot_config = Some ''me''" "bt_slots demo_bot = 0"
    "wk_worker_lost ?w = None" "ps_max_ids (attempted i l n demo_store) = 2" for i l n
    by (simp_all add: demo_bot_config_def demo_world_def demo_bot_def attempted_def prune_expired_def demo_store_def)
  ultimately show ?thesis
    by (simp add: handle_event_def demo_event_def message_created_def sidecar_event_new_def demo_bot_message_def
        handle_message_def demo_begin [of "\<lambda>_. Persisted", OF refl] start_answer_def try_acquire_event_slot_def answer_message_def
        after_hydration_def send_reply_def needs_hydration_def room_allowed_def Let_def)
qed

end
