(* ===== verification/ActionLog.thy ===== *)
theory ActionLog imports Prelude "HOL-Library.Word" "HOL-Library.Multiset" begin

text \<open>
  The log lines the account bot prints about its actions (\<open>log_action_json\<close> of
  \<open>src/examples/account_bot.rs\<close>): every line is written by a thread of its own, and a shared
  atomic counter of the lines under way bounds them. The threads run in any order; each prints its
  line, or fails to, and then lowers the counter. The lemmas show that the counter never wraps and
  never passes the bound, and that no accepted line gets lost or is printed twice.
\<close>

definition max_pending_action_logs :: "64 word" where
  "max_pending_action_logs = 128"

text \<open>The lines whose thread has not printed yet, and the threads that have but still count.\<close>

record 'a action_log =
  al_pending :: "64 word"
  al_queued :: "'a list"
  al_ending :: nat
  al_printed :: "'a list"
  al_failed :: "'a list"

definition action_log_init :: "'a action_log" where
  "action_log_init = \<lparr>al_pending = 0, al_queued = [], al_ending = 0, al_printed = [], al_failed = []\<rparr>"

definition log_action_json :: "'a \<Rightarrow> 'a action_log \<Rightarrow> bool \<times> 'a action_log" where
  "log_action_json a st =
     (if al_pending st < max_pending_action_logs then
        (True, st\<lparr>al_pending := al_pending st + 1, al_queued := al_queued st @ [a]\<rparr>)
      else (False, st))"

definition job_prints :: "nat \<Rightarrow> bool \<Rightarrow> 'a action_log \<Rightarrow> 'a action_log" where
  "job_prints i ok st =
     (if i < length (al_queued st) then
        let a = al_queued st ! i;
            rest = st\<lparr>al_queued := take i (al_queued st) @ drop (Suc i) (al_queued st), al_ending := Suc (al_ending st)\<rparr> in
        if ok then rest\<lparr>al_printed := al_printed st @ [a]\<rparr> else rest\<lparr>al_failed := al_failed st @ [a]\<rparr>
      else st)"

definition job_ends :: "'a action_log \<Rightarrow> 'a action_log" where
  "job_ends st =
     (case al_ending st of 0 \<Rightarrow> st | Suc n \<Rightarrow> st\<lparr>al_pending := al_pending st - 1, al_ending := n\<rparr>)"

datatype 'a log_event = LogAction 'a | JobPrints nat bool | JobEnds

fun log_step :: "'a log_event \<Rightarrow> 'a action_log \<Rightarrow> 'a action_log" where
  "log_step (LogAction a) st = snd (log_action_json a st)"
| "log_step (JobPrints i ok) st = job_prints i ok st"
| "log_step JobEnds st = job_ends st"

fun log_accepted :: "'a log_event list \<Rightarrow> 'a action_log \<Rightarrow> 'a list" where
  "log_accepted [] st = []"
| "log_accepted (LogAction a # es) st =
     (if fst (log_action_json a st) then [a] else []) @ log_accepted es (log_step (LogAction a) st)"
| "log_accepted (e # es) st = log_accepted es (log_step e st)"

subsection \<open>The counter is the number of threads\<close>

definition log_inv :: "'a action_log \<Rightarrow> bool" where
  "log_inv st \<longleftrightarrow> unat (al_pending st) = length (al_queued st) + al_ending st \<and> unat (al_pending st) \<le> 128"

lemma log_inv_init: "log_inv action_log_init"
  by (simp add: log_inv_def action_log_init_def)

lemma unat_below: "(w :: 64 word) < max_pending_action_logs \<longleftrightarrow> unat w < 128"
  by (simp add: max_pending_action_logs_def word_less_nat_alt)

lemma unat_plus_one: "unat (w :: 64 word) < 128 \<Longrightarrow> unat (w + 1) = unat w + 1"
  using unat_add_lem [of w 1] by simp

lemma unat_minus_one_pos: "0 < unat (w :: 64 word) \<Longrightarrow> unat (w - 1) = unat w - 1"
  by (rule unat_minus_one) auto

lemma log_inv_step:
  assumes "log_inv st"
  shows "log_inv (log_step e st)"
proof (cases e)
  case (LogAction a)
  with assms show ?thesis by (auto simp: log_inv_def log_action_json_def unat_below unat_plus_one)
next
  case (JobPrints i ok)
  with assms show ?thesis by (auto simp: log_inv_def job_prints_def Let_def)
next
  case JobEnds
  with assms show ?thesis by (auto simp: log_inv_def job_ends_def unat_minus_one_pos split: nat.splits)
qed

lemma log_inv_run: "log_inv st \<Longrightarrow> log_inv (fold log_step es st)"
  by (induction es arbitrary: st) (simp_all add: log_inv_step)

text \<open>A line is refused only when 128 threads are under way.\<close>

lemma log_refused:
  assumes "log_inv st"
  shows "fst (log_action_json a st) \<longleftrightarrow> length (al_queued st) + al_ending st < 128"
  using assms by (simp add: log_inv_def log_action_json_def unat_below)

subsection \<open>No line is lost or doubled\<close>

definition log_lines :: "'a action_log \<Rightarrow> 'a multiset" where
  "log_lines st = mset (al_queued st) + mset (al_printed st) + mset (al_failed st)"

lemma mset_take_out:
  assumes "i < length xs"
  shows "mset xs = add_mset (xs ! i) (mset (take i xs @ drop (Suc i) xs))"
  by (subst id_take_nth_drop [OF assms]) simp

lemma log_lines_step:
  "log_lines (log_step e st) = log_lines st + mset (log_accepted [e] st)"
proof (cases e)
  case (JobPrints i ok)
  then show ?thesis
    using mset_take_out [of i "al_queued st"] by (simp add: log_lines_def job_prints_def Let_def)
qed (simp_all add: log_lines_def log_action_json_def job_ends_def split: nat.splits)

lemma log_accepted_Cons: "log_accepted (e # es) st = log_accepted [e] st @ log_accepted es (log_step e st)"
  by (cases e) simp_all

lemma log_lines_run: "log_lines (fold log_step es st) = log_lines st + mset (log_accepted es st)"
proof (induction es arbitrary: st)
  case (Cons e es)
  then show ?case by (subst log_accepted_Cons) (simp add: log_lines_step)
qed simp

text \<open>From every state the threads can all end, and then every accepted line was printed or failed.\<close>

lemma log_drains:
  assumes "log_inv st"
  shows "\<exists>es. log_accepted es st = [] \<and> al_queued (fold log_step es st) = [] \<and> al_pending (fold log_step es st) = 0"
  using assms
proof (induction "2 * length (al_queued st) + al_ending st" arbitrary: st rule: less_induct)
  case less
  show ?case
  proof (cases "al_queued st = [] \<and> al_ending st = 0")
    case True
    with less.prems have "al_pending st = 0" by (simp add: log_inv_def unat_eq_0)
    with True show ?thesis by (intro exI [of _ "[]"]) simp
  next
    case False
    obtain e where e: "log_accepted [e] st = []"
      "2 * length (al_queued (log_step e st)) + al_ending (log_step e st) < 2 * length (al_queued st) + al_ending st"
    proof (cases "al_queued st")
      case Nil
      with False show ?thesis by (intro that [of JobEnds]) (auto simp: job_ends_def split: nat.splits)
    next
      case (Cons a as)
      then show ?thesis by (intro that [of "JobPrints 0 True"]) (simp_all add: job_prints_def Let_def)
    qed
    from less.hyps [OF e(2) log_inv_step [OF less.prems]] obtain es where
      "log_accepted es (log_step e st) = []" "al_queued (fold log_step es (log_step e st)) = []"
      "al_pending (fold log_step es (log_step e st)) = 0" by blast
    with e(1) show ?thesis by (intro exI [of _ "e # es"]) (subst log_accepted_Cons, simp)
  qed
qed

end
