(* ===== verification/Spec2Isabelle.thy ===== *)
theory Spec2Isabelle imports StoreProps PathLock PollerProps MultiRoomProps BotProps FrontProps
  ClientProps TokenProps CliProps CliAuthProps CliRunProps SqliteProps SqliteOpenProps BotMainProps
  ReceiverMain SmokeProps Restart BotRestart ActionLog begin

text \<open>
  A model of \<open>webex-headless-messenger\<close>: a Rust library that reads and writes Webex messages over
  the REST interface without a browser, a command line tool and an account bot on top of it.

  \<^bold>\<open>How the program is put together.\<close>
  The client (\<open>src/client.rs\<close>) sends authenticated requests, follows the Link headers of listings
  (\<open>src/pagination.rs\<close>) and takes its token from a provider that refreshes it
  (\<open>src/auth.rs\<close>). The pollers (\<open>src/realtime.rs\<close>) turn listings into a stream of new messages,
  for one room or for every joined room. A bot keeps what it has handled in a log file shared by several
  processes (\<open>src/state.rs\<close>); the account bot of \<open>examples/account_bot.rs\<close> has its own, simpler
  store and receives messages over HTTP from a sidecar. The command line tool
  (\<open>src/bin/webex-headless.rs\<close>) drives all of it from arguments.

  \<^bold>\<open>Theories, in the order of the code.\<close>
  \<^item> \<open>Prelude\<close>, \<open>RustStr\<close>, \<open>BTree\<close>: results as sums, operations that thread a state
    (\<^const>\<open>seq_op\<close>), the standard library's strings, number texts and ordered maps. \<open>BTree\<close> states
    the interfaces \<open>ordered_map\<close> and \<open>ordered_set\<close> and interprets them on sorted lists.
  \<^item> \<open>ErrorModel\<close>: \<open>src/error.rs\<close>.
  \<^item> \<open>StateLog\<close> (records and replay), \<open>LogFile\<close> (bytes, torn tails, repair), \<open>StateStore\<close> (the
    operations of \<open>JsonlStateStore\<close>), \<open>PathLock\<close> (the lock of a state path): \<open>src/state.rs\<close>.
    \<open>PlainCodec\<close> is a codec that meets the hypotheses about serde. \<open>StoreSpec\<close> is the abstract
    specification and the simulation, \<open>LeaseGuard\<close> the contract of attempt leases as a locale, \<open>StoreRuns\<close>
    the histories of calls and the interpretation of the contract, \<open>StoreProps\<close> the properties.
  \<^item> \<open>SeenIds\<close>, \<open>Types\<close>, \<open>Poller\<close>: the poller of one room; \<open>CatchUp\<close> (a feed of messages and
    what a pass sees of it), \<open>PollerRuns\<close>, \<open>PollerProps\<close>: its lemmas and properties.
  \<^item> \<open>MultiRoom\<close>: the poller of all rooms; \<open>MultiRoomInv\<close>, \<open>MultiRoomRefresh\<close>,
    \<open>MultiRoomPass\<close>, \<open>Discovery\<close>, \<open>MultiRoomProps\<close>.
  \<^item> \<open>BotIds\<close>, \<open>BotStore\<close>, \<open>BotTypes\<close>, \<open>Bot\<close>, \<open>BotHandler\<close>: the account bot's
    processed-message store and its message handler; \<open>BotStoreInv\<close>, \<open>BotReload\<close>, \<open>BotLease\<close>
    (a second interpretation of the lease contract), \<open>BotHandlerProps\<close>, \<open>BotReplies\<close>, \<open>BotProps\<close>.
  \<^item> \<open>Http\<close>, \<open>BotFront\<close>: how the account bot, the sidecar receiver of the command line tool and
    \<open>examples/sidecar_receiver.rs\<close> read, route and answer a request; \<open>HttpProps\<close>, \<open>FrontProps\<close>.
  \<^item> \<open>Resources\<close> (\<open>src/types.rs\<close>), \<open>Links\<close> (\<open>src/pagination.rs\<close>, \<open>src/rooms.rs\<close>,
    \<open>src/webhooks.rs\<close> and the address checks of the client), \<open>RestClient\<close> (\<open>src/client.rs\<close>);
    \<open>LinksProps\<close>, \<open>ClientProps\<close>.
  \<^item> \<open>Auth\<close>, \<open>TokenProvider\<close> (\<open>src/auth.rs\<close>): the OAuth forms and answers, token stores as a locale,
    the refreshing provider as a step relation whose steps are the pieces between two awaits;
    \<open>TokenProps\<close>.
  \<^item> \<open>CliParse\<close>, \<open>CliProps\<close>: the arguments of the command line tool.
  \<^item> \<open>TokenFiles\<close>, \<open>CliAuth\<close>: the token files of the command line tool (how their paths are compared and
    how they are replaced), where a command takes its token from, the refresh command and the device
    login; \<open>TokenFilesProps\<close> (a token file keeps the contract of a token store), \<open>CliAuthProps\<close>.
  \<^item> \<open>Spawned\<close>, \<open>SpawnedProps\<close>: the spawned loops around the pollers and the channel to their
    receiver.
  \<^item> \<open>CliRun\<close>, \<open>CliRunProps\<close>: how the command line tool executes its commands.
  \<^item> \<open>BotMain\<close>, \<open>BotMainProps\<close>: the configuration, the start and the accept loop of the account bot.
    \<open>ReceiverMain\<close>: the start and the loop of \<open>examples/sidecar_receiver.rs\<close>.
  \<^item> \<open>Syscalls\<close>: a Unix file system that other processes change between any two calls, as a kernel that
    answers each call from the trace so far. \<open>SqliteOpen\<close>, \<open>SqliteOpenProps\<close> (opening the cache
    of \<open>src/state.rs\<close>), \<open>SmokeTool\<close>, \<open>SmokeProps\<close> (\<open>examples/smoke.rs\<close> and its token
    cache) are programs over it.
  \<^item> \<open>SqliteCache\<close>, \<open>SqliteProps\<close>: the tables of \<open>SqliteStateCache\<close>, its rebuilds and queries.
  \<^item> \<open>Restart\<close>, \<open>BotRestart\<close>: a new process that loads the state log of the pollers or the state
    file of the account bot; the properties that span these components stand in this theory.
  \<^item> \<open>ActionLog\<close>: the bounded number of threads that print the account bot's actions.

  \<^bold>\<open>State and its representation.\<close>
  A struct is a record, an enum a datatype, a map of the standard library a sorted list of pairs. Times and
  durations are numbers of nanoseconds or seconds as in the code, with the checked and saturating arithmetic
  written out. A fallible function returns \<open>error + 'a\<close>. An operation on \<open>&mut self\<close> returns the new
  state also when it fails, because the code keeps what it changed before the failure. Faults of the file system
  (a read, a truncation, a write that stops after any number of bytes) are inputs of an operation, so a theorem
  over all histories ranges over all faults. Tasks that run concurrently are interleaved at the points where the
  code awaits or takes a lock: the path lock, the token provider and the calls of several store handles.

  \<^bold>\<open>What the lemmas show.\<close>
  \<^item> The log: an append is read back, a torn write is repaired to the old or the new log, a handle's snapshot
    is what a reload gives, every call refines the abstract store, an attempt has one owner while its lease
    runs, a processed message is never started again, attempt ids are distinct in up to \<open>2^64\<close> calls.
  \<^item> The pollers: over a feed of messages a catch-up of several passes with errors in between delivers
    every new message once and in order, a pass keeps the invariants whatever the service answers, checkpoints
    restore a poller, refreshing and pruning lose no room, discovery lists every room once.
  \<^item> The bot: the event slots are settled exactly once, a message is not answered twice, the state file
    reloads as what was written, failed writes roll back; a late release ends another worker's attempt.
  \<^item> The front ends: what is sent is read back by the three parsers however the connection cuts it; only an
    authorized event reaches the handler.
  \<^item> The client: the token only goes to addresses below the base address, listings are collected
    completely, uploads are checked; refreshing the token is serial.
  \<^item> The tool: every command written out as arguments is parsed as itself, and executed with requests below
    the base address only; its token files are replaced whole or not at all, and lie apart from each other.
  \<^item> Spawned pollers: a receiver sees the new messages once each and in order.
  \<^item> The servers start on allowed addresses with sound settings, and stop at the number of events they were
    asked for.
  \<^item> The SQLite cache answers as the log; opening it, and reading or writing the smoke test's token cache,
    touches the user's own files only, whatever other processes do in between.
  \<^item> Restarts: the checkpoints in the log continue every room of the multi-room poller without loss or
    doubling, and the account bot does not answer again what its predecessor answered.

  \<^bold>\<open>Parameters and hypotheses.\<close>
  Code that is not in the repository is an argument: the JSON codec of a log record (hypotheses: it reads back
  what it wrote, writes no line break, and a proper prefix of a record is not a record), the JSON parser, the
  url library (joining a plain relative path to a directory stays below it, percent encoding yields plain
  characters), HMAC and base64, the date parser, the answers of the service, the clock, the file system a
  path is resolved in. Every property with such a hypothesis has a witness on a concrete instance, evaluated.

  \<^bold>\<open>Bounds and fuel.\<close>
  The loop over pages of a poll carries the bound of the code itself (\<open>max_pages_per_poll\<close>). Discovery and
  \<^const>\<open>collect_loop\<close>, which the service can keep running, take fuel and answer \<^const>\<open>None\<close> when it is
  used up; the properties show how much is enough for a listing of a given number of pages. Resolving
  symbolic links takes the bound of the code (40 links). Reading a request recurses over the list of reads.

  \<^bold>\<open>Not modelled.\<close>
  How rusqlite executes its statements (a statement is a function on the tables, a transaction that
  fails leaves them), the clocks and timers of tokio beyond the order of their ticks, the layout of log lines and
  what is printed beyond the values of a command, the branches for Windows, poisoned mutexes, and the
  derived serde code.
\<close>

section \<open>Properties that span components\<close>

text \<open>
  C7. A restart loses no message of a room and delivers none twice: when the checkpoints of a pass
  over all rooms have been saved in the state log, then after any later calls of any handles, with
  any faults, that save no other checkpoint of the room, the log can be loaded, and the poller that
  a new process makes from it when it discovers the room answers every sequence of passes as the
  old poller would have, for any answers of the service.
\<close>

theorem restart_resumes_rooms:
  assumes "multi_inv m" "distinct (map fst cs)"
    and "finish_poll errs (poll_rooms_concurrently cutoff cs m) m = (out, m')"
    and "store_inv env s" "save_call env h io (zip (mr_checkpoints out) ios) now s = (Inr (), s')"
    and "length ios = length (mr_checkpoints out)"
    and "c \<in> set (mr_checkpoints out)" "\<forall>k\<in>set ks. spares_room (rc_room_id c) k"
    and "room \<in> set rooms" "ro_id room = Some (rc_room_id c)"
    and "bm_get (mp_rooms m') (rc_room_id c) = Some e"
    and "po_room_id (en_poller e) = rc_room_id c" "po_config (en_poller e) = mc_room_polling cfg"
  shows "\<exists>snap f e'. load_at env no_faults later (sy_file (run_calls env s' ks)) = (Inr snap, f) \<and>
    bm_get (mp_rooms (snd (refresh_rooms t (Inr rooms) (restarted cfg snap)))) (rc_room_id c) = Some e' \<and>
    po_seen (en_poller e') = po_seen (en_poller e) \<and>
    (\<forall>srcs. pass_answers srcs (en_poller e') = pass_answers srcs (en_poller e))"
proof -
  note poller = pass_checkpoint_poller [OF assms(1-3)]
  have same: "\<forall>q\<in>set (mr_checkpoints out). rc_room_id q = rc_room_id c \<longrightarrow> q = c"
    using poller assms(7) by (metis option.inject)
  have e: "poller_inv (en_poller e)" "po_initialized (en_poller e)" "\<not> has_pending_backlog (en_poller e)"
    "c = checkpoint_from_seen (rc_room_id c) (po_seen (en_poller e))"
    using poller [OF assms(7)] assms(11) by auto
  have "map fst (zip (mr_checkpoints out) ios) = mr_checkpoints out" using assms(6) by simp
  with save_call_saved [OF assms(4,5), of c] assms(7) same have "room_saved env s' c" by simp
  from restart_poller [OF room_saved_run [OF this assms(8)] assms(10,9), of later t cfg] obtain snap f e' where
    new: "load_at env no_faults later (sy_file (run_calls env s' ks)) = (Inr snap, f)"
      "bm_get (mp_rooms (snd (refresh_rooms t (Inr rooms) (restarted cfg snap)))) (rc_room_id c) = Some e'"
      "en_poller e' = new_room_poller (mc_room_polling cfg) (rc_room_id c) (Some (rc_seen_message_ids c, rc_initialize_empty c))"
    by blast
  from resumed_poller [OF e assms(12,13)] new(3) have "same_poller (en_poller e') (en_poller e)" by simp
  with new(1,2) same_poller_answers same_poller_fields(3) show ?thesis by blast
qed

lemma restart_resumes_rooms_witness:
  "\<exists>s' snap f e'. save_call demo_env 0 no_faults [(demo_checkpoint, no_faults)] 3 demo_sys = (Inr (), s') \<and>
     load_at demo_env no_faults 9 (sy_file (run_calls demo_env s' [demo_begin 1 5])) = (Inr snap, f) \<and>
     bm_get (mp_rooms (snd (refresh_rooms 9 (Inr [demo_room ''r''])
       (restarted (multi_config_default\<lparr>mc_room_polling := po_config demo_poller\<rparr>) snap)))) ''r'' = Some e' \<and>
     sn_order (po_seen (en_poller e')) = [''a'', ''k'']"
proof -
  let ?run = "finish_poll [] (poll_rooms_concurrently 9 demo_completions demo_multi) demo_multi"
  let ?cfg = "multi_config_default\<lparr>mc_room_polling := po_config demo_poller\<rparr>"
  have run: "?run = (fst ?run, snd ?run)" by simp
  have id: "rc_room_id demo_checkpoint = ''r''" by (simp add: demo_checkpoint_def)
  have "trim ''r'' = ''r''" by (rule trim_ascii_id) (simp_all add: byte_def)
  then obtain s' where save: "save_call demo_env 0 no_faults [(demo_checkpoint, no_faults)] 3 demo_sys = (Inr (), s')"
    using save_call_ok [OF demo_inv, of "[(demo_checkpoint, no_faults)]" 0 3] by (auto simp: id no_faults_def)
  have "poll_room 9 (Some (single_source [demo_msg ''a''])) \<lparr>en_room = demo_room ''r'', en_poller = demo_poller\<rparr> =
      Some (Inr (commit_update [demo_msg ''a''] [''a'']))"
    by (simp add: poll_room_def demo_transaction)
  with finish_get [OF demo_pass(1) run demo_pass(2) demo_multi_get(1)] obtain u where
    e: "bm_get (mp_rooms (snd ?run)) ''r'' = Some \<lparr>en_room = demo_room ''r'', en_poller = apply_update u demo_poller\<rparr>"
    by (fastforce simp: outcome_update_def)
  have fields: "po_room_id (apply_update u demo_poller) = ''r''" "po_config (apply_update u demo_poller) = mc_room_polling ?cfg"
    by (simp_all add: apply_update_def demo_poller_def with_seen_message_ids_def reseed_seen_message_ids_def poller_new_def)
  have mine: "demo_checkpoint \<in> set (mr_checkpoints (fst ?run))" by (simp add: demo_pass_checkpoints)
  have "checkpoint_from_seen ''r'' (po_seen (apply_update u demo_poller)) = demo_checkpoint"
    using pass_checkpoint_poller [OF demo_multi_inv demo_pass(1) run mine] e id by auto
  then have "sn_order (po_seen (apply_update u demo_poller)) = rc_seen_message_ids demo_checkpoint"
    by (metis checkpoint_ids)
  also have "\<dots> = [''a'', ''k'']"
    using remember_new [of "[''a'']" "[''k'']" 10000]
    by (simp add: demo_checkpoint_def checkpoint_ids demo_seen) (simp add: demo_poller_def polling_config_default_def)
  finally have seen: "sn_order (po_seen (apply_update u demo_poller)) = [''a'', ''k'']" .
  have room: "ro_id (demo_room ''r'') = Some (rc_room_id demo_checkpoint)" by (simp add: demo_room_def id)
  have "\<exists>snap f e'. load_at demo_env no_faults 9 (sy_file (run_calls demo_env s' [demo_begin 1 5])) = (Inr snap, f) \<and>
      bm_get (mp_rooms (snd (refresh_rooms 9 (Inr [demo_room ''r'']) (restarted ?cfg snap)))) (rc_room_id demo_checkpoint) = Some e' \<and>
      po_seen (en_poller e') = po_seen (apply_update u demo_poller) \<and>
      (\<forall>srcs. pass_answers srcs (en_poller e') = pass_answers srcs (apply_update u demo_poller))"
    using restart_resumes_rooms [OF demo_multi_inv demo_pass(1) run demo_inv _ _ mine _ _ room, of 0 no_faults "[no_faults]" 3 s'
        "[demo_begin 1 5]" "[demo_room ''r'']" "\<lparr>en_room = demo_room ''r'', en_poller = apply_update u demo_poller\<rparr>" ?cfg 9 9]
      save e fields by (simp add: id demo_pass_checkpoints spares_room_def demo_begin_def)
  with save seen show ?thesis unfolding id by auto
qed



end
